(* ===== verification/Prelude.thy ===== *)
theory Prelude
  imports Main "HOL-Library.Word" "HOL-Library.Sublist"
begin

text \<open>
  Shared vocabulary of the development: the machine types of the Rust sources, the operations
  of Rust's \<^verbatim>\<open>str\<close>, \<^verbatim>\<open>slice\<close> and \<^verbatim>\<open>Option\<close> the modelled code calls, the lemma collections the
  component proofs draw on, and the interface locales several components implement.

  A Rust \<^verbatim>\<open>String\<close> is its UTF-8 bytes and HOL's \<^typ>\<open>char\<close> is a byte, so \<^typ>\<open>string\<close> is the byte
  sequence and \<open>length\<close> is \<^verbatim>\<open>str::len\<close>. A predicate such as \<^verbatim>\<open>is_ascii_digit\<close> asked of every
  \<^verbatim>\<open>char\<close> of a \<^verbatim>\<open>str\<close> has the same value asked of every byte: the bytes of a non-ASCII character
  are all at least 128 and fail every ASCII predicate, as the character does.
\<close>

section \<open>Machine types\<close>

type_synonym u8 = "8 word"
type_synonym u16 = "16 word"
type_synonym u32 = "32 word"
type_synonym u64 = "64 word"
type_synonym u128 = "128 word"
type_synonym i32 = "32 word"  \<comment> \<open>two's complement, read with \<open>sint\<close>\<close>
type_synonym f32 = "32 word"  \<comment> \<open>IEEE-754 bits, only ever copied\<close>
type_synonym uuid = "128 word"
type_synonym instant = nat  \<comment> \<open>a reading of the clock, in ticks\<close>
type_synonym datetime = int  \<comment> \<open>\<^verbatim>\<open>DateTime<Utc>\<close>, nanoseconds since the epoch\<close>
type_synonym bytes = "u8 list"

text \<open>The \<^verbatim>\<open>Duration\<close> constructors, in nanoseconds.\<close>

definition seconds :: "int \<Rightarrow> int" where
  "seconds n = n * 1000000000"

definition minutes :: "int \<Rightarrow> int" where
  "minutes n = seconds (n * 60)"

definition days :: "int \<Rightarrow> int" where
  "days n = seconds (n * 86400)"

section \<open>Lemma collections\<close>

named_theorems rust_str \<open>characteristic equations of the operations of \<^verbatim>\<open>str\<close>\<close>
named_theorems step_keeps \<open>one-step preservation facts of the component invariants\<close>
named_theorems codec \<open>round trips of the textual and binary encodings\<close>

section \<open>Characters and strings\<close>

definition is_ascii_lowercase :: "char \<Rightarrow> bool" where
  "is_ascii_lowercase c \<longleftrightarrow> 97 \<le> (of_char c :: nat) \<and> (of_char c :: nat) \<le> 122"

definition is_ascii_uppercase :: "char \<Rightarrow> bool" where
  "is_ascii_uppercase c \<longleftrightarrow> 65 \<le> (of_char c :: nat) \<and> (of_char c :: nat) \<le> 90"

definition is_ascii_digit :: "char \<Rightarrow> bool" where
  "is_ascii_digit c \<longleftrightarrow> 48 \<le> (of_char c :: nat) \<and> (of_char c :: nat) \<le> 57"

definition is_ascii_hexdigit :: "char \<Rightarrow> bool" where
  "is_ascii_hexdigit c \<longleftrightarrow> is_ascii_digit c
     \<or> (97 \<le> (of_char c :: nat) \<and> (of_char c :: nat) \<le> 102)
     \<or> (65 \<le> (of_char c :: nat) \<and> (of_char c :: nat) \<le> 70)"

definition is_ascii_alphanumeric :: "char \<Rightarrow> bool" where
  "is_ascii_alphanumeric c \<longleftrightarrow> is_ascii_lowercase c \<or> is_ascii_uppercase c \<or> is_ascii_digit c"

definition to_ascii_lowercase_char :: "char \<Rightarrow> char" where
  "to_ascii_lowercase_char c = (if is_ascii_uppercase c then char_of ((of_char c :: nat) + 32) else c)"

definition to_ascii_lowercase :: "string \<Rightarrow> string" where
  "to_ascii_lowercase s = map to_ascii_lowercase_char s"

definition eq_ignore_ascii_case :: "string \<Rightarrow> string \<Rightarrow> bool" where
  "eq_ignore_ascii_case s t \<longleftrightarrow> to_ascii_lowercase s = to_ascii_lowercase t"

definition starts_with :: "string \<Rightarrow> string \<Rightarrow> bool" where
  "starts_with s p \<longleftrightarrow> take (length p) s = p"

definition ends_with :: "string \<Rightarrow> string \<Rightarrow> bool" where
  "ends_with s p \<longleftrightarrow> length p \<le> length s \<and> drop (length s - length p) s = p"

definition strip_prefix :: "string \<Rightarrow> string \<Rightarrow> string option" where
  "strip_prefix s p = (if starts_with s p then Some (drop (length p) s) else None)"

definition strip_suffix :: "string \<Rightarrow> string \<Rightarrow> string option" where
  "strip_suffix s p = (if ends_with s p then Some (take (length s - length p) s) else None)"

text \<open>The order of \<^verbatim>\<open>str\<close>, byte by byte.\<close>

fun str_less :: "string \<Rightarrow> string \<Rightarrow> bool" where
  "str_less xs [] = False"
| "str_less [] (y # ys) = True"
| "str_less (x # xs) (y # ys) =
     ((of_char x :: nat) < of_char y \<or> x = y \<and> str_less xs ys)"

text \<open>Index \<open>i\<close> does not fall inside a multi-byte character: the byte there is no continuation byte.\<close>

definition is_char_boundary :: "string \<Rightarrow> nat \<Rightarrow> bool" where
  "is_char_boundary s i \<longleftrightarrow> i = 0 \<or> i = length s
     \<or> i < length s \<and> \<not> (128 \<le> (of_char (s ! i) :: nat) \<and> (of_char (s ! i) :: nat) < 192)"

fun str_contains :: "string \<Rightarrow> string \<Rightarrow> bool" where
  "str_contains [] p \<longleftrightarrow> p = []"
| "str_contains (c # s) p \<longleftrightarrow> starts_with (c # s) p \<or> str_contains s p"

fun str_split :: "char \<Rightarrow> string \<Rightarrow> string list" where
  "str_split d [] = [[]]"
| "str_split d (c # s) =
     (if c = d then [] # str_split d s
      else case str_split d s of [] \<Rightarrow> [[c]] | w # ws \<Rightarrow> (c # w) # ws)"

fun str_join :: "string \<Rightarrow> string list \<Rightarrow> string" where
  "str_join d [] = []"
| "str_join d [w] = w"
| "str_join d (w # ws) = w @ d @ str_join d ws"

fun show_nat :: "nat \<Rightarrow> string" where
  "show_nat n = (if n < 10 then [char_of (48 + n)] else show_nat (n div 10) @ [char_of (48 + n mod 10)])"

declare show_nat.simps [simp del]

text \<open>
  \<^verbatim>\<open>str::lines\<close>: the pieces that end in a line feed, without it and without a carriage return before
  it, and what is left after the last line feed if that is not empty.
\<close>

definition strip_cr :: "string \<Rightarrow> string" where
  "strip_cr l = (if l \<noteq> [] \<and> last l = CHR 0x0D then butlast l else l)"

definition str_lines :: "string \<Rightarrow> string list" where
  "str_lines s =
     (let ps = str_split CHR 0x0A s
      in map strip_cr (butlast ps) @ (if last ps = [] then [] else [last ps]))"

text \<open>
  \<^verbatim>\<open>str::find\<close>, the position of the first occurrence, and \<^verbatim>\<open>str::rfind\<close>, that of the last.
\<close>

fun str_find :: "string \<Rightarrow> string \<Rightarrow> nat option" where
  "str_find [] p = (if p = [] then Some 0 else None)"
| "str_find (c # s) p = (if starts_with (c # s) p then Some 0 else map_option Suc (str_find s p))"

fun rfind :: "string \<Rightarrow> string \<Rightarrow> nat option" where
  "rfind [] p = (if p = [] then Some 0 else None)"
| "rfind (c # s) p = (case rfind s p of
     Some i \<Rightarrow> Some (Suc i)
   | None \<Rightarrow> (if starts_with (c # s) p then Some 0 else None))"

text \<open>\<^verbatim>\<open>'x'\<close> in an error text.\<close>

definition quoted :: "string \<Rightarrow> string" where
  "quoted s = CHR 0x27 # s @ [CHR 0x27]"

section \<open>UTF-8\<close>

text \<open>
  One step of decoding as \<^verbatim>\<open>std::str\<close> does it: the length of the character at the front, or of the maximal
  invalid piece there, and whether it is a character. A byte past the end is read as 0.
\<close>

definition byte_at :: "string \<Rightarrow> nat \<Rightarrow> nat" where
  "byte_at s i = (if i < length s then of_char (s ! i) else 0)"

definition utf8_tail :: "nat \<Rightarrow> bool" where
  "utf8_tail b \<longleftrightarrow> 128 \<le> b \<and> b \<le> 191"

definition utf8_second :: "nat \<Rightarrow> nat \<Rightarrow> bool" where
  "utf8_second lead b \<longleftrightarrow>
     (let lo = (if lead = 224 then 160 else if lead = 240 then 144 else 128);
          hi = (if lead = 237 then 159 else if lead = 244 then 143 else 191)
      in lo \<le> b \<and> b \<le> hi)"

definition utf8_step :: "string \<Rightarrow> nat \<times> bool" where
  "utf8_step s =
     (let lead = byte_at s 0
      in if lead < 128 then (1, True)
         else if lead < 194 \<or> lead > 244 then (1, False)
         else if \<not> utf8_second lead (byte_at s 1) then (1, False)
         else if lead < 224 then (2, True)
         else if \<not> utf8_tail (byte_at s 2) then (2, False)
         else if lead < 240 then (3, True)
         else if \<not> utf8_tail (byte_at s 3) then (3, False)
         else (4, True))"

lemma utf8_step_pos: "0 < fst (utf8_step s)"
  by (simp add: utf8_step_def Let_def)

lemma utf8_step_shorter: "s \<noteq> [] \<Longrightarrow> (n, ok) = utf8_step s \<Longrightarrow> length (drop n s) < length s"
  using utf8_step_pos [of s] by (cases "utf8_step s") auto

text \<open>\<^verbatim>\<open>std::str::from_utf8\<close> succeeds, and \<^verbatim>\<open>String::from_utf8_lossy\<close> with U+FFFD for every invalid piece.\<close>

function utf8_valid :: "string \<Rightarrow> bool" where
  "utf8_valid s =
     (if s = [] then True
      else case utf8_step s of (n, ok) \<Rightarrow> ok \<and> utf8_valid (drop n s))"
  by pat_completeness auto
termination
  by (relation "measure length") (use utf8_step_shorter in auto)

function from_utf8_lossy :: "string \<Rightarrow> string" where
  "from_utf8_lossy s =
     (if s = [] then []
      else case utf8_step s of (n, ok) \<Rightarrow>
        (if ok then take n s else [CHR 0xEF, CHR 0xBF, CHR 0xBD]) @ from_utf8_lossy (drop n s))"
  by pat_completeness auto
termination
  by (relation "measure length") (use utf8_step_shorter in auto)

declare utf8_valid.simps [simp del] from_utf8_lossy.simps [simp del]

lemma from_utf8_lossy_valid: "utf8_valid s \<Longrightarrow> from_utf8_lossy s = s"
proof (induction s rule: utf8_valid.induct)
  case (1 s)
  then show ?case
    by (auto simp: from_utf8_lossy.simps [of s] utf8_valid.simps [of s] split: prod.splits if_splits)
qed

lemma utf8_valid_ascii: "list_all (\<lambda>c. (of_char c :: nat) < 128) s \<Longrightarrow> utf8_valid s"
  by (induction s) (simp_all add: utf8_valid.simps [of "_ # _"] utf8_valid.simps [of "[]"] utf8_step_def byte_at_def)

text \<open>\<^verbatim>\<open>str::trim\<close>: the encodings of the characters with the Unicode property \<^verbatim>\<open>White_Space\<close>.\<close>

definition white_spaces :: "string list" where
  "white_spaces = map (\<lambda>b. [char_of (b :: nat)]) [9, 10, 11, 12, 13, 32]
     @ map (map (char_of :: nat \<Rightarrow> char)) ([[194, 133], [194, 160], [225, 154, 128], [226, 128, 168], [226, 128, 169],
         [226, 128, 175], [226, 129, 159], [227, 128, 128]] @ map (\<lambda>b. [226, 128, b]) [128..<139])"

function trim_start :: "string \<Rightarrow> string" where
  "trim_start s = (case List.find (\<lambda>w. starts_with s w) white_spaces of
     None \<Rightarrow> s
   | Some w \<Rightarrow> if w = [] \<or> s = [] then s else trim_start (drop (length w) s))"
  by pat_completeness auto
termination
  by (relation "measure length") auto

function trim_end :: "string \<Rightarrow> string" where
  "trim_end s = (case List.find (\<lambda>w. ends_with s w) white_spaces of
     None \<Rightarrow> s
   | Some w \<Rightarrow> if w = [] \<or> s = [] then s else trim_end (take (length s - length w) s))"
  by pat_completeness auto
termination
  by (relation "measure length") auto

declare trim_start.simps [simp del] trim_end.simps [simp del]

definition str_trim :: "string \<Rightarrow> string" where
  "str_trim s = trim_end (trim_start s)"

lemma white_spaces_blank:
  "list_all (\<lambda>w. w \<noteq> [] \<and> \<not> (32 < (of_char (hd w) :: nat) \<and> (of_char (hd w) :: nat) < 127)
     \<and> \<not> (32 < (of_char (last w) :: nat) \<and> (of_char (last w) :: nat) < 127)) white_spaces"
  by (simp add: white_spaces_def list_all_iff)

lemma str_trim_graphic:
  assumes "list_all (\<lambda>c. 32 < (of_char c :: nat) \<and> (of_char c :: nat) < 127) s"
  shows "str_trim s = s"
proof -
  have edge: "\<not> starts_with s w \<and> \<not> ends_with s w" if "w \<in> set white_spaces" for w
  proof -
    have "w \<noteq> []" "hd w \<notin> set s" "last w \<notin> set s" using that white_spaces_blank assms by (auto simp: list_all_iff)
    moreover from \<open>w \<noteq> []\<close> have "hd w \<in> set w" "last w \<in> set w" by simp_all
    ultimately show ?thesis unfolding starts_with_def ends_with_def by (metis in_set_dropD in_set_takeD)
  qed
  have "List.find (\<lambda>w. starts_with s w) white_spaces = None" "List.find (\<lambda>w. ends_with s w) white_spaces = None"
    using edge by (auto simp: find_None_iff)
  then show ?thesis by (simp add: str_trim_def trim_start.simps [of s] trim_end.simps [of s])
qed

section \<open>Slices and options\<close>

fun position :: "('a \<Rightarrow> bool) \<Rightarrow> 'a list \<Rightarrow> nat option" where
  "position p [] = None"
| "position p (x # xs) = (if p x then Some 0 else map_option Suc (position p xs))"

definition remove_at :: "nat \<Rightarrow> 'a list \<Rightarrow> 'a list" where
  "remove_at i xs = take i xs @ drop (Suc i) xs"

definition unwrap_or :: "'a option \<Rightarrow> 'a \<Rightarrow> 'a" where
  "unwrap_or x d = (case x of None \<Rightarrow> d | Some v \<Rightarrow> v)"

definition is_some :: "'a option \<Rightarrow> bool" where
  "is_some x \<longleftrightarrow> x \<noteq> None"

definition saturating_sub :: "nat \<Rightarrow> nat \<Rightarrow> nat" where
  "saturating_sub a b = (if a < b then 0 else a - b)"

section \<open>Facts about strings\<close>

lemma starts_with_iff_prefix [rust_str]: "starts_with s p \<longleftrightarrow> prefix p s"
  unfolding starts_with_def by (metis prefix_def take_is_prefix append_eq_conv_conj)

lemma ends_with_iff_suffix [rust_str]: "ends_with s p \<longleftrightarrow> suffix p s"
proof
  assume "ends_with s p"
  then have "s = take (length s - length p) s @ p"
    unfolding ends_with_def by (metis append_take_drop_id)
  then show "suffix p s" by (metis suffix_def)
next
  assume "suffix p s"
  then show "ends_with s p" by (auto simp: suffix_def ends_with_def)
qed

lemma strip_prefix_Some [rust_str]: "strip_prefix s p = Some r \<longleftrightarrow> s = p @ r"
  by (auto simp: strip_prefix_def starts_with_iff_prefix prefix_def)

lemma strip_prefix_None [rust_str]: "strip_prefix s p = None \<longleftrightarrow> \<not> prefix p s"
  by (simp add: strip_prefix_def starts_with_iff_prefix)

lemma strip_suffix_Some [rust_str]: "strip_suffix s p = Some r \<longleftrightarrow> s = r @ p"
  by (auto simp: strip_suffix_def ends_with_iff_suffix suffix_def)

lemma strip_suffix_None [rust_str]: "strip_suffix s p = None \<longleftrightarrow> \<not> suffix p s"
  by (simp add: strip_suffix_def ends_with_iff_suffix)

lemma str_contains_iff_sublist [rust_str]: "str_contains s p \<longleftrightarrow> sublist p s"
  by (induction s) (auto simp: sublist_Cons_right starts_with_iff_prefix)

lemma str_find_bound: "str_find s p = Some k \<Longrightarrow> k + length p \<le> length s"
  by (induction s arbitrary: k) (auto simp: starts_with_iff_prefix dest: prefix_length_le split: if_splits)

lemma str_find_shorter: "str_find s p = Some k \<Longrightarrow> p \<noteq> [] \<Longrightarrow> length s - (k + length p) < length s"
  using str_find_bound [of s p k] by (cases p) auto

lemma eq_ignore_ascii_case_refl [simp]: "eq_ignore_ascii_case s s"
  by (simp add: eq_ignore_ascii_case_def)

lemma eq_ignore_ascii_case_sym: "eq_ignore_ascii_case s t \<longleftrightarrow> eq_ignore_ascii_case t s"
  by (auto simp: eq_ignore_ascii_case_def)

lemma str_split_neq_Nil [simp]: "str_split d s \<noteq> []"
  by (induction s) (auto split: list.splits)

lemma str_join_Cons: "ws \<noteq> [] \<Longrightarrow> str_join d (w # ws) = w @ d @ str_join d ws"
  by (cases ws) auto

lemma join_str_split [codec]: "str_join [d] (str_split d s) = s"
proof (induction s)
  case (Cons c s)
  obtain w ws where w: "str_split d s = w # ws" by (cases "str_split d s") auto
  with Cons show ?case by (cases ws) (auto simp: str_join_Cons)
qed simp

lemma str_split_word: "d \<notin> set w \<Longrightarrow> str_split d w = [w]"
  by (induction w) auto

lemma str_split_append: "d \<notin> set w \<Longrightarrow> str_split d (w @ d # s) = w # str_split d s"
  by (induction w) auto

lemma str_split_snoc: "str_split d (s @ [d]) = str_split d s @ [[]]"
proof (induction s)
  case (Cons c s)
  obtain w ws where "str_split d s = w # ws" by (cases "str_split d s") auto
  with Cons show ?case by simp
qed simp

lemma str_split_words: "w \<in> set (str_split d s) \<Longrightarrow> d \<notin> set w"
proof (induction s arbitrary: w)
  case (Cons c s)
  then show ?case by (cases "str_split d s") (auto split: if_splits)
qed simp

lemma str_split_join [codec]:
  "ws \<noteq> [] \<Longrightarrow> (\<And>w. w \<in> set ws \<Longrightarrow> d \<notin> set w) \<Longrightarrow> str_split d (str_join [d] ws) = ws"
proof (induction ws rule: list_nonempty_induct)
  case (cons x xs)
  then show ?case by (simp add: str_join_Cons str_split_append)
qed (simp add: str_split_word)

section \<open>Facts about slices\<close>

lemma position_Some:
  "position p xs = Some i \<longleftrightarrow> i < length xs \<and> p (xs ! i) \<and> (\<forall>j < i. \<not> p (xs ! j))"
proof (induction xs arbitrary: i)
  case (Cons x xs)
  then show ?case by (cases i) (auto simp: less_Suc_eq_0_disj)
qed simp

lemma position_None: "position p xs = None \<longleftrightarrow> (\<forall>x \<in> set xs. \<not> p x)"
  by (induction xs) auto

lemma length_remove_at [simp]: "i < length xs \<Longrightarrow> length (remove_at i xs) = length xs - 1"
  by (simp add: remove_at_def)

lemma remove_at_map: "remove_at i (map f xs) = map f (remove_at i xs)"
  by (simp add: remove_at_def take_map drop_map)

lemma set_remove_at_subset: "set (remove_at i xs) \<subseteq> set xs"
  by (auto simp: remove_at_def dest: in_set_takeD in_set_dropD)

lemma saturating_sub_nat [simp]: "saturating_sub a b = a - b"
  by (simp add: saturating_sub_def)

lemma find_Some_set: "List.find p xs = Some x \<Longrightarrow> x \<in> set xs \<and> p x"
  by (auto simp: find_Some_iff)

section \<open>Facts about words\<close>

lemma unat_u32_bound: "unat (x :: u32) < 2 ^ 32"
  using unsigned_less [of x, where 'a = nat] by simp

lemma unat_of_nat_u32: "n < 2 ^ 32 \<Longrightarrow> unat (of_nat n :: u32) = n"
  by (simp add: unsigned_of_nat take_bit_nat_eq_self)

section \<open>Interface: a component driven by a sequence of events\<close>

text \<open>
  The stateful components are driven by calls one after the other. \<open>step\<close> is one call, \<open>inv\<close>
  what the component keeps true between calls; \<open>run\<close> is any sequence of calls, and the laws of
  one step lift to every run.
\<close>

locale event_driven =
  fixes step :: "'s \<Rightarrow> 'e \<Rightarrow> 's"
    and inv :: "'s \<Rightarrow> bool"
  assumes step_inv: "inv s \<Longrightarrow> inv (step s e)"
begin

lemma run_inv: "inv s \<Longrightarrow> inv (foldl step s es)"
  by (induction es arbitrary: s) (auto intro: step_inv)

lemma run_keeps:
  assumes start: "inv s" and refl: "\<And>s. R s s"
    and step: "\<And>s e u. inv s \<Longrightarrow> R u s \<Longrightarrow> R u (step s e)"
  shows "R s (foldl step s es)"
proof -
  have "inv t \<Longrightarrow> R u t \<Longrightarrow> R u (foldl step t es)" for u t
    by (induction es arbitrary: t) (auto intro: step_inv step)
  then show ?thesis using start refl by blast
qed

end

section \<open>Interface: the textual form of an enumeration\<close>

text \<open>
  Many enumerations of the sources have a \<^verbatim>\<open>Display\<close> or \<^verbatim>\<open>as_str\<close> form, stored in the database
  or sent over the wire, and a \<^verbatim>\<open>FromStr\<close> that reads it back.
\<close>

locale text_codec =
  fixes show_enum :: "'a \<Rightarrow> string"
    and read_enum :: "string \<Rightarrow> 'a option"
  assumes read_show: "read_enum (show_enum x) = Some x"
    and read_Some: "read_enum s = Some x \<Longrightarrow> s = show_enum x"
begin

lemma show_inj: "show_enum x = show_enum y \<longleftrightarrow> x = y"
  by (metis read_show option.inject)

lemma read_iff: "read_enum s = Some x \<longleftrightarrow> s = show_enum x"
  using read_show read_Some by blast

lemma read_fails_iff: "read_enum s = None \<longleftrightarrow> s \<notin> range show_enum"
  by (cases "read_enum s") (auto simp: read_show dest: read_Some)

end

end
