(* ===== verification/Agent.thy ===== *)
theory Agent
  imports Prelude
begin

text \<open>
  The conversation agent of \<^verbatim>\<open>crates/loom-common-core\<close>: messages, LLM requests and events, the
  state machine of \<^verbatim>\<open>state.rs\<close> and its event handler of \<^verbatim>\<open>agent.rs\<close>.

  \<^verbatim>\<open>serde_json::Value\<close> is the type parameter \<open>'j\<close> and \<^verbatim>\<open>serde_json::to_string\<close> the parameter \<open>js\<close>
  of the handler (\<open>None\<close> for its error). \<^verbatim>\<open>Instant::now()\<close> is the parameter \<open>clk\<close>: reading number
  \<open>k\<close> of the clock within one call of the handler is \<open>clk k\<close>. Logging is left out, and so is the
  field \<^verbatim>\<open>llm\<close> of \<^verbatim>\<open>Agent\<close>, which no method of \<^verbatim>\<open>agent.rs\<close> reads. The counter \<^verbatim>\<open>retries\<close> is a 32-bit
  word, so its increment wraps unless the invariant below excludes that.
\<close>

section \<open>Messages and tools\<close>

datatype role = RSystem | RUser | RAssistant | RTool

record 'j tool_call =
  tc_id :: string
  tc_tool_name :: string
  tc_arguments_json :: 'j

record 'j message =
  msg_role :: role
  msg_content :: string
  msg_tool_call_id :: "string option"
  msg_name :: "string option"
  msg_tool_calls :: "'j tool_call list"

definition message_system :: "string \<Rightarrow> 'j message" where
  "message_system c = \<lparr>msg_role = RSystem, msg_content = c, msg_tool_call_id = None,
     msg_name = None, msg_tool_calls = []\<rparr>"

definition message_user :: "string \<Rightarrow> 'j message" where
  "message_user c = \<lparr>msg_role = RUser, msg_content = c, msg_tool_call_id = None,
     msg_name = None, msg_tool_calls = []\<rparr>"

definition message_assistant :: "string \<Rightarrow> 'j message" where
  "message_assistant c = \<lparr>msg_role = RAssistant, msg_content = c, msg_tool_call_id = None,
     msg_name = None, msg_tool_calls = []\<rparr>"

definition message_assistant_with_tool_calls :: "string \<Rightarrow> 'j tool_call list \<Rightarrow> 'j message" where
  "message_assistant_with_tool_calls c tcs = \<lparr>msg_role = RAssistant, msg_content = c,
     msg_tool_call_id = None, msg_name = None, msg_tool_calls = tcs\<rparr>"

definition message_tool :: "string \<Rightarrow> string \<Rightarrow> string \<Rightarrow> 'j message" where
  "message_tool cid n c = \<lparr>msg_role = RTool, msg_content = c, msg_tool_call_id = Some cid,
     msg_name = Some n, msg_tool_calls = []\<rparr>"

record 'j tool_definition =
  td_name :: string
  td_description :: string
  td_input_schema :: 'j

section \<open>Errors and their texts\<close>

datatype llm_error =
  LlmHttp string | LlmApi string | LlmTimeout | LlmInvalidResponse string
| LlmRateLimited "u64 option"

datatype tool_error =
  ToolNotFound string | ToolInvalidArguments string | ToolIo string | ToolTimeout
| ToolInternal string | ToolTargetNotFound string | ToolPathOutsideWorkspace string
| ToolFileNotFound string | ToolSerialization string

datatype agent_error =
  AgentLlm llm_error | AgentTool tool_error | AgentInvalidState string
| AgentIo string | AgentTimeout string | AgentInternal string

fun show_debug_u64 :: "u64 option \<Rightarrow> string" where
  "show_debug_u64 None = ''None''"
| "show_debug_u64 (Some n) = ''Some('' @ show_nat (unat n) @ '')''"

fun show_llm_error :: "llm_error \<Rightarrow> string" where
  "show_llm_error (LlmHttp s) = ''HTTP error: '' @ s"
| "show_llm_error (LlmApi s) = ''API error: '' @ s"
| "show_llm_error LlmTimeout = ''Request timed out''"
| "show_llm_error (LlmInvalidResponse s) = ''Invalid response: '' @ s"
| "show_llm_error (LlmRateLimited r) = ''Rate limited: retry after '' @ show_debug_u64 r @ '' seconds''"

fun show_tool_error :: "tool_error \<Rightarrow> string" where
  "show_tool_error (ToolNotFound s) = ''Tool not found: '' @ s"
| "show_tool_error (ToolInvalidArguments s) = ''Invalid arguments: '' @ s"
| "show_tool_error (ToolIo s) = ''IO error: '' @ s"
| "show_tool_error ToolTimeout = ''Tool execution timed out''"
| "show_tool_error (ToolInternal s) = ''Internal error: '' @ s"
| "show_tool_error (ToolTargetNotFound s) = ''Target not found: '' @ s"
| "show_tool_error (ToolPathOutsideWorkspace s) = ''Path outside workspace: '' @ s"
| "show_tool_error (ToolFileNotFound s) = ''File not found: '' @ s"
| "show_tool_error (ToolSerialization s) = ''Serialization error: '' @ s"

fun show_agent_error :: "agent_error \<Rightarrow> string" where
  "show_agent_error (AgentLlm e) = ''LLM error: '' @ show_llm_error e"
| "show_agent_error (AgentTool e) = ''Tool error: '' @ show_tool_error e"
| "show_agent_error (AgentInvalidState s) = ''Invalid state: '' @ s"
| "show_agent_error (AgentIo s) = ''IO error: '' @ s"
| "show_agent_error (AgentTimeout s) = ''Operation timed out: '' @ s"
| "show_agent_error (AgentInternal s) = ''Internal error: '' @ s"

section \<open>LLM requests, responses and events\<close>

record 'j llm_request =
  req_model :: string
  req_messages :: "'j message list"
  req_tools :: "'j tool_definition list"
  req_max_tokens :: "u32 option"
  req_temperature :: "f32 option"

definition llm_request_new :: "string \<Rightarrow> 'j llm_request" where
  "llm_request_new m = \<lparr>req_model = m, req_messages = [], req_tools = [],
     req_max_tokens = None, req_temperature = None\<rparr>"

record usage =
  usage_input_tokens :: u32
  usage_output_tokens :: u32

record 'j llm_response =
  resp_message :: "'j message"
  resp_tool_calls :: "'j tool_call list"
  resp_usage :: "usage option"
  resp_finish_reason :: "string option"

datatype 'j llm_event =
  TextDelta string
| ToolCallDelta string string string
| LlmCompleted "'j llm_response"
| LlmFailed llm_error

section \<open>Tool executions, the agent's states and events\<close>

record tool_progress =
  tp_fraction :: "f32 option"
  tp_message :: "string option"
  tp_units_processed :: "u64 option"

datatype 'j tool_execution_outcome =
  OutcomeSuccess (outcome_call_id: string) 'j
| OutcomeError (outcome_call_id: string) tool_error

datatype 'j tool_execution_status =
  Pending string string instant
| Running string string instant instant "tool_progress option"
| Completed string string instant instant "'j tool_execution_outcome"

fun call_id :: "'j tool_execution_status \<Rightarrow> string" where
  "call_id (Pending c n t) = c"
| "call_id (Running c n t u p) = c"
| "call_id (Completed c n t u r) = c"

fun tool_name :: "'j tool_execution_status \<Rightarrow> string" where
  "tool_name (Pending c n t) = n"
| "tool_name (Running c n t u p) = n"
| "tool_name (Completed c n t u r) = n"

fun is_completed :: "'j tool_execution_status \<Rightarrow> bool" where
  "is_completed (Completed c n t u r) = True"
| "is_completed _ = False"

record tool_progress_event =
  tpe_call_id :: string
  tpe_progress :: tool_progress

record 'j conversation_context =
  conv_id :: uuid
  conv_messages :: "'j message list"

definition conversation_with_id :: "uuid \<Rightarrow> 'j conversation_context" where
  "conversation_with_id i = \<lparr>conv_id = i, conv_messages = []\<rparr>"

datatype error_origin = OriginLlm | OriginTool | OriginIo

datatype 'j agent_event =
  UserInput "'j message"
| LlmEvent "'j llm_event"
| ToolProgress tool_progress_event
| ToolCompleted string "'j tool_execution_outcome"
| PostToolsHookCompleted bool
| RetryTimeoutFired
| ShutdownRequested

record completed_tool_info =
  cti_tool_name :: string
  cti_succeeded :: bool

datatype 'j agent_state =
  WaitingForUserInput "'j conversation_context"
| CallingLlm "'j conversation_context" u32
| ProcessingLlmResponse "'j conversation_context" "'j llm_response"
| ExecutingTools "'j conversation_context" "'j tool_execution_status list"
| PostToolsHook "'j conversation_context" "'j llm_request" "completed_tool_info list"
| ErrorState "'j conversation_context" agent_error u32 error_origin
| ShuttingDown

fun state_name :: "'j agent_state \<Rightarrow> string" where
  "state_name (WaitingForUserInput _) = ''WaitingForUserInput''"
| "state_name (CallingLlm _ _) = ''CallingLlm''"
| "state_name (ProcessingLlmResponse _ _) = ''ProcessingLlmResponse''"
| "state_name (ExecutingTools _ _) = ''ExecutingTools''"
| "state_name (PostToolsHook _ _ _) = ''PostToolsHook''"
| "state_name (ErrorState _ _ _ _) = ''Error''"
| "state_name ShuttingDown = ''ShuttingDown''"

datatype 'j agent_action =
  SendLlmRequest "'j llm_request"
| ExecuteTools "'j tool_call list"
| RunPostToolsHook "completed_tool_info list"
| WaitForInput
| DisplayMessage string
| DisplayError string
| Shutdown

record agent_config =
  cfg_model_name :: string
  cfg_max_retries :: u32
  cfg_tool_timeout :: nat
  cfg_llm_timeout :: nat
  cfg_max_tokens :: u32
  cfg_temperature :: "f32 option"

definition agent_config_default :: agent_config where
  "agent_config_default = \<lparr>cfg_model_name = ''claude-opus-4-20250514'', cfg_max_retries = 3,
     cfg_tool_timeout = 30, cfg_llm_timeout = 120, cfg_max_tokens = 4096, cfg_temperature = None\<rparr>"

record 'j agent =
  ag_state :: "'j agent_state"
  ag_config :: agent_config
  ag_tools :: "'j tool_definition list"

section \<open>The methods of the agent\<close>

fun is_success :: "'j tool_execution_outcome \<Rightarrow> bool" where
  "is_success (OutcomeSuccess c v) = True"
| "is_success (OutcomeError c e) = False"

definition mutating_tools :: "string list" where
  "mutating_tools = [''edit_file'', ''bash'']"

definition has_mutating_tools :: "'j tool_execution_status list \<Rightarrow> bool" where
  "has_mutating_tools es = list_ex (\<lambda>x. case x of
     Completed c n t u r \<Rightarrow> n \<in> set mutating_tools \<and> is_success r
   | _ \<Rightarrow> False) es"

definition extract_completed_tools :: "'j tool_execution_status list \<Rightarrow> completed_tool_info list" where
  "extract_completed_tools es = List.map_filter (\<lambda>x. case x of
     Completed c n t u r \<Rightarrow> Some \<lparr>cti_tool_name = n, cti_succeeded = is_success r\<rparr>
   | _ \<Rightarrow> None) es"

definition agent_new :: "uuid \<Rightarrow> agent_config \<Rightarrow> 'j tool_definition list \<Rightarrow> 'j agent" where
  "agent_new i cfg tools = \<lparr>ag_state = WaitingForUserInput (conversation_with_id i),
     ag_config = cfg, ag_tools = tools\<rparr>"

text \<open>\<^verbatim>\<open>conversation()\<close> panics in \<^verbatim>\<open>ShuttingDown\<close>; a panic is \<open>None\<close>.\<close>

fun conversation :: "'j agent_state \<Rightarrow> 'j conversation_context option" where
  "conversation (WaitingForUserInput c) = Some c"
| "conversation (CallingLlm c _) = Some c"
| "conversation (ProcessingLlmResponse c _) = Some c"
| "conversation (ExecutingTools c _) = Some c"
| "conversation (PostToolsHook c _ _) = Some c"
| "conversation (ErrorState c _ _ _) = Some c"
| "conversation ShuttingDown = None"

definition request_for ::
  "agent_config \<Rightarrow> 'j tool_definition list \<Rightarrow> 'j conversation_context \<Rightarrow> 'j llm_request" where
  "request_for cfg tools c = \<lparr>req_model = cfg_model_name cfg, req_messages = conv_messages c,
     req_tools = tools, req_max_tokens = Some (cfg_max_tokens cfg),
     req_temperature = cfg_temperature cfg\<rparr>"

definition build_llm_request :: "'j agent \<Rightarrow> 'j llm_request option" where
  "build_llm_request a = map_option (request_for (ag_config a) (ag_tools a)) (conversation (ag_state a))"

definition push_message :: "'j conversation_context \<Rightarrow> 'j message \<Rightarrow> 'j conversation_context" where
  "push_message c m = c\<lparr>conv_messages := conv_messages c @ [m]\<rparr>"

text \<open>\<^verbatim>\<open>get_conversation_mut().messages.push(msg)\<close>: the push goes to the context inside the state.\<close>

fun append_message :: "'j agent_state \<Rightarrow> 'j message \<Rightarrow> 'j agent_state option" where
  "append_message (WaitingForUserInput c) m = Some (WaitingForUserInput (push_message c m))"
| "append_message (CallingLlm c r) m = Some (CallingLlm (push_message c m) r)"
| "append_message (ProcessingLlmResponse c r) m = Some (ProcessingLlmResponse (push_message c m) r)"
| "append_message (ExecutingTools c es) m = Some (ExecutingTools (push_message c m) es)"
| "append_message (PostToolsHook c q ts) m = Some (PostToolsHook (push_message c m) q ts)"
| "append_message (ErrorState c e r og) m = Some (ErrorState (push_message c m) e r og)"
| "append_message ShuttingDown m = None"

text \<open>The loop of \<^verbatim>\<open>ToolCompleted\<close>: each matching execution reads the clock twice.\<close>

fun mark_completed ::
  "(nat \<Rightarrow> instant) \<Rightarrow> nat \<Rightarrow> string \<Rightarrow> 'j tool_execution_outcome
    \<Rightarrow> 'j tool_execution_status list \<Rightarrow> 'j tool_execution_status list" where
  "mark_completed clk k cid out [] = []"
| "mark_completed clk k cid out (x # xs) =
     (if call_id x = cid
      then Completed cid (tool_name x) (clk k) (clk (k + 1)) out # mark_completed clk (k + 2) cid out xs
      else x # mark_completed clk k cid out xs)"

fun outcome_content :: "('j \<Rightarrow> string option) \<Rightarrow> 'j tool_execution_outcome \<Rightarrow> string" where
  "outcome_content js (OutcomeSuccess c v) = unwrap_or (js v) ''{}''"
| "outcome_content js (OutcomeError c e) = ''Error: '' @ show_tool_error e"

definition tool_result_message :: "('j \<Rightarrow> string option) \<Rightarrow> string \<Rightarrow> 'j tool_execution_outcome \<Rightarrow> 'j message" where
  "tool_result_message js cid out = \<lparr>msg_role = RTool, msg_content = outcome_content js out,
     msg_tool_call_id = Some cid, msg_name = None, msg_tool_calls = []\<rparr>"

definition tool_messages :: "('j \<Rightarrow> string option) \<Rightarrow> 'j tool_execution_status list \<Rightarrow> 'j message list" where
  "tool_messages js es = List.map_filter (\<lambda>x. case x of
     Completed c n t u r \<Rightarrow> Some (tool_result_message js c r) | _ \<Rightarrow> None) es"

fun pending_executions :: "(nat \<Rightarrow> instant) \<Rightarrow> nat \<Rightarrow> 'j tool_call list \<Rightarrow> 'j tool_execution_status list" where
  "pending_executions clk k [] = []"
| "pending_executions clk k (tc # tcs) =
     Pending (tc_id tc) (tc_tool_name tc) (clk k) # pending_executions clk (Suc k) tcs"

fun process_llm_response :: "(nat \<Rightarrow> instant) \<Rightarrow> 'j agent_state \<Rightarrow> 'j agent_state \<times> 'j agent_action" where
  "process_llm_response clk (ProcessingLlmResponse c r) =
     (if resp_tool_calls r \<noteq> []
      then (ExecutingTools c (pending_executions clk 0 (resp_tool_calls r)), ExecuteTools (resp_tool_calls r))
      else (WaitingForUserInput c, WaitForInput))"
| "process_llm_response clk s = (s, WaitForInput)"

text \<open>What the last \<^verbatim>\<open>ToolCompleted\<close> does once every execution is completed.\<close>

definition finish_tools ::
  "agent_config \<Rightarrow> 'j tool_definition list \<Rightarrow> ('j \<Rightarrow> string option) \<Rightarrow> 'j conversation_context
    \<Rightarrow> 'j tool_execution_status list \<Rightarrow> 'j agent_state \<times> 'j agent_action" where
  "finish_tools cfg tools js c es =
     (let c' = c\<lparr>conv_messages := conv_messages c @ tool_messages js es\<rparr>
      in if has_mutating_tools es
         then (PostToolsHook c' (request_for cfg tools c') (extract_completed_tools es),
               RunPostToolsHook (extract_completed_tools es))
         else (CallingLlm c' 0, SendLlmRequest (request_for cfg tools c')))"

text \<open>
  The match of \<^verbatim>\<open>handle_event\<close> on the state and the event, arm by arm and in its order: the
  equation for \<^verbatim>\<open>ShutdownRequested\<close> and the final one take every pair the arms before them do not.
\<close>

definition step_state ::
  "agent_config \<Rightarrow> 'j tool_definition list \<Rightarrow> ('j \<Rightarrow> string option) \<Rightarrow> (nat \<Rightarrow> instant)
    \<Rightarrow> 'j agent_state \<Rightarrow> 'j agent_event \<Rightarrow> 'j agent_state \<times> 'j agent_action" where
  "step_state cfg tools js clk s ev = (case (s, ev) of
     (WaitingForUserInput c, UserInput m) \<Rightarrow>
       (let c' = push_message c m
        in (CallingLlm c' 0, SendLlmRequest (request_for cfg tools c')))
   | (CallingLlm c r, LlmEvent (TextDelta t)) \<Rightarrow> (s, DisplayMessage t)
   | (CallingLlm c r, LlmEvent (ToolCallDelta i n f)) \<Rightarrow> (s, WaitForInput)
   | (CallingLlm c r, LlmEvent (LlmCompleted resp)) \<Rightarrow>
       process_llm_response clk (ProcessingLlmResponse (push_message c (resp_message resp)) resp)
   | (CallingLlm c r, LlmEvent (LlmFailed e)) \<Rightarrow>
       (let r' = r + 1
        in if r' < cfg_max_retries cfg
           then (ErrorState c (AgentLlm e) r' OriginLlm, WaitForInput)
           else (WaitingForUserInput c, DisplayError (show_agent_error (AgentLlm e))))
   | (ErrorState c e r OriginLlm, RetryTimeoutFired) \<Rightarrow>
       (CallingLlm c r, SendLlmRequest (request_for cfg tools c))
   | (ExecutingTools c es, ToolCompleted cid out) \<Rightarrow>
       (let es' = mark_completed clk 0 cid out es
        in if list_all is_completed es'
           then finish_tools cfg tools js c es'
           else (ExecutingTools c es', WaitForInput))
   | (PostToolsHook c req ts, PostToolsHookCompleted b) \<Rightarrow> (CallingLlm c 0, SendLlmRequest req)
   | (_, ShutdownRequested) \<Rightarrow> (ShuttingDown, Shutdown)
   | _ \<Rightarrow> (s, WaitForInput))"

text \<open>\<^verbatim>\<open>handle_event\<close> always returns \<^verbatim>\<open>Ok(action)\<close>.\<close>

definition handle_event ::
  "('j \<Rightarrow> string option) \<Rightarrow> (nat \<Rightarrow> instant) \<Rightarrow> 'j agent \<Rightarrow> 'j agent_event
    \<Rightarrow> 'j agent \<times> (agent_error + 'j agent_action)" where
  "handle_event js clk a ev =
     (let (s, act) = step_state (ag_config a) (ag_tools a) js clk (ag_state a) ev
      in (a\<lparr>ag_state := s\<rparr>, Inr act))"

text \<open>A caller drives the agent with one clock per call: the state after a list of such calls.\<close>

definition agent_step ::
  "('j \<Rightarrow> string option) \<Rightarrow> 'j agent \<Rightarrow> (nat \<Rightarrow> instant) \<times> 'j agent_event \<Rightarrow> 'j agent" where
  "agent_step js a ce = fst (handle_event js (fst ce) a (snd ce))"

definition agent_run ::
  "('j \<Rightarrow> string option) \<Rightarrow> 'j agent \<Rightarrow> ((nat \<Rightarrow> instant) \<times> 'j agent_event) list \<Rightarrow> 'j agent" where
  "agent_run js = foldl (agent_step js)"

section \<open>The arms of the handler\<close>

text \<open>One equation per arm, so that the proofs below never unfold the whole match.\<close>

lemma step_waiting_user_input:
  "step_state cfg tools js clk (WaitingForUserInput c) (UserInput m) =
     (CallingLlm (push_message c m) 0, SendLlmRequest (request_for cfg tools (push_message c m)))"
  by (simp add: step_state_def Let_def)

lemma step_calling_text:
  "step_state cfg tools js clk (CallingLlm c r) (LlmEvent (TextDelta t)) = (CallingLlm c r, DisplayMessage t)"
  by (simp add: step_state_def)

lemma step_calling_completed:
  "step_state cfg tools js clk (CallingLlm c r) (LlmEvent (LlmCompleted resp)) =
     (let c' = push_message c (resp_message resp)
      in if resp_tool_calls resp \<noteq> []
         then (ExecutingTools c' (pending_executions clk 0 (resp_tool_calls resp)),
               ExecuteTools (resp_tool_calls resp))
         else (WaitingForUserInput c', WaitForInput))"
  by (simp add: step_state_def Let_def)

lemma step_calling_failed:
  "step_state cfg tools js clk (CallingLlm c r) (LlmEvent (LlmFailed e)) =
     (if r + 1 < cfg_max_retries cfg
      then (ErrorState c (AgentLlm e) (r + 1) OriginLlm, WaitForInput)
      else (WaitingForUserInput c, DisplayError (show_agent_error (AgentLlm e))))"
  by (simp add: step_state_def Let_def)

lemma step_error_retry:
  "step_state cfg tools js clk (ErrorState c e r OriginLlm) RetryTimeoutFired =
     (CallingLlm c r, SendLlmRequest (request_for cfg tools c))"
  by (simp add: step_state_def)

lemma step_executing_completed:
  "step_state cfg tools js clk (ExecutingTools c es) (ToolCompleted cid out) =
     (if list_all is_completed (mark_completed clk 0 cid out es)
      then finish_tools cfg tools js c (mark_completed clk 0 cid out es)
      else (ExecutingTools c (mark_completed clk 0 cid out es), WaitForInput))"
  by (simp add: step_state_def finish_tools_def Let_def)

lemma step_hook_completed:
  "step_state cfg tools js clk (PostToolsHook c req ts) (PostToolsHookCompleted b) =
     (CallingLlm c 0, SendLlmRequest req)"
  by (simp add: step_state_def)

lemma step_shutdown: "step_state cfg tools js clk s ShutdownRequested = (ShuttingDown, Shutdown)"
  by (cases s) (simp_all add: step_state_def split: error_origin.splits)

lemma step_shutting_down:
  "ev \<noteq> ShutdownRequested \<Longrightarrow> step_state cfg tools js clk ShuttingDown ev = (ShuttingDown, WaitForInput)"
  by (cases ev) (simp_all add: step_state_def)

lemmas step_arms = step_waiting_user_input step_calling_text step_calling_completed
  step_calling_failed step_error_retry step_executing_completed step_hook_completed step_shutdown

text \<open>
  The case analysis of one step: either one of the arms above applies or the state is unchanged
  and the caller is told to wait or to show text.
\<close>

lemma step_state_cases [case_names user llm_done llm_failed retry tool hook shutdown idle]:
  assumes "step_state cfg tools js clk s ev = (s', act)"
  obtains
    (user) c m where "s = WaitingForUserInput c" "ev = UserInput m"
      "s' = CallingLlm (push_message c m) 0"
      "act = SendLlmRequest (request_for cfg tools (push_message c m))"
  | (llm_done) c r resp where "s = CallingLlm c r" "ev = LlmEvent (LlmCompleted resp)"
  | (llm_failed) c r e where "s = CallingLlm c r" "ev = LlmEvent (LlmFailed e)"
  | (retry) c e r where "s = ErrorState c e r OriginLlm" "ev = RetryTimeoutFired"
      "s' = CallingLlm c r" "act = SendLlmRequest (request_for cfg tools c)"
  | (tool) c es cid out where "s = ExecutingTools c es" "ev = ToolCompleted cid out"
  | (hook) c req ts b where "s = PostToolsHook c req ts" "ev = PostToolsHookCompleted b"
      "s' = CallingLlm c 0" "act = SendLlmRequest req"
  | (shutdown) "ev = ShutdownRequested" "s' = ShuttingDown" "act = Shutdown"
  | (idle) "s' = s" "act = WaitForInput \<or> (\<exists>t. act = DisplayMessage t)"
proof (cases "ev = ShutdownRequested")
  case True
  then show ?thesis using assms shutdown by (simp add: step_shutdown)
next
  case False
  show ?thesis
    using assms False that
    by (cases s; cases ev; auto simp: step_state_def Let_def split: llm_event.splits error_origin.splits)
qed

section \<open>Tool executions\<close>

lemma call_ids_pending [simp]: "map call_id (pending_executions clk k tcs) = map tc_id tcs"
  by (induction tcs arbitrary: k) auto

lemma tool_names_pending [simp]: "map tool_name (pending_executions clk k tcs) = map tc_tool_name tcs"
  by (induction tcs arbitrary: k) auto

lemma pending_not_completed: "x \<in> set (pending_executions clk k tcs) \<Longrightarrow> \<not> is_completed x"
  by (induction tcs arbitrary: k) auto

lemma length_pending [simp]: "length (pending_executions clk k tcs) = length tcs"
  by (induction tcs arbitrary: k) auto

lemma call_ids_mark [simp]: "map call_id (mark_completed clk k cid out es) = map call_id es"
  by (induction clk k cid out es rule: mark_completed.induct) auto

lemma tool_names_mark [simp]: "map tool_name (mark_completed clk k cid out es) = map tool_name es"
  by (induction clk k cid out es rule: mark_completed.induct) auto

text \<open>
  Two sets of clock readings give the same executions up to their time stamps; \<open>strip_times\<close>
  forgets the stamps.
\<close>

fun outcome_of :: "'j tool_execution_status \<Rightarrow> 'j tool_execution_outcome option" where
  "outcome_of (Completed c n t u r) = Some r"
| "outcome_of _ = None"

lemma is_completed_iff_outcome: "is_completed x \<longleftrightarrow> outcome_of x \<noteq> None"
  by (cases x) auto

lemma outcomes_mark:
  "map outcome_of (mark_completed clk k cid out es) =
     map (\<lambda>x. if call_id x = cid then Some out else outcome_of x) es"
  by (induction clk k cid out es rule: mark_completed.induct) auto

lemma outcomes_pending: "map outcome_of (pending_executions clk k tcs) = map (\<lambda>_. None) tcs"
  by (induction tcs arbitrary: k) auto

lemma tool_messages_completed:
  "list_all is_completed es \<Longrightarrow>
     tool_messages js es = map (\<lambda>x. tool_result_message js (call_id x) (the (outcome_of x))) es"
  by (induction es) (auto simp: tool_messages_def List.map_filter_simps elim!: is_completed.elims)

lemma extract_completed_tools_completed:
  "list_all is_completed es \<Longrightarrow>
     extract_completed_tools es =
       map (\<lambda>x. \<lparr>cti_tool_name = tool_name x, cti_succeeded = is_success (the (outcome_of x))\<rparr>) es"
  by (induction es) (auto simp: extract_completed_tools_def List.map_filter_simps elim!: is_completed.elims)

lemma has_mutating_tools_iff:
  "has_mutating_tools es \<longleftrightarrow>
     (\<exists>x \<in> set es. \<exists>r. outcome_of x = Some r \<and> is_success r \<and> tool_name x \<in> set mutating_tools)"
proof -
  have "(case x of Completed c n t u r \<Rightarrow> n \<in> set mutating_tools \<and> is_success r | _ \<Rightarrow> False) \<longleftrightarrow>
      (\<exists>r. outcome_of x = Some r \<and> is_success r \<and> tool_name x \<in> set mutating_tools)"
    for x :: "'a tool_execution_status"
    by (cases x) auto
  then show ?thesis by (simp add: has_mutating_tools_def list_ex_iff)
qed

section \<open>The invariant\<close>

text \<open>
  Between two calls of the handler: a retry counter is either fresh or below the limit, an error
  state is an LLM error waiting for its retry, executing means some tool is still out, the request
  held back by the post-tools hook is the one of the current conversation, and the processing
  state is never seen.
\<close>

fun state_inv :: "agent_config \<Rightarrow> 'j tool_definition list \<Rightarrow> 'j agent_state \<Rightarrow> bool" where
  "state_inv cfg tools (WaitingForUserInput c) \<longleftrightarrow> True"
| "state_inv cfg tools (CallingLlm c r) \<longleftrightarrow> r = 0 \<or> r < cfg_max_retries cfg"
| "state_inv cfg tools (ProcessingLlmResponse c resp) \<longleftrightarrow> False"
| "state_inv cfg tools (ExecutingTools c es) \<longleftrightarrow> \<not> list_all is_completed es"
| "state_inv cfg tools (PostToolsHook c req ts) \<longleftrightarrow> req = request_for cfg tools c
     \<and> (\<exists>t \<in> set ts. cti_succeeded t \<and> cti_tool_name t \<in> set mutating_tools)"
| "state_inv cfg tools (ErrorState c e r og) \<longleftrightarrow> og = OriginLlm \<and> (\<exists>le. e = AgentLlm le)
     \<and> 0 < r \<and> r < cfg_max_retries cfg"
| "state_inv cfg tools ShuttingDown \<longleftrightarrow> True"

lemma mutating_tool_reported:
  assumes "list_all is_completed es" "has_mutating_tools es"
  shows "\<exists>t \<in> set (extract_completed_tools es). cti_succeeded t \<and> cti_tool_name t \<in> set mutating_tools"
proof -
  obtain x r where x: "x \<in> set es" "outcome_of x = Some r" "is_success r" "tool_name x \<in> set mutating_tools"
    using assms(2) by (auto simp: has_mutating_tools_iff)
  let ?t = "\<lparr>cti_tool_name = tool_name x, cti_succeeded = is_success (the (outcome_of x))\<rparr>"
  have "?t \<in> set (extract_completed_tools es)"
    using x(1) by (simp add: extract_completed_tools_completed [OF assms(1)])
  then show ?thesis using x by (intro bexI [where x = ?t]) auto
qed

lemma word_succ_less_pos: "(r::u32) + 1 < m \<Longrightarrow> r = 0 \<or> r < m \<Longrightarrow> 0 < r + 1"
  by unat_arith

lemma step_state_inv [step_keeps]:
  assumes inv: "state_inv cfg tools s" and step: "step_state cfg tools js clk s ev = (s', act)"
  shows "state_inv cfg tools s'"
  using step
proof (cases rule: step_state_cases)
  case (llm_done c r resp)
  have "\<not> list_all is_completed (pending_executions clk 0 tcs)" if "tcs \<noteq> []" for tcs :: "'a tool_call list"
    using that by (cases tcs) auto
  with llm_done step show ?thesis
    by (auto simp: step_calling_completed Let_def split: if_splits)
next
  case (llm_failed c r e)
  with step inv show ?thesis
    by (auto simp: step_calling_failed intro: word_succ_less_pos split: if_splits)
next
  case (tool c es cid out)
  with step show ?thesis
    by (auto simp: step_executing_completed finish_tools_def Let_def
        dest: mutating_tool_reported split: if_splits)
qed (use inv in auto)

section \<open>Runs of the agent\<close>

definition agent_inv :: "'j agent \<Rightarrow> bool" where
  "agent_inv a \<longleftrightarrow> state_inv (ag_config a) (ag_tools a) (ag_state a)"

lemma handle_event_eq:
  "handle_event js clk a ev =
     (a\<lparr>ag_state := fst (step_state (ag_config a) (ag_tools a) js clk (ag_state a) ev)\<rparr>,
      Inr (snd (step_state (ag_config a) (ag_tools a) js clk (ag_state a) ev)))"
  by (simp add: handle_event_def split: prod.split)

lemma agent_step_eq:
  "agent_step js a (clk, ev) =
     a\<lparr>ag_state := fst (step_state (ag_config a) (ag_tools a) js clk (ag_state a) ev)\<rparr>"
  by (simp add: agent_step_def handle_event_eq)

lemma agent_step_frame [simp]:
  "ag_config (agent_step js a ce) = ag_config a" "ag_tools (agent_step js a ce) = ag_tools a"
  by (simp_all add: agent_step_def handle_event_eq)

lemma agent_run_Nil [simp]: "agent_run js a [] = a"
  and agent_run_Cons [simp]: "agent_run js a (ce # ces) = agent_run js (agent_step js a ce) ces"
  and agent_run_append: "agent_run js a (ces @ ces') = agent_run js (agent_run js a ces) ces'"
  by (simp_all add: agent_run_def)

lemma agent_run_frame [simp]:
  "ag_config (agent_run js a ces) = ag_config a" "ag_tools (agent_run js a ces) = ag_tools a"
  by (induction ces arbitrary: a) auto

interpretation agent_calls: event_driven "agent_step js" agent_inv for js :: "'j \<Rightarrow> string option"
proof unfold_locales
  fix s :: "'j agent" and e :: "(nat \<Rightarrow> instant) \<times> 'j agent_event"
  assume "agent_inv s"
  then show "agent_inv (agent_step js s e)"
    by (cases e) (auto simp: agent_inv_def agent_step_eq intro: step_state_inv surjective_pairing)
qed

lemma agent_inv_new: "agent_inv (agent_new i cfg tools)"
  by (simp add: agent_inv_def agent_new_def)

lemma reachable_inv: "agent_inv (agent_run js (agent_new i cfg tools) ces)"
  unfolding agent_run_def by (rule agent_calls.run_inv [OF agent_inv_new])

lemma reachable_state_inv:
  "state_inv cfg tools (ag_state (agent_run js (agent_new i cfg tools) ces))"
  using reachable_inv [of js i cfg tools ces] by (simp add: agent_inv_def) (simp add: agent_new_def)

text \<open>The conversation only grows, and keeps its id, until the agent shuts down.\<close>

definition extends :: "'j agent_state \<Rightarrow> 'j agent_state \<Rightarrow> bool" where
  "extends s t \<longleftrightarrow> (\<forall>c'. conversation t = Some c' \<longrightarrow>
     (\<exists>c. conversation s = Some c \<and> conv_id c' = conv_id c
        \<and> prefix (conv_messages c) (conv_messages c')))"

lemma extends_refl: "extends s s"
  by (simp add: extends_def)

lemma extends_trans:
  assumes "extends s t" "extends t u"
  shows "extends s u"
  unfolding extends_def
proof (intro allI impI)
  fix c'
  assume "conversation u = Some c'"
  then obtain b where b: "conversation t = Some b" "conv_id c' = conv_id b"
      "prefix (conv_messages b) (conv_messages c')"
    using assms(2) by (auto simp: extends_def)
  then obtain c where c: "conversation s = Some c" "conv_id b = conv_id c"
      "prefix (conv_messages c) (conv_messages b)"
    using assms(1) by (auto simp: extends_def)
  with b have "prefix (conv_messages c) (conv_messages c')"
    by (blast intro: prefix_order.trans)
  with b c show "\<exists>c. conversation s = Some c \<and> conv_id c' = conv_id c
      \<and> prefix (conv_messages c) (conv_messages c')"
    by simp
qed

lemma step_extends: "extends s (fst (step_state cfg tools js clk s ev))"
proof -
  obtain s' act where step: "step_state cfg tools js clk s ev = (s', act)" by force
  then have "extends s s'"
  proof (cases rule: step_state_cases)
    case (llm_done c r resp)
    with step show ?thesis
      by (auto simp: step_calling_completed extends_def push_message_def Let_def split: if_splits)
  next
    case (llm_failed c r e)
    with step show ?thesis by (auto simp: step_calling_failed extends_def split: if_splits)
  next
    case (tool c es cid out)
    with step show ?thesis
      by (auto simp: step_executing_completed finish_tools_def extends_def Let_def split: if_splits)
  qed (auto simp: extends_def push_message_def)
  with step show ?thesis by simp
qed

lemma run_extends: "extends (ag_state a) (ag_state (agent_run js a ces))"
proof (induction ces arbitrary: a)
  case (Cons ce ces)
  have "extends (ag_state a) (ag_state (agent_step js a ce))"
    by (cases ce) (simp add: agent_step_eq step_extends)
  with Cons.IH show ?case by (auto intro: extends_trans)
qed (simp add: extends_refl)

text \<open>Shutdown, repeated failures, and tools finishing one after the other.\<close>

lemma shutting_down_absorbs: "ag_state a = ShuttingDown \<Longrightarrow> ag_state (agent_run js a ces) = ShuttingDown"
proof (induction ces arbitrary: a)
  case (Cons ce ces)
  have "ag_state (agent_step js a ce) = ShuttingDown"
    using Cons.prems by (cases ce; cases "snd ce = ShutdownRequested")
      (auto simp: agent_step_eq step_shutdown step_shutting_down)
  with Cons.IH show ?case by simp
qed simp

definition fail_and_retry :: "llm_error list \<Rightarrow> ((nat \<Rightarrow> instant) \<times> 'j agent_event) list" where
  "fail_and_retry errs = concat (map (\<lambda>e. [(\<lambda>_. 0, LlmEvent (LlmFailed e)), (\<lambda>_. 0, RetryTimeoutFired)]) errs)"

lemma run_fail_and_retry:
  assumes "ag_state a = CallingLlm c r" "unat r + length errs < unat (cfg_max_retries (ag_config a))"
  shows "agent_run js a (fail_and_retry errs) = a\<lparr>ag_state := CallingLlm c (r + of_nat (length errs))\<rparr>"
  using assms
proof (induction errs arbitrary: a r)
  case Nil
  then show ?case by (simp add: fail_and_retry_def)
next
  case (Cons e errs)
  let ?a = "a\<lparr>ag_state := CallingLlm c (r + 1)\<rparr>"
  have nowrap: "unat (r + 1) = unat r + 1"
    using Cons.prems(2) unat_u32_bound [of "cfg_max_retries (ag_config a)"]
    by (simp add: unat_word_ariths)
  then have lt: "r + 1 < cfg_max_retries (ag_config a)"
    using Cons.prems(2) by (simp add: word_less_nat_alt)
  have "agent_run js a (fail_and_retry (e # errs)) = agent_run js ?a (fail_and_retry errs)"
    using Cons.prems(1) lt
    by (simp add: fail_and_retry_def agent_step_eq step_calling_failed step_error_retry)
  also have "\<dots> = ?a\<lparr>ag_state := CallingLlm c (r + 1 + of_nat (length errs))\<rparr>"
    using Cons.prems(2) nowrap by (intro Cons.IH) simp_all
  finally show ?case by (simp add: add_ac)
qed

text \<open>
  An execution list seen without its time stamps: the call, its tool and its outcome if it has one.
\<close>

definition view :: "'j tool_execution_status list \<Rightarrow> (string \<times> string \<times> 'j tool_execution_outcome option) list" where
  "view es = map (\<lambda>x. (call_id x, tool_name x, outcome_of x)) es"

definition open_calls :: "(string \<times> string \<times> 'j tool_execution_outcome option) list \<Rightarrow> string set" where
  "open_calls v = {i. \<exists>n. (i, n, None) \<in> set v}"

lemma view_mark:
  "view (mark_completed clk k cid out es) =
     map (\<lambda>(i, n, r). (i, n, if i = cid then Some out else r)) (view es)"
  by (induction clk k cid out es rule: mark_completed.induct) (auto simp: view_def)

lemma view_pending: "view (pending_executions clk k tcs) = map (\<lambda>tc. (tc_id tc, tc_tool_name tc, None)) tcs"
  by (induction tcs arbitrary: k) (auto simp: view_def)

lemma open_calls_view: "open_calls (view es) = call_id ` {x \<in> set es. \<not> is_completed x}"
proof -
  have "i \<in> open_calls (view es) \<longleftrightarrow> (\<exists>x \<in> set es. i = call_id x \<and> outcome_of x = None)" for i
    by (induction es) (auto simp: open_calls_def view_def)
  then show ?thesis by (auto simp: is_completed_iff_outcome)
qed

lemma all_completed_iff_view: "list_all is_completed es \<longleftrightarrow> open_calls (view es) = {}"
  by (auto simp: open_calls_view list_all_iff)

lemma open_calls_mark:
  "open_calls (map (\<lambda>(i, n, r). (i, n, if i = cid then Some out else r)) v) = open_calls v - {cid}"
  by (force simp: open_calls_def split: if_splits)

lemma tool_messages_view:
  "list_all is_completed es \<Longrightarrow>
     tool_messages js es = map (\<lambda>(i, n, r). tool_result_message js i (the r)) (view es)"
  by (simp add: tool_messages_completed view_def)

type_synonym 'j completion = "(nat \<Rightarrow> instant) \<times> string \<times> 'j tool_execution_outcome"

definition completions :: "'j completion list \<Rightarrow> ((nat \<Rightarrow> instant) \<times> 'j agent_event) list" where
  "completions cs = map (\<lambda>(clk, cid, out). (clk, ToolCompleted cid out)) cs"

definition settle :: "(string \<rightharpoonup> 'j tool_execution_outcome) \<Rightarrow>
    string \<times> string \<times> 'j tool_execution_outcome option \<Rightarrow> string \<times> string \<times> 'j tool_execution_outcome option" where
  "settle m = (\<lambda>(i, n, r). (i, n, case m i of Some out \<Rightarrow> Some out | None \<Rightarrow> r))"

lemma run_completions:
  assumes "ag_state a = ExecutingTools c es" "cs \<noteq> []" "distinct (map (fst \<circ> snd) cs)"
    and "set (map (fst \<circ> snd) cs) = open_calls (view es)"
  shows "\<exists>es'. list_all is_completed es' \<and> view es' = map (settle (map_of (map snd cs))) (view es)
     \<and> agent_run js a (completions cs) = a\<lparr>ag_state := fst (finish_tools (ag_config a) (ag_tools a) js c es')\<rparr>"
  using assms
proof (induction cs arbitrary: a es)
  case Nil
  then show ?case by simp
next
  case (Cons x cs)
  obtain clk cid out where x: "x = (clk, cid, out)" by (cases x)
  define es1 where "es1 = mark_completed clk 0 cid out es"
  have open1: "open_calls (view es1) = set (map (fst \<circ> snd) cs)"
    using Cons.prems(3,4) by (auto simp: es1_def view_mark open_calls_mark x)
  have new_id: "map_of (map snd cs) cid = None"
    using Cons.prems(3) by (auto simp: x map_of_eq_None_iff image_image)
  have view1: "map (settle (map_of (map snd cs))) (view es1) = map (settle (map_of (map snd (x # cs)))) (view es)"
    using new_id by (auto simp: es1_def view_mark settle_def x split: option.splits)
  show ?case
  proof (cases "cs = []")
    case True
    then have "list_all is_completed es1" using open1 by (simp add: all_completed_iff_view)
    moreover from this have "agent_run js a (completions (x # cs)) =
        a\<lparr>ag_state := fst (finish_tools (ag_config a) (ag_tools a) js c es1)\<rparr>"
      using Cons.prems(1) True by (simp add: completions_def x agent_step_eq step_executing_completed es1_def)
    moreover have "view es1 = map (settle (map_of (map snd (x # cs)))) (view es)"
      using view1 True by (simp add: settle_def case_prod_beta)
    ultimately show ?thesis by blast
  next
    case False
    then have "\<not> list_all is_completed es1" using open1 by (simp add: all_completed_iff_view)
    then have step: "agent_step js a (clk, ToolCompleted cid out) = a\<lparr>ag_state := ExecutingTools c es1\<rparr>"
      using Cons.prems(1) by (simp add: agent_step_eq step_executing_completed es1_def)
    have "\<exists>es'. list_all is_completed es' \<and> view es' = map (settle (map_of (map snd cs))) (view es1)
       \<and> agent_run js (a\<lparr>ag_state := ExecutingTools c es1\<rparr>) (completions cs) =
          a\<lparr>ag_state := fst (finish_tools (ag_config a) (ag_tools a) js c es')\<rparr>"
      using Cons.IH [of "a\<lparr>ag_state := ExecutingTools c es1\<rparr>" es1] False Cons.prems(3) open1 by simp
    with step view1 show ?thesis by (simp add: completions_def x fun_upd_def)
  qed
qed

text \<open>A response with tool calls and an answer to each of them.\<close>

lemma run_answered:
  assumes "ag_state a = CallingLlm c r"
    and "resp_tool_calls resp \<noteq> []" and "distinct (map tc_id (resp_tool_calls resp))"
    and "distinct (map (fst \<circ> snd) cs)"
    and "set (map (fst \<circ> snd) cs) = set (map tc_id (resp_tool_calls resp))"
    and "b = agent_run js a ((clk, LlmEvent (LlmCompleted resp)) # completions cs)"
  shows "\<exists>c'. conversation (ag_state b) = Some c'
     \<and> conv_messages c' = conv_messages c @ resp_message resp #
          map (\<lambda>tc. tool_result_message js (tc_id tc) (the (map_of (map snd cs) (tc_id tc)))) (resp_tool_calls resp)
     \<and> state_name (ag_state b) =
          (if \<exists>tc \<in> set (resp_tool_calls resp). tc_tool_name tc \<in> {''edit_file'', ''bash''}
                 \<and> is_success (the (map_of (map snd cs) (tc_id tc)))
           then ''PostToolsHook'' else ''CallingLlm'')"
proof -
  let ?tcs = "resp_tool_calls resp" and ?m = "map_of (map snd cs)"
  let ?c1 = "push_message c (resp_message resp)" and ?es = "pending_executions clk 0 (resp_tool_calls resp)"
  have step: "agent_step js a (clk, LlmEvent (LlmCompleted resp)) = a\<lparr>ag_state := ExecutingTools ?c1 ?es\<rparr>"
    using assms(1,2) by (simp add: agent_step_eq step_calling_completed Let_def)
  have opn: "open_calls (view ?es) = set (map tc_id ?tcs)"
    by (auto simp: view_pending open_calls_def)
  have "cs \<noteq> []" using assms(2,5) by auto
  with assms(4,5) opn obtain es' where es': "list_all is_completed es'" "view es' = map (settle ?m) (view ?es)"
      "b = a\<lparr>ag_state := fst (finish_tools (ag_config a) (ag_tools a) js ?c1 es')\<rparr>"
    using run_completions [of "a\<lparr>ag_state := ExecutingTools ?c1 ?es\<rparr>" ?c1 ?es cs js] assms(6) step by auto
  have answered: "\<exists>out. ?m (tc_id tc) = Some out" if "tc \<in> set ?tcs" for tc
  proof -
    have "tc_id tc \<in> fst ` set (map snd cs)" using that assms(5) by (force simp: image_image)
    then show ?thesis by (metis map_of_eq_None_iff not_Some_eq)
  qed
  have view': "view es' = map (\<lambda>tc. (tc_id tc, tc_tool_name tc, Some (the (?m (tc_id tc))))) ?tcs"
    using answered by (fastforce simp: es'(2) view_pending settle_def)
  have mut: "has_mutating_tools es' \<longleftrightarrow> (\<exists>tc \<in> set ?tcs. tc_tool_name tc \<in> {''edit_file'', ''bash''}
      \<and> is_success (the (?m (tc_id tc))))"
  proof -
    have "has_mutating_tools es' \<longleftrightarrow>
        (\<exists>(i, n, r) \<in> set (view es'). \<exists>out. r = Some out \<and> is_success out \<and> n \<in> set mutating_tools)"
      by (auto simp: has_mutating_tools_iff view_def)
    also have "\<dots> \<longleftrightarrow> (\<exists>tc \<in> set ?tcs. is_success (the (?m (tc_id tc))) \<and> tc_tool_name tc \<in> set mutating_tools)"
      by (auto simp: view')
    finally show ?thesis by (auto simp: mutating_tools_def)
  qed
  have msgs: "tool_messages js es' =
      map (\<lambda>tc. tool_result_message js (tc_id tc) (the (?m (tc_id tc)))) ?tcs"
    by (simp add: tool_messages_view [OF es'(1)] view' comp_def)
  show ?thesis
  proof (cases "has_mutating_tools es'")
    case True
    then show ?thesis using mut msgs es'(3) by (simp add: finish_tools_def Let_def push_message_def)
  next
    case False
    then show ?thesis using mut msgs es'(3) by (simp add: finish_tools_def Let_def push_message_def)
  qed
qed

section \<open>Properties\<close>

text \<open>C1: In every state an agent can reach, the retry counter of a call is below
  \<^verbatim>\<open>max(1, max_retries)\<close> and its increment does not wrap; an error state is an LLM error with a
  counter between 1 and \<^verbatim>\<open>max_retries - 1\<close>, so the retry timer always resumes it; a state that
  executes tools still waits for one; and the transient processing state is never left behind.\<close>

theorem agent_retries_bounded:
  "case ag_state (agent_run js (agent_new i cfg tools) ces) of
     CallingLlm c r \<Rightarrow> unat r < max 1 (unat (cfg_max_retries cfg)) \<and> unat (r + 1) = unat r + 1
   | ErrorState c e r og \<Rightarrow> og = OriginLlm \<and> (\<exists>le. e = AgentLlm le)
       \<and> 1 \<le> unat r \<and> unat r < unat (cfg_max_retries cfg)
   | ExecutingTools c es \<Rightarrow> (\<exists>x \<in> set es. \<not> is_completed x)
   | ProcessingLlmResponse c resp \<Rightarrow> False
   | _ \<Rightarrow> True"
proof -
  have bound: "unat r < max 1 (unat m) \<and> unat (r + 1) = unat r + 1" if "r = 0 \<or> r < m" for r m :: u32
    using that by (auto; unat_arith)
  have pos: "1 \<le> unat r" if "0 < r" for r :: u32
    using that by unat_arith
  show ?thesis
    using reachable_state_inv [of cfg tools js i ces] bound pos
    by (auto simp: list_all_iff word_less_nat_alt split: agent_state.split)
qed

text \<open>C2: Whenever a reachable agent answers an event with a request to send, it is calling the LLM
  and the request is the one of its whole current conversation, its tools and its configuration,
  also when the request was held back by the post-tools hook.\<close>

theorem agent_request_is_current:
  assumes "a = agent_run js (agent_new i cfg tools) ces"
    and "handle_event js clk a ev = (a', Inr (SendLlmRequest req))"
  shows "\<exists>c r. ag_state a' = CallingLlm c r \<and> build_llm_request a' = Some req
           \<and> req_messages req = conv_messages c \<and> req_model req = cfg_model_name cfg \<and> req_tools req = tools"
proof -
  define s' where "s' = ag_state a'"
  have cfg: "ag_config a = cfg" "ag_tools a = tools" "state_inv cfg tools (ag_state a)"
    using assms(1) reachable_state_inv by (simp_all add: agent_new_def)
  have step: "step_state cfg tools js clk (ag_state a) ev = (s', SendLlmRequest req)"
    and a': "a' = a\<lparr>ag_state := s'\<rparr>"
    using assms(2) cfg by (auto simp: handle_event_eq s'_def prod_eq_iff)
  from step have "\<exists>c r. s' = CallingLlm c r \<and> req = request_for cfg tools c"
  proof (cases rule: step_state_cases)
    case (llm_done c r resp)
    with step show ?thesis by (auto simp: step_calling_completed Let_def split: if_splits)
  next
    case (llm_failed c r e)
    with step show ?thesis by (auto simp: step_calling_failed split: if_splits)
  next
    case (tool c es cid out)
    with step show ?thesis
      by (auto simp: step_executing_completed finish_tools_def Let_def split: if_splits)
  qed (use cfg in auto)
  then show ?thesis using a' cfg by (auto simp: build_llm_request_def request_for_def)
qed

theorem agent_request_is_current_witness:
  "\<exists>c r. ag_state (agent_run (\<lambda>_. None) (agent_new 7 agent_config_default ([] :: string tool_definition list))
        [(\<lambda>_. 0, UserInput (message_user ''hi''))]) = CallingLlm c r
     \<and> conv_messages c = [message_user ''hi'']"
proof -
  let ?a = "agent_new 7 agent_config_default ([] :: string tool_definition list)"
  let ?req = "request_for agent_config_default ([] :: string tool_definition list)
      (push_message (conversation_with_id 7) (message_user ''hi''))"
  have h: "handle_event (\<lambda>_. None) (\<lambda>_. 0) ?a (UserInput (message_user ''hi'')) =
      (?a\<lparr>ag_state := CallingLlm (push_message (conversation_with_id 7) (message_user ''hi'')) 0\<rparr>,
       Inr (SendLlmRequest ?req))"
    by (simp add: handle_event_eq agent_new_def step_waiting_user_input)
  show ?thesis
    using agent_request_is_current [of ?a "\<lambda>_. None" 7 agent_config_default "[]" "[]", OF _ h]
    by (auto simp: agent_step_def h request_for_def push_message_def conversation_with_id_def)
qed

text \<open>C3: However the agent is driven, the conversation keeps its id and every message ever recorded
  stays where it is: a later conversation extends an earlier one, and after shutdown there is none.\<close>

theorem agent_conversation_append_only:
  assumes "conversation (ag_state (agent_run js a (ces @ ces'))) = Some c'"
  shows "\<exists>c. conversation (ag_state (agent_run js a ces)) = Some c \<and> conv_id c' = conv_id c
           \<and> prefix (conv_messages c) (conv_messages c')"
  using run_extends [of "agent_run js a ces" js ces'] assms
  by (simp add: agent_run_append extends_def)

theorem agent_conversation_append_only_witness:
  "\<exists>c. conversation (ag_state (agent_run (\<lambda>_. None) (agent_new 7 agent_config_default ([] :: string tool_definition list))
        [(\<lambda>_. 0, UserInput (message_user ''hi''))])) = Some c
      \<and> conv_id c = 7 \<and> prefix (conv_messages c) [message_user ''hi'', message_assistant ''yo'']"
proof -
  let ?a = "agent_new 7 agent_config_default ([] :: string tool_definition list)"
  let ?resp = "\<lparr>resp_message = message_assistant ''yo'', resp_tool_calls = [], resp_usage = None, resp_finish_reason = None\<rparr> :: string llm_response"
  have "conversation (ag_state (agent_run (\<lambda>_. None) ?a ([(\<lambda>_. 0, UserInput (message_user ''hi''))] @ [(\<lambda>_. 0, LlmEvent (LlmCompleted ?resp))]))) =
      Some (push_message (push_message (conversation_with_id 7) (message_user ''hi'')) (message_assistant ''yo''))"
    by (simp add: agent_step_eq agent_new_def step_state_def Let_def)
  from agent_conversation_append_only [OF this] show ?thesis
    by (simp add: push_message_def conversation_with_id_def)
qed

text \<open>C4: Shutdown is possible in every state, answers with \<^verbatim>\<open>Shutdown\<close>, and is final: whatever events
  come after it, the agent stays shut down and only tells its caller to shut down or to wait.\<close>

theorem agent_shutdown_final:
  "snd (handle_event js clk a ShutdownRequested) = Inr Shutdown
     \<and> ag_state (agent_run js a (ces @ (clk, ShutdownRequested) # ces')) = ShuttingDown
     \<and> snd (handle_event js clk' (agent_run js a (ces @ (clk, ShutdownRequested) # ces')) ev)
         \<in> {Inr Shutdown, Inr WaitForInput}"
proof -
  let ?b = "agent_run js a (ces @ (clk, ShutdownRequested) # ces')"
  have down: "ag_state ?b = ShuttingDown"
    by (simp add: agent_run_append agent_step_eq step_shutdown shutting_down_absorbs)
  then have "snd (handle_event js clk' ?b ev) \<in> {Inr Shutdown, Inr WaitForInput}"
    by (cases "ev = ShutdownRequested") (simp_all add: handle_event_eq step_shutdown step_shutting_down)
  with down show ?thesis by (simp add: handle_event_eq step_shutdown)
qed

text \<open>C5: A call of the LLM that keeps failing is attempted exactly \<^verbatim>\<open>max(1, max_retries)\<close> times: after
  each of the earlier failures the retry timer sends the request again, and the last failure shows
  the error and gives the turn back to the user with the conversation untouched.\<close>

theorem agent_gives_up_after_max_attempts:
  assumes "ag_state a = CallingLlm c 0"
    and "Suc (length errs) = max 1 (unat (cfg_max_retries (ag_config a)))"
  shows "ag_state (agent_run js a (fail_and_retry errs)) = CallingLlm c (of_nat (length errs))
     \<and> handle_event js clk (agent_run js a (fail_and_retry errs)) (LlmEvent (LlmFailed e)) =
         (a\<lparr>ag_state := WaitingForUserInput c\<rparr>, Inr (DisplayError (show_agent_error (AgentLlm e))))"
proof -
  have run: "agent_run js a (fail_and_retry errs) = a\<lparr>ag_state := CallingLlm c (of_nat (length errs))\<rparr>"
  proof (cases "errs = []")
    case True
    then show ?thesis using assms(1) by (simp add: fail_and_retry_def)
  next
    case False
    then show ?thesis using run_fail_and_retry [OF assms(1), of errs js] assms(2)
      by (simp add: max_def split: if_splits)
  qed
  have "\<not> of_nat (length errs) + 1 < cfg_max_retries (ag_config a)"
  proof -
    have "length errs + 1 < 2 ^ 32"
      using assms(2) unat_u32_bound [of "cfg_max_retries (ag_config a)"] by (auto simp: max_def split: if_splits)
    then have "unat (of_nat (length errs) + 1 :: u32) = length errs + 1"
      using unat_of_nat_u32 [of "Suc (length errs)"] by (simp add: add.commute)
    then show ?thesis using assms(2) by (simp add: word_less_nat_alt)
  qed
  then show ?thesis by (simp add: run handle_event_eq step_calling_failed)
qed

theorem agent_gives_up_witness:
  "\<exists>a :: string agent. ag_state a = CallingLlm (conversation_with_id 7) 0 \<and>
     fst (handle_event (\<lambda>_. None) (\<lambda>_. 0)
       (agent_run (\<lambda>_. None) a (fail_and_retry [LlmTimeout, LlmApi ''x''])) (LlmEvent (LlmFailed LlmTimeout)))
     = a\<lparr>ag_state := WaitingForUserInput (conversation_with_id 7)\<rparr>"
proof -
  let ?a = "\<lparr>ag_state = CallingLlm (conversation_with_id 7) 0, ag_config = agent_config_default,
    ag_tools = []\<rparr> :: string agent"
  have "Suc (length [LlmTimeout, LlmApi ''x'']) = max 1 (unat (cfg_max_retries (ag_config ?a)))"
    by (simp add: agent_config_default_def)
  from agent_gives_up_after_max_attempts [OF _ this, of "conversation_with_id 7" "\<lambda>_. None" "\<lambda>_. 0" LlmTimeout]
  show ?thesis by (intro exI [of _ ?a]) simp
qed

text \<open>C6: However the tools of one LLM response finish, in whatever order and interleaving, once each of
  its calls has been answered the conversation holds the response and then one tool message per
  call, in the order of the calls and with that call's own outcome; the agent goes on with the hook
  exactly when a file-changing tool succeeded, and with the LLM otherwise.\<close>

theorem agent_tool_results_in_call_order:
  assumes "ag_state a = CallingLlm c r"
    and "resp_tool_calls resp \<noteq> []" and "distinct (map tc_id (resp_tool_calls resp))"
    and "distinct (map (fst \<circ> snd) cs)"
    and "set (map (fst \<circ> snd) cs) = set (map tc_id (resp_tool_calls resp))"
    and "b = agent_run js a ((clk, LlmEvent (LlmCompleted resp)) # completions cs)"
  shows "\<exists>c'. conversation (ag_state b) = Some c'
     \<and> conv_messages c' = conv_messages c @ resp_message resp #
          map (\<lambda>tc. tool_result_message js (tc_id tc) (the (map_of (map snd cs) (tc_id tc)))) (resp_tool_calls resp)
     \<and> state_name (ag_state b) =
          (if \<exists>tc \<in> set (resp_tool_calls resp). tc_tool_name tc \<in> {''edit_file'', ''bash''}
                 \<and> is_success (the (map_of (map snd cs) (tc_id tc)))
           then ''PostToolsHook'' else ''CallingLlm'')"
  using assms by (rule run_answered)

theorem agent_tool_results_in_call_order_witness:
  "\<exists>(a :: string agent) resp cs.
     map tc_id (resp_tool_calls resp) = [''1'', ''2''] \<and> map (fst \<circ> snd) cs = [''2'', ''1'']
     \<and> (\<exists>c'. conversation (ag_state (agent_run Some a ((\<lambda>_. 0, LlmEvent (LlmCompleted resp)) # completions cs))) = Some c'
          \<and> map msg_tool_call_id (conv_messages c') = [None, Some ''1'', Some ''2''])"
proof -
  let ?tc = "\<lambda>i. \<lparr>tc_id = i, tc_tool_name = ''bash'', tc_arguments_json = ''ls''\<rparr>"
  let ?resp = "\<lparr>resp_message = message_assistant ''ok'', resp_tool_calls = [?tc ''1'', ?tc ''2''],
    resp_usage = None, resp_finish_reason = None\<rparr>"
  let ?a = "\<lparr>ag_state = CallingLlm (conversation_with_id 7) 0, ag_config = agent_config_default,
    ag_tools = []\<rparr> :: string agent"
  let ?cs = "[(\<lambda>_. 5, ''2'', OutcomeSuccess ''2'' ''two''), (\<lambda>_. 6, ''1'', OutcomeError ''1'' ToolTimeout)]"
  have "\<exists>c'. conversation (ag_state (agent_run Some ?a ((\<lambda>_. 0, LlmEvent (LlmCompleted ?resp)) # completions ?cs))) = Some c'
      \<and> map msg_tool_call_id (conv_messages c') = [None, Some ''1'', Some ''2'']"
    using agent_tool_results_in_call_order [of ?a "conversation_with_id 7" 0 ?resp ?cs _ Some "\<lambda>_. 0"]
    by (force simp: message_assistant_def tool_result_message_def conversation_with_id_def)
  then show ?thesis by (intro exI [of _ ?a] exI [of _ ?resp] exI [of _ ?cs]) simp
qed

end
