(* ===== verification/Sse.thy ===== *)
theory Sse
  imports Agent
begin

text \<open>
  The streaming client of \<^verbatim>\<open>loom-server-llm-anthropic\<close>: the server-sent events decoder of \<^verbatim>\<open>stream.rs\<close>, which
  turns the bytes of a response into the \<^verbatim>\<open>LlmEvent\<close>s the agent consumes, and the conversions of
  \<^verbatim>\<open>types.rs\<close> between the agent's requests and responses and those of the API.

  The inner byte stream is the list of its items, \<open>Inl\<close> the text of a transport error; a pending poll changes
  nothing and is left out. \<^verbatim>\<open>serde_json\<close> is the record \<open>js\<close>: \<open>jt_event\<close> reads a \<^verbatim>\<open>StreamEvent\<close> and
  \<open>jt_value\<close> a \<^verbatim>\<open>Value\<close>, \<open>None\<close> for an error.
\<close>

section \<open>Stream events\<close>

datatype content_block =
  BlockText string
| BlockToolUse string string

datatype content_delta =
  DeltaText string
| DeltaInputJson string

record message_start_data =
  ms_id :: string
  ms_model :: string
  ms_usage :: "u32 option"

record stream_error_data =
  se_error_type :: string
  se_message :: string

datatype stream_event =
  MessageStart message_start_data
| ContentBlockStart nat content_block
| ContentBlockDelta nat content_delta
| ContentBlockStop nat
| MessageDelta "string option" "u32 option"
| MessageStop
| Ping
| StreamError stream_error_data

record 'j json_text =
  jt_event :: "string \<Rightarrow> stream_event option"
  jt_value :: "string \<Rightarrow> 'j option"
  jt_is_null :: "'j \<Rightarrow> bool"
  jt_empty_object :: 'j

record tool_call_builder =
  bd_id :: string
  bd_name :: string
  bd_arguments_json :: string

record 'j stream_state =
  ss_tool_calls :: "nat \<rightharpoonup> tool_call_builder"
  ss_accumulated_content :: string
  ss_accumulated_tool_calls :: "'j tool_call list"
  ss_stop_reason :: "string option"
  ss_input_tokens :: u32
  ss_output_tokens :: u32

definition stream_state_default :: "'j stream_state" where
  "stream_state_default = \<lparr>ss_tool_calls = Map.empty, ss_accumulated_content = [],
     ss_accumulated_tool_calls = [], ss_stop_reason = None, ss_input_tokens = 0, ss_output_tokens = 0\<rparr>"

text \<open>The arguments of a finished tool call; text that is no JSON, or is null, becomes the empty object.\<close>

definition builder_arguments :: "'j json_text \<Rightarrow> tool_call_builder \<Rightarrow> 'j" where
  "builder_arguments js b =
     (let arguments = (case jt_value js (bd_arguments_json b) of Some v \<Rightarrow> v | None \<Rightarrow> jt_empty_object js)
      in if jt_is_null js arguments then jt_empty_object js else arguments)"

definition builder_tool_call :: "'j json_text \<Rightarrow> tool_call_builder \<Rightarrow> 'j tool_call" where
  "builder_tool_call js b = \<lparr>tc_id = bd_id b, tc_tool_name = bd_name b, tc_arguments_json = builder_arguments js b\<rparr>"

definition completed_response :: "'j stream_state \<Rightarrow> 'j llm_response" where
  "completed_response st = \<lparr>resp_message = message_assistant (ss_accumulated_content st),
     resp_tool_calls = ss_accumulated_tool_calls st,
     resp_usage = Some \<lparr>usage_input_tokens = ss_input_tokens st, usage_output_tokens = ss_output_tokens st\<rparr>,
     resp_finish_reason = ss_stop_reason st\<rparr>"

fun process_stream_event ::
  "'j json_text \<Rightarrow> stream_event \<Rightarrow> 'j stream_state \<Rightarrow> (llm_error + 'j llm_event option) \<times> 'j stream_state" where
  "process_stream_event js (MessageStart m) st =
     (Inr None, (case ms_usage m of Some n \<Rightarrow> st\<lparr>ss_input_tokens := n\<rparr> | None \<Rightarrow> st))"
| "process_stream_event js (ContentBlockStart index (BlockText t)) st =
     (if t \<noteq> [] then (Inr (Some (TextDelta t)), st\<lparr>ss_accumulated_content := ss_accumulated_content st @ t\<rparr>)
      else (Inr None, st))"
| "process_stream_event js (ContentBlockStart index (BlockToolUse i n)) st =
     (Inr None, st\<lparr>ss_tool_calls := (ss_tool_calls st)(index \<mapsto> \<lparr>bd_id = i, bd_name = n, bd_arguments_json = []\<rparr>)\<rparr>)"
| "process_stream_event js (ContentBlockDelta index (DeltaText t)) st =
     (Inr (Some (TextDelta t)), st\<lparr>ss_accumulated_content := ss_accumulated_content st @ t\<rparr>)"
| "process_stream_event js (ContentBlockDelta index (DeltaInputJson p)) st = (case ss_tool_calls st index of
     Some b \<Rightarrow> (Inr (Some (ToolCallDelta (bd_id b) (bd_name b) p)),
       st\<lparr>ss_tool_calls := (ss_tool_calls st)(index \<mapsto> b\<lparr>bd_arguments_json := bd_arguments_json b @ p\<rparr>)\<rparr>)
   | None \<Rightarrow> (Inr None, st))"
| "process_stream_event js (ContentBlockStop index) st = (case ss_tool_calls st index of
     Some b \<Rightarrow> (Inr None, st\<lparr>ss_tool_calls := (ss_tool_calls st)(index := None),
       ss_accumulated_tool_calls := ss_accumulated_tool_calls st @ [builder_tool_call js b]\<rparr>)
   | None \<Rightarrow> (Inr None, st))"
| "process_stream_event js (MessageDelta reason usage) st =
     (let st' = (case reason of Some r \<Rightarrow> st\<lparr>ss_stop_reason := Some r\<rparr> | None \<Rightarrow> st)
      in (Inr None, (case usage of Some n \<Rightarrow> st'\<lparr>ss_output_tokens := n\<rparr> | None \<Rightarrow> st')))"
| "process_stream_event js MessageStop st =
     (Inr (Some (LlmCompleted (completed_response st))),
      st\<lparr>ss_accumulated_content := [], ss_accumulated_tool_calls := [], ss_stop_reason := None\<rparr>)"
| "process_stream_event js Ping st = (Inr None, st)"
| "process_stream_event js (StreamError e) st = (Inl (LlmApi (se_message e)), st)"

section \<open>Framing\<close>

definition event_separator :: string where
  "event_separator = [CHR 0x0A, CHR 0x0A]"

text \<open>The data of an event: the last line that starts with \<^verbatim>\<open>data: \<close>, trimmed.\<close>

definition event_data :: "string \<Rightarrow> string option" where
  "event_data event_text = foldl (\<lambda>data line. case strip_prefix line ''data: '' of
     Some v \<Rightarrow> Some (str_trim v) | None \<Rightarrow> data) None (str_lines event_text)"

definition parse_event_text ::
  "'j json_text \<Rightarrow> string \<Rightarrow> 'j stream_state \<Rightarrow> (llm_error + 'j llm_event option) \<times> 'j stream_state" where
  "parse_event_text js event_text st = (case event_data event_text of
     None \<Rightarrow> (Inr None, st)
   | Some data \<Rightarrow> (case jt_event js data of
       None \<Rightarrow> (Inr None, st)
     | Some ev \<Rightarrow> process_stream_event js ev st))"

definition try_parse_event ::
  "'j json_text \<Rightarrow> string \<Rightarrow> 'j stream_state
    \<Rightarrow> ((llm_error + 'j llm_event option) \<times> string \<times> 'j stream_state) option" where
  "try_parse_event js buffer st = (case str_find buffer event_separator of
     None \<Rightarrow> None
   | Some event_end \<Rightarrow>
       (let (r, st') = parse_event_text js (take event_end buffer) st
        in Some (r, drop (event_end + 2) buffer, st')))"

record 'j sse_stream =
  sx_inner :: "(string + string) list"
  sx_buffer :: string
  sx_state :: "'j stream_state"
  sx_finished :: bool

definition sse_stream_new :: "(string + string) list \<Rightarrow> 'j sse_stream" where
  "sse_stream_new inner = \<lparr>sx_inner = inner, sx_buffer = [], sx_state = stream_state_default, sx_finished = False\<rparr>"

fun is_final :: "'j llm_event \<Rightarrow> bool" where
  "is_final (LlmCompleted r) = True"
| "is_final (LlmFailed e) = True"
| "is_final _ = False"

lemma try_parse_event_shorter: "try_parse_event js buffer st = Some (r, buffer', st') \<Longrightarrow> length buffer' < length buffer"
  by (auto simp: try_parse_event_def event_separator_def dest!: str_find_bound split: option.splits prod.splits)

text \<open>The loop of \<^verbatim>\<open>poll_next\<close>.\<close>

function poll_loop ::
  "'j json_text \<Rightarrow> (string + string) list \<Rightarrow> string \<Rightarrow> 'j stream_state \<Rightarrow> 'j llm_event option \<times> 'j sse_stream" where
  "poll_loop js inner buffer st = (case try_parse_event js buffer st of
     Some (Inr (Some e), buffer', st') \<Rightarrow>
       (Some e, \<lparr>sx_inner = inner, sx_buffer = buffer', sx_state = st', sx_finished = is_final e\<rparr>)
   | Some (Inr None, buffer', st') \<Rightarrow> poll_loop js inner buffer' st'
   | Some (Inl err, buffer', st') \<Rightarrow>
       (Some (LlmFailed err), \<lparr>sx_inner = inner, sx_buffer = buffer', sx_state = st', sx_finished = True\<rparr>)
   | None \<Rightarrow> (case inner of
       Inr bytes # rest \<Rightarrow> poll_loop js rest (buffer @ from_utf8_lossy bytes) st
     | Inl e # rest \<Rightarrow>
         (Some (LlmFailed (LlmHttp e)), \<lparr>sx_inner = rest, sx_buffer = buffer, sx_state = st, sx_finished = True\<rparr>)
     | [] \<Rightarrow> (None, \<lparr>sx_inner = [], sx_buffer = buffer, sx_state = st, sx_finished = True\<rparr>)))"
  by pat_completeness auto
termination
  by (relation "measures [\<lambda>(js, inner, buffer, st). length inner, \<lambda>(js, inner, buffer, st). length buffer]")
    (auto dest: try_parse_event_shorter)

declare poll_loop.simps [simp del]

definition poll_next :: "'j json_text \<Rightarrow> 'j sse_stream \<Rightarrow> 'j llm_event option \<times> 'j sse_stream" where
  "poll_next js sx =
     (if sx_finished sx then (None, sx) else poll_loop js (sx_inner sx) (sx_buffer sx) (sx_state sx))"

section \<open>Everything a stream yields\<close>

lemma poll_loop_progress:
  "poll_loop js inner buffer st = (Some e, sx) \<Longrightarrow>
   sx_finished sx = is_final e
   \<and> (is_final e \<or> length (sx_inner sx) < length inner
      \<or> length (sx_inner sx) = length inner \<and> length (sx_buffer sx) < length buffer)"
proof (induction js inner buffer st rule: poll_loop.induct)
  case (1 js inner buffer st)
  show ?case
  proof (cases "try_parse_event js buffer st")
    case None
    then show ?thesis using 1
      by (auto simp: poll_loop.simps [of js inner buffer st] split: sum.splits list.splits)
  next
    case (Some p)
    then obtain r buffer' st' where p: "try_parse_event js buffer st = Some (r, buffer', st')" by (cases p) auto
    note shorter = try_parse_event_shorter [OF p]
    show ?thesis
    proof (cases "r = Inr None")
      case True
      then have "poll_loop js inner buffer' st' = (Some e, sx)"
        using 1(3) p by (simp add: poll_loop.simps [of js inner buffer st])
      then have "sx_finished sx = is_final e
          \<and> (is_final e \<or> length (sx_inner sx) < length inner
             \<or> length (sx_inner sx) = length inner \<and> length (sx_buffer sx) < length buffer')"
        using 1(2) [OF p] True by auto
      then show ?thesis using shorter by auto
    next
      case False
      then show ?thesis using 1(3) p shorter
        by (auto simp: poll_loop.simps [of js inner buffer st] split: sum.splits option.splits)
    qed
  qed
qed

function sse_events :: "'j json_text \<Rightarrow> 'j sse_stream \<Rightarrow> 'j llm_event list" where
  "sse_events js sx = (case poll_next js sx of
     (None, sx') \<Rightarrow> []
   | (Some e, sx') \<Rightarrow> e # sse_events js sx')"
  by pat_completeness auto
termination
proof (relation "measures [\<lambda>(js, sx). if sx_finished sx then 0 else 1, \<lambda>(js, sx). length (sx_inner sx),
    \<lambda>(js, sx). length (sx_buffer sx)]", goal_cases)
  case (2 js sx x sx' e)
  then show ?case
    using poll_loop_progress [of js "sx_inner sx" "sx_buffer sx" "sx_state sx" e sx']
    by (auto simp: poll_next_def split: if_splits)
qed simp

declare sse_events.simps [simp del]

text \<open>Specification: the events of the complete frames of a text.\<close>

function drain :: "'j json_text \<Rightarrow> string \<Rightarrow> 'j stream_state \<Rightarrow> 'j llm_event list \<times> string \<times> 'j stream_state \<times> bool" where
  "drain js buffer st = (case try_parse_event js buffer st of
     None \<Rightarrow> ([], buffer, st, False)
   | Some (Inr (Some e), buffer', st') \<Rightarrow>
       (if is_final e then ([e], buffer', st', True)
        else case drain js buffer' st' of (es, rest) \<Rightarrow> (e # es, rest))
   | Some (Inr None, buffer', st') \<Rightarrow> drain js buffer' st'
   | Some (Inl err, buffer', st') \<Rightarrow> ([LlmFailed err], buffer', st', True))"
  by pat_completeness auto
termination
  by (relation "measure (\<lambda>(js, buffer, st). length buffer)") (auto dest: try_parse_event_shorter)

declare drain.simps [simp del]

abbreviation open_stream :: "(string + string) list \<Rightarrow> string \<Rightarrow> 'j stream_state \<Rightarrow> 'j sse_stream" where
  "open_stream inner buffer st \<equiv> \<lparr>sx_inner = inner, sx_buffer = buffer, sx_state = st, sx_finished = False\<rparr>"

lemma sse_events_poll:
  "sse_events js (open_stream inner buffer st) = (case poll_loop js inner buffer st of
     (None, sx') \<Rightarrow> [] | (Some e, sx') \<Rightarrow> e # sse_events js sx')"
  by (subst sse_events.simps) (simp add: poll_next_def)

lemma sse_events_finished: "sx_finished sx \<Longrightarrow> sse_events js sx = []"
  by (subst sse_events.simps) (simp add: poll_next_def)

lemma sse_events_drain:
  "sse_events js (open_stream inner buffer st) = (case drain js buffer st of (es, buffer', st', done) \<Rightarrow>
     es @ (if done then [] else case inner of
       [] \<Rightarrow> []
     | Inl e # rest \<Rightarrow> [LlmFailed (LlmHttp e)]
     | Inr bytes # rest \<Rightarrow> sse_events js (open_stream rest (buffer' @ from_utf8_lossy bytes) st')))"
proof (induction js buffer st rule: drain.induct)
  case (1 js buffer st)
  note poll = sse_events_poll [of js inner buffer st] poll_loop.simps [of js inner buffer st]
  show ?case
  proof (cases "try_parse_event js buffer st")
    case None
    then show ?thesis
      by (auto simp: poll drain.simps [of js buffer st] sse_events_poll sse_events_finished split: list.split sum.split)
  next
    case (Some p)
    then obtain r buffer' st' where p: "try_parse_event js buffer st = Some (r, buffer', st')" by (cases p) auto
    show ?thesis
    proof (cases r)
      case (Inl err)
      then show ?thesis by (simp add: poll drain.simps [of js buffer st] p sse_events_finished)
    next
      case (Inr o')
      show ?thesis
      proof (cases o')
        case None
        then show ?thesis using 1 Inr p by (simp add: poll drain.simps [of js buffer st] sse_events_poll)
      next
        case (Some e)
        then show ?thesis using 1 Inr p
          by (cases "is_final e") (auto simp: poll drain.simps [of js buffer st] sse_events_finished split: prod.splits)
      qed
    qed
  qed
qed

lemma str_find_append: "str_find s p = Some k \<Longrightarrow> str_find (s @ t) p = Some k"
proof (induction s arbitrary: k)
  case (Cons c s)
  show ?case
  proof (cases "starts_with (c # s) p")
    case True
    then have "starts_with (c # s @ t) p" using prefix_prefix [of p "c # s" t] by (simp add: starts_with_iff_prefix)
    then show ?thesis using True Cons.prems by simp
  next
    case False
    then obtain j where j: "str_find s p = Some j" "k = Suc j" using Cons.prems by auto
    have "length p \<le> length s" using str_find_bound [OF j(1)] by simp
    then have "\<not> starts_with (c # s @ t) p" using False take_append [of "length p" "c # s" t] by (simp add: starts_with_def)
    then show ?thesis using Cons.IH [OF j(1)] j by simp
  qed
next
  case Nil
  then show ?case by (cases t) (auto simp: starts_with_def split: if_splits)
qed

lemma try_parse_event_append:
  "try_parse_event js b st = Some (r, b', st') \<Longrightarrow> try_parse_event js (b @ x) st = Some (r, b' @ x, st')"
proof -
  assume a: "try_parse_event js b st = Some (r, b', st')"
  then obtain k where k: "str_find b event_separator = Some k" by (auto simp: try_parse_event_def split: option.splits)
  then have "k + 2 \<le> length b" using str_find_bound [OF k] by (simp add: event_separator_def)
  then show ?thesis using a k str_find_append [OF k, of x]
    by (auto simp: try_parse_event_def split: prod.splits)
qed

lemma drain_append:
  "drain js (b @ x) st = (case drain js b st of (es, b', st', done) \<Rightarrow>
     if done then (es, b' @ x, st', True)
     else case drain js (b' @ x) st' of (es', rest) \<Rightarrow> (es @ es', rest))"
proof (induction js b st rule: drain.induct)
  case (1 js b st)
  show ?case
  proof (cases "try_parse_event js b st")
    case None
    then show ?thesis by (simp add: drain.simps [of js b st])
  next
    case (Some p)
    then obtain r b' st' where p: "try_parse_event js b st = Some (r, b', st')" by (cases p) auto
    note q = try_parse_event_append [OF p, of x]
    note d = drain.simps [of js b st] drain.simps [of js "b @ x" st]
    show ?thesis
    proof (cases r)
      case (Inl err)
      then show ?thesis by (simp add: d p q)
    next
      case (Inr o')
      show ?thesis
      proof (cases o')
        case None
        then show ?thesis using 1 Inr p q by (simp add: d)
      next
        case (Some e)
        then show ?thesis using 1 Inr p q by (cases "is_final e") (auto simp: d split: prod.splits if_splits)
      qed
    qed
  qed
qed

text \<open>How the transport cuts the text into chunks does not matter, as long as no character is cut.\<close>

lemma sse_events_chunks:
  "list_all utf8_valid cs \<Longrightarrow>
   sse_events js (open_stream (map Inr cs) b st) = fst (drain js (b @ concat cs) st)"
proof (induction cs arbitrary: b st)
  case Nil
  then show ?case by (auto simp: sse_events_drain split: prod.splits)
next
  case (Cons c cs)
  obtain es b' st' d where d: "drain js b st = (es, b', st', d)" by (cases "drain js b st") auto
  show ?case
    using Cons drain_append [of js b "c @ concat cs" st]
    by (auto simp: sse_events_drain [of js "_ # _"] d from_utf8_lossy_valid split: prod.splits)
qed

section \<open>The completed message is the text shown\<close>

fun delta_text :: "'j llm_event \<Rightarrow> string" where
  "delta_text (TextDelta t) = t"
| "delta_text _ = []"

lemma process_stream_event_content:
  "process_stream_event js ev st = (Inr None, st') \<Longrightarrow> ss_accumulated_content st' = ss_accumulated_content st"
  "process_stream_event js ev st = (Inr (Some e), st') \<Longrightarrow> \<not> is_final e \<Longrightarrow>
     ss_accumulated_content st' = ss_accumulated_content st @ delta_text e"
  "process_stream_event js ev st = (Inr (Some (LlmCompleted r)), st') \<Longrightarrow>
     msg_content (resp_message r) = ss_accumulated_content st"
  by (cases "(js, ev, st)" rule: process_stream_event.cases;
      auto simp: completed_response_def message_assistant_def Let_def split: option.splits if_splits)+

lemma try_parse_event_content:
  "try_parse_event js b st = Some (Inr None, b', st') \<Longrightarrow> ss_accumulated_content st' = ss_accumulated_content st"
  "try_parse_event js b st = Some (Inr (Some e), b', st') \<Longrightarrow> \<not> is_final e \<Longrightarrow>
     ss_accumulated_content st' = ss_accumulated_content st @ delta_text e"
  "try_parse_event js b st = Some (Inr (Some (LlmCompleted r)), b', st') \<Longrightarrow>
     msg_content (resp_message r) = ss_accumulated_content st"
  by (auto simp: try_parse_event_def parse_event_text_def dest: process_stream_event_content
      split: option.splits prod.splits)

lemma poll_loop_content:
  "poll_loop js inner buffer st = (Some e, sx) \<Longrightarrow>
   (\<not> is_final e \<longrightarrow> ss_accumulated_content (sx_state sx) = ss_accumulated_content st @ delta_text e)
   \<and> (\<forall>r. e = LlmCompleted r \<longrightarrow> msg_content (resp_message r) = ss_accumulated_content st)"
proof (induction js inner buffer st rule: poll_loop.induct)
  case (1 js inner buffer st)
  show ?case
  proof (cases "try_parse_event js buffer st")
    case None
    then show ?thesis using 1
      by (auto simp: poll_loop.simps [of js inner buffer st] split: sum.splits list.splits)
  next
    case (Some p)
    then obtain r buffer' st' where p: "try_parse_event js buffer st = Some (r, buffer', st')" by (cases p) auto
    show ?thesis
    proof (cases "r = Inr None")
      case True
      then have "poll_loop js inner buffer' st' = (Some e, sx)"
        using 1(3) p by (simp add: poll_loop.simps [of js inner buffer st])
      moreover have "ss_accumulated_content st' = ss_accumulated_content st"
        using p True by (auto dest: try_parse_event_content)
      ultimately show ?thesis using 1(2) [OF p] True by auto
    next
      case False
      then show ?thesis using 1(3) p
        by (auto simp: poll_loop.simps [of js inner buffer st] dest: try_parse_event_content
            split: sum.splits option.splits)
    qed
  qed
qed

lemma sse_events_content:
  "\<not> sx_finished sx \<Longrightarrow> sse_events js sx = es @ [e] \<Longrightarrow>
   list_all (\<lambda>x. \<not> is_final x) es
   \<and> (\<forall>r. e = LlmCompleted r \<longrightarrow>
        msg_content (resp_message r) = ss_accumulated_content (sx_state sx) @ concat (map delta_text es))"
proof (induction es arbitrary: sx)
  case Nil
  then obtain sx' where "poll_loop js (sx_inner sx) (sx_buffer sx) (sx_state sx) = (Some e, sx')"
    by (auto simp: sse_events.simps [of js sx] poll_next_def split: prod.splits option.splits)
  then show ?case using poll_loop_content by fastforce
next
  case (Cons x es)
  then obtain sx' where x: "poll_loop js (sx_inner sx) (sx_buffer sx) (sx_state sx) = (Some x, sx')"
    and rest: "sse_events js sx' = es @ [e]"
    by (auto simp: sse_events.simps [of js sx] poll_next_def split: prod.splits option.splits)
  have "\<not> sx_finished sx'" using rest sse_events_finished by fastforce
  moreover from this have "\<not> is_final x" using poll_loop_progress [OF x] by simp
  ultimately show ?case using Cons.IH [OF _ rest] poll_loop_content [OF x] by simp
qed

text \<open>Every completed response of the decoder is made by \<^verbatim>\<open>completed_response\<close>.\<close>

definition decoded_response :: "'j llm_event \<Rightarrow> bool" where
  "decoded_response e \<longleftrightarrow> (case e of LlmCompleted r \<Rightarrow> r \<in> range completed_response | _ \<Rightarrow> True)"

lemma try_parse_event_decoded: "try_parse_event js b st = Some (Inr (Some e), b', st') \<Longrightarrow> decoded_response e"
proof -
  have "process_stream_event js ev st = (Inr (Some e), st') \<Longrightarrow> decoded_response e" for ev
    by (cases "(js, ev, st)" rule: process_stream_event.cases) (auto simp: decoded_response_def Let_def split: option.splits if_splits)
  then show "try_parse_event js b st = Some (Inr (Some e), b', st') \<Longrightarrow> decoded_response e"
    by (auto simp: try_parse_event_def parse_event_text_def split: option.splits prod.splits)
qed

lemma poll_loop_decoded: "poll_loop js inner buffer st = (Some e, sx) \<Longrightarrow> decoded_response e"
proof (induction js inner buffer st rule: poll_loop.induct)
  case (1 js inner buffer st)
  show ?case
  proof (cases "try_parse_event js buffer st")
    case None
    with 1 show ?thesis
      by (auto simp: poll_loop.simps [of js inner buffer st] decoded_response_def split: sum.splits list.splits)
  next
    case (Some p)
    then obtain r buffer' st' where p: "try_parse_event js buffer st = Some (r, buffer', st')" by (cases p) auto
    show ?thesis
    proof (cases "r = Inr None")
      case True
      with 1(2) [OF p] 1(3) p show ?thesis by (simp add: poll_loop.simps [of js inner buffer st])
    next
      case False
      with 1(3) p show ?thesis
        by (auto simp: poll_loop.simps [of js inner buffer st] decoded_response_def [of "LlmFailed _"] dest: try_parse_event_decoded
            split: sum.splits option.splits)
    qed
  qed
qed

lemma sse_events_decoded: "e \<in> set (sse_events js sx) \<Longrightarrow> decoded_response e"
proof (induction js sx rule: sse_events.induct)
  case (1 js sx)
  then show ?case
    by (auto simp: sse_events.simps [of js sx] poll_next_def dest: poll_loop_decoded poll_loop_decoded [OF sym] split: prod.splits option.splits if_splits)
qed

section \<open>Frames\<close>

text \<open>An event as the API sends it, with \<open>render\<close> the JSON of the event.\<close>

definition sse_frame :: "(stream_event \<Rightarrow> string) \<Rightarrow> (stream_event \<Rightarrow> string) \<Rightarrow> stream_event \<Rightarrow> string" where
  "sse_frame name render ev = ''event: '' @ name ev @ [CHR 0x0A] @ ''data: '' @ render ev @ event_separator"

text \<open>What the decoder needs of the JSON: it reads back, is on one line and has no surrounding white space.\<close>

definition renders :: "'j json_text \<Rightarrow> (stream_event \<Rightarrow> string) \<Rightarrow> (stream_event \<Rightarrow> string) \<Rightarrow> stream_event \<Rightarrow> bool" where
  "renders js name render ev \<longleftrightarrow> jt_event js (render ev) = Some ev \<and> CHR 0x0A \<notin> set (render ev)
     \<and> str_trim (render ev) = render ev \<and> CHR 0x0A \<notin> set (name ev)"

lemma str_find_line:
  "CHR 0x0A \<notin> set l \<Longrightarrow> str_find (l @ s) event_separator = map_option (\<lambda>k. length l + k) (str_find s event_separator)"
proof (induction l)
  case (Cons c l)
  then have "\<not> starts_with (c # l @ s) event_separator" by (auto simp: starts_with_def event_separator_def)
  then show ?case using Cons by (simp add: option.map_comp comp_def)
next
  case Nil
  show ?case by (cases "str_find s event_separator") simp_all
qed

lemma str_find_frame:
  assumes "CHR 0x0A \<notin> set l1" "CHR 0x0A \<notin> set l2" "l2 \<noteq> []"
  shows "str_find (l1 @ CHR 0x0A # l2 @ event_separator @ s) event_separator = Some (length l1 + Suc (length l2))"
proof -
  have sep: "str_find (event_separator @ s) event_separator = Some 0"
    by (simp add: event_separator_def starts_with_def)
  have "str_find (CHR 0x0A # l2 @ event_separator @ s) event_separator =
      map_option Suc (str_find (l2 @ event_separator @ s) event_separator)"
    using assms(2,3) by (cases l2) (auto simp: starts_with_def event_separator_def)
  then show ?thesis using assms by (simp add: str_find_line sep)
qed

lemma event_data_frame:
  assumes "CHR 0x0A \<notin> set n" "CHR 0x0A \<notin> set d" "str_trim d = d"
  shows "event_data ((''event: '' @ n) @ CHR 0x0A # ''data: '' @ d) = Some d"
proof -
  have "str_split CHR 0x0A ((''event: '' @ n) @ CHR 0x0A # ''data: '' @ d) = [''event: '' @ n, ''data: '' @ d]"
    using assms(1,2) by (subst str_split_append) (simp_all add: str_split_word)
  then have ls: "str_lines ((''event: '' @ n) @ CHR 0x0A # ''data: '' @ d) = [strip_cr (''event: '' @ n), ''data: '' @ d]"
    by (simp add: str_lines_def)
  have "strip_prefix (strip_cr (''event: '' @ n)) ''data: '' = None"
    by (simp add: strip_prefix_def starts_with_def strip_cr_def)
  moreover have "strip_prefix (''data: '' @ d) ''data: '' = Some d"
    by (simp add: strip_prefix_def starts_with_def)
  ultimately show ?thesis unfolding event_data_def ls using assms(3) by simp
qed

lemma try_parse_frame:
  assumes "renders js name render ev"
  shows "try_parse_event js (sse_frame name render ev @ s) st =
    (let (r, st') = process_stream_event js ev st in Some (r, s, st'))"
proof -
  define l1 l2 where "l1 = ''event: '' @ name ev" and "l2 = ''data: '' @ render ev"
  define x where "x = l1 @ CHR 0x0A # l2"
  have eq: "sse_frame name render ev @ s = x @ event_separator @ s" by (simp add: sse_frame_def x_def l1_def l2_def)
  have "CHR 0x0A \<notin> set l1" "CHR 0x0A \<notin> set l2" "l2 \<noteq> []" using assms by (auto simp: renders_def l1_def l2_def)
  then have find: "str_find (x @ event_separator @ s) event_separator = Some (length x)"
    using str_find_frame [of l1 l2 s] by (simp add: x_def)
  have "event_data x = Some (render ev)"
    unfolding x_def l1_def l2_def using assms by (intro event_data_frame) (auto simp: renders_def)
  moreover have "drop (length x + 2) (x @ event_separator @ s) = s" by (simp add: event_separator_def)
  ultimately show ?thesis
    unfolding eq using find assms by (simp add: try_parse_event_def parse_event_text_def renders_def)
qed

text \<open>Specification: a list of stream events, processed one by one up to the final one.\<close>

fun process_all :: "'j json_text \<Rightarrow> stream_event list \<Rightarrow> 'j stream_state \<Rightarrow> 'j llm_event list" where
  "process_all js [] st = []"
| "process_all js (ev # evs) st = (case process_stream_event js ev st of
     (Inl err, st') \<Rightarrow> [LlmFailed err]
   | (Inr None, st') \<Rightarrow> process_all js evs st'
   | (Inr (Some e), st') \<Rightarrow> (if is_final e then [e] else e # process_all js evs st'))"

lemma drain_frames:
  "list_all (renders js name render) evs \<Longrightarrow>
   fst (drain js (concat (map (sse_frame name render) evs)) st) = process_all js evs st"
proof (induction evs arbitrary: st)
  case Nil
  then show ?case by (simp add: drain.simps [of js "[]"] try_parse_event_def event_separator_def)
next
  case (Cons ev evs)
  obtain r st' where p: "process_stream_event js ev st = (r, st')" by fastforce
  define body where "body = concat (map (sse_frame name render) (ev # evs))"
  have t: "try_parse_event js body st = Some (r, concat (map (sse_frame name render) evs), st')"
    using Cons.prems by (simp add: try_parse_frame p body_def)
  have "fst (drain js body st) = process_all js (ev # evs) st"
    using Cons.IH [of st'] Cons.prems p t
    by (auto simp: drain.simps [of js body st] split: sum.splits option.splits prod.splits)
  then show ?case by (simp add: body_def)
qed

section \<open>Messages\<close>

text \<open>A message as a list of content blocks, each with its first text or its tool, and its deltas.\<close>

datatype block =
  TextBlock string "string list"
| ToolBlock string string "string list"

fun block_events :: "nat \<Rightarrow> block \<Rightarrow> stream_event list" where
  "block_events k (TextBlock t ds) =
     ContentBlockStart k (BlockText t) # map (\<lambda>d. ContentBlockDelta k (DeltaText d)) ds @ [ContentBlockStop k]"
| "block_events k (ToolBlock i n ds) =
     ContentBlockStart k (BlockToolUse i n) # map (\<lambda>d. ContentBlockDelta k (DeltaInputJson d)) ds @ [ContentBlockStop k]"

fun blocks_events :: "nat \<Rightarrow> block list \<Rightarrow> stream_event list" where
  "blocks_events k [] = []"
| "blocks_events k (b # bs) = block_events k b @ blocks_events (Suc k) bs"

definition message_events :: "message_start_data \<Rightarrow> block list \<Rightarrow> string option \<Rightarrow> u32 option \<Rightarrow> stream_event list" where
  "message_events m bs reason out = MessageStart m # Ping # blocks_events 0 bs @ [MessageDelta reason out, MessageStop]"

fun block_deltas :: "block \<Rightarrow> 'j llm_event list" where
  "block_deltas (TextBlock t ds) = (if t = [] then [] else [TextDelta t]) @ map TextDelta ds"
| "block_deltas (ToolBlock i n ds) = map (ToolCallDelta i n) ds"

fun block_text :: "block \<Rightarrow> string" where
  "block_text (TextBlock t ds) = t @ concat ds"
| "block_text (ToolBlock i n ds) = []"

fun block_calls :: "'j json_text \<Rightarrow> block \<Rightarrow> 'j tool_call list" where
  "block_calls js (TextBlock t ds) = []"
| "block_calls js (ToolBlock i n ds) = [builder_tool_call js \<lparr>bd_id = i, bd_name = n, bd_arguments_json = concat ds\<rparr>]"

definition message_response ::
  "'j json_text \<Rightarrow> message_start_data \<Rightarrow> block list \<Rightarrow> string option \<Rightarrow> u32 option \<Rightarrow> 'j llm_response" where
  "message_response js m bs reason out = \<lparr>resp_message = message_assistant (concat (map block_text bs)),
     resp_tool_calls = concat (map (block_calls js) bs),
     resp_usage = Some \<lparr>usage_input_tokens = unwrap_or (ms_usage m) 0, usage_output_tokens = unwrap_or out 0\<rparr>,
     resp_finish_reason = reason\<rparr>"

lemma process_all_text_deltas:
  "process_all js (map (\<lambda>d. ContentBlockDelta k (DeltaText d)) ds @ evs) st =
     map TextDelta ds @ process_all js evs (st\<lparr>ss_accumulated_content := ss_accumulated_content st @ concat ds\<rparr>)"
  by (induction ds arbitrary: st) simp_all

lemma process_all_json_deltas:
  "ss_tool_calls st k = Some b \<Longrightarrow>
   process_all js (map (\<lambda>d. ContentBlockDelta k (DeltaInputJson d)) ds @ evs) st =
     map (ToolCallDelta (bd_id b) (bd_name b)) ds @ process_all js evs
       (st\<lparr>ss_tool_calls := (ss_tool_calls st)(k \<mapsto> b\<lparr>bd_arguments_json := bd_arguments_json b @ concat ds\<rparr>)\<rparr>)"
proof (induction ds arbitrary: st b)
  case Nil
  then show ?case by (simp add: fun_upd_idem)
next
  case (Cons d ds)
  let ?b = "b\<lparr>bd_arguments_json := bd_arguments_json b @ d\<rparr>"
  show ?case
    using Cons.prems Cons.IH [of "st\<lparr>ss_tool_calls := (ss_tool_calls st)(k \<mapsto> ?b)\<rparr>" ?b] by (simp cong: if_cong)
qed

lemma process_all_block:
  assumes "ss_tool_calls st = Map.empty"
  shows "process_all js (block_events k b @ evs) st = block_deltas b @ process_all js evs
    (st\<lparr>ss_accumulated_content := ss_accumulated_content st @ block_text b,
       ss_accumulated_tool_calls := ss_accumulated_tool_calls st @ block_calls js b\<rparr>)"
proof (cases b)
  case (TextBlock t ds)
  then show ?thesis using assms by (simp add: process_all_text_deltas)
next
  case (ToolBlock i n ds)
  then show ?thesis
    using assms by (cases st)
      (simp add: process_all_json_deltas [where b = "\<lparr>bd_id = i, bd_name = n, bd_arguments_json = []\<rparr>"])
qed

lemma process_all_blocks:
  "ss_tool_calls st = Map.empty \<Longrightarrow>
   process_all js (blocks_events k bs @ evs) st = concat (map block_deltas bs) @ process_all js evs
     (st\<lparr>ss_accumulated_content := ss_accumulated_content st @ concat (map block_text bs),
        ss_accumulated_tool_calls := ss_accumulated_tool_calls st @ concat (map (block_calls js) bs)\<rparr>)"
  by (induction bs arbitrary: st k) (simp_all add: process_all_block)

lemma process_all_message:
  "process_all js (message_events m bs reason out) stream_state_default =
     concat (map block_deltas bs) @ [LlmCompleted (message_response js m bs reason out)]"
  by (cases "ms_usage m"; cases reason; cases out)
    (simp_all add: message_events_def stream_state_default_def process_all_blocks completed_response_def
      message_response_def unwrap_or_def)

lemma sse_events_message:
  assumes "list_all utf8_valid chunks"
    and "concat chunks = concat (map (sse_frame name render) (message_events m bs reason out))"
    and "list_all (renders js name render) (message_events m bs reason out)"
  shows "sse_events js (sse_stream_new (map Inr chunks)) =
    concat (map block_deltas bs) @ [LlmCompleted (message_response js m bs reason out)]"
  using sse_events_chunks [OF assms(1), of js "[]" stream_state_default] drain_frames [OF assms(3)]
  by (simp add: sse_stream_new_def assms(2) process_all_message)

section \<open>Requests and responses of the API\<close>

record 'j anthropic_tool_use =
  au_id :: string
  au_name :: string
  au_input :: 'j

record anthropic_tool_result =
  ar_tool_use_id :: string
  ar_content :: string
  ar_is_error :: "bool option"

datatype 'j anthropic_content =
  ContentText string
| ContentToolUse "'j anthropic_tool_use"
| ContentToolResult anthropic_tool_result

datatype 'j anthropic_message_content =
  PlainText string
| ContentBlocks "'j anthropic_content list"

record 'j anthropic_message =
  am_role :: string
  am_content :: "'j anthropic_message_content"

record 'j anthropic_tool =
  at_name :: string
  at_description :: string
  at_input_schema :: 'j

record 'j anthropic_request =
  aq_model :: string
  aq_messages :: "'j anthropic_message list"
  aq_max_tokens :: u32
  aq_system :: "string option"
  aq_temperature :: "f32 option"
  aq_tools :: "'j anthropic_tool list option"
  aq_stream :: "bool option"

definition tool_use_of :: "'j tool_call \<Rightarrow> 'j anthropic_content" where
  "tool_use_of tc = ContentToolUse \<lparr>au_id = tc_id tc, au_name = tc_tool_name tc, au_input = tc_arguments_json tc\<rparr>"

text \<open>The loop over the messages: the system prompt and the messages so far, and one more.\<close>

definition convert_message ::
  "string option \<times> 'j anthropic_message list \<Rightarrow> 'j message \<Rightarrow> string option \<times> 'j anthropic_message list" where
  "convert_message acc msg = (case acc of (system, messages) \<Rightarrow> (case msg_role msg of
     RSystem \<Rightarrow> (Some (msg_content msg), messages)
   | RUser \<Rightarrow> (system, messages @ [\<lparr>am_role = ''user'', am_content = PlainText (msg_content msg)\<rparr>])
   | RAssistant \<Rightarrow>
       if msg_tool_calls msg = []
       then (system, messages @ [\<lparr>am_role = ''assistant'', am_content = PlainText (msg_content msg)\<rparr>])
       else (system, messages @ [\<lparr>am_role = ''assistant'', am_content = ContentBlocks
              ((if msg_content msg \<noteq> [] then [ContentText (msg_content msg)] else [])
               @ map tool_use_of (msg_tool_calls msg))\<rparr>])
   | RTool \<Rightarrow> (case msg_tool_call_id msg of
       Some i \<Rightarrow> (system, messages @ [\<lparr>am_role = ''user'', am_content = ContentBlocks
         [ContentToolResult \<lparr>ar_tool_use_id = i, ar_content = msg_content msg, ar_is_error = None\<rparr>]\<rparr>])
     | None \<Rightarrow> (system, messages))))"

definition anthropic_request_of :: "'j llm_request \<Rightarrow> 'j anthropic_request" where
  "anthropic_request_of req =
     (let (system, messages) = foldl convert_message (None, []) (req_messages req)
      in \<lparr>aq_model = req_model req, aq_messages = messages,
          aq_max_tokens = unwrap_or (req_max_tokens req) 4096, aq_system = system,
          aq_temperature = req_temperature req,
          aq_tools = (if req_tools req = [] then None
            else Some (map (\<lambda>t. \<lparr>at_name = td_name t, at_description = td_description t,
                                 at_input_schema = td_input_schema t\<rparr>) (req_tools req))),
          aq_stream = None\<rparr>)"

datatype 'j anthropic_response_content =
  ResponseText string
| ResponseToolUse string string 'j

record 'j anthropic_response =
  an_id :: string
  an_response_type :: string
  an_role :: string
  an_content :: "'j anthropic_response_content list"
  an_model :: string
  an_stop_reason :: "string option"
  an_input_tokens :: u32
  an_output_tokens :: u32

fun collect_block :: "string \<times> 'j tool_call list \<Rightarrow> 'j anthropic_response_content \<Rightarrow> string \<times> 'j tool_call list" where
  "collect_block (content, calls) (ResponseText t) = (content @ t, calls)"
| "collect_block (content, calls) (ResponseToolUse i n v) =
     (content, calls @ [\<lparr>tc_id = i, tc_tool_name = n, tc_arguments_json = v\<rparr>])"

definition llm_response_of :: "'j anthropic_response \<Rightarrow> 'j llm_response" where
  "llm_response_of r =
     (let (content, calls) = foldl collect_block ([], []) (an_content r)
      in \<lparr>resp_message = message_assistant content, resp_tool_calls = calls,
          resp_usage = Some \<lparr>usage_input_tokens = an_input_tokens r, usage_output_tokens = an_output_tokens r\<rparr>,
          resp_finish_reason = an_stop_reason r\<rparr>)"

section \<open>Streamed and whole responses agree\<close>

text \<open>The content block of the whole response that a streamed block adds up to.\<close>

fun block_content :: "'j json_text \<Rightarrow> block \<Rightarrow> 'j anthropic_response_content" where
  "block_content js (TextBlock t ds) = ResponseText (t @ concat ds)"
| "block_content js (ToolBlock i n ds) = ResponseToolUse i n
     (builder_arguments js \<lparr>bd_id = i, bd_name = n, bd_arguments_json = concat ds\<rparr>)"

lemma collect_block_contents:
  "foldl collect_block (content, calls) (map (block_content js) bs) =
     (content @ concat (map block_text bs), calls @ concat (map (block_calls js) bs))"
proof (induction bs arbitrary: content calls)
  case (Cons b bs)
  then show ?case by (cases b) (simp_all add: builder_tool_call_def)
qed simp

lemma whole_response:
  "llm_response_of \<lparr>an_id = i, an_response_type = ty, an_role = ro, an_content = map (block_content js) bs,
     an_model = md, an_stop_reason = reason, an_input_tokens = unwrap_or (ms_usage m) 0,
     an_output_tokens = unwrap_or out 0\<rparr> = message_response js m bs reason out"
  by (simp add: llm_response_of_def message_response_def collect_block_contents)

section \<open>Tool results need their calls\<close>

fun message_use_ids :: "'j anthropic_message_content \<Rightarrow> string list" where
  "message_use_ids (PlainText t) = []"
| "message_use_ids (ContentBlocks bs) = List.map_filter (\<lambda>b. case b of ContentToolUse u \<Rightarrow> Some (au_id u) | _ \<Rightarrow> None) bs"

fun message_result_ids :: "'j anthropic_message_content \<Rightarrow> string list" where
  "message_result_ids (PlainText t) = []"
| "message_result_ids (ContentBlocks bs) =
     List.map_filter (\<lambda>b. case b of ContentToolResult r \<Rightarrow> Some (ar_tool_use_id r) | _ \<Rightarrow> None) bs"

definition use_ids :: "'j anthropic_request \<Rightarrow> string list" where
  "use_ids q = concat (map (\<lambda>a. message_use_ids (am_content a)) (aq_messages q))"

definition result_ids :: "'j anthropic_request \<Rightarrow> string list" where
  "result_ids q = concat (map (\<lambda>a. message_result_ids (am_content a)) (aq_messages q))"

definition assistant_call_ids :: "'j message \<Rightarrow> string list" where
  "assistant_call_ids msg = (if msg_role msg = RAssistant then map tc_id (msg_tool_calls msg) else [])"

definition tool_result_id :: "'j message \<Rightarrow> string list" where
  "tool_result_id msg = (if msg_role msg = RTool then case msg_tool_call_id msg of Some i \<Rightarrow> [i] | None \<Rightarrow> [] else [])"

lemma map_filter_tool_use: "List.map_filter (\<lambda>b. case b of ContentToolUse u \<Rightarrow> Some (au_id u) | _ \<Rightarrow> None) (map tool_use_of tcs) = map tc_id tcs"
  "List.map_filter (\<lambda>b. case b of ContentToolResult r \<Rightarrow> Some (ar_tool_use_id r) | _ \<Rightarrow> None) (map tool_use_of tcs) = []"
  by (induction tcs) (simp_all add: tool_use_of_def List.map_filter_simps)

lemma convert_message_ids:
  "concat (map (\<lambda>a. message_use_ids (am_content a)) (snd (convert_message (system, ms) msg))) =
     concat (map (\<lambda>a. message_use_ids (am_content a)) ms) @ assistant_call_ids msg"
  "concat (map (\<lambda>a. message_result_ids (am_content a)) (snd (convert_message (system, ms) msg))) =
     concat (map (\<lambda>a. message_result_ids (am_content a)) ms) @ tool_result_id msg"
  by (cases "msg_role msg"; simp add: convert_message_def assistant_call_ids_def tool_result_id_def
      map_filter_tool_use List.map_filter_simps split: option.split)+

lemma convert_messages_ids:
  "concat (map (\<lambda>a. message_use_ids (am_content a)) (snd (foldl convert_message acc msgs))) =
     concat (map (\<lambda>a. message_use_ids (am_content a)) (snd acc)) @ concat (map assistant_call_ids msgs)"
  "concat (map (\<lambda>a. message_result_ids (am_content a)) (snd (foldl convert_message acc msgs))) =
     concat (map (\<lambda>a. message_result_ids (am_content a)) (snd acc)) @ concat (map tool_result_id msgs)"
proof (induction msgs arbitrary: acc)
  case (Cons msg msgs)
  {
    case 1
    then show ?case using Cons.IH(1) [of "convert_message acc msg"] convert_message_ids(1) [of "fst acc" "snd acc" msg] by simp
  next
    case 2
    then show ?case using Cons.IH(2) [of "convert_message acc msg"] convert_message_ids(2) [of "fst acc" "snd acc" msg] by simp
  }
qed simp_all

lemma request_ids:
  "use_ids (anthropic_request_of req) = concat (map assistant_call_ids (req_messages req))"
  "result_ids (anthropic_request_of req) = concat (map tool_result_id (req_messages req))"
  using convert_messages_ids [of "(None, [])" "req_messages req"]
  by (cases "foldl convert_message (None, []) (req_messages req)";
      simp add: use_ids_def result_ids_def anthropic_request_of_def)+

text \<open>A concrete message for the witnesses: a text block and a call of the \<open>ls\<close> tool, the events written as letters.\<close>

definition demo_start :: message_start_data where
  "demo_start = \<lparr>ms_id = ''m'', ms_model = ''x'', ms_usage = Some 9\<rparr>"

definition demo_blocks :: "block list" where
  "demo_blocks = [TextBlock [] [''Hi''], ToolBlock ''t1'' ''ls'' [''{'', ''}'']]"

definition demo_table :: "(string \<times> stream_event) list" where
  "demo_table = zip [''a'', ''b'', ''c'', ''d'', ''e'', ''f'', ''g'', ''h'', ''i'', ''j'', ''k'']
     (message_events demo_start demo_blocks (Some ''tool_use'') (Some 4))"

definition demo_render :: "stream_event \<Rightarrow> string" where
  "demo_render ev = unwrap_or (map_of (map (\<lambda>(s, e). (e, s)) demo_table) ev) []"

definition demo_json :: "bool json_text" where
  "demo_json = \<lparr>jt_event = map_of demo_table, jt_value = (\<lambda>s. if s = ''{}'' then Some True else None),
     jt_is_null = Not, jt_empty_object = False\<rparr>"

definition demo_body :: string where
  "demo_body = concat (map (sse_frame (\<lambda>_. ''e'') demo_render)
     (message_events demo_start demo_blocks (Some ''tool_use'') (Some 4)))"

lemmas demo_defs = demo_table_def demo_start_def demo_blocks_def message_events_def

lemma demo_renders:
  "list_all (renders demo_json (\<lambda>_. ''e'') demo_render) (message_events demo_start demo_blocks (Some ''tool_use'') (Some 4))"
  by (simp add: demo_json_def demo_render_def demo_defs renders_def unwrap_or_def str_trim_graphic)

lemma demo_chunks_valid: "list_all utf8_valid [take 5 demo_body, drop 5 demo_body]"
  by (simp add: demo_body_def demo_render_def demo_defs unwrap_or_def sse_frame_def event_separator_def utf8_valid_ascii)

lemma demo_chunks_concat: "concat [take 5 demo_body, drop 5 demo_body] =
    concat (map (sse_frame (\<lambda>_. ''e'') demo_render) (message_events demo_start demo_blocks (Some ''tool_use'') (Some 4)))"
  by (simp add: demo_body_def)

section \<open>Properties\<close>

text \<open>
  C11: A streamed message arrives whole, however the network cuts it: the server-sent events of any
  message, cut into chunks at any character boundaries, make the stream yield one delta per text or tool
  argument fragment in order and then one completed response with the concatenated text, the tool calls in
  order with their reassembled arguments, the usage and the stop reason. The JSON reader is assumed only
  to read back the events sent.
\<close>

theorem stream_message_decoded:
  assumes "list_all utf8_valid chunks"
    and "concat chunks = concat (map (sse_frame name render) (message_events m bs reason out))"
    and "list_all (renders js name render) (message_events m bs reason out)"
  shows "sse_events js (sse_stream_new (map Inr chunks)) =
    concat (map block_deltas bs) @ [LlmCompleted (message_response js m bs reason out)]"
  using assms by (rule sse_events_message)

theorem stream_message_decoded_witness:
  "sse_events demo_json (sse_stream_new (map Inr [take 5 demo_body, drop 5 demo_body])) =
     [TextDelta ''Hi'', ToolCallDelta ''t1'' ''ls'' ''{'', ToolCallDelta ''t1'' ''ls'' ''}'',
      LlmCompleted \<lparr>resp_message = message_assistant ''Hi'',
        resp_tool_calls = [\<lparr>tc_id = ''t1'', tc_tool_name = ''ls'', tc_arguments_json = True\<rparr>],
        resp_usage = Some \<lparr>usage_input_tokens = 9, usage_output_tokens = 4\<rparr>,
        resp_finish_reason = Some ''tool_use''\<rparr>]"
  using stream_message_decoded [OF demo_chunks_valid demo_chunks_concat demo_renders]
  by (simp add: message_response_def demo_blocks_def demo_start_def builder_tool_call_def builder_arguments_def
      demo_json_def unwrap_or_def)

text \<open>
  Whatever bytes arrive, nothing follows a final event, and the completed message is exactly the text the
  deltas before it showed.
\<close>

theorem stream_content_agrees:
  assumes "sse_events js (sse_stream_new inner) = es @ [e]"
  shows "list_all (\<lambda>x. \<not> is_final x) es
    \<and> (case e of LlmCompleted r \<Rightarrow> msg_content (resp_message r) = concat (map delta_text es) | _ \<Rightarrow> True)"
proof -
  have "\<not> sx_finished (sse_stream_new inner)" "ss_accumulated_content (sx_state (sse_stream_new inner)) = []"
    by (simp_all add: sse_stream_new_def stream_state_default_def)
  then show ?thesis using sse_events_content [OF _ assms] by (auto split: llm_event.split)
qed

theorem stream_content_agrees_witness:
  "concat (map delta_text ([TextDelta ''Hi'', ToolCallDelta ''t1'' ''ls'' ''{'', ToolCallDelta ''t1'' ''ls'' ''}''] :: bool llm_event list)) = ''Hi''"
proof -
  have "sse_events demo_json (sse_stream_new (map Inr [take 5 demo_body, drop 5 demo_body])) =
    concat (map block_deltas demo_blocks) @ [LlmCompleted (message_response demo_json demo_start demo_blocks (Some ''tool_use'') (Some 4))]"
    by (rule sse_events_message [OF demo_chunks_valid demo_chunks_concat demo_renders])
  from stream_content_agrees [OF this] show ?thesis
    by (simp add: message_response_def demo_blocks_def message_assistant_def)
qed

end
