(* ===== verification/Retry.thy ===== *)
theory Retry
  imports Prelude
begin

text \<open>
  The retry loop around HTTP requests, \<^verbatim>\<open>loom-common-http/src/retry.rs\<close>. The request is a function from the
  number of the call to its outcome; the waits are recorded by the attempt number they are computed from.
\<close>

section \<open>Configuration\<close>

type_synonym status_code = nat

definition TOO_MANY_REQUESTS :: status_code where "TOO_MANY_REQUESTS = 429"
definition REQUEST_TIMEOUT :: status_code where "REQUEST_TIMEOUT = 408"
definition INTERNAL_SERVER_ERROR :: status_code where "INTERNAL_SERVER_ERROR = 500"
definition BAD_GATEWAY :: status_code where "BAD_GATEWAY = 502"
definition SERVICE_UNAVAILABLE :: status_code where "SERVICE_UNAVAILABLE = 503"
definition GATEWAY_TIMEOUT :: status_code where "GATEWAY_TIMEOUT = 504"

definition retryable_statuses :: "status_code list" where
  "retryable_statuses = [TOO_MANY_REQUESTS, REQUEST_TIMEOUT, INTERNAL_SERVER_ERROR, BAD_GATEWAY, SERVICE_UNAVAILABLE,
     GATEWAY_TIMEOUT]"

text \<open>What \<^verbatim>\<open>reqwest::Error\<close> tells of an error, and its text.\<close>

record http_error =
  he_is_timeout :: bool
  he_is_connect :: bool
  he_status :: "status_code option"
  he_text :: string

definition is_retryable :: "http_error \<Rightarrow> bool" where
  "is_retryable e \<longleftrightarrow> (if he_is_timeout e \<or> he_is_connect e then True
     else case he_status e of Some status \<Rightarrow> status \<in> set retryable_statuses | None \<Rightarrow> False)"

section \<open>The loop\<close>

text \<open>
  \<open>f k\<close> is the outcome of call \<open>k\<close>; the loop returns the result, the number of calls made and the attempts it
  slept after. \<open>attempt\<close> is a 32-bit counter.
\<close>

function retry_loop ::
  "u32 \<Rightarrow> ('e \<Rightarrow> bool) \<Rightarrow> (nat \<Rightarrow> 'e + 't) \<Rightarrow> u32 \<Rightarrow> nat \<Rightarrow> u32 list \<Rightarrow> ('e + 't) \<times> nat \<times> u32 list" where
  "retry_loop max_attempts retryable f attempt k slept = (case f k of
     Inr t \<Rightarrow> (Inr t, Suc k, slept)
   | Inl e \<Rightarrow>
       let attempt' = attempt + 1
       in if \<not> retryable e then (Inl e, Suc k, slept)
          else if attempt' \<ge> max_attempts then (Inl e, Suc k, slept)
          else retry_loop max_attempts retryable f attempt' (Suc k) (slept @ [attempt' - 1]))"
  by pat_completeness auto
termination
proof (relation "measure (\<lambda>(m, retryable, f, attempt, k, slept). if attempt = - 1 then 2 ^ 32 else unat m - unat attempt)")
  fix m attempt attempt' :: u32 and retryable :: "'e \<Rightarrow> bool" and f :: "nat \<Rightarrow> 'e + 't" and k slept e
  assume a: "attempt' = attempt + 1" "\<not> m \<le> attempt'"
  have "attempt' \<noteq> - 1" using a(2) by (metis word_order.extremum)
  moreover have "unat attempt' = Suc (unat attempt)" if "attempt \<noteq> - 1"
    unfolding a(1) using that by (metis add.commute add_eq_0_iff unatSuc)
  moreover have "unat m < 2 ^ 32" using unsigned_less [of m] by simp
  moreover have "unat attempt' < unat m" using a(2) by (simp add: word_le_nat_alt)
  ultimately show "((m, retryable, f, attempt', Suc k, slept @ [attempt' - 1]), m, retryable, f, attempt, k, slept)
      \<in> measure (\<lambda>(m, retryable, f, attempt, k, slept). if attempt = - 1 then 2 ^ 32 else unat m - unat attempt)"
    by auto
qed simp

declare retry_loop.simps [simp del]

definition retry :: "u32 \<Rightarrow> ('e \<Rightarrow> bool) \<Rightarrow> (nat \<Rightarrow> 'e + 't) \<Rightarrow> ('e + 't) \<times> nat \<times> u32 list" where
  "retry max_attempts retryable f = retry_loop max_attempts retryable f 0 0 []"

section \<open>Facts\<close>

text \<open>A retry is worth it when the call failed with a retryable error.\<close>

definition failed_retryably :: "('e \<Rightarrow> bool) \<Rightarrow> 'e + 't \<Rightarrow> bool" where
  "failed_retryably retryable r \<longleftrightarrow> (case r of Inl e \<Rightarrow> retryable e | Inr _ \<Rightarrow> False)"

lemma retry_loop_calls:
  assumes "unat attempt = k" and "k < max 1 (unat m)" and "retry_loop m retryable f attempt k slept = (r, n, waits)"
  shows "k < n \<and> n \<le> max 1 (unat m) \<and> r = f (n - 1) \<and> (\<forall>j. k \<le> j \<and> j < n - 1 \<longrightarrow> failed_retryably retryable (f j))
    \<and> (n < max 1 (unat m) \<longrightarrow> \<not> failed_retryably retryable (f (n - 1))) \<and> waits = slept @ map of_nat [k..<n - 1]"
  using assms
proof (induction m retryable f attempt k slept rule: retry_loop.induct)
  case (1 m retryable f attempt k slept)
  have "attempt \<noteq> - 1"
  proof
    assume top: "attempt = - 1"
    then have "k = 2 ^ 32 - 1" using 1(2) by (simp add: unsigned_minus_1_eq_mask mask_eq_exp_minus_1)
    moreover have "unat m < 2 ^ 32" using unsigned_less [of m] by simp
    ultimately show False using 1(3) by auto
  qed
  show ?case
  proof (cases "\<exists>e. f k = Inl e \<and> retryable e \<and> attempt + 1 < m")
    case True
    then obtain e where e: "f k = Inl e" "retryable e" "attempt + 1 < m" by blast
    have unat: "unat (attempt + 1) = Suc k" using 1(2) \<open>attempt \<noteq> - 1\<close> by (metis add.commute add_eq_0_iff unatSuc)
    then have bound: "Suc k < max 1 (unat m)" using e(3) by (simp add: word_less_nat_alt)
    have loop: "retry_loop m retryable f (attempt + 1) (Suc k) (slept @ [attempt + 1 - 1]) = (r, n, waits)"
      using 1(4) e(1,2) linorder_not_le [THEN iffD2, OF e(3)] by (simp add: Let_def retry_loop.simps [of m retryable f attempt])
    have k: "attempt = of_nat k" using 1(2) by (auto simp: ucast_id)
    have IH: "Suc k < n" "n \<le> max 1 (unat m)" "r = f (n - 1)" "\<And>j. Suc k \<le> j \<Longrightarrow> j < n - 1 \<Longrightarrow> failed_retryably retryable (f j)"
        "n < max 1 (unat m) \<Longrightarrow> \<not> failed_retryably retryable (f (n - 1))" "waits = (slept @ [attempt]) @ map of_nat [Suc k..<n - 1]"
      using 1(1) [OF e(1) refl _ _ unat bound loop] e by auto
    have "failed_retryably retryable (f j)" if "k \<le> j" "j < n - 1" for j
      using that IH(4) [of j] e by (cases "j = k") (auto simp: failed_retryably_def)
    moreover have "[k..<n - 1] = k # [Suc k..<n - 1]" using IH(1) by (intro upt_conv_Cons) simp
    ultimately show ?thesis using IH k by auto
  next
    case False
    have "unat (attempt + 1) = Suc k" using 1(2) \<open>attempt \<noteq> - 1\<close> by (metis add.commute add_eq_0_iff unatSuc)
    then have "max 1 (unat m) = Suc k" if "m \<le> attempt + 1" using that 1(3) by (auto simp: word_le_nat_alt)
    then have last: "Suc k = max 1 (unat m) \<or> \<not> failed_retryably retryable (f k)"
      using False by (auto simp: failed_retryably_def not_less split: sum.splits)
    have "r = f k" "n = Suc k" "waits = slept"
      using False 1(4) by (cases "f k"; auto simp: Let_def retry_loop.simps [of m retryable f attempt] not_less split: if_splits)+
    with last 1(3) show ?thesis by auto
  qed
qed

section \<open>Properties\<close>

text \<open>
  C37: The retry loop always returns, after at least one and at most \<^verbatim>\<open>max_attempts\<close> calls (one when that is zero): the result is that of the last call,
  every earlier call failed with a retryable error, the loop stopped early only for a success or an error
  that is not retryable, and between two calls it slept once, for attempts 0, 1, 2 and so on.
\<close>

theorem retry_returns:
  "\<exists>n. retry max_attempts retryable f = (f (n - 1), n, map of_nat [0..<n - 1]) \<and> 1 \<le> n \<and> n \<le> max 1 (unat max_attempts)
     \<and> list_all (\<lambda>k. failed_retryably retryable (f k)) [0..<n - 1]
     \<and> (if failed_retryably retryable (f (n - 1)) then n = max 1 (unat max_attempts) else True)"
proof -
  obtain r n waits where run: "retry_loop max_attempts retryable f 0 0 [] = (r, n, waits)" by (metis prod_cases3)
  have "unat (0 :: u32) = 0" "0 < max 1 (unat max_attempts)" by simp_all
  from retry_loop_calls [OF this run] show ?thesis
    by (intro exI [of _ n]) (auto simp: retry_def run list_all_iff)
qed

end
