(* ===== verification/Proxy.thy ===== *)
theory Proxy
  imports Sse Retry
begin

text \<open>
  Between the server and the command line client: the server forwards the events of a model's stream as server-sent events of its
  own (\<^verbatim>\<open>create_sse_response\<close> in \<^verbatim>\<open>loom-server/src/llm_proxy.rs\<close>), and the client of
  \<^verbatim>\<open>loom-server-llm-proxy\<close> decodes them (\<^verbatim>\<open>types.rs\<close>, \<^verbatim>\<open>stream.rs\<close>, \<^verbatim>\<open>client.rs\<close>). The JSON of an event
  (\<^verbatim>\<open>serde_json\<close>) and the bytes of a server-sent event (\<^verbatim>\<open>axum\<close>) are parameters. The audit log is left out.
\<close>

section \<open>The wire format\<close>

datatype 'j server_query_kind =
  ReadFile string
| ExecuteCommand string "string list" u32
| RequestUserInput string string "string list option"
| GetEnvironment "string list"
| GetWorkspaceContext
| CustomQuery string 'j

record 'j server_query =
  sq_id :: string
  sq_kind :: "'j server_query_kind"
  sq_sent_at :: string
  sq_timeout_secs :: u32
  sq_metadata :: 'j

record 'j llm_proxy_response =
  px_message :: "'j message"
  px_tool_calls :: "'j tool_call list"
  px_usage :: "usage option"
  px_finish_reason :: "string option"

datatype 'j llm_stream_event =
  WireTextDelta string
| WireToolCallDelta string string string
| WireServerQuery "'j server_query"
| WireCompleted "'j llm_proxy_response"
| WireError string

definition proxy_response_from :: "'j llm_response \<Rightarrow> 'j llm_proxy_response" where
  "proxy_response_from r = \<lparr>px_message = resp_message r, px_tool_calls = resp_tool_calls r, px_usage = resp_usage r,
     px_finish_reason = resp_finish_reason r\<rparr>"

definition llm_response_from :: "'j llm_proxy_response \<Rightarrow> 'j llm_response" where
  "llm_response_from p = \<lparr>resp_message = px_message p, resp_tool_calls = px_tool_calls p, resp_usage = px_usage p,
     resp_finish_reason = px_finish_reason p\<rparr>"

lemma llm_response_roundtrip [simp]: "llm_response_from (proxy_response_from r) = r"
  by (simp add: llm_response_from_def proxy_response_from_def)

text \<open>The JSON of an event, \<open>Inl\<close> the text of an error; and the bytes of a server-sent event with a name and data.\<close>

record 'j wire_codec =
  wc_to_string :: "'j llm_stream_event \<Rightarrow> string + string"
  wc_from_str :: "string \<Rightarrow> string + 'j llm_stream_event"
  wc_event_bytes :: "string \<Rightarrow> string \<Rightarrow> string"

section \<open>The server\<close>

fun wire_event :: "'j llm_event \<Rightarrow> 'j llm_stream_event" where
  "wire_event (TextDelta content) = WireTextDelta content"
| "wire_event (ToolCallDelta i n f) = WireToolCallDelta i n f"
| "wire_event (LlmCompleted r) = WireCompleted (proxy_response_from r)"
| "wire_event (LlmFailed e) = WireError (show_llm_error e)"

text \<open>The body of the response: an event that cannot be written is left out.\<close>

definition create_sse_response :: "'j wire_codec \<Rightarrow> 'j llm_event list \<Rightarrow> string" where
  "create_sse_response wc events = concat (map (\<lambda>e. case wc_to_string wc (wire_event e) of
     Inl _ \<Rightarrow> [] | Inr json \<Rightarrow> wc_event_bytes wc ''llm'' json) events)"

section \<open>The client\<close>

fun convert_stream_event :: "'j llm_stream_event \<Rightarrow> 'j llm_event" where
  "convert_stream_event (WireTextDelta content) = TextDelta content"
| "convert_stream_event (WireToolCallDelta i n f) = ToolCallDelta i n f"
| "convert_stream_event (WireServerQuery q) =
     LlmFailed (LlmApi (''server_query events should be handled at client layer: '' @ sq_id q))"
| "convert_stream_event (WireCompleted p) = LlmCompleted (llm_response_from p)"
| "convert_stream_event (WireError m) = LlmFailed (LlmApi m)"

definition block_line :: "string option \<times> string option \<Rightarrow> string \<Rightarrow> string option \<times> string option" where
  "block_line found line = (case strip_prefix line ''event:'' of
     Some v \<Rightarrow> (Some (str_trim v), snd found)
   | None \<Rightarrow> (case strip_prefix line ''data:'' of
       Some v \<Rightarrow> (fst found, Some (str_trim v))
     | None \<Rightarrow> found))"

definition parse_event_block :: "'j wire_codec \<Rightarrow> string \<Rightarrow> 'j llm_event option" where
  "parse_event_block wc block = (case foldl block_line (None, None) (str_lines block) of
     (Some event_type, Some data) \<Rightarrow>
       if event_type \<noteq> ''llm'' then None
       else (case wc_from_str wc data of
           Inr ev \<Rightarrow> Some (convert_stream_event ev)
         | Inl e \<Rightarrow> Some (LlmFailed (LlmInvalidResponse (''failed to parse SSE event: '' @ e))))
   | _ \<Rightarrow> None)"

record proxy_llm_stream =
  pl_inner :: "(string + string) list"
  pl_buffer :: string

text \<open>The loop of \<^verbatim>\<open>poll_next\<close>; a chunk that is not UTF-8 by itself is an error and its bytes are dropped.\<close>

function proxy_poll :: "'j wire_codec \<Rightarrow> (string + string) list \<Rightarrow> string \<Rightarrow> 'j llm_event option \<times> proxy_llm_stream" where
  "proxy_poll wc inner buffer = (case str_find buffer event_separator of
     Some end_idx \<Rightarrow> (case parse_event_block wc (take end_idx buffer) of
         Some e \<Rightarrow> (Some e, \<lparr>pl_inner = inner, pl_buffer = drop (end_idx + 2) buffer\<rparr>)
       | None \<Rightarrow> proxy_poll wc inner (drop (end_idx + 2) buffer))
   | None \<Rightarrow> (case inner of
       Inr bytes # rest \<Rightarrow>
         (if utf8_valid bytes then proxy_poll wc rest (buffer @ bytes)
          else (Some (LlmFailed (LlmInvalidResponse ''received non-UTF8 data'')), \<lparr>pl_inner = rest, pl_buffer = buffer\<rparr>))
     | Inl e # rest \<Rightarrow> (Some (LlmFailed (LlmHttp e)), \<lparr>pl_inner = rest, pl_buffer = buffer\<rparr>)
     | [] \<Rightarrow> (None, \<lparr>pl_inner = [], pl_buffer = buffer\<rparr>)))"
  by pat_completeness auto
termination
  by (relation "measures [\<lambda>(wc, inner, buffer). length inner, \<lambda>(wc, inner, buffer). length buffer]")
    (auto dest: str_find_bound simp: event_separator_def)

declare proxy_poll.simps [simp del]

lemma proxy_poll_progress:
  "proxy_poll wc inner buffer = (Some e, px) \<Longrightarrow>
   length (pl_inner px) < length inner \<or> length (pl_inner px) = length inner \<and> length (pl_buffer px) < length buffer"
proof (induction wc inner buffer rule: proxy_poll.induct)
  case (1 wc inner buffer)
  show ?case
  proof (cases "str_find buffer event_separator")
    case None
    with 1 show ?thesis by (auto simp: proxy_poll.simps [of wc inner buffer] split: list.splits sum.splits if_splits)
  next
    case (Some k)
    with str_find_bound [OF Some] 1 show ?thesis
      by (fastforce simp: proxy_poll.simps [of wc inner buffer] event_separator_def split: option.splits)
  qed
qed

text \<open>Everything a stream yields until its end.\<close>

function proxy_events :: "'j wire_codec \<Rightarrow> proxy_llm_stream \<Rightarrow> 'j llm_event list" where
  "proxy_events wc px = (case proxy_poll wc (pl_inner px) (pl_buffer px) of
     (None, px') \<Rightarrow> []
   | (Some e, px') \<Rightarrow> e # proxy_events wc px')"
  by pat_completeness auto
termination
  by (relation "measures [\<lambda>(wc, px). length (pl_inner px), \<lambda>(wc, px). length (pl_buffer px)]") (auto dest: proxy_poll_progress [OF sym])

declare proxy_events.simps [simp del]

text \<open>
  The two calls of the client, for what the HTTP client returned: an error, or the status with the text of the body, the body as it
  streams in, and the body as JSON.
\<close>

record 'j http_response =
  hr_status :: status_code
  hr_text :: string
  hr_chunks :: "(string + string) list"
  hr_json :: "string + 'j llm_proxy_response"

definition is_success :: "status_code \<Rightarrow> bool" where
  "is_success s \<longleftrightarrow> 200 \<le> s \<and> s < 300"

definition status_error :: "(status_code \<Rightarrow> string) \<Rightarrow> 'j http_response \<Rightarrow> llm_error" where
  "status_error sh r = (if hr_status r = TOO_MANY_REQUESTS then LlmRateLimited None
     else LlmApi (''proxy returned status '' @ sh (hr_status r) @ '': '' @ hr_text r))"

definition proxy_complete :: "(status_code \<Rightarrow> string) \<Rightarrow> string + 'j http_response \<Rightarrow> llm_error + 'j llm_response" where
  "proxy_complete sh response = (case response of
     Inl e \<Rightarrow> Inl (LlmHttp e)
   | Inr r \<Rightarrow>
       if \<not> is_success (hr_status r) then Inl (status_error sh r)
       else (case hr_json r of
           Inl e \<Rightarrow> Inl (LlmInvalidResponse (''failed to parse response: '' @ e))
         | Inr p \<Rightarrow> Inr (llm_response_from p)))"

definition proxy_complete_streaming :: "(status_code \<Rightarrow> string) \<Rightarrow> string + 'j http_response \<Rightarrow> llm_error + proxy_llm_stream" where
  "proxy_complete_streaming sh response = (case response of
     Inl e \<Rightarrow> Inl (LlmHttp e)
   | Inr r \<Rightarrow>
       if \<not> is_success (hr_status r) then Inl (status_error sh r)
       else Inr \<lparr>pl_inner = hr_chunks r, pl_buffer = []\<rparr>)"

section \<open>What the server forwards arrives\<close>

text \<open>
  An event gets through when its JSON reads back, is on one line and has no surrounding white space, and when \<^verbatim>\<open>axum\<close> frames one line of data
  as the standard says.
\<close>

definition carries :: "'j wire_codec \<Rightarrow> 'j llm_event \<Rightarrow> bool" where
  "carries wc e \<longleftrightarrow> (case wc_to_string wc (wire_event e) of
     Inl _ \<Rightarrow> False
   | Inr json \<Rightarrow> wc_from_str wc json = Inr (wire_event e) \<and> CHR 0x0A \<notin> set json \<and> str_trim json = json
       \<and> wc_event_bytes wc ''llm'' json = ''event: llm'' @ [CHR 0x0A] @ ''data: '' @ json @ event_separator)"

text \<open>An error is forwarded as its text.\<close>

fun forwarded :: "'j llm_event \<Rightarrow> 'j llm_event" where
  "forwarded (LlmFailed e) = LlmFailed (LlmApi (show_llm_error e))"
| "forwarded e = e"

lemma str_trim_space: "str_trim (CHR 0x20 # s) = str_trim s"
proof -
  have "list_all (\<lambda>w. w \<noteq> [] \<and> (hd w = CHR 0x20 \<longrightarrow> w = [CHR 0x20])) white_spaces" by code_simp
  then have "List.find (\<lambda>w. starts_with (CHR 0x20 # s) w) white_spaces = List.find (\<lambda>w. w = [CHR 0x20]) white_spaces"
    by (intro find_cong) (auto simp: list_all_iff starts_with_iff_prefix prefix_Cons)
  also have "\<dots> = Some [CHR 0x20]" by code_simp
  finally have "List.find (\<lambda>w. starts_with (CHR 0x20 # s) w) white_spaces = Some [CHR 0x20]" .
  then show ?thesis by (simp add: str_trim_def trim_start.simps [of "CHR 0x20 # s"])
qed

lemma convert_wire_event: "convert_stream_event (wire_event e) = forwarded e"
  by (cases e) simp_all

lemma parse_block_frame:
  assumes "CHR 0x0A \<notin> set json" and "str_trim json = json" and "wc_from_str wc json = Inr ev"
  shows "parse_event_block wc (''event: llm'' @ CHR 0x0A # ''data: '' @ json) = Some (convert_stream_event ev)"
proof -
  have "str_split CHR 0x0A (''event: llm'' @ CHR 0x0A # ''data: '' @ json) = [''event: llm'', ''data: '' @ json]"
    using assms(1) by (subst str_split_append) (simp_all add: str_split_word)
  then have ls: "str_lines (''event: llm'' @ CHR 0x0A # ''data: '' @ json) = [''event: llm'', ''data: '' @ json]"
    by (simp add: str_lines_def strip_cr_def)
  have trim: "str_trim ''llm'' = ''llm''" by (simp add: str_trim_graphic)
  have "foldl block_line (None, None) [''event: llm'', ''data: '' @ json] = (Some ''llm'', Some json)"
    using assms(2) trim by (simp add: block_line_def strip_prefix_def starts_with_def str_trim_space)
  with ls assms(3) show ?thesis by (simp add: parse_event_block_def)
qed

text \<open>Specification: the events of the complete blocks of a text.\<close>

function proxy_drain :: "'j wire_codec \<Rightarrow> string \<Rightarrow> 'j llm_event list \<times> string" where
  "proxy_drain wc buffer = (case str_find buffer event_separator of
     None \<Rightarrow> ([], buffer)
   | Some k \<Rightarrow> (case proxy_drain wc (drop (k + 2) buffer) of (es, rest) \<Rightarrow>
       (case parse_event_block wc (take k buffer) of None \<Rightarrow> es | Some e \<Rightarrow> e # es, rest)))"
  by pat_completeness auto
termination
  by (relation "measure (\<lambda>(wc, buffer). length buffer)") (auto dest: str_find_bound simp: event_separator_def)

declare proxy_drain.simps [simp del]

abbreviation proxy_stream :: "(string + string) list \<Rightarrow> string \<Rightarrow> proxy_llm_stream" where
  "proxy_stream inner buffer \<equiv> \<lparr>pl_inner = inner, pl_buffer = buffer\<rparr>"

lemma proxy_events_drain:
  "proxy_events wc (proxy_stream inner buffer) = (case proxy_drain wc buffer of (es, b) \<Rightarrow> es @ (case inner of
     [] \<Rightarrow> []
   | Inl e # rest \<Rightarrow> LlmFailed (LlmHttp e) # proxy_events wc (proxy_stream rest b)
   | Inr bytes # rest \<Rightarrow>
       if utf8_valid bytes then proxy_events wc (proxy_stream rest (b @ bytes))
       else LlmFailed (LlmInvalidResponse ''received non-UTF8 data'') # proxy_events wc (proxy_stream rest b)))"
proof (induction wc buffer rule: proxy_drain.induct)
  case (1 wc buffer)
  note poll = proxy_events.simps [of wc "proxy_stream inner _"] proxy_poll.simps [of wc inner buffer]
  show ?case
  proof (cases "str_find buffer event_separator")
    case None
    then show ?thesis
      by (auto simp: proxy_events.simps [of wc "proxy_stream inner buffer"] proxy_events.simps [of wc "proxy_stream _ (buffer @ _)"]
          proxy_poll.simps [of wc inner buffer] proxy_drain.simps [of wc buffer] split: list.split sum.split)
  next
    case (Some k)
    have skip: "proxy_events wc (proxy_stream inner buffer) = proxy_events wc (proxy_stream inner (drop (k + 2) buffer))"
      if "parse_event_block wc (take k buffer) = None"
      using that Some by (simp add: proxy_events.simps [of wc "proxy_stream inner _"] proxy_poll.simps [of wc inner buffer])
    have emit: "proxy_events wc (proxy_stream inner buffer) = e # proxy_events wc (proxy_stream inner (drop (k + 2) buffer))"
      if "parse_event_block wc (take k buffer) = Some e" for e
      using that Some by (simp add: proxy_events.simps [of wc "proxy_stream inner buffer"] proxy_poll.simps [of wc inner buffer])
    show ?thesis
      using 1 [OF Some] Some skip emit
      by (cases "parse_event_block wc (take k buffer)") (simp_all add: proxy_drain.simps [of wc buffer] split: prod.splits)
  qed
qed

lemma proxy_drain_append:
  "proxy_drain wc (b @ x) = (case proxy_drain wc b of (es, b') \<Rightarrow> case proxy_drain wc (b' @ x) of (es', rest) \<Rightarrow> (es @ es', rest))"
proof (induction wc b rule: proxy_drain.induct)
  case (1 wc b)
  show ?case
  proof (cases "str_find b event_separator")
    case None
    then show ?thesis by (simp add: proxy_drain.simps [of wc b])
  next
    case (Some k)
    then have "k + 2 \<le> length b" using str_find_bound [OF Some] by (simp add: event_separator_def)
    then have "take k (b @ x) = take k b" "drop (k + 2) (b @ x) = drop (k + 2) b @ x" by simp_all
    then show ?thesis using 1 [OF Some] str_find_append [OF Some, of x] Some
      by (auto simp: proxy_drain.simps [of wc b] proxy_drain.simps [of wc "b @ x"] split: prod.splits option.splits)
  qed
qed

lemma proxy_events_chunks:
  "list_all utf8_valid cs \<Longrightarrow> proxy_events wc (proxy_stream (map Inr cs) b) = fst (proxy_drain wc (b @ concat cs))"
proof (induction cs arbitrary: b)
  case Nil
  then show ?case by (simp add: proxy_events_drain split: prod.split)
next
  case (Cons c cs)
  then show ?case using proxy_drain_append [of wc b "c @ concat cs"]
    by (simp add: proxy_events_drain [of wc "_ # _"] split: prod.splits)
qed

lemma proxy_drain_frame:
  assumes "carries wc e"
  shows "proxy_drain wc (create_sse_response wc [e] @ s) = (case proxy_drain wc s of (es, rest) \<Rightarrow> (forwarded e # es, rest))"
proof -
  obtain json where json: "wc_to_string wc (wire_event e) = Inr json" using assms by (auto simp: carries_def split: sum.splits)
  let ?x = "''event: llm'' @ CHR 0x0A # ''data: '' @ json"
  have eq: "create_sse_response wc [e] @ s = ?x @ event_separator @ s" using assms json by (simp add: carries_def create_sse_response_def)
  have find: "str_find (?x @ event_separator @ s) event_separator = Some (length ?x)"
    using assms json str_find_frame [of "''event: llm''" "''data: '' @ json" s] by (simp add: carries_def)
  have "parse_event_block wc ?x = Some (forwarded e)"
    using assms json unfolding convert_wire_event [symmetric] by (intro parse_block_frame) (simp_all add: carries_def)
  moreover have "drop (length ?x + 2) (?x @ event_separator @ s) = s" "take (length ?x) (?x @ event_separator @ s) = ?x"
    by (simp_all add: event_separator_def)
  ultimately show ?thesis unfolding eq proxy_drain.simps [of wc "?x @ event_separator @ s"] find
    by (simp only: option.case)
qed

lemma proxy_drain_forwards:
  "list_all (carries wc) es \<Longrightarrow> proxy_drain wc (create_sse_response wc es) = (map forwarded es, [])"
proof (induction es)
  case Nil
  then show ?case by (simp add: create_sse_response_def proxy_drain.simps [of wc "[]"] event_separator_def)
next
  case (Cons e es)
  have "create_sse_response wc (e # es) = create_sse_response wc [e] @ create_sse_response wc es" by (simp add: create_sse_response_def)
  with Cons show ?case by (simp add: proxy_drain_frame)
qed

text \<open>Whatever way the connection cuts the text of the server, as long as no character is cut, the client sees the events of the model.\<close>

lemma proxy_forwards:
  assumes "list_all utf8_valid chunks" and "concat chunks = create_sse_response wc es" and "list_all (carries wc) es"
  shows "proxy_events wc (proxy_stream (map Inr chunks) []) = map forwarded es"
  using proxy_events_chunks [OF assms(1), of wc "[]"] assms(2) proxy_drain_forwards [OF assms(3)] by simp

end
