(* ===== verification/Files.thy ===== *)
theory Files
  imports Prelude
begin

text \<open>
  What the tools of the agent use of \<^verbatim>\<open>std::path\<close>, \<^verbatim>\<open>std::fs\<close> and the operating system below them: paths as
  strings with their components, a tree of directories, files and symbolic links, and the resolution of a path
  in it. A component may be \<^verbatim>\<open>..\<close>, a link may point anywhere, and at most forty links are followed.
\<close>

section \<open>Paths\<close>

definition is_absolute :: "string \<Rightarrow> bool" where
  "is_absolute p \<longleftrightarrow> starts_with p ''/''"

text \<open>\<^verbatim>\<open>Path::components\<close> without the root: empty pieces and \<^verbatim>\<open>.\<close> are dropped, except \<^verbatim>\<open>.\<close> at the front.\<close>

definition path_components :: "string \<Rightarrow> string list" where
  "path_components p = (let ps = str_split CHR ''/'' p
     in (if hd ps = ''.'' then [''.''] else []) @ filter (\<lambda>c. c \<noteq> [] \<and> c \<noteq> ''.'') ps)"

definition path_join :: "string \<Rightarrow> string \<Rightarrow> string" where
  "path_join base p = (if is_absolute p then p
     else if base = [] \<or> last base = CHR ''/'' then base @ p else base @ ''/'' @ p)"

definition path_render :: "bool \<Rightarrow> string list \<Rightarrow> string" where
  "path_render absolute cs = (if absolute then ''/'' else []) @ str_join ''/'' cs"

abbreviation path_of :: "string list \<Rightarrow> string" where
  "path_of \<equiv> path_render True"

definition path_parent :: "string \<Rightarrow> string option" where
  "path_parent p = (let cs = path_components p
     in if cs = [] then None else Some (path_render (is_absolute p) (butlast cs)))"

definition path_starts_with :: "string \<Rightarrow> string \<Rightarrow> bool" where
  "path_starts_with p q \<longleftrightarrow> is_absolute p = is_absolute q \<and> prefix (path_components q) (path_components p)"

section \<open>The file tree\<close>

datatype node = Dir | File string | Link string

datatype io_error = NotFound | NotADirectory | IsADirectory | AlreadyExists | TooManyLinks | InvalidData | Refused string

fun show_io_error :: "io_error \<Rightarrow> string" where
  "show_io_error NotFound = ''No such file or directory (os error 2)''"
| "show_io_error NotADirectory = ''Not a directory (os error 20)''"
| "show_io_error IsADirectory = ''Is a directory (os error 21)''"
| "show_io_error AlreadyExists = ''File exists (os error 17)''"
| "show_io_error TooManyLinks = ''Too many levels of symbolic links (os error 40)''"
| "show_io_error InvalidData = ''stream did not contain valid UTF-8''"
| "show_io_error (Refused e) = e"

text \<open>
  Nodes by their location, the list of names from the root; the working directory; the locations that
  cannot be opened or written to, with the error; those where writing stops after some bytes (a full disk, say), with that number and the
  error; and the size reported for a directory.
\<close>

record file_tree =
  ft_nodes :: "string list \<Rightarrow> node option"
  ft_cwd :: "string list"
  ft_refused :: "string list \<Rightarrow> string option"
  ft_broken :: "string list \<Rightarrow> (nat \<times> string) option"
  ft_dir_len :: nat

text \<open>
  The walk from a directory along names; a link is replaced by its target. With \<open>create\<close> the last name may
  be missing, as for \<^verbatim>\<open>open\<close> with \<^verbatim>\<open>O_CREAT\<close>.
\<close>

function walk :: "file_tree \<Rightarrow> bool \<Rightarrow> nat \<Rightarrow> string list \<Rightarrow> string list \<Rightarrow> io_error + string list" where
  "walk fs create n cur [] = Inr cur"
| "walk fs create n cur (c # cs) = (case ft_nodes fs cur of
     None \<Rightarrow> Inl NotFound
   | Some Dir \<Rightarrow>
       if c = [] \<or> c = ''.'' then walk fs create n cur cs
       else if c = ''..'' then walk fs create n (butlast cur) cs
       else (case ft_nodes fs (cur @ [c]) of
           None \<Rightarrow> if create \<and> cs = [] then Inr (cur @ [c]) else Inl NotFound
         | Some (Link t) \<Rightarrow>
             if n = 0 then Inl TooManyLinks
             else walk fs create (n - 1) (if is_absolute t then [] else cur) (str_split CHR ''/'' t @ cs)
         | Some _ \<Rightarrow> walk fs create n (cur @ [c]) cs)
   | Some _ \<Rightarrow> Inl NotADirectory)"
  by pat_completeness auto
termination
  by (relation "measures [\<lambda>(fs, create, n, cur, cs). n, \<lambda>(fs, create, n, cur, cs). length cs]") auto

definition path_start :: "file_tree \<Rightarrow> string \<Rightarrow> string list" where
  "path_start fs p = (if is_absolute p then [] else ft_cwd fs)"

definition resolve :: "file_tree \<Rightarrow> bool \<Rightarrow> string \<Rightarrow> io_error + string list" where
  "resolve fs create p = (if p = [] then Inl NotFound else walk fs create 40 (path_start fs p) (str_split CHR ''/'' p))"

definition canonicalize :: "file_tree \<Rightarrow> string \<Rightarrow> io_error + string" where
  "canonicalize fs p = map_sum id path_of (resolve fs False p)"

definition path_exists :: "file_tree \<Rightarrow> string \<Rightarrow> bool" where
  "path_exists fs p \<longleftrightarrow> \<not> isl (resolve fs False p)"

definition is_dir :: "file_tree \<Rightarrow> string \<Rightarrow> bool" where
  "is_dir fs p \<longleftrightarrow> (case resolve fs False p of Inr cs \<Rightarrow> ft_nodes fs cs = Some Dir | Inl _ \<Rightarrow> False)"

text \<open>\<^verbatim>\<open>fs::read\<close> and \<^verbatim>\<open>fs::read_to_string\<close>.\<close>

definition fs_read :: "file_tree \<Rightarrow> string \<Rightarrow> io_error + string" where
  "fs_read fs p = (case resolve fs False p of
     Inl e \<Rightarrow> Inl e
   | Inr cs \<Rightarrow> (case ft_refused fs cs of
       Some e \<Rightarrow> Inl (Refused e)
     | None \<Rightarrow> (case ft_nodes fs cs of Some (File s) \<Rightarrow> Inr s | Some Dir \<Rightarrow> Inl IsADirectory | _ \<Rightarrow> Inl NotFound)))"

definition read_to_string :: "file_tree \<Rightarrow> string \<Rightarrow> io_error + string" where
  "read_to_string fs p = (case fs_read fs p of
     Inl e \<Rightarrow> Inl e
   | Inr s \<Rightarrow> if utf8_valid s then Inr s else Inl InvalidData)"

definition metadata_len :: "file_tree \<Rightarrow> string \<Rightarrow> io_error + nat" where
  "metadata_len fs p = (case resolve fs False p of
     Inl e \<Rightarrow> Inl e
   | Inr cs \<Rightarrow> (case ft_nodes fs cs of Some (File s) \<Rightarrow> Inr (length s) | Some Dir \<Rightarrow> Inr (ft_dir_len fs) | _ \<Rightarrow> Inl NotFound))"

text \<open>\<^verbatim>\<open>fs::read_dir\<close>: the names in a directory, in the order \<open>listing\<close> the operating system has them.\<close>

definition read_dir :: "file_tree \<Rightarrow> (string list \<Rightarrow> string list) \<Rightarrow> string \<Rightarrow> io_error + string list" where
  "read_dir fs listing p = (case resolve fs False p of
     Inl e \<Rightarrow> Inl e
   | Inr cs \<Rightarrow> (case ft_refused fs cs of
       Some e \<Rightarrow> Inl (Refused e)
     | None \<Rightarrow> if ft_nodes fs cs = Some Dir then Inr (listing cs) else Inl NotADirectory))"

text \<open>
  \<^verbatim>\<open>fs::write\<close> creates the file when its directory exists, or empties it, and then writes: when that stops, the file holds the first part of the new
  content.
\<close>

definition set_node :: "file_tree \<Rightarrow> string list \<Rightarrow> node \<Rightarrow> file_tree" where
  "set_node fs cs k = fs\<lparr>ft_nodes := (ft_nodes fs)(cs \<mapsto> k)\<rparr>"

definition fs_write :: "file_tree \<Rightarrow> string \<Rightarrow> string \<Rightarrow> file_tree \<times> io_error option" where
  "fs_write fs p s = (case resolve fs True p of
     Inl e \<Rightarrow> (fs, Some e)
   | Inr cs \<Rightarrow> (case ft_refused fs cs of
       Some e \<Rightarrow> (fs, Some (Refused e))
     | None \<Rightarrow>
         if ft_nodes fs cs = Some Dir then (fs, Some IsADirectory)
         else (case ft_broken fs cs of
             None \<Rightarrow> (set_node fs cs (File s), None)
           | Some (n, e) \<Rightarrow> (set_node fs cs (File (take n s)), Some (Refused e)))))"

text \<open>\<^verbatim>\<open>mkdir\<close>: the last component is not followed, and \<^verbatim>\<open>..\<close> as the last component exists.\<close>

definition mkdir :: "file_tree \<Rightarrow> string \<Rightarrow> io_error + file_tree" where
  "mkdir fs p = (let cs = path_components p
     in if cs = [] then (if is_absolute p then Inl AlreadyExists else Inl NotFound)
        else case walk fs False 40 (path_start fs p) (butlast cs) of
          Inl e \<Rightarrow> Inl e
        | Inr d \<Rightarrow>
            if ft_nodes fs d \<noteq> Some Dir then Inl NotADirectory
            else if last cs = ''.'' \<or> last cs = ''..'' \<or> ft_nodes fs (d @ [last cs]) \<noteq> None then Inl AlreadyExists
            else (case ft_refused fs d of Some e \<Rightarrow> Inl (Refused e) | None \<Rightarrow> Inr (set_node fs (d @ [last cs]) Dir)))"

section \<open>Facts about paths\<close>

lemma is_absolute_Cons [simp]: "is_absolute (c # s) \<longleftrightarrow> c = CHR ''/''" "\<not> is_absolute []"
  by (auto simp: is_absolute_def starts_with_def)

definition plain_name :: "string \<Rightarrow> bool" where
  "plain_name c \<longleftrightarrow> c \<noteq> [] \<and> c \<noteq> ''.'' \<and> CHR ''/'' \<notin> set c"

lemma is_absolute_path_of [simp]: "is_absolute (path_of cs)"
  by (simp add: path_render_def)

lemma split_path_of: "list_all plain_name cs \<Longrightarrow> str_split CHR ''/'' (path_of cs) = [] # (if cs = [] then [[]] else cs)"
  by (cases "cs = []") (auto simp: path_render_def list_all_iff plain_name_def str_split_join)

lemma components_path_of [simp]: "list_all plain_name cs \<Longrightarrow> path_components (path_of cs) = cs"
  by (cases "cs = []") (auto simp: path_components_def split_path_of list_all_iff plain_name_def filter_id_conv)

lemma components_plain: "is_absolute p \<Longrightarrow> list_all plain_name (path_components p)"
proof -
  assume "is_absolute p"
  then obtain s where p: "p = CHR ''/'' # s" by (cases p) auto
  have "CHR ''/'' \<notin> set c" if "c \<in> set (str_split CHR ''/'' s)" for c using str_split_words that by blast
  then show ?thesis by (auto simp: p path_components_def list_all_iff plain_name_def)
qed

text \<open>A relative path keeps its components too when it is rendered again.\<close>

definition relative_names :: "string list \<Rightarrow> bool" where
  "relative_names cs \<longleftrightarrow> list_all (\<lambda>c. c \<noteq> [] \<and> CHR ''/'' \<notin> set c) cs \<and> list_all plain_name (tl cs)"

lemma relative_names_butlast: "relative_names cs \<Longrightarrow> relative_names (butlast cs)"
  by (cases cs) (auto simp: relative_names_def list_all_iff dest: in_set_butlastD)

lemma components_relative: "relative_names cs \<Longrightarrow> path_components (path_render False cs) = cs"
proof (cases cs)
  case (Cons c cs')
  assume "relative_names cs"
  with Cons have names: "c \<noteq> []" "CHR ''/'' \<notin> set c" "\<And>x. x \<in> set cs' \<Longrightarrow> plain_name x"
    by (auto simp: relative_names_def list_all_iff)
  then have "str_split CHR ''/'' (str_join ''/'' (c # cs')) = c # cs'"
    by (intro str_split_join) (auto simp: plain_name_def)
  moreover have "filter (\<lambda>c. c \<noteq> [] \<and> c \<noteq> ''.'') cs' = cs'"
    using names(3) by (auto simp: filter_id_conv plain_name_def)
  ultimately show ?thesis using names(1) by (simp add: Cons path_components_def path_render_def)
qed (simp add: path_components_def path_render_def)

lemma in_set_tlD: "x \<in> set (tl xs) \<Longrightarrow> x \<in> set xs"
  by (cases xs) auto

lemma components_relative_names: "\<not> is_absolute p \<Longrightarrow> relative_names (path_components p)"
proof -
  assume rel: "\<not> is_absolute p"
  obtain c cs where split: "str_split CHR ''/'' p = c # cs" by (cases "str_split CHR ''/'' p") auto
  then have "CHR ''/'' \<notin> set x" if "x \<in> set (c # cs)" for x using str_split_words that by metis
  then show ?thesis
    by (auto simp: path_components_def split relative_names_def list_all_iff plain_name_def dest: in_set_tlD)
qed

lemma components_parent:
  assumes "path_parent p = Some q"
  shows "path_components q = butlast (path_components p)" and "is_absolute q = is_absolute p" and "path_components p \<noteq> []"
proof -
  from assms have q: "q = path_render (is_absolute p) (butlast (path_components p))" and "path_components p \<noteq> []"
    by (auto simp: path_parent_def Let_def split: if_splits)
  then show "path_components p \<noteq> []" by simp
  show "path_components q = butlast (path_components p)"
  proof (cases "is_absolute p")
    case True
    then have "list_all plain_name (butlast (path_components p))"
      using components_plain [OF True] by (auto simp: list_all_iff dest: in_set_butlastD)
    then show ?thesis using True by (simp add: q)
  next
    case False
    then show ?thesis by (simp add: q components_relative relative_names_butlast components_relative_names)
  qed
  have "is_absolute (path_render False cs) \<longleftrightarrow> False" if "relative_names cs" for cs
    using that by (cases cs rule: list.exhaust; cases "hd cs"; cases "tl cs")
      (auto simp: path_render_def relative_names_def str_join_Cons)
  then show "is_absolute q = is_absolute p"
    using relative_names_butlast [OF components_relative_names] by (cases "is_absolute p") (auto simp: q)
qed

text \<open>\<^verbatim>\<open>fs::create_dir_all\<close> of the standard library.\<close>

function create_dir_all :: "file_tree \<Rightarrow> string \<Rightarrow> file_tree \<times> io_error option" where
  "create_dir_all fs p = (if p = [] then (fs, None) else case mkdir fs p of
     Inr fs' \<Rightarrow> (fs', None)
   | Inl e \<Rightarrow>
       if e \<noteq> NotFound then (fs, if is_dir fs p then None else Some e)
       else (case path_parent p of
           None \<Rightarrow> (fs, Some (Refused ''failed to create whole tree''))
         | Some q \<Rightarrow> (case create_dir_all fs q of
             (fs', Some e') \<Rightarrow> (fs', Some e')
           | (fs', None) \<Rightarrow> (case mkdir fs' p of
               Inr fs'' \<Rightarrow> (fs'', None)
             | Inl e' \<Rightarrow> (fs', if is_dir fs' p then None else Some e')))))"
  by pat_completeness auto
termination
proof (relation "measure (\<lambda>(fs, p). length (path_components p))")
  fix fs :: file_tree and p q e
  assume "path_parent p = Some q"
  from components_parent [OF this] show "((fs, q), (fs, p)) \<in> measure (\<lambda>(fs, p). length (path_components p))"
    by simp
qed simp

declare create_dir_all.simps [simp del]

section \<open>Facts about the tree\<close>

text \<open>Every node is in a directory, under a proper name.\<close>

definition tree_ok :: "file_tree \<Rightarrow> bool" where
  "tree_ok fs \<longleftrightarrow> ft_nodes fs [] = Some Dir \<and> ft_nodes fs (ft_cwd fs) = Some Dir
     \<and> (\<forall>cs c. ft_nodes fs (cs @ [c]) \<noteq> None \<longrightarrow> ft_nodes fs cs = Some Dir \<and> plain_name c \<and> c \<noteq> ''..'')"

fun is_link :: "node \<Rightarrow> bool" where
  "is_link (Link t) = True"
| "is_link k = False"

definition at :: "file_tree \<Rightarrow> string list \<Rightarrow> bool" where
  "at fs cs \<longleftrightarrow> (case ft_nodes fs cs of Some k \<Rightarrow> \<not> is_link k | None \<Rightarrow> False)"

lemma tree_ok_snoc:
  "tree_ok fs \<Longrightarrow> ft_nodes fs (cs @ [c]) = Some k \<Longrightarrow> ft_nodes fs cs = Some Dir \<and> plain_name c \<and> c \<noteq> ''..''"
  by (auto simp: tree_ok_def)

lemma tree_ok_prefix: "tree_ok fs \<Longrightarrow> ft_nodes fs (cs @ cs') \<noteq> None \<Longrightarrow> cs' \<noteq> [] \<Longrightarrow> ft_nodes fs cs = Some Dir"
proof (induction cs' rule: rev_induct)
  case (snoc c cs')
  then have "ft_nodes fs (cs @ cs') = Some Dir" by (simp add: tree_ok_def flip: append_assoc)
  with snoc show ?case by (cases "cs' = []") auto
qed simp

lemma tree_ok_names: "tree_ok fs \<Longrightarrow> ft_nodes fs cs \<noteq> None \<Longrightarrow> list_all (\<lambda>c. plain_name c \<and> c \<noteq> ''..'') cs"
proof (induction cs rule: rev_induct)
  case (snoc c cs)
  then have "ft_nodes fs cs = Some Dir" "plain_name c" "c \<noteq> ''..''" by (auto simp: tree_ok_def)
  with snoc show ?case by simp
qed simp

lemma tree_ok_plain: "tree_ok fs \<Longrightarrow> ft_nodes fs cs \<noteq> None \<Longrightarrow> list_all plain_name cs"
  using tree_ok_names [of fs cs] by (auto simp: list_all_iff)

lemma at_dir: "ft_nodes fs cs = Some Dir \<Longrightarrow> at fs cs"
  by (simp add: at_def)

lemma at_butlast: "tree_ok fs \<Longrightarrow> at fs cs \<Longrightarrow> at fs (butlast cs)"
proof (cases cs rule: rev_cases)
  case (snoc cs' c)
  assume "tree_ok fs" "at fs cs"
  then show ?thesis using tree_ok_snoc [of fs cs' c] by (auto simp: snoc at_def split: option.splits)
qed simp

lemma at_start: "tree_ok fs \<Longrightarrow> at fs (path_start fs p)"
  by (simp add: path_start_def at_def tree_ok_def)

lemma walk_at: "tree_ok fs \<Longrightarrow> at fs cur \<Longrightarrow> walk fs create n cur cs = Inr ds \<Longrightarrow> \<not> create \<or> ft_nodes fs ds \<noteq> None \<Longrightarrow> at fs ds"
proof (induction fs create n cur cs rule: walk.induct)
  case (2 fs create n cur c cs)
  from "2.prems"(3) have cur: "ft_nodes fs cur = Some Dir" by (auto split: option.splits node.splits)
  consider (stay) "c = [] \<or> c = ''.''" | (up) "c = ''..''"
    | (down) "\<not> (c = [] \<or> c = ''.'')" "c \<noteq> ''..''" by blast
  then show ?case
  proof cases
    case stay
    with 2 cur show ?thesis by simp
  next
    case up
    with 2 cur show ?thesis by (simp add: at_butlast)
  next
    case down
    show ?thesis
    proof (cases "ft_nodes fs (cur @ [c])")
      case None
      with down "2.prems"(3,4) cur show ?thesis by (auto split: if_splits)
    next
      case (Some k)
      have "at fs []" using "2.prems"(1) by (simp add: at_def tree_ok_def)
      with Some down 2 cur show ?thesis by (cases k) (auto simp: at_def split: if_splits)
    qed
  qed
qed simp

lemma resolve_at: "tree_ok fs \<Longrightarrow> resolve fs False p = Inr cs \<Longrightarrow> at fs cs"
  by (auto simp: resolve_def intro: walk_at at_start split: if_splits)

text \<open>A location found is found again, by its own path: canonical paths are stable.\<close>

lemma walk_names:
  "tree_ok fs \<Longrightarrow> at fs (cur @ cs) \<Longrightarrow> walk fs create n cur cs = Inr (cur @ cs)"
proof (induction cs arbitrary: cur)
  case (Cons c cs)
  from Cons.prems have "ft_nodes fs (cur @ c # cs) \<noteq> None" by (auto simp: at_def split: option.splits)
  moreover from this have "ft_nodes fs ((cur @ [c]) @ cs) \<noteq> None" by simp
  ultimately have node: "ft_nodes fs cur = Some Dir" "cs \<noteq> [] \<Longrightarrow> ft_nodes fs (cur @ [c]) = Some Dir"
      "plain_name c" "c \<noteq> ''..''"
    using tree_ok_prefix [OF Cons.prems(1), of cur "c # cs"] tree_ok_prefix [OF Cons.prems(1), of "cur @ [c]" cs]
      tree_ok_names [OF Cons.prems(1), of "cur @ c # cs"] by auto
  have "at fs (cur @ [c])" using Cons.prems(2) node(2) by (cases "cs = []") (auto simp: at_def)
  then obtain k where "ft_nodes fs (cur @ [c]) = Some k" "\<not> is_link k" by (auto simp: at_def split: option.splits)
  with node Cons.IH [of "cur @ [c]"] Cons.prems show ?case by (cases k) (auto simp: plain_name_def)
qed simp

lemma resolve_path_of: "tree_ok fs \<Longrightarrow> at fs cs \<Longrightarrow> resolve fs create (path_of cs) = Inr cs"
proof -
  assume ok: "tree_ok fs" "at fs cs"
  then have "list_all plain_name cs" by (auto simp: at_def intro: tree_ok_plain split: option.splits)
  moreover have "path_of cs \<noteq> []" by (simp add: path_render_def)
  moreover have "walk fs create 40 [] [] = Inr []" "ft_nodes fs [] = Some Dir" using ok by (simp_all add: tree_ok_def)
  ultimately show ?thesis
    using walk_names [of fs "[]" cs create 40] ok by (auto simp: resolve_def path_start_def split_path_of)
qed

lemma canonicalize_Inr:
  "canonicalize fs p = Inr q \<longleftrightarrow> (\<exists>cs. resolve fs False p = Inr cs \<and> q = path_of cs)"
  by (cases "resolve fs False p") (auto simp: canonicalize_def)

lemma canonical_starts_with:
  "tree_ok fs \<Longrightarrow> at fs cs \<Longrightarrow> at fs ws \<Longrightarrow> path_starts_with (path_of cs) (path_of ws) \<longleftrightarrow> prefix ws cs"
  by (auto simp: path_starts_with_def at_def tree_ok_plain split: option.splits)

end
