(* ===== verification/Tools.thy ===== *)
theory Tools
  imports Agent Files "HOL-Library.AList"
begin

text \<open>
  The workspace tools the agent calls, \<^verbatim>\<open>loom-cli-tools\<close>: reading and listing files, editing a file by
  snippets, running a shell command, and their registry. Paths are confined to the workspace; the locale
  \<^verbatim>\<open>confined_path\<close> states what a validator promises. The shell is a parameter, as is the JSON codec of the arguments and
  results.
\<close>

section \<open>Arguments and results\<close>

record read_file_args =
  rf_path :: string
  rf_max_bytes :: "u64 option"

record read_file_result =
  rr_path :: string
  rr_contents :: string
  rr_truncated :: bool

record list_files_args =
  lf_root :: "string option"
  lf_max_results :: "nat option"

record file_entry =
  fe_path :: string
  fe_is_dir :: bool

record snippet_edit =
  sn_old_str :: string
  sn_new_str :: string
  sn_replace_all :: "bool option"

record edit_file_args =
  ef_path :: string
  ef_edits :: "snippet_edit list"

record edit_file_result =
  er_path :: string
  er_edits_applied :: nat
  er_original_bytes :: nat
  er_new_bytes :: nat

record bash_args =
  ba_command :: string
  ba_cwd :: "string option"
  ba_timeout_secs :: "u64 option"

record bash_result =
  br_exit_code :: "int option"
  br_stdout :: string
  br_stderr :: string
  br_timed_out :: bool
  br_truncated :: bool

text \<open>\<^verbatim>\<open>serde_json::from_value\<close> of each argument type and \<^verbatim>\<open>to_value\<close> of each result type, with the error's text.\<close>

record 'j tool_json =
  tj_read_args :: "'j \<Rightarrow> string + read_file_args"
  tj_read_result :: "read_file_result \<Rightarrow> string + 'j"
  tj_list_args :: "'j \<Rightarrow> string + list_files_args"
  tj_list_result :: "file_entry list \<Rightarrow> string + 'j"
  tj_edit_args :: "'j \<Rightarrow> string + edit_file_args"
  tj_edit_result :: "edit_file_result \<Rightarrow> string + 'j"
  tj_bash_args :: "'j \<Rightarrow> string + bash_args"
  tj_bash_result :: "bash_result \<Rightarrow> string + 'j"

definition serialized :: "(string + 'j) \<Rightarrow> tool_error + 'j" where
  "serialized r = (case r of Inl e \<Rightarrow> Inl (ToolSerialization e) | Inr v \<Rightarrow> Inr v)"

section \<open>Reading a file\<close>

definition DEFAULT_MAX_BYTES :: u64 where
  "DEFAULT_MAX_BYTES = 1024 * 1024"

definition read_validate_path :: "file_tree \<Rightarrow> string \<Rightarrow> string \<Rightarrow> tool_error + string" where
  "read_validate_path fs p root =
     (let absolute_path = (if is_absolute p then p else path_join root p)
      in case canonicalize fs absolute_path of
           Inl _ \<Rightarrow> Inl (ToolFileNotFound absolute_path)
         | Inr canonical \<Rightarrow> (case canonicalize fs root of
             Inl _ \<Rightarrow> Inl (ToolFileNotFound root)
           | Inr workspace_canonical \<Rightarrow>
               if \<not> path_starts_with canonical workspace_canonical then Inl (ToolPathOutsideWorkspace canonical)
               else Inr canonical))"

definition io_failed :: "io_error \<Rightarrow> tool_error" where
  "io_failed e = ToolIo (show_io_error e)"

definition read_contents :: "file_tree \<Rightarrow> string \<Rightarrow> u64 \<Rightarrow> tool_error + read_file_result" where
  "read_contents fs canonical_path max_bytes = (case metadata_len fs canonical_path of
     Inl e \<Rightarrow> Inl (io_failed e)
   | Inr file_size \<Rightarrow>
       if file_size > unat max_bytes
       then (case fs_read fs canonical_path of
           Inl e \<Rightarrow> Inl (io_failed e)
         | Inr bytes \<Rightarrow> Inr \<lparr>rr_path = canonical_path,
             rr_contents = from_utf8_lossy (take (unat max_bytes) bytes), rr_truncated = True\<rparr>)
       else (case read_to_string fs canonical_path of
           Inl e \<Rightarrow> Inl (io_failed e)
         | Inr s \<Rightarrow> Inr \<lparr>rr_path = canonical_path, rr_contents = s, rr_truncated = False\<rparr>))"

definition read_file :: "file_tree \<Rightarrow> string \<Rightarrow> read_file_args \<Rightarrow> tool_error + read_file_result" where
  "read_file fs root args = (case read_validate_path fs (rf_path args) root of
     Inl e \<Rightarrow> Inl e
   | Inr canonical_path \<Rightarrow> read_contents fs canonical_path (unwrap_or (rf_max_bytes args) DEFAULT_MAX_BYTES))"

definition read_file_invoke :: "'j tool_json \<Rightarrow> file_tree \<Rightarrow> string \<Rightarrow> 'j \<Rightarrow> file_tree \<times> (tool_error + 'j)" where
  "read_file_invoke tj fs root v = (fs, case serialized (tj_read_args tj v) of
     Inl e \<Rightarrow> Inl e
   | Inr args \<Rightarrow> (case read_file fs root args of
       Inl e \<Rightarrow> Inl e
     | Inr r \<Rightarrow> serialized (tj_read_result tj r)))"

section \<open>Listing a directory\<close>

definition DEFAULT_MAX_RESULTS :: nat where
  "DEFAULT_MAX_RESULTS = 1000"

definition list_validate_path :: "file_tree \<Rightarrow> string \<Rightarrow> string \<Rightarrow> tool_error + string" where
  "list_validate_path fs p root =
     (let absolute_path = (if is_absolute p then p else path_join root p)
      in case canonicalize fs absolute_path of
           Inl _ \<Rightarrow> Inl (ToolFileNotFound absolute_path)
         | Inr canonical \<Rightarrow> (case canonicalize fs root of
             Inl _ \<Rightarrow> Inl (ToolFileNotFound root)
           | Inr workspace_canonical \<Rightarrow>
               if \<not> path_starts_with canonical workspace_canonical then Inl (ToolPathOutsideWorkspace canonical)
               else Inr canonical))"

text \<open>\<^verbatim>\<open>DirEntry::metadata\<close> does not follow a link.\<close>

definition entry_is_dir :: "file_tree \<Rightarrow> string \<Rightarrow> io_error + bool" where
  "entry_is_dir fs p = (case ft_nodes fs (path_components p) of Some k \<Rightarrow> Inr (k = Dir) | None \<Rightarrow> Inl NotFound)"

fun collect_entries :: "file_tree \<Rightarrow> string \<Rightarrow> nat \<Rightarrow> file_entry list \<Rightarrow> string list \<Rightarrow> io_error + file_entry list" where
  "collect_entries fs root_path max_results entries [] = Inr entries"
| "collect_entries fs root_path max_results entries (c # cs) =
     (if length entries \<ge> max_results then Inr entries
      else let path = path_join root_path c
           in case entry_is_dir fs path of
                Inl e \<Rightarrow> Inl e
              | Inr d \<Rightarrow> collect_entries fs root_path max_results (entries @ [\<lparr>fe_path = path, fe_is_dir = d\<rparr>]) cs)"

definition list_root :: "file_tree \<Rightarrow> string \<Rightarrow> string option \<Rightarrow> tool_error + string" where
  "list_root fs root p = (case p of
     Some q \<Rightarrow> list_validate_path fs q root
   | None \<Rightarrow> (case canonicalize fs root of Inl e \<Rightarrow> Inl (io_failed e) | Inr q \<Rightarrow> Inr q))"

definition list_files ::
  "(string list \<Rightarrow> string list) \<Rightarrow> file_tree \<Rightarrow> string \<Rightarrow> list_files_args \<Rightarrow> tool_error + file_entry list" where
  "list_files listing fs root args = (case list_root fs root (lf_root args) of
     Inl e \<Rightarrow> Inl e
   | Inr root_path \<Rightarrow> (case read_dir fs listing root_path of
       Inl e \<Rightarrow> Inl (io_failed e)
     | Inr names \<Rightarrow>
         (case collect_entries fs root_path (unwrap_or (lf_max_results args) DEFAULT_MAX_RESULTS) [] names of
            Inl e \<Rightarrow> Inl (io_failed e) | Inr entries \<Rightarrow> Inr entries)))"

definition list_files_invoke ::
  "'j tool_json \<Rightarrow> (string list \<Rightarrow> string list) \<Rightarrow> file_tree \<Rightarrow> string \<Rightarrow> 'j \<Rightarrow> file_tree \<times> (tool_error + 'j)" where
  "list_files_invoke tj listing fs root v = (fs, case serialized (tj_list_args tj v) of
     Inl e \<Rightarrow> Inl e
   | Inr args \<Rightarrow> (case list_files listing fs root args of
       Inl e \<Rightarrow> Inl e
     | Inr entries \<Rightarrow> serialized (tj_list_result tj entries)))"

section \<open>Editing a file\<close>

definition edit_validate_path :: "file_tree \<Rightarrow> string \<Rightarrow> string \<Rightarrow> tool_error + string" where
  "edit_validate_path fs p root =
     (let absolute_path = (if is_absolute p then p else path_join root p)
      in case canonicalize fs absolute_path of
           Inr canonical \<Rightarrow> (case canonicalize fs root of
             Inl _ \<Rightarrow> Inl (ToolFileNotFound root)
           | Inr workspace_canonical \<Rightarrow>
               if \<not> path_starts_with canonical workspace_canonical then Inl (ToolPathOutsideWorkspace canonical)
               else Inr canonical)
         | Inl _ \<Rightarrow> (case canonicalize fs root of
             Inl _ \<Rightarrow> Inl (ToolFileNotFound root)
           | Inr workspace_canonical \<Rightarrow>
               let normalized = (if is_absolute absolute_path then absolute_path
                                 else path_join workspace_canonical absolute_path)
               in case path_parent normalized of
                    None \<Rightarrow> Inr normalized
                  | Some parent \<Rightarrow> (case canonicalize fs parent of
                      Inl _ \<Rightarrow> Inr normalized
                    | Inr parent_canonical \<Rightarrow>
                        if \<not> path_starts_with parent_canonical workspace_canonical
                        then Inl (ToolPathOutsideWorkspace normalized)
                        else Inr normalized)))"

text \<open>\<^verbatim>\<open>str::replace\<close>, the count of \<^verbatim>\<open>str::matches\<close>, and \<^verbatim>\<open>str::replacen\<close> with 1, for a pattern that is not empty.\<close>

function str_replace :: "string \<Rightarrow> string \<Rightarrow> string \<Rightarrow> string" where
  "str_replace s p r = (case str_find s p of
     None \<Rightarrow> s
   | Some k \<Rightarrow> if p = [] then s else take k s @ r @ str_replace (drop (k + length p) s) p r)"
  by pat_completeness auto
termination
  by (relation "measure (\<lambda>(s, p, r). length s)") (auto intro: str_find_shorter)

function str_matches :: "string \<Rightarrow> string \<Rightarrow> nat" where
  "str_matches s p = (case str_find s p of
     None \<Rightarrow> 0
   | Some k \<Rightarrow> if p = [] then 0 else Suc (str_matches (drop (k + length p) s) p))"
  by pat_completeness auto
termination
  by (relation "measure (\<lambda>(s, p). length s)") (auto intro: str_find_shorter)

declare str_replace.simps [simp del] str_matches.simps [simp del]

definition str_replace_first :: "string \<Rightarrow> string \<Rightarrow> string \<Rightarrow> string" where
  "str_replace_first s p r = (case str_find s p of None \<Rightarrow> s | Some k \<Rightarrow> take k s @ r @ drop (k + length p) s)"

definition apply_edit :: "string \<Rightarrow> snippet_edit \<Rightarrow> string \<times> nat \<Rightarrow> tool_error + (string \<times> nat)" where
  "apply_edit file_path edit st = (case st of (content, edits_applied) \<Rightarrow>
     if sn_old_str edit = [] then Inr (content @ sn_new_str edit, edits_applied + 1)
     else if \<not> str_contains content (sn_old_str edit)
     then Inl (ToolTargetNotFound (''target '' @ quoted (sn_old_str edit) @ '' not found in '' @ file_path))
     else if unwrap_or (sn_replace_all edit) False
     then Inr (str_replace content (sn_old_str edit) (sn_new_str edit),
               edits_applied + str_matches content (sn_old_str edit))
     else Inr (str_replace_first content (sn_old_str edit) (sn_new_str edit), edits_applied + 1))"

fun apply_edits :: "string \<Rightarrow> snippet_edit list \<Rightarrow> string \<times> nat \<Rightarrow> tool_error + (string \<times> nat)" where
  "apply_edits file_path [] st = Inr st"
| "apply_edits file_path (edit # edits) st = (case apply_edit file_path edit st of
     Inl e \<Rightarrow> Inl e
   | Inr st' \<Rightarrow> apply_edits file_path edits st')"

text \<open>The end of \<^verbatim>\<open>invoke\<close>: the directory is created when needed, and the file written.\<close>

definition store_file :: "file_tree \<Rightarrow> string \<Rightarrow> string \<Rightarrow> file_tree \<times> (tool_error + unit)" where
  "store_file fs file_path content =
     (case (case path_parent file_path of None \<Rightarrow> (fs, None) | Some parent \<Rightarrow> create_dir_all fs parent) of
        (fs', Some e) \<Rightarrow> (fs', Inl (io_failed e))
      | (fs', None) \<Rightarrow> (case fs_write fs' file_path content of
          (fs'', Some e) \<Rightarrow> (fs'', Inl (io_failed e))
        | (fs'', None) \<Rightarrow> (fs'', Inr ())))"

definition edit_file :: "file_tree \<Rightarrow> string \<Rightarrow> edit_file_args \<Rightarrow> file_tree \<times> (tool_error + edit_file_result)" where
  "edit_file fs root args = (case edit_validate_path fs (ef_path args) root of
     Inl e \<Rightarrow> (fs, Inl e)
   | Inr file_path \<Rightarrow>
       (case (if path_exists fs file_path then read_to_string fs file_path else Inr []) of
          Inl e \<Rightarrow> (fs, Inl (io_failed e))
        | Inr original \<Rightarrow> (case apply_edits file_path (ef_edits args) (original, 0) of
            Inl e \<Rightarrow> (fs, Inl e)
          | Inr (content, edits_applied) \<Rightarrow> (case store_file fs file_path content of
              (fs', Inl e) \<Rightarrow> (fs', Inl e)
            | (fs', Inr _) \<Rightarrow> (fs', Inr \<lparr>er_path = file_path, er_edits_applied = edits_applied,
                er_original_bytes = length original, er_new_bytes = length content\<rparr>)))))"

definition edit_file_invoke :: "'j tool_json \<Rightarrow> file_tree \<Rightarrow> string \<Rightarrow> 'j \<Rightarrow> file_tree \<times> (tool_error + 'j)" where
  "edit_file_invoke tj fs root v = (case serialized (tj_edit_args tj v) of
     Inl e \<Rightarrow> (fs, Inl e)
   | Inr args \<Rightarrow> (case edit_file fs root args of
       (fs', Inl e) \<Rightarrow> (fs', Inl e)
     | (fs', Inr r) \<Rightarrow> (fs', serialized (tj_edit_result tj r))))"

section \<open>Running a command\<close>

definition DEFAULT_TIMEOUT_SECS :: u64 where
  "DEFAULT_TIMEOUT_SECS = 60"

definition MAX_TIMEOUT_SECS :: u64 where
  "MAX_TIMEOUT_SECS = 300"

definition MAX_OUTPUT_BYTES :: nat where
  "MAX_OUTPUT_BYTES = 256 * 1024"

definition validate_cwd :: "file_tree \<Rightarrow> string \<Rightarrow> string \<Rightarrow> tool_error + string" where
  "validate_cwd fs cwd root =
     (let absolute_path = (if is_absolute cwd then cwd else path_join root cwd)
      in case canonicalize fs absolute_path of
           Inl _ \<Rightarrow> Inl (ToolInvalidArguments (''working directory does not exist: '' @ absolute_path))
         | Inr canonical \<Rightarrow> (case canonicalize fs root of
             Inl _ \<Rightarrow> Inl (ToolFileNotFound root)
           | Inr workspace_canonical \<Rightarrow>
               if \<not> path_starts_with canonical workspace_canonical then Inl (ToolPathOutsideWorkspace canonical)
               else Inr canonical))"

definition truncate_output :: "string \<Rightarrow> nat \<Rightarrow> string \<times> bool" where
  "truncate_output output max_bytes =
     (if length output \<le> max_bytes then (from_utf8_lossy output, False)
      else (from_utf8_lossy (take max_bytes output), True))"

text \<open>What \<^verbatim>\<open>timeout(.., cmd.output())\<close> gives: the exit code and the two outputs, an error of starting the shell, or no answer in time.\<close>

datatype shell_outcome = ShellExited "int option" string string | ShellFailed string | ShellTimedOut

definition bash :: "(file_tree \<Rightarrow> string \<Rightarrow> string \<Rightarrow> u64 \<Rightarrow> file_tree \<times> shell_outcome) \<Rightarrow> file_tree \<Rightarrow> string
    \<Rightarrow> bash_args \<Rightarrow> file_tree \<times> (tool_error + bash_result)" where
  "bash sh fs root args =
     (let timeout_secs = min (unwrap_or (ba_timeout_secs args) DEFAULT_TIMEOUT_SECS) MAX_TIMEOUT_SECS
      in case (case ba_cwd args of Some cwd \<Rightarrow> validate_cwd fs cwd root | None \<Rightarrow> Inr root) of
           Inl e \<Rightarrow> (fs, Inl e)
         | Inr working_dir \<Rightarrow> (case sh fs working_dir (ba_command args) timeout_secs of
             (fs', ShellExited code out err) \<Rightarrow>
               (let (stdout, stdout_truncated) = truncate_output out MAX_OUTPUT_BYTES;
                    (stderr, stderr_truncated) = truncate_output err MAX_OUTPUT_BYTES
                in (fs', Inr \<lparr>br_exit_code = code, br_stdout = stdout, br_stderr = stderr, br_timed_out = False,
                     br_truncated = stdout_truncated \<or> stderr_truncated\<rparr>))
           | (fs', ShellFailed e) \<Rightarrow> (fs', Inl (ToolIo e))
           | (fs', ShellTimedOut) \<Rightarrow> (fs', Inr \<lparr>br_exit_code = None, br_stdout = [], br_stderr = [],
               br_timed_out = True, br_truncated = False\<rparr>)))"

definition bash_invoke :: "'j tool_json \<Rightarrow> (file_tree \<Rightarrow> string \<Rightarrow> string \<Rightarrow> u64 \<Rightarrow> file_tree \<times> shell_outcome)
    \<Rightarrow> file_tree \<Rightarrow> string \<Rightarrow> 'j \<Rightarrow> file_tree \<times> (tool_error + 'j)" where
  "bash_invoke tj sh fs root v = (case serialized (tj_bash_args tj v) of
     Inl e \<Rightarrow> (fs, Inl e)
   | Inr args \<Rightarrow> (case bash sh fs root args of
       (fs', Inl e) \<Rightarrow> (fs', Inl e)
     | (fs', Inr r) \<Rightarrow> (fs', serialized (tj_bash_result tj r))))"

section \<open>The registry\<close>

record 'j tool =
  tl_name :: string
  tl_description :: string
  tl_input_schema :: 'j
  tl_invoke :: "file_tree \<Rightarrow> string \<Rightarrow> 'j \<Rightarrow> file_tree \<times> (tool_error + 'j)"

definition to_definition :: "'j tool \<Rightarrow> 'j tool_definition" where
  "to_definition t = \<lparr>td_name = tl_name t, td_description = tl_description t, td_input_schema = tl_input_schema t\<rparr>"

type_synonym 'j tool_registry = "(string \<times> 'j tool) list"

definition registry_new :: "'j tool_registry" where
  "registry_new = []"

definition register :: "'j tool_registry \<Rightarrow> 'j tool \<Rightarrow> 'j tool_registry" where
  "register reg t = AList.update (tl_name t) t reg"

definition registry_get :: "'j tool_registry \<Rightarrow> string \<Rightarrow> 'j tool option" where
  "registry_get reg n = map_of reg n"

definition definitions :: "'j tool_registry \<Rightarrow> 'j tool_definition list" where
  "definitions reg = map (to_definition \<circ> snd) reg"

definition execute_tool ::
  "'j tool_registry \<Rightarrow> file_tree \<Rightarrow> string \<Rightarrow> 'j tool_call \<Rightarrow> file_tree \<times> 'j tool_execution_outcome" where
  "execute_tool reg fs root tc = (case registry_get reg (tc_tool_name tc) of
     Some t \<Rightarrow> (case tl_invoke t fs root (tc_arguments_json tc) of
         (fs', Inr output) \<Rightarrow> (fs', OutcomeSuccess (tc_id tc) output)
       | (fs', Inl e) \<Rightarrow> (fs', OutcomeError (tc_id tc) e))
   | None \<Rightarrow> (fs, OutcomeError (tc_id tc) (ToolNotFound (tc_tool_name tc))))"

section \<open>Confined paths\<close>

text \<open>
  What a validator of a path promises: an accepted path is the canonical one of the path asked for, and starts
  with the canonical path of the workspace. Opening it then reaches a node of the workspace, whatever links
  the path went through.
\<close>

locale confined_path =
  fixes validate :: "file_tree \<Rightarrow> string \<Rightarrow> string \<Rightarrow> tool_error + string"
  assumes validated: "validate fs p root = Inr q \<Longrightarrow>
    \<exists>workspace. canonicalize fs (path_join root p) = Inr q \<and> canonicalize fs root = Inr workspace \<and> path_starts_with q workspace"
begin

lemma reaches:
  assumes "tree_ok fs" and "validate fs p root = Inr q"
  obtains ws cs where "resolve fs False root = Inr ws" "resolve fs False (path_join root p) = Inr cs" "q = path_of cs"
    "prefix ws cs" "at fs cs" "\<And>create. resolve fs create q = Inr cs"
proof -
  obtain ws cs where r: "resolve fs False root = Inr ws" "resolve fs False (path_join root p) = Inr cs" "q = path_of cs"
      "path_starts_with (path_of cs) (path_of ws)"
    using validated [OF assms(2)] by (auto simp: canonicalize_Inr)
  moreover have "at fs cs" "at fs ws" using r assms(1) by (auto intro: resolve_at)
  ultimately show thesis
    using that canonical_starts_with [OF assms(1)] resolve_path_of [OF assms(1)] by auto
qed

end

interpretation read_path: confined_path read_validate_path
  by unfold_locales (auto simp: read_validate_path_def path_join_def Let_def split: sum.splits if_splits)

interpretation list_path: confined_path list_validate_path
  by unfold_locales (auto simp: list_validate_path_def path_join_def Let_def split: sum.splits if_splits)

interpretation command_dir: confined_path validate_cwd
  by unfold_locales (auto simp: validate_cwd_def path_join_def Let_def split: sum.splits if_splits)

section \<open>Replacing snippets\<close>

text \<open>The pieces between the occurrences of a pattern, from the left and without overlap.\<close>

function pieces :: "string \<Rightarrow> string \<Rightarrow> string list" where
  "pieces s p = (case str_find s p of
     None \<Rightarrow> [s]
   | Some k \<Rightarrow> if p = [] then [s] else take k s # pieces (drop (k + length p) s) p)"
  by pat_completeness auto
termination
  by (relation "measure (\<lambda>(s, p). length s)") (auto intro: str_find_shorter)

declare pieces.simps [simp del]

lemma pieces_neq_Nil [simp]: "pieces s p \<noteq> []"
  by (simp add: pieces.simps [of s p] split: option.split)

lemma str_find_Some: "str_find s p = Some k \<Longrightarrow> s = take k s @ p @ drop (k + length p) s"
proof (induction s arbitrary: k)
  case (Cons c s)
  show ?case
  proof (cases "starts_with (c # s) p")
    case True
    with Cons.prems show ?thesis by (auto simp: starts_with_iff_prefix prefix_def)
  qed (use Cons in auto)
qed (simp split: if_splits)

lemma str_find_first: "str_find s p = Some k \<Longrightarrow> p \<noteq> [] \<Longrightarrow> \<not> str_contains (take k s) p"
proof (induction s arbitrary: k)
  case (Cons c s)
  show ?case
  proof (cases k)
    case (Suc j)
    with Cons have "\<not> starts_with (c # s) p" "str_find s p = Some j" by (auto split: if_splits)
    moreover have "\<not> prefix p (c # take j s)" if "\<not> prefix p (c # s)"
      using that prefix_order.trans [of p "c # take j s" "c # s"] by (auto simp: take_is_prefix)
    ultimately show ?thesis using Cons by (auto simp: Suc starts_with_iff_prefix)
  qed (use Cons in auto)
qed simp

lemma str_find_None: "str_find s p = None \<longleftrightarrow> \<not> str_contains s p"
  by (induction s) auto

lemma join_pieces: "str_join p (pieces s p) = s"
proof (induction s p rule: pieces.induct)
  case (1 s p)
  then show ?case
    using str_find_Some [of s p] by (auto simp: pieces.simps [of s p] str_join_Cons split: option.split)
qed

lemma pieces_free: "p \<noteq> [] \<Longrightarrow> list_all (\<lambda>w. \<not> str_contains w p) (pieces s p)"
proof (induction s p rule: pieces.induct)
  case (1 s p)
  then show ?case
    using str_find_first [of s p] by (auto simp: pieces.simps [of s p] str_find_None split: option.split)
qed

lemma str_replace_pieces: "str_replace s p r = str_join r (pieces s p)"
proof (induction s p r rule: str_replace.induct)
  case (1 s p r)
  then show ?case
    by (auto simp: pieces.simps [of s p] str_replace.simps [of s p] str_join_Cons split: option.split)
qed

lemma str_matches_pieces: "str_matches s p = length (pieces s p) - 1"
proof (induction s p rule: str_matches.induct)
  case (1 s p)
  have "Suc (length (pieces t p) - 1) = length (pieces t p)" for t
    using pieces_neq_Nil [of t p] by (cases "pieces t p") auto
  with 1 show ?case by (auto simp: pieces.simps [of s p] str_matches.simps [of s p] split: option.split)
qed

section \<open>Walks in parts\<close>

text \<open>A walk along proper names of existing directories only changes the place.\<close>

lemma walk_names_append:
  "tree_ok fs \<Longrightarrow> ft_nodes fs (cur @ cs) = Some Dir \<Longrightarrow> walk fs create n cur (cs @ rest) = walk fs create n (cur @ cs) rest"
proof (induction cs arbitrary: cur)
  case (Cons c cs)
  then have "ft_nodes fs ((cur @ [c]) @ cs) = Some Dir" by simp
  then have dirs: "ft_nodes fs (cur @ [c]) = Some Dir"
    using tree_ok_prefix [OF Cons.prems(1), of "cur @ [c]" cs] by (cases "cs = []") auto
  then have "ft_nodes fs cur = Some Dir" "plain_name c" "c \<noteq> ''..''"
    using tree_ok_snoc [OF Cons.prems(1)] by blast+
  with dirs Cons.IH [of "cur @ [c]"] Cons.prems show ?case by (simp add: plain_name_def)
qed simp

text \<open>A successful walk splits anywhere: the first part ends at a place from which the second leads on.\<close>

lemma walk_append:
  assumes "walk fs create n cur (xs @ ys) = Inr ds" and "ys \<noteq> [] \<or> \<not> create"
  shows "\<exists>n' mid. walk fs False n cur xs = Inr mid \<and> walk fs create n' mid ys = Inr ds"
  using assms
proof (induction fs create n cur xs rule: walk.induct)
  case (2 fs create n cur c cs)
  have cur: "ft_nodes fs cur = Some Dir" using "2.prems"(1) by (auto split: option.splits node.splits)
  show ?case
  proof (cases "c = [] \<or> c = ''.'' \<or> c = ''..''")
    case True
    with 2 cur show ?thesis by (auto split: if_splits)
  next
    case False
    with "2.prems" cur obtain k where k: "ft_nodes fs (cur @ [c]) = Some k" by (auto split: option.splits if_splits)
    show ?thesis
    proof (cases k)
      case (Link t)
      with "2.prems"(1) False cur k have n: "n \<noteq> 0"
        and rest: "walk fs create (n - 1) (if is_absolute t then [] else cur) ((str_split CHR ''/'' t @ cs) @ ys) = Inr ds"
        by (auto split: if_splits)
      from "2.IH"(5) [OF cur _ _ _ k Link n rest "2.prems"(2)] False Link cur k n show ?thesis by simp
    qed (use 2 False cur k in \<open>auto split: if_splits\<close>)
  qed
qed auto

text \<open>Empty names and \<^verbatim>\<open>.\<close> can be left out of a walk.\<close>

lemma walk_delete:
  assumes "walk fs create n cur (xs @ c # ys) = Inr ds" and "c = [] \<or> c = ''.''"
  shows "walk fs create n cur (xs @ ys) = Inr ds"
  using assms
proof (induction fs create n cur xs rule: walk.induct)
  case (2 fs create n cur d cs)
  have cur: "ft_nodes fs cur = Some Dir" using "2.prems"(1) by (auto split: option.splits node.splits)
  show ?case
  proof (cases "d = [] \<or> d = ''.'' \<or> d = ''..''")
    case True
    with 2 cur show ?thesis by (auto split: if_splits)
  next
    case False
    with "2.prems" cur obtain k where k: "ft_nodes fs (cur @ [d]) = Some k" by (auto split: option.splits if_splits)
    show ?thesis
    proof (cases k)
      case (Link t)
      with "2.prems"(1) False cur k have n: "n \<noteq> 0"
        and rest: "walk fs create (n - 1) (if is_absolute t then [] else cur) ((str_split CHR ''/'' t @ cs) @ c # ys) = Inr ds"
        by (auto split: if_splits)
      from "2.IH"(5) [OF cur _ _ _ k Link n rest "2.prems"(2)] False Link cur k n show ?thesis by simp
    qed (use 2 False cur k in \<open>auto split: if_splits\<close>)
  qed
qed (auto split: option.splits node.splits if_splits)

lemma walk_filter:
  "walk fs create n cur (xs @ ys) = Inr ds \<Longrightarrow> walk fs create n cur (xs @ filter (\<lambda>c. c \<noteq> [] \<and> c \<noteq> ''.'') ys) = Inr ds"
proof (induction ys arbitrary: xs)
  case (Cons y ys)
  show ?case
  proof (cases "y = [] \<or> y = ''.''")
    case True
    with Cons walk_delete [OF Cons.prems True] show ?thesis by auto
  next
    case False
    with Cons.IH [of "xs @ [y]"] Cons.prems show ?thesis by auto
  qed
qed simp

lemma resolve_components:
  assumes "is_absolute p" and "resolve fs create p = Inr ds"
  shows "walk fs create 40 [] (path_components p) = Inr ds"
proof -
  from assms(1) obtain s where p: "p = CHR ''/'' # s" by (cases p) auto
  have "walk fs create 40 [] (str_split CHR ''/'' p) = Inr ds"
    using assms by (simp add: resolve_def path_start_def split: if_splits)
  then have "walk fs create 40 [] (filter (\<lambda>c. c \<noteq> [] \<and> c \<noteq> ''.'') (str_split CHR ''/'' p)) = Inr ds"
    using walk_filter [of fs create 40 "[]" "[]"] by simp
  then show ?thesis by (simp add: p path_components_def)
qed

text \<open>A directory that is already reachable is not created again.\<close>

lemma create_dir_all_existing:
  assumes "is_absolute q" and "resolve fs False q = Inr d"
  shows "fst (create_dir_all fs q) = fs"
proof (cases "path_components q" rule: rev_cases)
  case Nil
  have "q \<noteq> []" using assms(1) by auto
  then show ?thesis using assms(1) by (simp add: create_dir_all.simps [of fs q] mkdir_def Nil)
next
  case (snoc cs c)
  have "q \<noteq> []" using assms(1) by auto
  from resolve_components [OF assms] snoc obtain n' mid
    where mid: "walk fs False 40 [] cs = Inr mid" "walk fs False n' mid [c] = Inr d"
    using walk_append [of fs False 40 "[]" cs "[c]" d] by auto
  have "plain_name c" using components_plain [OF assms(1)] snoc by simp
  then have "ft_nodes fs mid = Some Dir" "c = ''..'' \<or> ft_nodes fs (mid @ [c]) \<noteq> None"
    using mid(2) by (auto simp: plain_name_def split: option.splits node.splits if_splits)
  then have "mkdir fs q = Inl AlreadyExists"
    using mid(1) assms(1) by (auto simp: mkdir_def snoc path_start_def)
  then show ?thesis using \<open>q \<noteq> []\<close> by (simp add: create_dir_all.simps [of fs q])
qed

section \<open>Where an edit is stored\<close>

text \<open>
  A target is settled when it exists, or when its directory does and the name in it is free. Then the file
  that is written is the target, below the workspace, and nothing else changes.
\<close>

definition stored_at :: "file_tree \<Rightarrow> string list \<Rightarrow> string \<Rightarrow> file_tree \<Rightarrow> tool_error + unit \<Rightarrow> bool" where
  "stored_at fs cs content fs' r \<longleftrightarrow> fs' = fs \<and> isl r
     \<or> (case ft_broken fs cs of
          None \<Rightarrow> fs' = set_node fs cs (File content) \<and> r = Inr ()
        | Some (n, e) \<Rightarrow> fs' = set_node fs cs (File (take n content)) \<and> r = Inl (io_failed (Refused e)))"

definition settled :: "file_tree \<Rightarrow> string \<Rightarrow> bool" where
  "settled fs p \<longleftrightarrow> path_exists fs p \<or> (case path_parent p of None \<Rightarrow> False | Some q \<Rightarrow>
     (case resolve fs False q of Inl _ \<Rightarrow> False
      | Inr d \<Rightarrow> last (path_components p) \<noteq> ''..'' \<and> ft_nodes fs (d @ [last (path_components p)]) = None))"

lemma store_file_at:
  assumes "is_absolute p" and "path_parent p = Some q" and "resolve fs False q = Inr d"
    and "\<And>t. resolve fs True p = Inr t \<Longrightarrow> t = cs"
    and "store_file fs p content = (fs', r)"
  shows "stored_at fs cs content fs' r"
proof -
  have "is_absolute q" using components_parent [OF assms(2)] assms(1) by simp
  from create_dir_all_existing [OF this assms(3)] obtain o' where "create_dir_all fs q = (fs, o')"
    by (cases "create_dir_all fs q") auto
  with assms(2,4,5) show ?thesis
    by (auto simp: store_file_def fs_write_def stored_at_def split: option.splits sum.splits if_splits)
qed

lemma store_existing:
  assumes "tree_ok fs" and "at fs cs" and "store_file fs (path_of cs) content = (fs', r)"
  shows "stored_at fs cs content fs' r"
proof (cases cs rule: rev_cases)
  case Nil
  have "ft_nodes fs [] = Some Dir" using assms(1) by (simp add: tree_ok_def)
  with assms(3) resolve_path_of [OF assms(1,2), of True] show ?thesis
    by (auto simp: store_file_def fs_write_def stored_at_def Nil path_parent_def split: option.splits)
next
  case (snoc ds c)
  have plain: "list_all plain_name cs" using assms(1,2) by (auto simp: at_def intro: tree_ok_plain split: option.splits)
  then have parent: "path_parent (path_of cs) = Some (path_of ds)" using snoc by (simp add: path_parent_def)
  have "at fs ds" using at_butlast [OF assms(1,2)] by (simp add: snoc)
  then have "resolve fs False (path_of ds) = Inr ds" by (rule resolve_path_of [OF assms(1)])
  from store_file_at [OF is_absolute_path_of parent this _ assms(3)] show ?thesis
    using resolve_path_of [OF assms(1,2), of True] by auto
qed

lemma store_new:
  assumes "is_absolute p" and "path_parent p = Some q" and "resolve fs False q = Inr d"
    and "last (path_components p) \<noteq> ''..''" and "ft_nodes fs (d @ [last (path_components p)]) = None"
    and "store_file fs p content = (fs', r)"
  shows "stored_at fs (d @ [last (path_components p)]) content fs' r"
proof (rule store_file_at [OF assms(1-3) _ assms(6)])
  fix t
  assume t: "resolve fs True p = Inr t"
  let ?c = "last (path_components p)"
  have comps: "path_components p = path_components q @ [?c]" "is_absolute q"
    using components_parent [OF assms(2)] assms(1) by auto
  with resolve_components [OF assms(1) t] obtain n' mid
    where mid: "walk fs False 40 [] (path_components q) = Inr mid" "walk fs True n' mid [?c] = Inr t"
    using walk_append [of fs True 40 "[]" "path_components q" "[?c]" t] by auto
  have "mid = d" using mid(1) resolve_components [OF comps(2) assms(3)] by simp
  moreover have "plain_name ?c" using components_plain [OF assms(1)] components_parent(3) [OF assms(2)] by (simp add: list_all_iff)
  ultimately show "t = d @ [?c]"
    using mid(2) assms(4,5) by (auto simp: plain_name_def split: option.splits node.splits if_splits)
qed

text \<open>The two ways the validator of an edit accepts a settled target.\<close>

lemma edit_validate_existing:
  assumes "tree_ok fs" and "resolve fs False root = Inr ws" and "resolve fs False (path_join root p) = Inr cs"
  shows "edit_validate_path fs p root =
    (if prefix ws cs then Inr (path_of cs) else Inl (ToolPathOutsideWorkspace (path_of cs)))"
proof -
  have "at fs cs" "at fs ws" using assms by (auto intro: resolve_at)
  then show ?thesis
    using assms canonical_starts_with [OF assms(1)]
    by (auto simp: edit_validate_path_def canonicalize_def path_join_def Let_def)
qed

lemma edit_validate_new:
  assumes "tree_ok fs" and "is_absolute root" and "resolve fs False root = Inr ws" and "\<not> path_exists fs (path_join root p)"
    and "path_parent (path_join root p) = Some q" and "resolve fs False q = Inr d"
  shows "edit_validate_path fs p root =
    (if prefix ws d then Inr (path_join root p) else Inl (ToolPathOutsideWorkspace (path_join root p)))"
proof -
  have absolute: "is_absolute (path_join root p)" using assms(2) by (cases root) (auto simp: path_join_def)
  obtain e where none: "resolve fs False (path_join root p) = Inl e"
    using assms(4) by (cases "resolve fs False (path_join root p)") (auto simp: path_exists_def)
  have join: "(if is_absolute p then p else path_join root p) = path_join root p" by (simp add: path_join_def)
  have "at fs d" "at fs ws" using assms by (auto intro: resolve_at)
  then show ?thesis
    using assms canonical_starts_with [OF assms(1)] absolute none
    by (auto simp: edit_validate_path_def canonicalize_def join Let_def)
qed

lemma edit_file_cases [case_names failed stored]:
  assumes "edit_file fs root args = (fs', res)"
  obtains "fs' = fs" "isl res"
  | file_path original content n r where "edit_validate_path fs (ef_path args) root = Inr file_path"
      "(if path_exists fs file_path then read_to_string fs file_path else Inr []) = Inr original"
      "apply_edits file_path (ef_edits args) (original, 0) = Inr (content, n)"
      "store_file fs file_path content = (fs', r)"
      "res = map_sum id (\<lambda>_. \<lparr>er_path = file_path, er_edits_applied = n,
         er_original_bytes = length original, er_new_bytes = length content\<rparr>) r"
proof -
  show thesis
  proof (cases "edit_validate_path fs (ef_path args) root")
    case (Inl e)
    with assms that(1) show ?thesis by (auto simp: edit_file_def)
  next
    case (Inr file_path)
    let ?read = "if path_exists fs file_path then read_to_string fs file_path else Inr []"
    show ?thesis
    proof (cases ?read)
      case (Inl e)
      with Inr assms that(1) show ?thesis by (auto simp: edit_file_def split: if_splits)
    next
      case read: (Inr original)
      show ?thesis
      proof (cases "apply_edits file_path (ef_edits args) (original, 0)")
        case (Inl e)
        with Inr read assms that(1) show ?thesis by (auto simp: edit_file_def)
      next
        case applied: (Inr st)
        obtain content n where st: "st = (content, n)" by force
        obtain tree r where stored: "store_file fs file_path content = (tree, r)" by force
        with Inr read applied st assms that(2) [OF Inr read] show ?thesis
          by (cases r) (simp_all add: edit_file_def)
      qed
    qed
  qed
qed

lemma read_contents_at:
  assumes "read_contents fs q limit = Inr r" and "\<And>create. resolve fs create q = Inr cs"
  shows "\<exists>s. ft_nodes fs cs = Some (File s) \<and> rr_path r = q \<and> rr_truncated r = (length s > unat limit)
    \<and> rr_contents r = (if length s > unat limit then from_utf8_lossy (take (unat limit) s) else s)"
  using assms by (auto simp: read_contents_def metadata_len_def read_to_string_def fs_read_def
      split: sum.splits option.splits node.splits if_splits)

lemma read_to_string_at:
  "read_to_string fs p = Inr s \<Longrightarrow> resolve fs False p = Inr cs \<Longrightarrow> ft_nodes fs cs = Some (File s)"
  by (auto simp: read_to_string_def fs_read_def split: sum.splits option.splits node.splits if_splits)

section \<open>Paths through a directory that does not exist yet\<close>

lemma str_join_append: "xs \<noteq> [] \<Longrightarrow> ys \<noteq> [] \<Longrightarrow> str_join d (xs @ ys) = str_join d xs @ d @ str_join d ys"
proof (induction xs rule: list_nonempty_induct)
  case (cons x xs)
  then show ?case by (simp add: str_join_Cons)
qed (simp add: str_join_Cons)

lemma last_str_join: "cs \<noteq> [] \<Longrightarrow> last cs \<noteq> [] \<Longrightarrow> last (str_join d cs) = last (last cs) \<and> str_join d cs \<noteq> []"
  by (induction cs rule: list_nonempty_induct) (auto simp: str_join_Cons)

lemma path_join_of:
  assumes "ws \<noteq> []" and "list_all plain_name ws" and "cs \<noteq> []" and "list_all plain_name cs"
  shows "path_join (path_of ws) (str_join ''/'' cs) = path_of (ws @ cs)"
proof -
  have name: "plain_name (last ws)" "plain_name (hd cs)" using assms by (simp_all add: list_all_iff)
  then have "last (path_of ws) \<noteq> CHR ''/''"
    using last_str_join [OF assms(1), of "''/''"] last_in_set [of "last ws"]
    by (fastforce simp: plain_name_def path_render_def)
  moreover have "\<not> is_absolute (str_join ''/'' cs)"
    using name(2) assms(3) by (cases cs; cases "hd cs"; cases "tl cs") (auto simp: plain_name_def)
  moreover have "path_of ws \<noteq> []" by (simp add: path_render_def)
  ultimately show ?thesis using assms(1,3) by (simp add: path_join_def path_render_def str_join_append)
qed

lemma resolve_rendered:
  "tree_ok fs \<Longrightarrow> list_all plain_name cs \<Longrightarrow> cs \<noteq> [] \<Longrightarrow> resolve fs create (path_of cs) = walk fs create 40 [] cs"
  using split_path_of [of cs] by (simp add: resolve_def path_start_def tree_ok_def) (simp add: path_render_def)

lemma parent_rendered: "list_all plain_name (cs @ [c]) \<Longrightarrow> path_parent (path_of (cs @ [c])) = Some (path_of cs)"
  by (simp add: path_parent_def)

lemma walk_below:
  "tree_ok fs \<Longrightarrow> ft_nodes fs ws = Some Dir \<Longrightarrow> walk fs create n [] (ws @ cs) = walk fs create n ws cs"
  using walk_names_append [of fs "[]" ws] by simp

lemma tree_ok_set_dir:
  assumes "tree_ok fs" and "ft_nodes fs ws = Some Dir" and "ft_nodes fs (ws @ [m]) = None" and "plain_name m" and "m \<noteq> ''..''"
  shows "tree_ok (set_node fs (ws @ [m]) Dir)"
proof -
  have "ft_nodes fs (ws @ [m, c]) = None" for c
    using tree_ok_snoc [OF assms(1), of "ws @ [m]" c] assms(3) by (cases "ft_nodes fs (ws @ [m, c])") auto
  with assms show ?thesis by (auto simp: tree_ok_def set_node_def)
qed

lemma create_through_missing:
  assumes ok: "tree_ok fs" and dir: "ft_nodes fs ws = Some Dir" and missing: "ft_nodes fs (ws @ [m]) = None"
    and m: "plain_name m" "m \<noteq> ''..''" and allowed: "ft_refused fs ws = None"
  shows "create_dir_all fs (path_of (ws @ [m, ''..'', ''..''])) = (set_node fs (ws @ [m]) Dir, None)"
proof -
  let ?fs = "set_node fs (ws @ [m]) Dir"
  have ws: "list_all plain_name ws" using tree_ok_plain [OF ok] dir by simp
  have dots: "plain_name ''..''" by (simp add: plain_name_def)
  note ok' = tree_ok_set_dir [OF ok dir missing m]
  have dirs: "ft_nodes ?fs (ws @ [m]) = Some Dir" "ft_nodes ?fs ws = Some Dir" using dir by (simp_all add: set_node_def)
  then have "ft_nodes ?fs (butlast ws) = Some Dir"
    using tree_ok_snoc [OF ok', of "butlast ws" "last ws"] by (cases "ws = []") auto
  note dirs = dirs this
  have gone: "walk fs False 40 [] (ws @ m # cs) = Inl NotFound" for cs
    using dir missing m by (simp add: walk_below [OF ok dir] plain_name_def)
  have there: "walk ?fs False 40 [] (ws @ m # cs) = walk ?fs False 40 (ws @ [m]) cs" for cs
    using walk_below [OF ok' dirs(1), of False 40 cs] by simp
  have nonempty: "path_of cs \<noteq> []" for cs by (simp add: path_render_def)
  have mk0: "mkdir fs (path_of (ws @ [m])) = Inr ?fs"
    using ws m dir missing allowed walk_below [OF ok dir, of False 40 "[]"] by (simp add: mkdir_def path_start_def plain_name_def)
  have mk1: "mkdir fs (path_of (ws @ [m, ''..''])) = Inl NotFound" "mkdir fs (path_of (ws @ [m, ''..'', ''..''])) = Inl NotFound"
    using ws m gone dots by (simp_all add: mkdir_def path_start_def butlast_append)
  have mk2: "mkdir ?fs (path_of (ws @ [m, ''..''])) = Inl AlreadyExists" "mkdir ?fs (path_of (ws @ [m, ''..'', ''..''])) = Inl AlreadyExists"
    using ws m there dirs dots by (simp_all add: mkdir_def path_start_def butlast_append)
  have dir2: "is_dir ?fs (path_of (ws @ [m, ''..'']))" "is_dir ?fs (path_of (ws @ [m, ''..'', ''..'']))"
    using ws m there dirs dots by (simp_all add: is_dir_def resolve_rendered [OF ok'])
  have parent: "path_parent (path_of (ws @ [m, ''..''])) = Some (path_of (ws @ [m]))"
      "path_parent (path_of (ws @ [m, ''..'', ''..''])) = Some (path_of (ws @ [m, ''..'']))"
    using parent_rendered [of "ws @ [m]" "''..''"] parent_rendered [of "ws @ [m, ''..'']" "''..''"] ws m dots by simp_all
  show ?thesis
    by (simp add: create_dir_all.simps [of _ "path_of (ws @ [m, ''..'', ''..''])"] create_dir_all.simps [of _ "path_of (ws @ [m, ''..''])"]
        create_dir_all.simps [of _ "path_of (ws @ [m])"] mk0 mk1 mk2 dir2 parent nonempty)
qed

text \<open>A small tree for the witnesses: the workspace \<^verbatim>\<open>/w\<close> with the file \<^verbatim>\<open>a\<close>.\<close>

definition demo_tree :: file_tree where
  "demo_tree = \<lparr>ft_nodes = [[] \<mapsto> Dir, [''w''] \<mapsto> Dir, [''w'', ''a''] \<mapsto> File ''hi''], ft_cwd = [], ft_refused = (\<lambda>_. None), ft_broken = (\<lambda>_. None), ft_dir_len = 0\<rparr>"

text \<open>The same on a disk that takes one byte.\<close>

definition demo_full :: file_tree where
  "demo_full = demo_tree\<lparr>ft_broken := (\<lambda>_. Some (1, ''full''))\<rparr>"

lemma demo_tree_ok: "tree_ok demo_tree"
  by (auto simp: tree_ok_def demo_tree_def plain_name_def append_eq_Cons_conv split: if_splits)

section \<open>Properties\<close>

text \<open>
  C10: The read tool returns only files of the workspace: whatever path is asked for and whatever links it
  passes, a result is the content of a file below the workspace directory, whole when it fits into the
  limit and cut at the limit otherwise.
\<close>

theorem read_file_confined:
  assumes "tree_ok fs" and "read_file fs root args = Inr r"
  shows "\<exists>ws cs s. resolve fs False root = Inr ws \<and> prefix ws cs \<and> ft_nodes fs cs = Some (File s) \<and> rr_path r = path_of cs
    \<and> (let limit = unat (unwrap_or (rf_max_bytes args) DEFAULT_MAX_BYTES)
       in rr_truncated r = (length s > limit) \<and> rr_contents r = (if length s > limit then from_utf8_lossy (take limit s) else s))"
proof -
  obtain q where q: "read_validate_path fs (rf_path args) root = Inr q"
      "read_contents fs q (unwrap_or (rf_max_bytes args) DEFAULT_MAX_BYTES) = Inr r"
    using assms(2) by (auto simp: read_file_def split: sum.splits)
  from read_path.reaches [OF assms(1) q(1)] obtain ws cs
    where reach: "resolve fs False root = Inr ws" "prefix ws cs" "q = path_of cs" "\<And>create. resolve fs create q = Inr cs" by metis
  from read_contents_at [OF q(2) this(4)] reach(1-3) show ?thesis unfolding Let_def by blast
qed

theorem read_file_confined_witness:
  "\<exists>ws cs. resolve demo_tree False ''/w'' = Inr ws \<and> prefix ws cs \<and> ft_nodes demo_tree cs = Some (File ''hi'')"
proof -
  have "read_file demo_tree ''/w'' \<lparr>rf_path = ''a'', rf_max_bytes = None\<rparr> =
      Inr \<lparr>rr_path = ''/w/a'', rr_contents = ''hi'', rr_truncated = False\<rparr>"
    by (simp add: read_file_def read_validate_path_def read_contents_def canonicalize_def resolve_def path_start_def path_join_def
        demo_tree_def path_render_def path_starts_with_def path_components_def metadata_len_def read_to_string_def fs_read_def
        unwrap_or_def DEFAULT_MAX_BYTES_def utf8_valid_ascii)
  from read_file_confined [OF demo_tree_ok this] show ?thesis by (auto simp: unwrap_or_def DEFAULT_MAX_BYTES_def)
qed

text \<open>
  C9: An edit of a settled target stays in the workspace. Either the tool reports an error and the file tree is as before, or one file below the
  workspace directory and nothing else has changed: it holds the result of applying every edit to its former content, or to nothing when it is new,
  and the tool reports the number of edits and the sizes; or writing that result stopped midway, and then the tool reports the error and the file
  holds only the first part of the result.
\<close>

theorem edit_file_confined:
  assumes "tree_ok fs" and "is_absolute root" and "resolve fs False root = Inr ws"
    and "settled fs (path_join root (ef_path args))" and "edit_file fs root args = (fs', res)"
  shows "fs' = fs \<and> isl res \<or> (\<exists>cs original s path n. prefix ws cs
    \<and> ft_nodes fs cs \<in> {Some (File original), None} \<and> (ft_nodes fs cs = None \<longrightarrow> original = [])
    \<and> apply_edits path (ef_edits args) (original, 0) = Inr (s, n)
    \<and> (case ft_broken fs cs of
         None \<Rightarrow> fs' = set_node fs cs (File s)
           \<and> res = Inr \<lparr>er_path = path, er_edits_applied = n, er_original_bytes = length original, er_new_bytes = length s\<rparr>
       | Some (k, e) \<Rightarrow> fs' = set_node fs cs (File (take k s)) \<and> res = Inl (io_failed (Refused e))))"
  using assms(5)
proof (cases rule: edit_file_cases)
  case (stored file_path original content n r)
  let ?p = "path_join root (ef_path args)"
  have absolute: "is_absolute ?p" using assms(2) by (cases root) (auto simp: path_join_def)
  have "\<exists>cs. prefix ws cs \<and> stored_at fs cs content fs' r
    \<and> ft_nodes fs cs \<in> {Some (File original), None} \<and> (ft_nodes fs cs = None \<longrightarrow> original = [])"
  proof (cases "path_exists fs ?p")
    case True
    then obtain cs where cs: "resolve fs False ?p = Inr cs" by (cases "resolve fs False ?p") (auto simp: path_exists_def)
    have here: "at fs cs" using cs by (rule resolve_at [OF assms(1)])
    have q: "file_path = path_of cs" "prefix ws cs"
      using stored(1) by (simp_all add: edit_validate_existing [OF assms(1,3) cs] split: if_splits)
    have "ft_nodes fs cs = Some (File original)"
      using stored(2) resolve_path_of [OF assms(1) here, of False] read_to_string_at by (auto simp: q path_exists_def)
    then show ?thesis using store_existing [OF assms(1) here] stored(4) q by (intro exI [of _ cs]) auto
  next
    case False
    with assms(4) obtain q d where new: "path_parent ?p = Some q" "resolve fs False q = Inr d"
        "last (path_components ?p) \<noteq> ''..''" "ft_nodes fs (d @ [last (path_components ?p)]) = None"
      by (auto simp: settled_def split: option.splits sum.splits)
    have q: "file_path = ?p" "prefix ws d"
      using stored(1) by (simp_all add: edit_validate_new [OF assms(1-3) False new(1,2)] split: if_splits)
    then have "original = []" using stored(2) False by simp
    then show ?thesis
      using store_new [OF absolute new] stored(4) q new(4) by (intro exI [of _ "d @ [last (path_components ?p)]"]) auto
  qed
  then obtain cs where cs: "prefix ws cs" "stored_at fs cs content fs' r" "ft_nodes fs cs \<in> {Some (File original), None}"
    "ft_nodes fs cs = None \<longrightarrow> original = []" by (elim exE conjE)
  show ?thesis
  proof (cases "fs' = fs \<and> isl r")
    case True
    with stored(5) show ?thesis by (cases r) auto
  next
    case False
    with cs(2) stored(5) have final: "case ft_broken fs cs of
        None \<Rightarrow> fs' = set_node fs cs (File content)
          \<and> res = Inr \<lparr>er_path = file_path, er_edits_applied = n, er_original_bytes = length original, er_new_bytes = length content\<rparr>
      | Some (k, e) \<Rightarrow> fs' = set_node fs cs (File (take k content)) \<and> res = Inl (io_failed (Refused e))"
      by (auto simp: stored_at_def split: option.splits)
    show ?thesis
      by (rule disjI2, rule exI [of _ cs], rule exI [of _ original], rule exI [of _ content], rule exI [of _ file_path], rule exI [of _ n])
        (intro conjI cs(1,3,4) stored(3) final)
  qed
qed simp

theorem edit_file_confined_witness:
  "\<exists>fs' cs original. fst (edit_file demo_full ''/w''
       \<lparr>ef_path = ''b'', ef_edits = [\<lparr>sn_old_str = [], sn_new_str = ''xyz'', sn_replace_all = None\<rparr>]\<rparr>) = fs'
     \<and> prefix [''w''] cs \<and> fs' = set_node demo_full cs (File (take 1 (original @ ''xyz'')))"
proof -
  let ?args = "\<lparr>ef_path = ''b'', ef_edits = [\<lparr>sn_old_str = [], sn_new_str = ''xyz'', sn_replace_all = None\<rparr>]\<rparr>"
  obtain fs' res where run: "edit_file demo_full ''/w'' ?args = (fs', res)" by force
  have ok: "tree_ok demo_full" using demo_tree_ok by (simp add: demo_full_def tree_ok_def)
  have root: "is_absolute ''/w''" "resolve demo_full False ''/w'' = Inr [''w'']"
    by (simp_all add: resolve_def path_start_def demo_tree_def demo_full_def)
  have "settled demo_full (path_join ''/w'' (ef_path ?args))"
    by (simp add: settled_def path_join_def path_parent_def path_components_def path_render_def resolve_def path_start_def
        demo_tree_def demo_full_def)
  note edit = edit_file_confined [OF ok root this run]
  have "ft_nodes (fst (edit_file demo_full ''/w'' ?args)) [''w'', ''b''] = Some (File ''x'')" by code_simp
  then have "fs' \<noteq> demo_full" using run by (auto simp: demo_full_def demo_tree_def)
  with edit run show ?thesis by (auto simp: apply_edit_def demo_full_def)
qed

text \<open>
  A snippet edit replaces exactly the occurrences it names: the content falls into pieces separated by the old
  text, the new content is the same pieces separated by the new text, and the number of edits is the number of
  separators: all occurrences when asked for all, only the first otherwise.
\<close>

theorem apply_edit_pieces:
  assumes "sn_old_str edit \<noteq> []" and "apply_edit file_path edit (content, n) = Inr (content', n')"
  shows "\<exists>ws. content = str_join (sn_old_str edit) ws \<and> content' = str_join (sn_new_str edit) ws \<and> n' + 1 = n + length ws
    \<and> 1 < length ws \<and> \<not> str_contains (hd ws) (sn_old_str edit)
    \<and> (if sn_replace_all edit = Some True then list_all (\<lambda>w. \<not> str_contains w (sn_old_str edit)) ws else length ws = 2)"
proof -
  let ?p = "sn_old_str edit"
  have "str_contains content ?p" using assms by (auto simp: apply_edit_def split: if_splits)
  then obtain k where k: "str_find content ?p = Some k" using str_find_None by (cases "str_find content ?p") auto
  note parts = str_find_Some [OF k] str_find_first [OF k assms(1)]
  show ?thesis
  proof (cases "sn_replace_all edit = Some True")
    case True
    then have "content' = str_join (sn_new_str edit) (pieces content ?p)" "n' = n + (length (pieces content ?p) - 1)"
      using assms \<open>str_contains content ?p\<close>
      by (auto simp: apply_edit_def unwrap_or_def str_replace_pieces str_matches_pieces)
    moreover have "hd (pieces content ?p) = take k content" "1 < length (pieces content ?p)"
      using k assms(1) by (simp_all add: pieces.simps [of content])
    ultimately show ?thesis
      using True parts pieces_free [OF assms(1)] join_pieces by (intro exI [of _ "pieces content ?p"]) auto
  next
    case False
    then have "content' = take k content @ sn_new_str edit @ drop (k + length ?p) content" "n' = n + 1"
      using assms \<open>str_contains content ?p\<close> k
      by (auto simp: apply_edit_def unwrap_or_def str_replace_first_def split: option.splits)
    then show ?thesis
      using False parts by (intro exI [of _ "[take k content, drop (k + length ?p) content]"]) auto
  qed
qed

theorem apply_edit_pieces_witness:
  "\<exists>ws. ''aXbXc'' = str_join ''X'' ws \<and> ''a-b-c'' = str_join ''-'' ws \<and> length ws = 3"
proof -
  have find: "str_find ''aXbXc'' ''X'' = Some 1" "str_find ''bXc'' ''X'' = Some 1" "str_find ''c'' ''X'' = None"
    by (simp_all add: starts_with_def)
  have "apply_edit ''/f'' \<lparr>sn_old_str = ''X'', sn_new_str = ''-'', sn_replace_all = Some True\<rparr> (''aXbXc'', 0) = Inr (''a-b-c'', 2)"
    using find by (simp add: apply_edit_def unwrap_or_def starts_with_def str_replace.simps [of "''aXbXc''"]
        str_replace.simps [of "''bXc''"] str_replace.simps [of "''c''"] str_matches.simps [of "''aXbXc''"]
        str_matches.simps [of "''bXc''"] str_matches.simps [of "''c''"])
  from apply_edit_pieces [OF _ this] show ?thesis by auto
qed

text \<open>
  C38: An edit can leave the workspace. Let the workspace be any directory below another one, and \<open>m\<close> a name that is free in
  it: editing \<^verbatim>\<open>m/../../x\<close> with an empty old text passes the check of the path, creates the directory \<open>m\<close>
  and writes the file \<open>x\<close> next to the workspace, outside it.
\<close>

theorem edit_file_escapes:
  assumes "tree_ok fs" and "ft_nodes fs (up @ [w]) = Some Dir" and "ft_nodes fs (up @ [w, m]) = None"
    and "plain_name m" and "m \<noteq> ''..''" and "plain_name x" and "x \<noteq> ''..''"
    and "ft_nodes fs (up @ [x]) = None" and "ft_refused fs (up @ [w]) = None" and "ft_refused fs (up @ [x]) = None" and "ft_broken fs (up @ [x]) = None"
    and "edit_file fs (path_of (up @ [w])) \<lparr>ef_path = m @ ''/../../'' @ x,
      ef_edits = [\<lparr>sn_old_str = [], sn_new_str = s, sn_replace_all = a\<rparr>]\<rparr> = (fs', res)"
  shows "\<not> isl res \<and> ft_nodes fs' (up @ [x]) = Some (File s) \<and> \<not> prefix (up @ [w]) (up @ [x]) \<and> ft_nodes fs' (up @ [w, m]) = Some Dir"
proof -
  let ?ws = "up @ [w]" and ?root = "path_of (up @ [w])" and ?cs = "up @ [w, m, ''..'', ''..'']"
  let ?fs = "set_node fs (up @ [w, m]) Dir"
  have ws: "list_all plain_name ?ws" using tree_ok_plain [OF assms(1), of ?ws] assms(2) by simp
  have dots: "plain_name ''..''" by (simp add: plain_name_def)
  have "str_join ''/'' [m, ''..'', ''..'', x] = m @ ''/../../'' @ x" by simp
  then have path: "path_join ?root (m @ ''/../../'' @ x) = path_of (?cs @ [x])"
    using path_join_of [of ?ws "[m, ''..'', ''..'', x]"] ws assms(4,6) dots by simp
  have rel: "\<not> is_absolute (m @ ''/../../'' @ x)" using assms(4) by (cases m) (auto simp: plain_name_def)
  have gone: "resolve fs create (path_of (?ws @ m # c # cs)) = Inl NotFound" if "list_all plain_name (c # cs)" for create c cs
    using that ws assms(2-5) resolve_rendered [OF assms(1), of "?ws @ m # c # cs"]
    by (simp add: walk_below [OF assms(1,2), of create 40 "m # c # cs", simplified] plain_name_def)
  have here: "resolve fs False ?root = Inr ?ws" by (rule resolve_path_of [OF assms(1) at_dir [OF assms(2)]])
  have parent: "path_parent (path_of (?cs @ [x])) = Some (path_of ?cs)"
    using ws assms(4,6) dots by (intro parent_rendered) simp
  have valid: "edit_validate_path fs (m @ ''/../../'' @ x) ?root = Inr (path_of (?cs @ [x]))"
    using gone [of "''..''" "[''..'', x]"] gone [of "''..''" "[''..'']"] dots assms(6) here rel path parent
    by (simp add: edit_validate_path_def canonicalize_def)
  have fresh: "\<not> path_exists fs (path_of (?cs @ [x]))"
    using gone [of "''..''" "[''..'', x]"] dots assms(6) by (simp add: path_exists_def)
  have made: "create_dir_all fs (path_of ?cs) = (?fs, None)"
    using create_through_missing [OF assms(1,2) _ assms(4,5,9)] assms(3) by simp
  have ok': "tree_ok ?fs" using tree_ok_set_dir [OF assms(1,2) _ assms(4,5)] assms(3) by simp
  have nodes: "ft_nodes ?fs (up @ [w, m]) = Some Dir" "ft_nodes ?fs ?ws = Some Dir" "ft_nodes ?fs (up @ [x]) = None"
    using assms(2,8) by (simp_all add: set_node_def)
  moreover from this have "ft_nodes ?fs up = Some Dir" using tree_ok_snoc [OF ok', of up w] by simp
  ultimately have "resolve ?fs True (path_of (?cs @ [x])) = Inr (up @ [x])"
    using resolve_rendered [OF ok', of "?cs @ [x]" True] ws assms(4,6,7) dots
      walk_below [OF ok', of "up @ [w, m]" True 40 "[''..'', ''..'', x]"]
    by (simp add: plain_name_def butlast_append)
  then have "fs_write ?fs (path_of (?cs @ [x])) s = (set_node ?fs (up @ [x]) (File s), None)"
    using nodes(3) assms(10,11) by (simp add: fs_write_def set_node_def)
  then show ?thesis
    using assms(12,8) valid fresh made parent assms(2) by (auto simp: edit_file_def apply_edit_def store_file_def set_node_def)
qed

theorem edit_file_escapes_witness:
  "ft_nodes (fst (edit_file demo_tree ''/w'' \<lparr>ef_path = ''m/../../x'',
     ef_edits = [\<lparr>sn_old_str = [], sn_new_str = ''out'', sn_replace_all = None\<rparr>]\<rparr>)) [''x''] = Some (File ''out'')"
proof -
  obtain fs' res where run: "edit_file demo_tree (path_of ([] @ [''w''])) \<lparr>ef_path = ''m'' @ ''/../../'' @ ''x'',
     ef_edits = [\<lparr>sn_old_str = [], sn_new_str = ''out'', sn_replace_all = None\<rparr>]\<rparr> = (fs', res)" by force
  have "ft_nodes fs' ([] @ [''x'']) = Some (File ''out'')"
    using edit_file_escapes [OF demo_tree_ok _ _ _ _ _ _ _ _ _ _ run] by (simp add: demo_tree_def plain_name_def)
  with run show ?thesis by (simp add: path_render_def)
qed

end
