(* ===== verification/Repl.thy ===== *)
theory Repl
  imports Proxy Tools
begin

text \<open>
  The interactive loop of the command line client, \<^verbatim>\<open>run_repl\<close> in \<^verbatim>\<open>loom-cli/src/main.rs\<close>: a line of input becomes a
  request with the conversation so far, the streamed answer is collected, its tool calls are run one after
  the other, and both the conversation and the thread that is saved are extended. The model client, the
  rendering of a JSON value and the success of saving are parameters of each step. The thread's metadata (git state, time stamps,
  the idle agent state) and the automatic commit are left out: the loop only writes them.
\<close>

section \<open>The saved thread\<close>

datatype message_role = SystemRole | UserRole | AssistantRole | ToolRole

fun message_role_from :: "role \<Rightarrow> message_role" where
  "message_role_from RSystem = SystemRole"
| "message_role_from RUser = UserRole"
| "message_role_from RAssistant = AssistantRole"
| "message_role_from RTool = ToolRole"

record 'j tool_call_snapshot =
  ts_id :: string
  ts_tool_name :: string
  ts_arguments_json :: 'j

record 'j message_snapshot =
  sh_role :: message_role
  sh_content :: string
  sh_tool_call_id :: "string option"
  sh_tool_name :: "string option"
  sh_tool_calls :: "'j tool_call_snapshot list option"

definition tool_call_snapshot_of :: "'j tool_call \<Rightarrow> 'j tool_call_snapshot" where
  "tool_call_snapshot_of tc = \<lparr>ts_id = tc_id tc, ts_tool_name = tc_tool_name tc, ts_arguments_json = tc_arguments_json tc\<rparr>"

definition message_snapshot_from :: "'j message \<Rightarrow> 'j message_snapshot" where
  "message_snapshot_from msg = \<lparr>sh_role = message_role_from (msg_role msg), sh_content = msg_content msg,
     sh_tool_call_id = msg_tool_call_id msg, sh_tool_name = msg_name msg,
     sh_tool_calls = (if msg_tool_calls msg = [] then None else Some (map tool_call_snapshot_of (msg_tool_calls msg)))\<rparr>"

section \<open>The loop\<close>

text \<open>The conversation, the messages of the thread, what the store holds of them, the files, and whether the loop goes on.\<close>

record 'j repl =
  rp_messages :: "'j message list"
  rp_thread :: "'j message_snapshot list"
  rp_saved :: "'j message_snapshot list option"
  rp_tree :: file_tree
  rp_running :: bool

definition repl_start :: "'j message_snapshot list \<Rightarrow> file_tree \<Rightarrow> 'j repl" where
  "repl_start thread fs = \<lparr>rp_messages = [], rp_thread = thread, rp_saved = None, rp_tree = fs, rp_running = True\<rparr>"

text \<open>The fixed surroundings of a session: the tools, the workspace, and how a JSON value is printed.\<close>

record 'j session_env =
  en_registry :: "'j tool_registry"
  en_root :: string
  en_show :: "'j \<Rightarrow> string"

fun collect_event :: "string \<times> 'j tool_call list \<Rightarrow> 'j llm_event \<Rightarrow> string \<times> 'j tool_call list" where
  "collect_event (content, calls) (TextDelta t) = (content @ t, calls)"
| "collect_event (content, calls) (ToolCallDelta i n f) = (content, calls)"
| "collect_event (content, calls) (LlmCompleted r) =
     (if msg_content (resp_message r) \<noteq> [] then msg_content (resp_message r) else content, resp_tool_calls r)"
| "collect_event (content, calls) (LlmFailed e) = (content, calls)"

definition tool_result_text :: "('j \<Rightarrow> string) \<Rightarrow> 'j tool_execution_outcome \<Rightarrow> string" where
  "tool_result_text sh out = (case out of OutcomeSuccess c v \<Rightarrow> sh v | OutcomeError c e \<Rightarrow> ''Error: '' @ show_tool_error e)"

definition push_assistant :: "string \<Rightarrow> 'j tool_call list \<Rightarrow> 'j repl \<Rightarrow> 'j repl" where
  "push_assistant content calls st = st\<lparr>rp_messages := rp_messages st @ [message_assistant_with_tool_calls content calls],
     rp_thread := rp_thread st @ [\<lparr>sh_role = AssistantRole, sh_content = content, sh_tool_call_id = None, sh_tool_name = None,
       sh_tool_calls = (if calls = [] then None else Some (map tool_call_snapshot_of calls))\<rparr>]\<rparr>"

definition run_call :: "'j session_env \<Rightarrow> 'j repl \<Rightarrow> 'j tool_call \<Rightarrow> 'j repl" where
  "run_call env st tc =
     (let (fs, out) = execute_tool (en_registry env) (rp_tree st) (en_root env) tc;
          result = tool_result_text (en_show env) out
      in st\<lparr>rp_tree := fs, rp_messages := rp_messages st @ [message_tool (tc_id tc) (tc_tool_name tc) result],
          rp_thread := rp_thread st @ [\<lparr>sh_role = ToolRole, sh_content = result, sh_tool_call_id = Some (tc_id tc),
            sh_tool_name = Some (tc_tool_name tc), sh_tool_calls = None\<rparr>]\<rparr>)"

definition push_user :: "string \<Rightarrow> 'j repl \<Rightarrow> 'j repl" where
  "push_user input st = st\<lparr>rp_messages := rp_messages st @ [message_user input],
     rp_thread := rp_thread st @ [message_snapshot_from (message_user input)]\<rparr>"

definition save_thread :: "bool \<Rightarrow> 'j repl \<Rightarrow> 'j repl" where
  "save_thread stored st = (if stored then st\<lparr>rp_saved := Some (rp_thread st)\<rparr> else st)"

definition repl_request :: "'j session_env \<Rightarrow> 'j repl \<Rightarrow> 'j llm_request" where
  "repl_request env st = (llm_request_new ''default'')\<lparr>req_messages := rp_messages st, req_tools := definitions (en_registry env)\<rparr>"

text \<open>What happens at the prompt: a line with the model's answer to its request, the end of input, a shutdown, or a read error; and whether the store accepts the thread.\<close>

datatype 'j repl_event =
  ReplLine string "'j llm_request \<Rightarrow> llm_error + 'j llm_event list" bool
| ReplEof bool
| ReplShutdown bool
| ReplReadError

definition repl_answer :: "'j session_env \<Rightarrow> bool \<Rightarrow> 'j llm_event list \<Rightarrow> 'j repl \<Rightarrow> 'j repl" where
  "repl_answer env stored events st =
     (let (content, calls) = foldl collect_event ([], []) events
      in save_thread stored (foldl (run_call env) (push_assistant content calls st) calls))"

fun repl_step :: "'j session_env \<Rightarrow> 'j repl \<Rightarrow> 'j repl_event \<Rightarrow> 'j repl" where
  "repl_step env st (ReplLine line client stored) =
     (if \<not> rp_running st \<or> str_trim line = [] then st
      else let st1 = push_user (str_trim line) st
           in case client (repl_request env st1) of
                Inl e \<Rightarrow> st1
              | Inr events \<Rightarrow> repl_answer env stored events st1)"
| "repl_step env st (ReplEof stored) = (if \<not> rp_running st then st else (save_thread stored st)\<lparr>rp_running := False\<rparr>)"
| "repl_step env st (ReplShutdown stored) = (if \<not> rp_running st then st else (save_thread stored st)\<lparr>rp_running := False\<rparr>)"
| "repl_step env st ReplReadError = st\<lparr>rp_running := False\<rparr>"

section \<open>The invariant of a session\<close>

text \<open>Every tool call of the conversation is answered, in order, and the thread is the earlier thread and the conversation.\<close>

definition repl_inv :: "'j message_snapshot list \<Rightarrow> 'j repl \<Rightarrow> bool" where
  "repl_inv thread st \<longleftrightarrow> concat (map tool_result_id (rp_messages st)) = concat (map assistant_call_ids (rp_messages st))
     \<and> rp_thread st = thread @ map message_snapshot_from (rp_messages st)"

lemma run_call_messages:
  "rp_messages (run_call env st tc) = rp_messages st @ [message_tool (tc_id tc) (tc_tool_name tc)
     (tool_result_text (en_show env) (snd (execute_tool (en_registry env) (rp_tree st) (en_root env) tc)))]"
  "rp_thread st = thread @ map message_snapshot_from (rp_messages st) \<Longrightarrow>
     rp_thread (run_call env st tc) = thread @ map message_snapshot_from (rp_messages (run_call env st tc))"
  by (simp_all add: run_call_def message_snapshot_from_def message_tool_def Let_def split: prod.split)

lemma run_calls_inv:
  assumes "rp_thread st = thread @ map message_snapshot_from (rp_messages st)"
  shows "rp_thread (foldl (run_call env) st calls) = thread @ map message_snapshot_from (rp_messages (foldl (run_call env) st calls))
    \<and> concat (map tool_result_id (rp_messages (foldl (run_call env) st calls))) = concat (map tool_result_id (rp_messages st)) @ map tc_id calls
    \<and> concat (map assistant_call_ids (rp_messages (foldl (run_call env) st calls))) = concat (map assistant_call_ids (rp_messages st))"
  using assms
proof (induction calls arbitrary: st)
  case (Cons tc calls)
  from Cons.IH [OF run_call_messages(2) [OF Cons.prems], of env tc] show ?case
    by (simp add: run_call_messages(1) message_tool_def tool_result_id_def assistant_call_ids_def)
qed simp

lemma save_thread_frame [simp]:
  "rp_messages (save_thread stored st) = rp_messages st" "rp_thread (save_thread stored st) = rp_thread st"
  "rp_tree (save_thread stored st) = rp_tree st" "rp_running (save_thread stored st) = rp_running st"
  by (simp_all add: save_thread_def)

lemma repl_answer_inv:
  assumes "repl_inv thread st"
  shows "repl_inv thread (repl_answer env stored events st)"
proof -
  obtain content calls where c: "foldl collect_event ([], []) events = (content, calls)" by force
  let ?st = "push_assistant content calls st"
  have "rp_thread ?st = thread @ map message_snapshot_from (rp_messages ?st)"
    using assms by (simp add: repl_inv_def push_assistant_def message_snapshot_from_def message_assistant_with_tool_calls_def)
  from run_calls_inv [OF this, of env calls] assms show ?thesis
    by (simp add: repl_answer_def c repl_inv_def push_assistant_def message_assistant_with_tool_calls_def
        tool_result_id_def assistant_call_ids_def)
qed

lemma push_user_inv: "repl_inv thread st \<Longrightarrow> repl_inv thread (push_user input st)"
  by (simp add: repl_inv_def push_user_def message_user_def tool_result_id_def assistant_call_ids_def)

lemma repl_step_inv: "repl_inv thread st \<Longrightarrow> repl_inv thread (repl_step env st ev)"
proof (cases ev)
  case (ReplLine line client stored)
  assume "repl_inv thread st"
  then show ?thesis
    by (auto simp: ReplLine Let_def push_user_inv repl_answer_inv split: sum.split)
qed (auto simp: repl_inv_def)

interpretation repl_session: event_driven "repl_step env" "repl_inv thread"
  for env :: "'j session_env" and thread :: "'j message_snapshot list"
  by unfold_locales (rule repl_step_inv)

lemma repl_start_inv: "repl_inv thread (repl_start thread fs)"
  by (simp add: repl_inv_def repl_start_def)

lemmas repl_reachable = repl_session.run_inv [OF repl_start_inv]

section \<open>One turn\<close>

text \<open>The texts of running calls in order, and the files after them.\<close>

fun tool_results :: "'j session_env \<Rightarrow> file_tree \<Rightarrow> 'j tool_call list \<Rightarrow> file_tree \<times> string list" where
  "tool_results env fs [] = (fs, [])"
| "tool_results env fs (tc # tcs) =
     (let (fs', out) = execute_tool (en_registry env) fs (en_root env) tc;
          (fs'', rs) = tool_results env fs' tcs
      in (fs'', tool_result_text (en_show env) out # rs))"

lemma run_calls_results:
  "rp_messages (foldl (run_call env) st calls) = rp_messages st
     @ map2 (\<lambda>tc. message_tool (tc_id tc) (tc_tool_name tc)) calls (snd (tool_results env (rp_tree st) calls))
   \<and> rp_tree (foldl (run_call env) st calls) = fst (tool_results env (rp_tree st) calls)"
proof (induction calls arbitrary: st)
  case (Cons tc calls)
  obtain fs out where x: "execute_tool (en_registry env) (rp_tree st) (en_root env) tc = (fs, out)" by force
  obtain fs' rs where r: "tool_results env fs calls = (fs', rs)" by force
  have "rp_tree (run_call env st tc) = fs" by (simp add: run_call_def x Let_def)
  with Cons.IH [of "run_call env st tc"] show ?case by (simp add: run_call_messages(1) x r)
qed simp

lemma collect_deltas:
  "foldl collect_event (content, calls) (concat (map block_deltas bs)) = (content @ concat (map block_text bs), calls)"
proof (induction bs arbitrary: content)
  case (Cons b bs)
  have texts: "foldl collect_event (c, calls) (map TextDelta ds) = (c @ concat ds, calls)" for c ds
    by (induction ds arbitrary: c) simp_all
  have tools: "foldl collect_event (c, calls) (map (ToolCallDelta i n) ds) = (c, calls)" for c i n ds
    by (induction ds) simp_all
  from Cons show ?case by (cases b) (simp_all add: texts tools)
qed simp

lemma collect_forwarded: "foldl collect_event acc (map forwarded es) = foldl collect_event acc es"
proof (induction es arbitrary: acc)
  case (Cons e es)
  have "collect_event acc (forwarded e) = collect_event acc e" by (cases acc; cases e) simp_all
  with Cons show ?case by simp
qed simp

text \<open>The demonstration stream of the decoder, forwarded.\<close>

definition demo_forwarded :: "bool llm_event list" where
  "demo_forwarded = concat (map block_deltas demo_blocks) @ [LlmCompleted (message_response demo_json demo_start demo_blocks (Some ''tool_use'') (Some 4))]"

definition demo_wire :: "bool wire_codec" where
  "demo_wire = \<lparr>wc_to_string = (\<lambda>ev. case map_of (zip (map wire_event demo_forwarded) [''a'', ''b'', ''c'', ''d'']) ev of
       Some s \<Rightarrow> Inr s | None \<Rightarrow> Inl []),
     wc_from_str = (\<lambda>s. case map_of (zip [''a'', ''b'', ''c'', ''d''] (map wire_event demo_forwarded)) s of Some ev \<Rightarrow> Inr ev | None \<Rightarrow> Inl []),
     wc_event_bytes = (\<lambda>n d. ''event: '' @ n @ [CHR 0x0A] @ ''data: '' @ d @ event_separator)\<rparr>"

definition demo_relayed :: string where
  "demo_relayed = create_sse_response demo_wire demo_forwarded"

definition demo_response :: "bool http_response" where
  "demo_response = \<lparr>hr_status = 200, hr_text = [], hr_chunks = map Inr [take 30 demo_relayed, drop 30 demo_relayed], hr_json = Inl []\<rparr>"

lemma demo_decoded: "sse_events demo_json (sse_stream_new (map Inr [take 5 demo_body, drop 5 demo_body])) = demo_forwarded"
  by (simp only: sse_events_message [OF demo_chunks_valid demo_chunks_concat demo_renders] demo_forwarded_def)

lemma demo_carries: "list_all (carries demo_wire) demo_forwarded"
  by (simp add: demo_forwarded_def demo_blocks_def carries_def demo_wire_def str_trim_graphic)

lemma demo_relayed_valid: "list_all utf8_valid [take 30 demo_relayed, drop 30 demo_relayed]"
  by (simp add: demo_relayed_def create_sse_response_def demo_forwarded_def demo_blocks_def demo_wire_def event_separator_def utf8_valid_ascii)

section \<open>Properties\<close>

text \<open>
  C7: Every request the interactive loop sends is well formed for the provider: after any session, with any answers of the
  model and any tools, the tool results of the converted request answer its tool calls one by one and in
  order.
\<close>

theorem repl_requests_paired:
  "let st = push_user input (foldl (repl_step env) (repl_start thread fs) evs);
       req = anthropic_request_of (repl_request env st)
   in result_ids req = use_ids req"
proof -
  have "repl_inv thread (push_user input (foldl (repl_step env) (repl_start thread fs) evs))"
    by (rule push_user_inv [OF repl_reachable])
  then show ?thesis by (simp add: repl_inv_def repl_request_def request_ids Let_def)
qed

text \<open>
  A session that ends loses nothing: when the input ends or a shutdown is requested and the store accepts the thread,
  what is stored is the thread the session started with and then every message of the conversation.
\<close>

theorem repl_saves_conversation:
  assumes "rp_running (foldl (repl_step env) (repl_start thread fs) evs)" and "ev \<in> {ReplEof True, ReplShutdown True}"
    and "st = repl_step env (foldl (repl_step env) (repl_start thread fs) evs) ev"
  shows "\<not> rp_running st \<and> rp_saved st = Some (thread @ map message_snapshot_from (rp_messages st))"
  using assms repl_reachable [of thread env fs evs] by (auto simp: repl_inv_def save_thread_def)

theorem repl_saves_conversation_witness:
  "rp_saved (repl_step \<lparr>en_registry = [], en_root = ''/w'', en_show = (\<lambda>_ :: bool. [])\<rparr>
     (foldl (repl_step \<lparr>en_registry = [], en_root = ''/w'', en_show = (\<lambda>_. [])\<rparr>) (repl_start [] demo_tree)
        [ReplLine ''hi'' (\<lambda>_. Inr [TextDelta ''yo'']) False]) (ReplEof True)) =
   Some (map message_snapshot_from [message_user ''hi'', message_assistant_with_tool_calls ''yo'' []])"
proof -
  let ?env = "\<lparr>en_registry = [], en_root = ''/w'', en_show = (\<lambda>_ :: bool. [])\<rparr>"
  let ?st = "foldl (repl_step ?env) (repl_start [] demo_tree) [ReplLine ''hi'' (\<lambda>_. Inr [TextDelta ''yo'']) False]"
  have "rp_running ?st" "rp_messages ?st = [message_user ''hi'', message_assistant_with_tool_calls ''yo'' []]"
    by (simp_all add: repl_start_def repl_answer_def push_user_def push_assistant_def save_thread_def str_trim_graphic)
  with repl_saves_conversation [OF this(1) _ refl, of "ReplEof True"] show ?thesis by simp
qed

text \<open>
  C8: One turn of the interactive loop with an answer streamed from the Anthropic API through the server, whatever way the two connections cut
  the text (between characters): the server decodes the API's events and forwards its own, the client decodes these, and the conversation is extended by the
  input, one assistant message with the whole text and all tool calls, and the results of running the calls in their order, each on the files the one
  before left.
\<close>

theorem repl_streamed_turn:
  assumes "rp_running st" and "str_trim line \<noteq> []"
    and "list_all utf8_valid chunks"
    and "concat chunks = concat (map (sse_frame name render) (message_events m bs reason out))"
    and "list_all (renders jt name render) (message_events m bs reason out)"
    and "calls = concat (map (block_calls jt) bs)"
    and "events = sse_events jt (sse_stream_new (map Inr chunks))" and "list_all (carries wc) events"
    and "list_all utf8_valid chunks'" and "concat chunks' = create_sse_response wc events"
    and "is_success (hr_status response)" and "hr_chunks response = map Inr chunks'"
    and "st' = repl_step env st (ReplLine line (\<lambda>_. map_sum id (proxy_events wc) (proxy_complete_streaming sh (Inr response))) stored)"
  shows "rp_messages st' = rp_messages st @ [message_user (str_trim line), message_assistant_with_tool_calls (concat (map block_text bs)) calls]
      @ map2 (\<lambda>tc. message_tool (tc_id tc) (tc_tool_name tc)) calls (snd (tool_results env (rp_tree st) calls))
    \<and> rp_tree st' = fst (tool_results env (rp_tree st) calls)"
proof -
  have arrive: "proxy_events wc (proxy_stream (map Inr chunks') []) = map forwarded events"
    by (rule proxy_forwards [OF assms(9,10,8)])
  have "foldl collect_event ([], []) events = (concat (map block_text bs), calls)"
    by (simp add: assms(7) sse_events_message [OF assms(3-5)] collect_deltas message_response_def message_assistant_def assms(6))
  then show ?thesis
    using assms(1,2,11,12)
    by (simp add: assms(13) Let_def repl_answer_def proxy_complete_streaming_def arrive collect_forwarded run_calls_results push_assistant_def push_user_def)
qed

theorem repl_streamed_turn_witness:
  "rp_messages (repl_step \<lparr>en_registry = [], en_root = ''/w'', en_show = (\<lambda>_ :: bool. [])\<rparr> (repl_start [] demo_tree)
     (ReplLine ''hi'' (\<lambda>_. map_sum id (proxy_events demo_wire) (proxy_complete_streaming show_nat (Inr demo_response))) True)) =
   [message_user ''hi'', message_assistant_with_tool_calls ''Hi'' [\<lparr>tc_id = ''t1'', tc_tool_name = ''ls'', tc_arguments_json = True\<rparr>],
    message_tool ''t1'' ''ls'' ''Error: Tool not found: ls'']"
proof -
  let ?env = "\<lparr>en_registry = [], en_root = ''/w'', en_show = (\<lambda>_ :: bool. [])\<rparr>"
  have start: "rp_running (repl_start [] demo_tree :: bool repl)" "str_trim ''hi'' = ''hi''"
    by (simp_all add: repl_start_def str_trim_graphic)
  have calls: "concat (map (block_calls demo_json) demo_blocks) = [\<lparr>tc_id = ''t1'', tc_tool_name = ''ls'', tc_arguments_json = True\<rparr>]"
    by (simp add: demo_blocks_def builder_tool_call_def builder_arguments_def demo_json_def)
  have response: "is_success (hr_status demo_response)" "hr_chunks demo_response = map Inr [take 30 demo_relayed, drop 30 demo_relayed]"
    by (simp_all add: demo_response_def is_success_def)
  have relayed: "concat [take 30 demo_relayed, drop 30 demo_relayed] = create_sse_response demo_wire demo_forwarded"
    by (simp add: demo_relayed_def)
  show ?thesis
    using repl_streamed_turn [OF start(1) _ demo_chunks_valid demo_chunks_concat demo_renders calls [symmetric] demo_decoded [symmetric] demo_carries
        demo_relayed_valid relayed response refl, of "''hi''" ?env show_nat True]
    by (simp add: start(2) demo_blocks_def execute_tool_def registry_get_def tool_result_text_def repl_start_def)
qed

end
