(* ===== verification/Threads.thy ===== *)
theory Threads
  imports Repl Retry "HOL-Library.Multiset"
begin

text \<open>
  The threads of \<^verbatim>\<open>loom-common-thread\<close> and their local store: \<^verbatim>\<open>model.rs\<close> and \<^verbatim>\<open>store.rs\<close>. A store is the directory of its
  files, in the order the operating system lists them; each operation takes the disk fault it meets, if any.
  The JSON codec, the clock and Unicode lower case are parameters. Thread ids have no slash, as generated.
\<close>

section \<open>Threads\<close>

datatype thread_visibility = VisOrganization | VisPrivate | VisPublic

fun thread_visibility_as_str :: "thread_visibility \<Rightarrow> string" where
  "thread_visibility_as_str VisOrganization = ''organization''"
| "thread_visibility_as_str VisPrivate = ''private''"
| "thread_visibility_as_str VisPublic = ''public''"

datatype agent_state_kind = KindWaitingForUserInput | KindCallingLlm | KindProcessingLlmResponse | KindExecutingTools
  | KindPostToolsHook | KindError | KindShuttingDown

record pending_tool_call_snapshot =
  pc_call_id :: string
  pc_tool_name :: string

record agent_state_snapshot =
  as_kind :: agent_state_kind
  as_retries :: u32
  as_last_error :: "string option"
  as_pending_tool_calls :: "pending_tool_call_snapshot list"

fun agent_state_snapshot_from :: "'j agent_state \<Rightarrow> agent_state_snapshot" where
  "agent_state_snapshot_from (WaitingForUserInput c) =
     \<lparr>as_kind = KindWaitingForUserInput, as_retries = 0, as_last_error = None, as_pending_tool_calls = []\<rparr>"
| "agent_state_snapshot_from (CallingLlm c r) =
     \<lparr>as_kind = KindCallingLlm, as_retries = r, as_last_error = None, as_pending_tool_calls = []\<rparr>"
| "agent_state_snapshot_from (ProcessingLlmResponse c resp) =
     \<lparr>as_kind = KindProcessingLlmResponse, as_retries = 0, as_last_error = None, as_pending_tool_calls = []\<rparr>"
| "agent_state_snapshot_from (ExecutingTools c es) =
     \<lparr>as_kind = KindExecutingTools, as_retries = 0, as_last_error = None,
      as_pending_tool_calls = map (\<lambda>x. \<lparr>pc_call_id = call_id x, pc_tool_name = tool_name x\<rparr>) es\<rparr>"
| "agent_state_snapshot_from (PostToolsHook c q ts) =
     \<lparr>as_kind = KindPostToolsHook, as_retries = 0, as_last_error = None, as_pending_tool_calls = []\<rparr>"
| "agent_state_snapshot_from (ErrorState c e r og) =
     \<lparr>as_kind = KindError, as_retries = r, as_last_error = Some (show_agent_error e), as_pending_tool_calls = []\<rparr>"
| "agent_state_snapshot_from ShuttingDown =
     \<lparr>as_kind = KindShuttingDown, as_retries = 0, as_last_error = None, as_pending_tool_calls = []\<rparr>"

record 'j thread_metadata =
  tm_title :: "string option"
  tm_tags :: "string list"
  tm_is_pinned :: bool
  tm_extra :: 'j

record 'j thread =
  th_id :: string
  th_version :: u64
  th_created_at :: string
  th_updated_at :: string
  th_last_activity_at :: string
  th_workspace_root :: "string option"
  th_cwd :: "string option"
  th_loom_version :: "string option"
  th_git_branch :: "string option"
  th_git_remote_url :: "string option"
  th_git_initial_branch :: "string option"
  th_git_initial_commit_sha :: "string option"
  th_git_current_commit_sha :: "string option"
  th_git_start_dirty :: "bool option"
  th_git_end_dirty :: "bool option"
  th_git_commits :: "string list"
  th_provider :: "string option"
  th_model :: "string option"
  th_conversation :: "'j message_snapshot list"
  th_agent_state :: agent_state_snapshot
  th_metadata :: "'j thread_metadata"
  th_visibility :: thread_visibility
  th_is_private :: bool
  th_is_shared_with_support :: bool

definition thread_new :: "string \<Rightarrow> string \<Rightarrow> 'j \<Rightarrow> 'j thread" where
  "thread_new uuid now null = \<lparr>th_id = ''T-'' @ uuid, th_version = 1, th_created_at = now, th_updated_at = now,
     th_last_activity_at = now, th_workspace_root = None, th_cwd = None, th_loom_version = None, th_git_branch = None,
     th_git_remote_url = None, th_git_initial_branch = None, th_git_initial_commit_sha = None,
     th_git_current_commit_sha = None, th_git_start_dirty = None, th_git_end_dirty = None, th_git_commits = [],
     th_provider = None, th_model = None, th_conversation = [],
     th_agent_state = \<lparr>as_kind = KindWaitingForUserInput, as_retries = 0, as_last_error = None, as_pending_tool_calls = []\<rparr>,
     th_metadata = \<lparr>tm_title = None, tm_tags = [], tm_is_pinned = False, tm_extra = null\<rparr>,
     th_visibility = VisOrganization, th_is_private = False, th_is_shared_with_support = False\<rparr>"

definition touch :: "string \<Rightarrow> 'j thread \<Rightarrow> 'j thread" where
  "touch now t = t\<lparr>th_updated_at := now, th_last_activity_at := now, th_version := th_version t + 1\<rparr>"

record thread_summary =
  su_id :: string
  su_version :: u64
  su_created_at :: string
  su_updated_at :: string
  su_last_activity_at :: string
  su_title :: "string option"
  su_workspace_root :: "string option"
  su_git_branch :: "string option"
  su_git_remote_url :: "string option"
  su_git_initial_commit_sha :: "string option"
  su_git_current_commit_sha :: "string option"
  su_provider :: "string option"
  su_model :: "string option"
  su_tags :: "string list"
  su_message_count :: u32
  su_is_pinned :: bool
  su_visibility :: thread_visibility

definition thread_summary_from :: "'j thread \<Rightarrow> thread_summary" where
  "thread_summary_from t = \<lparr>su_id = th_id t, su_version = th_version t, su_created_at = th_created_at t,
     su_updated_at = th_updated_at t, su_last_activity_at = th_last_activity_at t, su_title = tm_title (th_metadata t),
     su_workspace_root = th_workspace_root t, su_git_branch = th_git_branch t, su_git_remote_url = th_git_remote_url t,
     su_git_initial_commit_sha = th_git_initial_commit_sha t, su_git_current_commit_sha = th_git_current_commit_sha t,
     su_provider = th_provider t, su_model = th_model t, su_tags = tm_tags (th_metadata t),
     su_message_count = of_nat (length (th_conversation t)), su_is_pinned = tm_is_pinned (th_metadata t),
     su_visibility = th_visibility t\<rparr>"

section \<open>The local store\<close>

datatype sync_error =
  SyncNetwork http_error
| SyncServer status_code string
| SyncConflict
| SyncInvalidUrl string
| SyncTimeout
| SyncUnexpectedStatus status_code

datatype store_error =
  StoreIo string
| StoreSerialization string
| StoreNotFound string
| StoreSync sync_error

text \<open>
  Where an operation on the disk fails, with the error. A failing write leaves some bytes behind.
\<close>

datatype disk_fault = CreateDirFails string | WriteFails string string | RenameFails string | ReadFails string | RemoveFails string

record 'j thread_codec =
  tc_to_string :: "'j thread \<Rightarrow> string + string"
  tc_from_str :: "string \<Rightarrow> string + 'j thread"

text \<open>The files of the directory, \<open>None\<close> while it does not exist.\<close>

type_synonym thread_dir = "(string \<times> string) list option"

definition dir_files :: "thread_dir \<Rightarrow> (string \<times> string) list" where
  "dir_files d = unwrap_or d []"

definition thread_path :: "string \<Rightarrow> string" where
  "thread_path i = i @ ''.json''"

definition local_load :: "'j thread_codec \<Rightarrow> disk_fault option \<Rightarrow> thread_dir \<Rightarrow> string \<Rightarrow> store_error + 'j thread option" where
  "local_load tc fault d i = (case map_of (dir_files d) (thread_path i) of
     None \<Rightarrow> Inr None
   | Some contents \<Rightarrow> (case fault of
       Some (ReadFails e) \<Rightarrow> Inl (StoreIo e)
     | _ \<Rightarrow>
         if \<not> utf8_valid contents then Inl (StoreIo (show_io_error InvalidData))
         else (case tc_from_str tc contents of Inl e \<Rightarrow> Inl (StoreSerialization e) | Inr t \<Rightarrow> Inr (Some t))))"

text \<open>\<^verbatim>\<open>save\<close> writes a temporary file and renames it.\<close>

definition local_save :: "'j thread_codec \<Rightarrow> disk_fault option \<Rightarrow> thread_dir \<Rightarrow> 'j thread \<Rightarrow> thread_dir \<times> (store_error + unit)" where
  "local_save tc fault d t = (case fault of
     Some (CreateDirFails e) \<Rightarrow> (d, Inl (StoreIo e))
   | _ \<Rightarrow>
       let files = dir_files d; path = thread_path (th_id t); tmp_path = th_id t @ ''.json.tmp''
       in (case tc_to_string tc t of
             Inl e \<Rightarrow> (Some files, Inl (StoreSerialization e))
           | Inr json \<Rightarrow> (case fault of
               Some (WriteFails e written) \<Rightarrow> (Some (AList.update tmp_path written files), Inl (StoreIo e))
             | Some (RenameFails e) \<Rightarrow> (Some (AList.update tmp_path json files), Inl (StoreIo e))
             | _ \<Rightarrow> (Some (AList.update path json (AList.delete tmp_path files)), Inr ()))))"

text \<open>\<^verbatim>\<open>Path::extension\<close> of a file name.\<close>

definition path_extension :: "string \<Rightarrow> string option" where
  "path_extension name = (case rfind name ''.'' of
     None \<Rightarrow> None
   | Some k \<Rightarrow> if k = 0 \<or> name = ''..'' then None else Some (drop (Suc k) name))"

text \<open>\<^verbatim>\<open>sort_by\<close> on the time of the last activity, newest first; elements of equal time keep their order.\<close>

fun insert_newest :: "thread_summary \<Rightarrow> thread_summary list \<Rightarrow> thread_summary list" where
  "insert_newest x [] = [x]"
| "insert_newest x (y # ys) =
     (if str_less (su_last_activity_at x) (su_last_activity_at y) then y # insert_newest x ys else x # y # ys)"

definition sort_newest :: "thread_summary list \<Rightarrow> thread_summary list" where
  "sort_newest xs = foldr insert_newest xs []"

definition readable_thread :: "'j thread_codec \<Rightarrow> (string \<Rightarrow> bool) \<Rightarrow> string \<times> string \<Rightarrow> 'j thread option" where
  "readable_thread tc unreadable f = (case f of (name, contents) \<Rightarrow>
     if path_extension name \<noteq> Some ''json'' then None
     else if ends_with name ''.tmp'' then None
     else if unreadable name \<or> \<not> utf8_valid contents then None
     else (case tc_from_str tc contents of Inl _ \<Rightarrow> None | Inr t \<Rightarrow> Some t))"

fun list_loop ::
  "'j thread_codec \<Rightarrow> (string \<Rightarrow> bool) \<Rightarrow> nat \<Rightarrow> thread_summary list \<Rightarrow> (string \<times> string) list \<Rightarrow> thread_summary list" where
  "list_loop tc unreadable limit summaries [] = summaries"
| "list_loop tc unreadable limit summaries (f # fs) =
     (if length summaries \<ge> limit then summaries
      else list_loop tc unreadable limit (case readable_thread tc unreadable f of
          None \<Rightarrow> summaries
        | Some t \<Rightarrow> summaries @ [thread_summary_from t]) fs)"

definition local_list ::
  "'j thread_codec \<Rightarrow> (string \<Rightarrow> bool) \<Rightarrow> disk_fault option \<Rightarrow> thread_dir \<Rightarrow> u32 \<Rightarrow> store_error + thread_summary list" where
  "local_list tc unreadable fault d limit = (case d of
     None \<Rightarrow> Inr []
   | Some files \<Rightarrow> (case fault of
       Some (ReadFails e) \<Rightarrow> Inl (StoreIo e)
     | _ \<Rightarrow> Inr (sort_newest (list_loop tc unreadable (unat limit) [] files))))"

definition local_delete :: "disk_fault option \<Rightarrow> thread_dir \<Rightarrow> string \<Rightarrow> thread_dir \<times> (store_error + unit)" where
  "local_delete fault d i = (let path = thread_path i
     in if map_of (dir_files d) path = None then (d, Inl (StoreNotFound i))
        else (case fault of
            Some (RemoveFails e) \<Rightarrow> (d, Inl (StoreIo e))
          | _ \<Rightarrow> (Some (AList.delete path (dir_files d)), Inr ())))"

definition matches_query :: "(string \<Rightarrow> string) \<Rightarrow> 'j thread \<Rightarrow> string \<Rightarrow> bool" where
  "matches_query lower t query \<longleftrightarrow>
     (let holds = (\<lambda>s. str_contains (lower s) query); opt = (\<lambda>x. case x of Some s \<Rightarrow> holds s | None \<Rightarrow> False)
      in if opt (tm_title (th_metadata t)) then True
         else if opt (th_git_branch t) then True
         else if opt (th_git_remote_url t) then True
         else if list_ex (\<lambda>sha. starts_with (lower sha) query) (th_git_commits t) then True
         else if list_ex holds (tm_tags (th_metadata t)) then True
         else list_ex (\<lambda>m. holds (sh_content m)) (th_conversation t))"

fun search_loop :: "'j thread_codec \<Rightarrow> (string \<Rightarrow> string) \<Rightarrow> disk_fault option \<Rightarrow> thread_dir \<Rightarrow> string
    \<Rightarrow> thread_summary list \<Rightarrow> thread_summary list \<Rightarrow> store_error + thread_summary list" where
  "search_loop tc lower fault d query found [] = Inr found"
| "search_loop tc lower fault d query found (s # ss) = (case local_load tc fault d (su_id s) of
     Inl e \<Rightarrow> Inl e
   | Inr None \<Rightarrow> search_loop tc lower fault d query found ss
   | Inr (Some t) \<Rightarrow> search_loop tc lower fault d query
       (if matches_query lower t query then found @ [thread_summary_from t] else found) ss)"

definition local_search :: "'j thread_codec \<Rightarrow> (string \<Rightarrow> string) \<Rightarrow> (string \<Rightarrow> bool) \<Rightarrow> disk_fault option \<Rightarrow> thread_dir
    \<Rightarrow> string \<Rightarrow> nat \<Rightarrow> store_error + thread_summary list" where
  "local_search tc lower unreadable fault d query limit =
     (case local_list tc unreadable fault d 1000 of
        Inl e \<Rightarrow> Inl e
      | Inr all_threads \<Rightarrow> (case search_loop tc lower fault d (lower query) [] all_threads of
          Inl e \<Rightarrow> Inl e
        | Inr found \<Rightarrow> Inr (take limit (sort_newest found))))"

section \<open>Facts about the store\<close>

text \<open>What the store relies on in the JSON codec: a written thread is UTF-8 and reads back.\<close>

definition codec_ok :: "'j thread_codec \<Rightarrow> bool" where
  "codec_ok tc \<longleftrightarrow> (\<forall>t json. tc_to_string tc t = Inr json \<longrightarrow> utf8_valid json \<and> tc_from_str tc json = Inr t)"

lemma thread_path_inj [simp]: "thread_path i = thread_path j \<longleftrightarrow> i = j"
  by (simp add: thread_path_def)

lemma thread_path_not_tmp [simp]: "thread_path i \<noteq> j @ ''.json.tmp''"
proof
  assume "thread_path i = j @ ''.json.tmp''"
  then have "last (thread_path i) = last (j @ ''.json.tmp'')" by (rule arg_cong)
  then show False by (simp add: thread_path_def)
qed

lemma map_of_tmp [simp]:
  "map_of (AList.update (j @ ''.json.tmp'') s fs) (thread_path i) = map_of fs (thread_path i)"
  "map_of (AList.delete (j @ ''.json.tmp'') fs) (thread_path i) = map_of fs (thread_path i)"
  by (simp_all add: update_conv' delete_conv')

lemma dir_files_Some [simp]: "dir_files (Some fs) = fs"
  by (simp add: dir_files_def unwrap_or_def)

lemma local_load_cong:
  "map_of (dir_files d) (thread_path i) = map_of (dir_files d') (thread_path i) \<Longrightarrow> local_load tc f d i = local_load tc f d' i"
  by (simp add: local_load_def)

lemma local_save_cases:
  assumes "local_save tc fault d t = (d', r)"
  obtains (saved) json where "r = Inr ()" "tc_to_string tc t = Inr json"
      "\<And>i. map_of (dir_files d') (thread_path i) = (if i = th_id t then Some json else map_of (dir_files d) (thread_path i))"
    | (failed) "isl r" "\<And>i. map_of (dir_files d') (thread_path i) = map_of (dir_files d) (thread_path i)"
proof (cases "tc_to_string tc t")
  case (Inl e)
  show ?thesis
  proof (cases fault)
    case None
    with Inl assms failed show ?thesis by (auto simp: local_save_def Let_def)
  next
    case (Some x)
    with Inl assms failed show ?thesis by (cases x) (auto simp: local_save_def Let_def)
  qed
next
  case (Inr json)
  have wrote: "map_of (AList.update (thread_path (th_id t)) json (AList.delete (th_id t @ ''.json.tmp'') (dir_files d))) (thread_path i) =
      (if i = th_id t then Some json else map_of (dir_files d) (thread_path i))" for i
    by (simp add: update_conv')
  show ?thesis
  proof (cases fault)
    case None
    with Inr assms have "r = Inr ()" "d' = Some (AList.update (thread_path (th_id t)) json (AList.delete (th_id t @ ''.json.tmp'') (dir_files d)))"
      by (simp_all add: local_save_def Let_def)
    then show ?thesis using saved [OF _ Inr] wrote by simp
  next
    case (Some x)
    have "(r = Inr () \<and> d' = Some (AList.update (thread_path (th_id t)) json (AList.delete (th_id t @ ''.json.tmp'') (dir_files d))))
        \<or> isl r \<and> (\<forall>i. map_of (dir_files d') (thread_path i) = map_of (dir_files d) (thread_path i))"
      using Some Inr assms by (cases x) (auto simp: local_save_def Let_def)
    then show ?thesis using saved [OF _ Inr] failed wrote by auto
  qed
qed

lemma local_load_save:
  assumes "codec_ok tc" and "local_save tc fault d t = (d', r)"
  shows "local_load tc f d' i =
    (if i = th_id t \<and> r = Inr () then (case f of Some (ReadFails e) \<Rightarrow> Inl (StoreIo e) | _ \<Rightarrow> Inr (Some t)) else local_load tc f d i)"
  using assms(2)
proof (cases rule: local_save_cases)
  case (saved json)
  then have "utf8_valid json" "tc_from_str tc json = Inr t" using assms(1) by (auto simp: codec_ok_def)
  with saved show ?thesis
    by (cases "i = th_id t") (auto simp: local_load_def split: option.split disk_fault.split)
next
  case failed
  then show ?thesis using local_load_cong [of d' i d] by auto
qed

lemma local_load_delete:
  assumes "local_delete fault d i = (d', r)"
  shows "local_load tc f d' j = (if j = i \<and> r = Inr () then Inr None else local_load tc f d j)"
proof -
  have "r = Inr () \<and> d' = Some (AList.delete (thread_path i) (dir_files d)) \<or> isl r \<and> d' = d"
  proof (cases fault)
    case (Some x)
    with assms show ?thesis by (cases x) (auto simp: local_delete_def Let_def split: if_splits)
  qed (use assms in \<open>auto simp: local_delete_def Let_def split: if_splits\<close>)
  then show ?thesis
  proof
    assume d': "r = Inr () \<and> d' = Some (AList.delete (thread_path i) (dir_files d))"
    show ?thesis
    proof (cases "j = i")
      case False
      with d' show ?thesis by (auto simp: delete_conv' intro!: local_load_cong)
    qed (simp add: d' local_load_def delete_conv')
  qed auto
qed

lemma list_loop_take:
  "length summaries \<le> limit \<Longrightarrow> list_loop tc unreadable limit summaries fs =
     take limit (summaries @ map thread_summary_from (List.map_filter (readable_thread tc unreadable) fs))"
proof (induction fs arbitrary: summaries)
  case (Cons f fs)
  show ?case
  proof (cases "length summaries = limit")
    case False
    with Cons show ?thesis
      by (cases "readable_thread tc unreadable f") (auto simp: List.map_filter_simps take_Cons')
  qed (use Cons in simp)
qed simp

text \<open>The byte order of strings is a linear order, and the sort is one by the time stamp.\<close>

lemma str_less_irrefl [simp]: "\<not> str_less s s"
  by (induction s) auto

lemma str_less_trans: "str_less a b \<Longrightarrow> str_less b c \<Longrightarrow> str_less a c"
proof (induction a b arbitrary: c rule: str_less.induct)
  case (2 y ys)
  then show ?case by (cases c) auto
next
  case (3 x xs y ys)
  then show ?case by (cases c) auto
qed simp

lemma str_less_linear: "str_less a b \<or> a = b \<or> str_less b a"
proof (induction a b rule: str_less.induct)
  case (1 xs)
  then show ?case by (cases xs) auto
next
  case (3 x xs y ys)
  then show ?case by (metis linorder_neqE_nat of_char_eq_iff str_less.simps(3))
qed simp

lemma not_str_less_trans: "\<not> str_less a b \<Longrightarrow> \<not> str_less b c \<Longrightarrow> \<not> str_less a c"
  using str_less_linear str_less_trans by metis

definition newest_first :: "thread_summary list \<Rightarrow> bool" where
  "newest_first = sorted_wrt (\<lambda>x y. \<not> str_less (su_last_activity_at x) (su_last_activity_at y))"

lemma set_insert_newest [simp]: "set (insert_newest x ys) = insert x (set ys)"
  by (induction ys) auto

lemma mset_insert_newest [simp]: "mset (insert_newest x ys) = add_mset x (mset ys)"
  by (induction ys) auto

lemma newest_first_insert: "newest_first ys \<Longrightarrow> newest_first (insert_newest x ys)"
proof (induction ys)
  case (Cons y ys)
  show ?case
  proof (cases "str_less (su_last_activity_at x) (su_last_activity_at y)")
    case True
    then have "\<not> str_less (su_last_activity_at y) (su_last_activity_at x)" using str_less_trans str_less_irrefl by blast
    with Cons True show ?thesis by (simp add: newest_first_def)
  next
    case False
    then have "\<not> str_less (su_last_activity_at x) (su_last_activity_at z)" if "\<not> str_less (su_last_activity_at y) (su_last_activity_at z)" for z
      using that by (rule not_str_less_trans)
    with Cons False show ?thesis by (auto simp: newest_first_def)
  qed
qed (simp add: newest_first_def)

lemma sort_newest_facts: "newest_first (sort_newest xs)" "mset (sort_newest xs) = mset xs"
proof -
  show "newest_first (sort_newest xs)"
    by (induction xs) (simp_all add: sort_newest_def newest_first_insert, simp add: newest_first_def)
  show "mset (sort_newest xs) = mset xs"
    by (induction xs) (simp_all add: sort_newest_def)
qed

section \<open>Properties\<close>

text \<open>
  C16: Saving a thread is atomic: wherever the disk fails, loading afterwards gives the new thread exactly when the save
  succeeded and the old one otherwise, and no other thread is affected.
\<close>

theorem local_save_atomic:
  assumes "codec_ok tc" and "local_save tc fault d t = (d', r)"
  shows "local_load tc None d' i = (if i = th_id t \<and> r = Inr () then Inr (Some t) else local_load tc None d i)"
  using local_load_save [OF assms, of None i] by simp

theorem local_save_atomic_witness:
  "let tc = \<lparr>tc_to_string = (\<lambda>t. if t = thread_new ''1'' ''now'' () then Inr ''a'' else Inl ''?''), tc_from_str = (\<lambda>_. Inr (thread_new ''1'' ''now'' ()))\<rparr>
   in local_load tc None (fst (local_save tc None None (thread_new ''1'' ''now'' ()))) ''T-1'' = Inr (Some (thread_new ''1'' ''now'' ()))"
proof -
  let ?t = "thread_new ''1'' ''now'' ()"
  let ?tc = "\<lparr>tc_to_string = (\<lambda>t. if t = ?t then Inr ''a'' else Inl ''?''), tc_from_str = (\<lambda>_. Inr ?t)\<rparr>"
  have "codec_ok ?tc" by (auto simp: codec_ok_def utf8_valid_ascii split: if_splits)
  moreover obtain d where "local_save ?tc None None ?t = (d, Inr ())" by (simp add: local_save_def Let_def)
  moreover have "th_id ?t = ''T-1''" by (simp add: thread_new_def)
  ultimately show ?thesis using local_save_atomic [of ?tc None None ?t d "Inr ()" "''T-1''"] by simp
qed

text \<open>
  Listing threads sorts what it found by activity, newest first, but stops looking after the limit: the result is exactly the first threads
  in directory order, sorted, so it holds the newest threads only when all of them fit into the limit.
\<close>

theorem local_list_first_then_sorted:
  assumes "local_list tc unreadable None d limit = Inr ss"
  shows "newest_first ss \<and> mset ss = mset (take (unat limit) (map thread_summary_from
    (List.map_filter (readable_thread tc unreadable) (dir_files d))))"
  using assms sort_newest_facts
  by (auto simp: local_list_def dir_files_def unwrap_or_def list_loop_take newest_first_def split: option.splits)

theorem local_list_first_then_sorted_witness:
  "let tc = \<lparr>tc_to_string = (\<lambda>_. Inl ''?''), tc_from_str = (\<lambda>s. Inr (thread_new s s ()))\<rparr>;
       d = Some [(''T-1.json'', ''1''), (''T-2.json'', ''2'')]
   in \<exists>ss. local_list tc (\<lambda>_. False) None d 1 = Inr ss \<and> mset ss = {#thread_summary_from (thread_new ''1'' ''1'' ())#}"
proof -
  let ?tc = "\<lparr>tc_to_string = (\<lambda>_. Inl ''?''), tc_from_str = (\<lambda>s. Inr (thread_new s s ()))\<rparr>"
  let ?d = "Some [(''T-1.json'', ''1''), (''T-2.json'', ''2'')]"
  obtain ss where ss: "local_list ?tc (\<lambda>_. False) None ?d 1 = Inr ss" by (simp add: local_list_def)
  have "path_extension ''T-1.json'' = Some ''json''" "\<not> ends_with ''T-1.json'' ''.tmp''"
    by (simp_all add: path_extension_def starts_with_def ends_with_def)
  then have first: "readable_thread ?tc (\<lambda>_. False) (''T-1.json'', ''1'') = Some (thread_new ''1'' ''1'' ())"
    by (simp add: readable_thread_def utf8_valid_ascii)
  from local_list_first_then_sorted [OF ss] first ss show ?thesis by (simp add: List.map_filter_simps split: option.splits)
qed

end
