(* ===== verification/ThreadSync.thy ===== *)
theory ThreadSync
  imports Threads
begin

text \<open>
  Synchronisation of threads with the server, \<^verbatim>\<open>sync.rs\<close> and \<^verbatim>\<open>pending_sync.rs\<close> of \<^verbatim>\<open>loom-common-thread\<close>: a save or delete is done locally and a
  background task sends it; what fails goes to a queue file for a later retry. Every call and every background task is a sequence of
  steps (an operation of the local store, a request, an update of the queue under its lock), and the steps of all of them interleave
  freely. The network is a parameter of every request, and the requests sent are recorded.
\<close>

section \<open>The queue of failed operations\<close>

datatype sync_operation = Upsert | Delete

record pending_sync_entry =
  pe_thread_id :: string
  pe_operation :: sync_operation
  pe_failed_at :: string
  pe_retry_count :: u32
  pe_last_error :: "string option"

type_synonym pending_sync_queue = "pending_sync_entry list"

definition entry_is :: "string \<Rightarrow> sync_operation \<Rightarrow> pending_sync_entry \<Rightarrow> bool" where
  "entry_is i op e \<longleftrightarrow> pe_thread_id e = i \<and> pe_operation e = op"

fun queue_add :: "string \<Rightarrow> string \<Rightarrow> sync_operation \<Rightarrow> string option \<Rightarrow> pending_sync_queue \<Rightarrow> pending_sync_queue" where
  "queue_add now i op err [] =
     [\<lparr>pe_thread_id = i, pe_operation = op, pe_failed_at = now, pe_retry_count = 0, pe_last_error = err\<rparr>]"
| "queue_add now i op err (e # es) =
     (if entry_is i op e then e\<lparr>pe_retry_count := pe_retry_count e + 1, pe_failed_at := now, pe_last_error := err\<rparr> # es
      else e # queue_add now i op err es)"

definition queue_remove :: "string \<Rightarrow> sync_operation \<Rightarrow> pending_sync_queue \<Rightarrow> pending_sync_queue" where
  "queue_remove i op q = filter (\<lambda>e. \<not> entry_is i op e) q"

record queue_codec =
  qc_to_string :: "pending_sync_queue \<Rightarrow> string + string"
  qc_from_str :: "string \<Rightarrow> string + pending_sync_queue"

text \<open>The queue file, \<open>None\<close> while it does not exist; its temporary file is never read.\<close>

definition pending_load :: "queue_codec \<Rightarrow> disk_fault option \<Rightarrow> string option \<Rightarrow> store_error + pending_sync_queue" where
  "pending_load qc fault q = (case q of
     None \<Rightarrow> Inr []
   | Some contents \<Rightarrow> (case fault of
       Some (ReadFails e) \<Rightarrow> Inl (StoreIo e)
     | _ \<Rightarrow>
         if \<not> utf8_valid contents then Inl (StoreIo (show_io_error InvalidData))
         else (case qc_from_str qc contents of Inl e \<Rightarrow> Inl (StoreSerialization e) | Inr es \<Rightarrow> Inr es)))"

definition pending_save ::
  "queue_codec \<Rightarrow> disk_fault option \<Rightarrow> string option \<Rightarrow> pending_sync_queue \<Rightarrow> string option \<times> (store_error + unit)" where
  "pending_save qc fault q es = (case fault of
     Some (CreateDirFails e) \<Rightarrow> (q, Inl (StoreIo e))
   | _ \<Rightarrow> (case qc_to_string qc es of
       Inl e \<Rightarrow> (q, Inl (StoreSerialization e))
     | Inr json \<Rightarrow> (case fault of
         Some (WriteFails e written) \<Rightarrow> (q, Inl (StoreIo e))
       | Some (RenameFails e) \<Rightarrow> (q, Inl (StoreIo e))
       | _ \<Rightarrow> (Some json, Inr ()))))"

definition add_pending :: "queue_codec \<Rightarrow> disk_fault option \<Rightarrow> string \<Rightarrow> string option \<Rightarrow> string \<Rightarrow> sync_operation \<Rightarrow> string option
    \<Rightarrow> string option \<times> (store_error + unit)" where
  "add_pending qc fault now q i op err =
     (let queue = (case pending_load qc fault q of Inl e \<Rightarrow> [] | Inr es \<Rightarrow> es)
      in pending_save qc fault q (queue_add now i op err queue))"

definition remove_pending ::
  "queue_codec \<Rightarrow> disk_fault option \<Rightarrow> string option \<Rightarrow> string \<Rightarrow> sync_operation \<Rightarrow> string option \<times> (store_error + unit)" where
  "remove_pending qc fault q i op = (case pending_load qc fault q of
     Inl e \<Rightarrow> (q, Inl e)
   | Inr queue \<Rightarrow>
       let queue' = queue_remove i op queue
       in if length queue' < length queue then pending_save qc fault q queue' else (q, Inr ()))"

definition pending_clear :: "disk_fault option \<Rightarrow> string option \<Rightarrow> string option \<times> (store_error + unit)" where
  "pending_clear fault q = (case q of
     None \<Rightarrow> (q, Inr ())
   | Some _ \<Rightarrow> (case fault of Some (RemoveFails e) \<Rightarrow> (q, Inl (StoreIo e)) | _ \<Rightarrow> (None, Inr ())))"

section \<open>The client\<close>

fun show_sync_error :: "(status_code \<Rightarrow> string) \<Rightarrow> sync_error \<Rightarrow> string" where
  "show_sync_error sh (SyncNetwork e) = ''network error: '' @ he_text e"
| "show_sync_error sh (SyncServer s m) = ''server error: '' @ sh s @ '' - '' @ m"
| "show_sync_error sh SyncConflict = ''conflict: thread was modified on server''"
| "show_sync_error sh (SyncInvalidUrl e) = ''invalid URL: '' @ e"
| "show_sync_error sh SyncTimeout = ''request timeout''"
| "show_sync_error sh (SyncUnexpectedStatus s) = ''unexpected status: '' @ sh s"

definition transient_status :: "status_code \<Rightarrow> bool" where
  "transient_status s \<longleftrightarrow> s \<in> {TOO_MANY_REQUESTS, REQUEST_TIMEOUT, BAD_GATEWAY, SERVICE_UNAVAILABLE, GATEWAY_TIMEOUT}"

fun sync_is_retryable :: "sync_error \<Rightarrow> bool" where
  "sync_is_retryable (SyncNetwork e) = is_retryable e"
| "sync_is_retryable (SyncServer s m) = transient_status s"
| "sync_is_retryable SyncConflict = False"
| "sync_is_retryable (SyncInvalidUrl e) = False"
| "sync_is_retryable SyncTimeout = True"
| "sync_is_retryable (SyncUnexpectedStatus s) = transient_status s"

text \<open>The outcome of each send: an error, or a status with the body. \<^verbatim>\<open>send\<close> is tried through \<^verbatim>\<open>retry\<close>.\<close>

type_synonym network = "nat \<Rightarrow> http_error + status_code \<times> string"

record 'j sync_config =
  sc_client :: bool
  sc_pending :: bool
  sc_max_attempts :: u32
  sc_url_error :: "string \<Rightarrow> string option"
  sc_show_status :: "status_code \<Rightarrow> string"
  sc_codec :: "'j thread_codec"
  sc_queue :: queue_codec

definition send_request :: "'j sync_config \<Rightarrow> string \<Rightarrow> network \<Rightarrow> sync_error + status_code \<times> string" where
  "send_request cfg i net = (case sc_url_error cfg i of
     Some e \<Rightarrow> Inl (SyncInvalidUrl e)
   | None \<Rightarrow> fst (retry (sc_max_attempts cfg) sync_is_retryable (\<lambda>k. map_sum SyncNetwork id (net k))))"

definition is_server_error :: "status_code \<Rightarrow> bool" where
  "is_server_error s \<longleftrightarrow> 500 \<le> s \<and> s < 600"

definition upsert_result :: "status_code \<times> string \<Rightarrow> sync_error + unit" where
  "upsert_result r = (case r of (status, body) \<Rightarrow>
     if status \<in> {200, 201, 204} then Inr ()
     else if status = 409 then Inl SyncConflict
     else if is_server_error status then Inl (SyncServer status body)
     else Inl (SyncUnexpectedStatus status))"

definition upsert_thread :: "'j sync_config \<Rightarrow> network \<Rightarrow> 'j thread \<Rightarrow> sync_error + unit" where
  "upsert_thread cfg net t = (case send_request cfg (th_id t) net of Inl e \<Rightarrow> Inl e | Inr r \<Rightarrow> upsert_result r)"

definition delete_result :: "status_code \<times> string \<Rightarrow> sync_error + unit" where
  "delete_result r = (case r of (status, body) \<Rightarrow>
     if status \<in> {200, 204} then Inr ()
     else if status = 404 then Inr ()
     else if is_server_error status then Inl (SyncServer status body)
     else Inl (SyncUnexpectedStatus status))"

definition delete_thread :: "'j sync_config \<Rightarrow> network \<Rightarrow> string \<Rightarrow> sync_error + unit" where
  "delete_thread cfg net i = (case send_request cfg i net of Inl e \<Rightarrow> Inl e | Inr r \<Rightarrow> delete_result r)"

text \<open>A body that does not decode is a network error of \<^verbatim>\<open>reqwest\<close>.\<close>

definition get_thread :: "'j sync_config \<Rightarrow> (string \<Rightarrow> http_error + 'j thread) \<Rightarrow> network \<Rightarrow> string \<Rightarrow> sync_error + 'j thread option" where
  "get_thread cfg decode net i = (case send_request cfg i net of
     Inl e \<Rightarrow> Inl e
   | Inr (status, body) \<Rightarrow>
       if status = 200 then (case decode body of Inl e \<Rightarrow> Inl (SyncNetwork e) | Inr t \<Rightarrow> Inr (Some t))
       else if status = 404 then Inr None
       else if is_server_error status then Inl (SyncServer status body)
       else Inl (SyncUnexpectedStatus status))"

section \<open>The syncing store\<close>

datatype 'j wire_request = PutThread "'j thread" | DeleteRequest string

text \<open>
  A call of the store, or a background task, is what it does next. It gives way to the others wherever it awaits an operation of the
  local store, a request, or the lock of the queue; the queue is read and written while its lock is held, in one step. Each operation of the local
  store is one step.
\<close>

datatype 'j sync_task =
  SaveLocal "'j thread"  \<comment> \<open>\<^verbatim>\<open>save\<close>\<close>
| SaveAndSyncLocal "'j thread"  \<comment> \<open>\<^verbatim>\<open>save_and_sync\<close>: the local save\<close>
| SyncNow "'j thread"  \<comment> \<open>\<^verbatim>\<open>save_and_sync\<close>: the request\<close>
| DeleteLoad string  \<comment> \<open>\<^verbatim>\<open>delete\<close>: loading the thread\<close>
| DeleteLocal string "'j thread option"  \<comment> \<open>\<^verbatim>\<open>delete\<close>: the local deletion, after loading\<close>
| SendUpsert "'j thread"  \<comment> \<open>the task spawned by \<^verbatim>\<open>save\<close>\<close>
| SendDelete string  \<comment> \<open>the task spawned by \<^verbatim>\<open>delete\<close>\<close>
| RecordOutcome string sync_operation "sync_error + unit"  \<comment> \<open>the spawned tasks: the update of the queue\<close>
| RetryLoad  \<comment> \<open>\<^verbatim>\<open>retry_pending\<close>: loading the queue\<close>
| RetryNext nat pending_sync_queue  \<comment> \<open>\<^verbatim>\<open>retry_pending\<close>: the successes so far and the entries to go\<close>
| RetryUpsert nat pending_sync_entry "'j thread" pending_sync_queue  \<comment> \<open>\<^verbatim>\<open>retry_pending\<close>: the request, after loading the thread\<close>
| RetryRemove nat pending_sync_entry pending_sync_queue  \<comment> \<open>\<^verbatim>\<open>retry_pending\<close>: the removal from the queue, after a success\<close>

text \<open>The files, the tasks, the requests sent, and what the calls returned: the count of a retry, 0 for the other calls.\<close>

record 'j sync_state =
  sy_dir :: thread_dir
  sy_queue_file :: "string option"
  sy_tasks :: "'j sync_task list"
  sy_wire :: "'j wire_request list"
  sy_returned :: "(store_error + nat) list"

definition sync_start :: "'j sync_state" where
  "sync_start = \<lparr>sy_dir = None, sy_queue_file = None, sy_tasks = [], sy_wire = [], sy_returned = []\<rparr>"

text \<open>How a step ends: the call or task goes on, a call returns, a call returns and leaves a background task, or a background task ends.\<close>

datatype 'j step_result =
  Continue "'j sync_task"
| Return "store_error + nat"
| ReturnSpawn "'j sync_task"
| TaskEnd

definition save_step :: "'j sync_config \<Rightarrow> disk_fault option \<Rightarrow> 'j thread \<Rightarrow> 'j sync_state \<Rightarrow> 'j step_result \<times> 'j sync_state" where
  "save_step cfg fault t st = (case local_save (sc_codec cfg) fault (sy_dir st) t of
     (d, Inl e) \<Rightarrow> (Return (Inl e), st\<lparr>sy_dir := d\<rparr>)
   | (d, Inr _) \<Rightarrow>
       (if th_is_private t then Return (Inr 0)
        else if sc_client cfg then ReturnSpawn (SendUpsert t)
        else Return (Inr 0), st\<lparr>sy_dir := d\<rparr>))"

definition save_and_sync_step :: "'j sync_config \<Rightarrow> disk_fault option \<Rightarrow> 'j thread \<Rightarrow> 'j sync_state \<Rightarrow> 'j step_result \<times> 'j sync_state" where
  "save_and_sync_step cfg fault t st = (case local_save (sc_codec cfg) fault (sy_dir st) t of
     (d, Inl e) \<Rightarrow> (Return (Inl e), st\<lparr>sy_dir := d\<rparr>)
   | (d, Inr _) \<Rightarrow>
       (if th_is_private t then Return (Inr 0)
        else if sc_client cfg then Continue (SyncNow t)
        else Return (Inr 0), st\<lparr>sy_dir := d\<rparr>))"

definition sent :: "'j wire_request \<Rightarrow> 'j sync_state \<Rightarrow> 'j sync_state" where
  "sent r st = st\<lparr>sy_wire := sy_wire st @ [r]\<rparr>"

definition sync_now_step :: "'j sync_config \<Rightarrow> network \<Rightarrow> 'j thread \<Rightarrow> 'j sync_state \<Rightarrow> 'j step_result \<times> 'j sync_state" where
  "sync_now_step cfg net t st =
     (Return (case upsert_thread cfg net t of Inl e \<Rightarrow> Inl (StoreSync e) | Inr _ \<Rightarrow> Inr 0), sent (PutThread t) st)"

definition delete_load_step :: "'j sync_config \<Rightarrow> disk_fault option \<Rightarrow> string \<Rightarrow> 'j sync_state \<Rightarrow> 'j step_result \<times> 'j sync_state" where
  "delete_load_step cfg fault i st = (case local_load (sc_codec cfg) fault (sy_dir st) i of
     Inl e \<Rightarrow> (Return (Inl e), st)
   | Inr thread \<Rightarrow> (Continue (DeleteLocal i thread), st))"

definition delete_local_step ::
  "'j sync_config \<Rightarrow> disk_fault option \<Rightarrow> string \<Rightarrow> 'j thread option \<Rightarrow> 'j sync_state \<Rightarrow> 'j step_result \<times> 'j sync_state" where
  "delete_local_step cfg fault i thread st = (case local_delete fault (sy_dir st) i of
     (d, Inl e) \<Rightarrow> (Return (Inl e), st\<lparr>sy_dir := d\<rparr>)
   | (d, Inr _) \<Rightarrow>
       (if (case thread of Some t \<Rightarrow> th_is_private t | None \<Rightarrow> False) then Return (Inr 0)
        else if sc_client cfg then ReturnSpawn (SendDelete i)
        else Return (Inr 0), st\<lparr>sy_dir := d\<rparr>))"

definition record_outcome :: "'j sync_config \<Rightarrow> disk_fault option \<Rightarrow> string \<Rightarrow> string option \<Rightarrow> string \<Rightarrow> sync_operation \<Rightarrow> (sync_error + unit)
    \<Rightarrow> string option" where
  "record_outcome cfg fault now q i op r =
     (if \<not> sc_pending cfg then q
      else case r of
        Inr _ \<Rightarrow> fst (remove_pending (sc_queue cfg) fault q i op)
      | Inl e \<Rightarrow> fst (add_pending (sc_queue cfg) fault now q i op (Some (show_sync_error (sc_show_status cfg) e))))"

definition retry_load_step :: "'j sync_config \<Rightarrow> disk_fault option \<Rightarrow> 'j sync_state \<Rightarrow> 'j step_result \<times> 'j sync_state" where
  "retry_load_step cfg fault st =
     (if \<not> sc_client cfg \<or> \<not> sc_pending cfg then (Return (Inr 0), st)
      else case pending_load (sc_queue cfg) fault (sy_queue_file st) of
        Inl e \<Rightarrow> (Return (Inl e), st)
      | Inr queue \<Rightarrow> (Continue (RetryNext 0 queue), st))"

text \<open>The next entry of the loop: an upsert loads its thread, a deletion is sent at once.\<close>

fun retry_next_step :: "'j sync_config \<Rightarrow> network \<Rightarrow> disk_fault option \<Rightarrow> nat \<Rightarrow> pending_sync_queue \<Rightarrow> 'j sync_state
    \<Rightarrow> 'j step_result \<times> 'j sync_state" where
  "retry_next_step cfg net fault n [] st = (Return (Inr n), st)"
| "retry_next_step cfg net fault n (e # es) st = (case pe_operation e of
     Upsert \<Rightarrow> (case local_load (sc_codec cfg) fault (sy_dir st) (pe_thread_id e) of
         Inl err \<Rightarrow> (Return (Inl err), st)
       | Inr None \<Rightarrow> (Continue (RetryNext n es), st)
       | Inr (Some t) \<Rightarrow> (Continue (RetryUpsert n e t es), st))
   | Delete \<Rightarrow>
       (Continue (case delete_thread cfg net (pe_thread_id e) of Inr _ \<Rightarrow> RetryRemove n e es | Inl _ \<Rightarrow> RetryNext n es),
        sent (DeleteRequest (pe_thread_id e)) st))"

definition retry_upsert_step :: "'j sync_config \<Rightarrow> network \<Rightarrow> nat \<Rightarrow> pending_sync_entry \<Rightarrow> 'j thread \<Rightarrow> pending_sync_queue \<Rightarrow> 'j sync_state
    \<Rightarrow> 'j step_result \<times> 'j sync_state" where
  "retry_upsert_step cfg net n e t es st =
     (Continue (case upsert_thread cfg net t of Inr _ \<Rightarrow> RetryRemove n e es | Inl _ \<Rightarrow> RetryNext n es), sent (PutThread t) st)"

definition retry_remove_step :: "'j sync_config \<Rightarrow> disk_fault option \<Rightarrow> nat \<Rightarrow> pending_sync_entry \<Rightarrow> pending_sync_queue \<Rightarrow> 'j sync_state
    \<Rightarrow> 'j step_result \<times> 'j sync_state" where
  "retry_remove_step cfg fault n e es st = (Continue (RetryNext (Suc n) es),
     st\<lparr>sy_queue_file := fst (remove_pending (sc_queue cfg) fault (sy_queue_file st) (pe_thread_id e) (pe_operation e))\<rparr>)"

fun run_task :: "'j sync_config \<Rightarrow> network \<Rightarrow> disk_fault option \<Rightarrow> string \<Rightarrow> 'j sync_task \<Rightarrow> 'j sync_state \<Rightarrow> 'j step_result \<times> 'j sync_state" where
  "run_task cfg net fault now (SaveLocal t) st = save_step cfg fault t st"
| "run_task cfg net fault now (SaveAndSyncLocal t) st = save_and_sync_step cfg fault t st"
| "run_task cfg net fault now (SyncNow t) st = sync_now_step cfg net t st"
| "run_task cfg net fault now (DeleteLoad i) st = delete_load_step cfg fault i st"
| "run_task cfg net fault now (DeleteLocal i thread) st = delete_local_step cfg fault i thread st"
| "run_task cfg net fault now (SendUpsert t) st =
     (Continue (RecordOutcome (th_id t) Upsert (upsert_thread cfg net t)), sent (PutThread t) st)"
| "run_task cfg net fault now (SendDelete i) st =
     (Continue (RecordOutcome i Delete (delete_thread cfg net i)), sent (DeleteRequest i) st)"
| "run_task cfg net fault now (RecordOutcome i op r) st =
     (TaskEnd, st\<lparr>sy_queue_file := record_outcome cfg fault now (sy_queue_file st) i op r\<rparr>)"
| "run_task cfg net fault now RetryLoad st = retry_load_step cfg fault st"
| "run_task cfg net fault now (RetryNext n es) st = retry_next_step cfg net fault n es st"
| "run_task cfg net fault now (RetryUpsert n e t es) st = retry_upsert_step cfg net n e t es st"
| "run_task cfg net fault now (RetryRemove n e es) st = retry_remove_step cfg fault n e es st"

definition step_task :: "'j sync_config \<Rightarrow> network \<Rightarrow> disk_fault option \<Rightarrow> string \<Rightarrow> nat \<Rightarrow> 'j sync_state \<Rightarrow> 'j sync_state" where
  "step_task cfg net fault now k st =
     (if k < length (sy_tasks st)
      then case run_task cfg net fault now (sy_tasks st ! k) st of
             (Continue task, st') \<Rightarrow> st'\<lparr>sy_tasks := (sy_tasks st)[k := task]\<rparr>
           | (Return r, st') \<Rightarrow> st'\<lparr>sy_tasks := remove_at k (sy_tasks st), sy_returned := sy_returned st @ [r]\<rparr>
           | (ReturnSpawn task, st') \<Rightarrow> st'\<lparr>sy_tasks := (sy_tasks st)[k := task], sy_returned := sy_returned st @ [Inr 0]\<rparr>
           | (TaskEnd, st') \<Rightarrow> st'\<lparr>sy_tasks := remove_at k (sy_tasks st)\<rparr>
      else st)"

definition pending_count :: "'j sync_config \<Rightarrow> disk_fault option \<Rightarrow> 'j sync_state \<Rightarrow> nat" where
  "pending_count cfg fault st =
     (if \<not> sc_pending cfg then 0
      else case pending_load (sc_queue cfg) fault (sy_queue_file st) of Inl _ \<Rightarrow> 0 | Inr q \<Rightarrow> length q)"

text \<open>A run of the store: calls begin, and one of the tasks takes its next step, with the network and the fault of the disk at that step.\<close>

datatype 'j sync_event =
  SaveCall "'j thread"
| SaveSyncCall "'j thread"
| DeleteCall string
| RetryCall
| TaskStep nat network "disk_fault option" string

fun first_task :: "'j sync_event \<Rightarrow> 'j sync_task list" where
  "first_task (SaveCall t) = [SaveLocal t]"
| "first_task (SaveSyncCall t) = [SaveAndSyncLocal t]"
| "first_task (DeleteCall i) = [DeleteLoad i]"
| "first_task RetryCall = [RetryLoad]"
| "first_task (TaskStep k net fault now) = []"

definition sync_step :: "'j sync_config \<Rightarrow> 'j sync_state \<Rightarrow> 'j sync_event \<Rightarrow> 'j sync_state" where
  "sync_step cfg st ev = (case ev of
     TaskStep k net fault now \<Rightarrow> step_task cfg net fault now k st
   | _ \<Rightarrow> st\<lparr>sy_tasks := sy_tasks st @ first_task ev\<rparr>)"

section \<open>Private threads stay local\<close>

text \<open>
  Fix which ids are private, \<open>hidden\<close>. A run keeps to it when every save does. A deletion of such an id can still be announced to the server,
  when \<^verbatim>\<open>delete\<close> looked for the thread before it was first saved and found it when it deleted it; \<open>gone\<close> holds the ids looked for in vain.
  The invariant: what can be loaded keeps to \<open>hidden\<close>, and neither the queue, nor a task, nor a request sent concerns a hidden id, but for deletions
  of \<open>gone\<close> ones.
\<close>

definition queue_codec_ok :: "queue_codec \<Rightarrow> bool" where
  "queue_codec_ok qc \<longleftrightarrow> (\<forall>q json. qc_to_string qc q = Inr json \<longrightarrow> utf8_valid json \<and> qc_from_str qc json = Inr q)"

definition op_public :: "(string \<Rightarrow> bool) \<Rightarrow> (string \<Rightarrow> bool) \<Rightarrow> sync_operation \<Rightarrow> string \<Rightarrow> bool" where
  "op_public hidden gone op i \<longleftrightarrow> \<not> hidden i \<or> op = Delete \<and> gone i"

definition entry_public :: "(string \<Rightarrow> bool) \<Rightarrow> (string \<Rightarrow> bool) \<Rightarrow> pending_sync_entry \<Rightarrow> bool" where
  "entry_public hidden gone e \<longleftrightarrow> op_public hidden gone (pe_operation e) (pe_thread_id e)"

abbreviation public_thread :: "(string \<Rightarrow> bool) \<Rightarrow> 'j thread \<Rightarrow> bool" where
  "public_thread hidden t \<equiv> \<not> hidden (th_id t) \<and> \<not> th_is_private t"

fun request_public :: "(string \<Rightarrow> bool) \<Rightarrow> (string \<Rightarrow> bool) \<Rightarrow> 'j wire_request \<Rightarrow> bool" where
  "request_public hidden gone (PutThread t) \<longleftrightarrow> public_thread hidden t"
| "request_public hidden gone (DeleteRequest i) \<longleftrightarrow> op_public hidden gone Delete i"

fun task_public :: "(string \<Rightarrow> bool) \<Rightarrow> (string \<Rightarrow> bool) \<Rightarrow> 'j sync_task \<Rightarrow> bool" where
  "task_public hidden gone (SaveLocal t) \<longleftrightarrow> th_is_private t = hidden (th_id t)"
| "task_public hidden gone (SaveAndSyncLocal t) \<longleftrightarrow> th_is_private t = hidden (th_id t)"
| "task_public hidden gone (SyncNow t) \<longleftrightarrow> public_thread hidden t"
| "task_public hidden gone (DeleteLoad i) \<longleftrightarrow> True"
| "task_public hidden gone (DeleteLocal i None) \<longleftrightarrow> op_public hidden gone Delete i"
| "task_public hidden gone (DeleteLocal i (Some t)) \<longleftrightarrow> th_is_private t = hidden i"
| "task_public hidden gone (SendUpsert t) \<longleftrightarrow> public_thread hidden t"
| "task_public hidden gone (SendDelete i) \<longleftrightarrow> op_public hidden gone Delete i"
| "task_public hidden gone (RecordOutcome i op r) \<longleftrightarrow> op_public hidden gone op i"
| "task_public hidden gone RetryLoad \<longleftrightarrow> True"
| "task_public hidden gone (RetryNext n es) \<longleftrightarrow> list_all (entry_public hidden gone) es"
| "task_public hidden gone (RetryUpsert n e t es) \<longleftrightarrow> public_thread hidden t \<and> list_all (entry_public hidden gone) es"
| "task_public hidden gone (RetryRemove n e es) \<longleftrightarrow> list_all (entry_public hidden gone) es"

fun keeps_privacy :: "(string \<Rightarrow> bool) \<Rightarrow> 'j sync_event \<Rightarrow> bool" where
  "keeps_privacy hidden (SaveCall t) \<longleftrightarrow> th_is_private t = hidden (th_id t)"
| "keeps_privacy hidden (SaveSyncCall t) \<longleftrightarrow> th_is_private t = hidden (th_id t)"
| "keeps_privacy hidden _ \<longleftrightarrow> True"

definition dir_private :: "'j thread_codec \<Rightarrow> (string \<Rightarrow> bool) \<Rightarrow> thread_dir \<Rightarrow> bool" where
  "dir_private tc hidden d \<longleftrightarrow> (\<forall>f i t. local_load tc f d i = Inr (Some t) \<longrightarrow> th_id t = i \<and> th_is_private t = hidden i)"

definition queue_public :: "queue_codec \<Rightarrow> (string \<Rightarrow> bool) \<Rightarrow> (string \<Rightarrow> bool) \<Rightarrow> string option \<Rightarrow> bool" where
  "queue_public qc hidden gone q \<longleftrightarrow> (\<forall>f es. pending_load qc f q = Inr es \<longrightarrow> list_all (entry_public hidden gone) es)"

definition sync_inv :: "'j sync_config \<Rightarrow> (string \<Rightarrow> bool) \<Rightarrow> (string \<Rightarrow> bool) \<Rightarrow> 'j sync_state \<Rightarrow> bool" where
  "sync_inv cfg hidden gone st \<longleftrightarrow> dir_private (sc_codec cfg) hidden (sy_dir st) \<and> queue_public (sc_queue cfg) hidden gone (sy_queue_file st)
     \<and> list_all (task_public hidden gone) (sy_tasks st) \<and> list_all (request_public hidden gone) (sy_wire st)"

text \<open>A step of \<^verbatim>\<open>delete\<close> that looks for the thread and finds none.\<close>

definition finds_none :: "'j sync_config \<Rightarrow> 'j sync_state \<Rightarrow> 'j sync_event \<Rightarrow> string \<Rightarrow> bool" where
  "finds_none cfg st ev i \<longleftrightarrow> (case ev of
     TaskStep k net fault now \<Rightarrow> k < length (sy_tasks st)
       \<and> (case sy_tasks st ! k of DeleteLoad j \<Rightarrow> j = i \<and> map_of (dir_files (sy_dir st)) (thread_path i) = None | _ \<Rightarrow> False)
   | _ \<Rightarrow> False)"

definition looked_in_vain :: "'j sync_config \<Rightarrow> 'j sync_event list \<Rightarrow> string \<Rightarrow> bool" where
  "looked_in_vain cfg evs i \<longleftrightarrow> list_ex (\<lambda>n. finds_none cfg (foldl (sync_step cfg) sync_start (take n evs)) (evs ! n) i) [0..<length evs]"

text \<open>The directory.\<close>

lemma dir_private_save:
  assumes "codec_ok tc" and "dir_private tc hidden d" and "th_is_private t = hidden (th_id t)" and "local_save tc fault d t = (d', r)"
  shows "dir_private tc hidden d'"
  unfolding dir_private_def
proof (intro allI impI)
  fix f i u
  assume "local_load tc f d' i = Inr (Some u)"
  with local_load_save [OF assms(1,4), of f i] assms(2,3) show "th_id u = i \<and> th_is_private u = hidden i"
    by (auto simp: dir_private_def split: if_splits option.splits disk_fault.splits)
qed

lemma dir_private_delete:
  "dir_private tc hidden d \<Longrightarrow> local_delete fault d i = (d', r) \<Longrightarrow> dir_private tc hidden d'"
  using local_load_delete [of fault d i d' r tc] by (auto simp: dir_private_def split: if_splits)

text \<open>The queue file.\<close>

lemma list_all_queue_add:
  "list_all (entry_public hidden gone) q \<Longrightarrow> op_public hidden gone op i \<Longrightarrow> list_all (entry_public hidden gone) (queue_add now i op err q)"
  by (induction q) (auto simp: entry_public_def)

lemma pending_save_cases:
  assumes "pending_save qc fault q es = (q', r)"
  shows "q' = q \<and> isl r \<or> (\<exists>json. qc_to_string qc es = Inr json \<and> q' = Some json \<and> r = Inr ())"
proof (cases fault)
  case (Some x)
  with assms show ?thesis by (cases x) (auto simp: pending_save_def split: sum.splits)
qed (use assms in \<open>auto simp: pending_save_def split: sum.splits\<close>)

lemma pending_load_written:
  "queue_codec_ok qc \<Longrightarrow> qc_to_string qc es = Inr json \<Longrightarrow> pending_load qc f (Some json) = Inr es' \<Longrightarrow> es' = es"
  by (auto simp: pending_load_def queue_codec_ok_def split: option.splits disk_fault.splits sum.splits if_splits)

lemma queue_public_save:
  assumes "queue_codec_ok qc" and "queue_public qc hidden gone q" and "list_all (entry_public hidden gone) es"
  shows "queue_public qc hidden gone (fst (pending_save qc fault q es))"
  using pending_save_cases [of qc fault q es "fst (pending_save qc fault q es)" "snd (pending_save qc fault q es)"] assms
    pending_load_written [OF assms(1), of es] by (auto simp: queue_public_def)

lemma queue_public_add:
  assumes "queue_codec_ok qc" and "queue_public qc hidden gone q" and "op_public hidden gone op i"
  shows "queue_public qc hidden gone (fst (add_pending qc fault now q i op err))"
  using assms by (auto simp: add_pending_def entry_public_def queue_public_def [of qc hidden gone q] intro!: queue_public_save list_all_queue_add split: sum.split)

lemma queue_public_remove:
  assumes "queue_codec_ok qc" and "queue_public qc hidden gone q"
  shows "queue_public qc hidden gone (fst (remove_pending qc fault q i op))"
  using assms(2) by (auto simp: remove_pending_def Let_def queue_remove_def list_all_iff queue_public_def [of qc hidden gone q]
      intro!: queue_public_save [OF assms] split: sum.split)

text \<open>One lemma per step, and the summary over the events.\<close>

lemma local_load_None: "local_load tc f d i = Inr None \<longleftrightarrow> map_of (dir_files d) (thread_path i) = None"
  by (auto simp: local_load_def split: option.splits disk_fault.splits sum.splits)

lemma op_public_mono: "op_public hidden gone op i \<Longrightarrow> (\<And>i. gone i \<Longrightarrow> gone' i) \<Longrightarrow> op_public hidden gone' op i"
  by (auto simp: op_public_def)

lemma list_all_mono: "list_all P xs \<Longrightarrow> (\<And>x. P x \<Longrightarrow> Q x) \<Longrightarrow> list_all Q xs"
  by (simp add: list_all_iff)

lemma sync_inv_mono:
  assumes "sync_inv cfg hidden gone st" and "\<And>i. gone i \<Longrightarrow> gone' i"
  shows "sync_inv cfg hidden gone' st"
proof -
  have entry: "entry_public hidden gone' e" if "entry_public hidden gone e" for e
    using that assms(2) by (auto simp: entry_public_def intro: op_public_mono)
  have task: "task_public hidden gone' t" if "task_public hidden gone t" for t :: "'a sync_task"
    using that by (cases "(hidden, gone', t)" rule: task_public.cases) (auto intro: op_public_mono assms(2) list_all_mono entry)
  have request: "request_public hidden gone' r" if "request_public hidden gone r" for r :: "'a wire_request"
    using that by (cases r) (auto intro: op_public_mono assms(2))
  from assms(1) show ?thesis
    unfolding sync_inv_def queue_public_def by (auto intro: list_all_mono task request entry)
qed

text \<open>What a step leaves: the directory, the queue and the requests as they should be, and a task that may stay.\<close>

fun result_public :: "(string \<Rightarrow> bool) \<Rightarrow> (string \<Rightarrow> bool) \<Rightarrow> 'j step_result \<Rightarrow> bool" where
  "result_public hidden gone (Continue t) \<longleftrightarrow> task_public hidden gone t"
| "result_public hidden gone (ReturnSpawn t) \<longleftrightarrow> task_public hidden gone t"
| "result_public hidden gone _ \<longleftrightarrow> True"

abbreviation step_public :: "'j sync_config \<Rightarrow> (string \<Rightarrow> bool) \<Rightarrow> (string \<Rightarrow> bool) \<Rightarrow> 'j step_result \<times> 'j sync_state \<Rightarrow> bool" where
  "step_public cfg hidden gone x \<equiv> result_public hidden gone (fst x) \<and> sync_inv cfg hidden gone (snd x)"

lemma sync_inv_sent: "sync_inv cfg hidden gone st \<Longrightarrow> request_public hidden gone r \<Longrightarrow> sync_inv cfg hidden gone (sent r st)"
  by (simp add: sync_inv_def sent_def)

lemma sync_inv_dir: "sync_inv cfg hidden gone st \<Longrightarrow> dir_private (sc_codec cfg) hidden d \<Longrightarrow> sync_inv cfg hidden gone (st\<lparr>sy_dir := d\<rparr>)"
  by (simp add: sync_inv_def)

lemma sync_inv_queue:
  "sync_inv cfg hidden gone st \<Longrightarrow> queue_public (sc_queue cfg) hidden gone q \<Longrightarrow> sync_inv cfg hidden gone (st\<lparr>sy_queue_file := q\<rparr>)"
  by (simp add: sync_inv_def)

lemma save_steps_public:
  assumes "codec_ok (sc_codec cfg)" and "sync_inv cfg hidden gone st" and "th_is_private t = hidden (th_id t)"
  shows "step_public cfg hidden gone (save_step cfg fault t st)" "step_public cfg hidden gone (save_and_sync_step cfg fault t st)"
proof -
  obtain d r where s: "local_save (sc_codec cfg) fault (sy_dir st) t = (d, r)" by force
  have "sync_inv cfg hidden gone (st\<lparr>sy_dir := d\<rparr>)"
    using assms by (intro sync_inv_dir dir_private_save [OF assms(1) _ _ s]) (auto simp: sync_inv_def)
  with s assms(3) show "step_public cfg hidden gone (save_step cfg fault t st)" "step_public cfg hidden gone (save_and_sync_step cfg fault t st)"
    by (cases r; simp add: save_step_def save_and_sync_step_def)+
qed

lemma delete_local_public:
  assumes "sync_inv cfg hidden gone st" and "task_public hidden gone (DeleteLocal i thread)"
  shows "step_public cfg hidden gone (delete_local_step cfg fault i thread st)"
proof -
  obtain d r where s: "local_delete fault (sy_dir st) i = (d, r)" by force
  have "sync_inv cfg hidden gone (st\<lparr>sy_dir := d\<rparr>)"
    using assms(1) by (intro sync_inv_dir dir_private_delete [OF _ s]) (auto simp: sync_inv_def)
  with s assms(2) show ?thesis by (cases r; cases thread) (auto simp: delete_local_step_def op_public_def)
qed

lemma record_outcome_public:
  assumes "queue_codec_ok (sc_queue cfg)" and "queue_public (sc_queue cfg) hidden gone q" and "op_public hidden gone op i"
  shows "queue_public (sc_queue cfg) hidden gone (record_outcome cfg fault now q i op r)"
  using assms by (auto simp: record_outcome_def intro: queue_public_remove queue_public_add split: sum.split)

lemma retry_next_public:
  assumes "sync_inv cfg hidden gone st" and "list_all (entry_public hidden gone) es"
  shows "step_public cfg hidden gone (retry_next_step cfg net fault n es st)"
proof (cases es)
  case (Cons e es')
  have loaded: "public_thread hidden t" if "local_load (sc_codec cfg) fault (sy_dir st) (pe_thread_id e) = Inr (Some t)" "pe_operation e = Upsert" for t
    using assms that by (auto simp: Cons sync_inv_def dir_private_def entry_public_def op_public_def)
  have "sync_inv cfg hidden gone (sent (DeleteRequest (pe_thread_id e)) st)" if "pe_operation e = Delete"
    using assms that by (intro sync_inv_sent) (auto simp: Cons entry_public_def)
  with loaded assms show ?thesis by (cases "pe_operation e") (auto simp: Cons split: sum.split option.split)
qed (use assms in simp)

lemma run_task_public:
  assumes "codec_ok (sc_codec cfg)" and "queue_codec_ok (sc_queue cfg)" and "sync_inv cfg hidden gone st" and "task_public hidden gone task"
    and "\<And>i. task = DeleteLoad i \<Longrightarrow> map_of (dir_files (sy_dir st)) (thread_path i) = None \<Longrightarrow> gone i"
  shows "step_public cfg hidden gone (run_task cfg net fault now task st)"
proof (cases task)
  case (DeleteLoad i)
  have "task_public hidden gone (DeleteLocal i thread)" if "local_load (sc_codec cfg) fault (sy_dir st) i = Inr thread" for thread
    using that assms(3) assms(5) [OF DeleteLoad] by (cases thread) (auto simp: local_load_None op_public_def sync_inv_def dir_private_def)
  with assms(3) DeleteLoad show ?thesis by (auto simp: delete_load_step_def split: sum.split)
next
  case (RecordOutcome i op r)
  with assms show ?thesis by (auto intro!: sync_inv_queue record_outcome_public simp: sync_inv_def)
next
  case RetryLoad
  with assms(3) show ?thesis by (auto simp: retry_load_step_def sync_inv_def queue_public_def split: sum.split)
next
  case (RetryRemove n e es)
  have "queue_public (sc_queue cfg) hidden gone (sy_queue_file st)" using assms(3) by (simp add: sync_inv_def)
  from queue_public_remove [OF assms(2) this] assms(3,4) RetryRemove show ?thesis by (auto simp: retry_remove_step_def intro!: sync_inv_queue)
next
  case (SaveLocal t)
  with save_steps_public(1) [OF assms(1,3), of t fault] assms(4) show ?thesis by simp
next
  case (SaveAndSyncLocal t)
  with save_steps_public(2) [OF assms(1,3), of t fault] assms(4) show ?thesis by simp
next
  case (DeleteLocal i thread)
  with delete_local_public [OF assms(3), of i thread fault] assms(4) show ?thesis by simp
next
  case (RetryNext n es)
  with retry_next_public [OF assms(3), of es net fault n] assms(4) show ?thesis by simp
qed (use assms in \<open>auto simp: sync_now_step_def retry_upsert_step_def op_public_def intro: sync_inv_sent split: sum.split\<close>)

lemma sync_inv_tasks:
  "sync_inv cfg hidden gone st \<Longrightarrow> list_all (task_public hidden gone) ts \<Longrightarrow> sync_inv cfg hidden gone (st\<lparr>sy_tasks := ts\<rparr>)"
  "sync_inv cfg hidden gone st \<Longrightarrow> list_all (task_public hidden gone) ts \<Longrightarrow> sync_inv cfg hidden gone (st\<lparr>sy_tasks := ts, sy_returned := rs\<rparr>)"
  by (simp_all add: sync_inv_def)

lemma step_task_inv:
  assumes "codec_ok (sc_codec cfg)" and "queue_codec_ok (sc_queue cfg)" and "sync_inv cfg hidden gone st"
    and "\<And>i. finds_none cfg st (TaskStep k net fault now) i \<Longrightarrow> gone i"
  shows "sync_inv cfg hidden gone (step_task cfg net fault now k st)"
proof (cases "k < length (sy_tasks st)")
  case True
  obtain res st' where run: "run_task cfg net fault now (sy_tasks st ! k) st = (res, st')" by force
  have "task_public hidden gone (sy_tasks st ! k)" using assms(3) True by (simp add: sync_inv_def list_all_length)
  then have "step_public cfg hidden gone (run_task cfg net fault now (sy_tasks st ! k) st)"
    using True assms(4) by (intro run_task_public assms(1-3)) (auto simp: finds_none_def)
  moreover have "list_all (task_public hidden gone) (remove_at k (sy_tasks st))"
    using assms(3) by (auto simp: sync_inv_def list_all_iff remove_at_def dest: in_set_takeD in_set_dropD)
  moreover have "list_all (task_public hidden gone) ((sy_tasks st)[k := task])" if "task_public hidden gone task" for task
    using assms(3) that by (auto simp: sync_inv_def list_all_iff dest: set_update_subset_insert [THEN subsetD])
  ultimately show ?thesis using True run by (cases res) (auto simp: step_task_def intro!: sync_inv_tasks)
qed (use assms in \<open>simp add: step_task_def\<close>)

lemma sync_step_inv:
  assumes "codec_ok (sc_codec cfg)" and "queue_codec_ok (sc_queue cfg)" and "sync_inv cfg hidden gone st" and "keeps_privacy hidden ev"
    and "\<And>i. finds_none cfg st ev i \<Longrightarrow> gone i"
  shows "sync_inv cfg hidden gone (sync_step cfg st ev)"
proof (cases ev)
  case (TaskStep k net fault now)
  with assms step_task_inv [OF assms(1-3)] show ?thesis by (simp add: sync_step_def)
qed (use assms in \<open>auto simp: sync_step_def sync_inv_def\<close>)

lemma sync_start_inv: "sync_inv cfg hidden gone sync_start"
  by (auto simp: sync_inv_def sync_start_def dir_private_def queue_public_def local_load_def dir_files_def unwrap_or_def pending_load_def)

lemma sync_run_inv:
  assumes "codec_ok (sc_codec cfg)" and "queue_codec_ok (sc_queue cfg)" and "list_all (keeps_privacy hidden) evs"
  shows "sync_inv cfg hidden (looked_in_vain cfg evs) (foldl (sync_step cfg) sync_start evs)"
  using assms(3)
proof (induction evs rule: rev_induct)
  case (snoc ev evs)
  have mono: "looked_in_vain cfg (evs @ [ev]) i" if "looked_in_vain cfg evs i" for i
    using that by (auto simp: looked_in_vain_def list_ex_iff nth_append)
  have new: "looked_in_vain cfg (evs @ [ev]) i" if "finds_none cfg (foldl (sync_step cfg) sync_start evs) ev i" for i
    using that by (auto simp: looked_in_vain_def list_ex_iff intro!: bexI [of _ "length evs"])
  from snoc have "sync_inv cfg hidden (looked_in_vain cfg evs) (foldl (sync_step cfg) sync_start evs)" by simp
  from sync_inv_mono [OF this mono] show ?case
    using snoc.prems by (auto intro!: sync_step_inv [OF assms(1,2)] new)
qed (simp add: sync_start_inv)

section \<open>Retrying\<close>

text \<open>The codec writes a queue and every part of it.\<close>

definition writes_queue :: "queue_codec \<Rightarrow> pending_sync_queue \<Rightarrow> bool" where
  "writes_queue qc q \<longleftrightarrow> queue_codec_ok qc \<and> (\<forall>P. \<not> isl (qc_to_string qc (filter P q)))"

lemma writes_queue_filter: "writes_queue qc q \<Longrightarrow> writes_queue qc (filter P q)"
  by (simp add: writes_queue_def)

lemma pending_load_save:
  assumes "writes_queue qc es"
  shows "pending_load qc None (fst (pending_save qc None q es)) = Inr es"
proof -
  have "\<not> isl (qc_to_string qc (filter (\<lambda>_. True) es))" using assms unfolding writes_queue_def by blast
  then obtain json where "qc_to_string qc es = Inr json" by (cases "qc_to_string qc es") simp_all
  with assms show ?thesis by (simp add: pending_save_def pending_load_def writes_queue_def queue_codec_ok_def)
qed

lemma pending_load_remove:
  assumes "writes_queue qc es" and "pending_load qc None q = Inr es"
  shows "pending_load qc None (fst (remove_pending qc None q i op)) = Inr (queue_remove i op es)"
proof (cases "length (queue_remove i op es) < length es")
  case True
  with assms(2) pending_load_save [OF writes_queue_filter [OF assms(1)]] show ?thesis
    by (simp add: remove_pending_def) (simp add: queue_remove_def)
next
  case False
  then have "queue_remove i op es = es" unfolding queue_remove_def
    by (metis length_filter_less filter_id_conv)
  with assms show ?thesis by (simp add: remove_pending_def)
qed

text \<open>An entry is stuck when it is an upsert of a thread that is gone.\<close>

definition stuck :: "'j sync_config \<Rightarrow> thread_dir \<Rightarrow> pending_sync_entry \<Rightarrow> bool" where
  "stuck cfg d e \<longleftrightarrow> pe_operation e = Upsert \<and> map_of (dir_files d) (thread_path (pe_thread_id e)) = None"

definition network_up :: "'j sync_config \<Rightarrow> network \<Rightarrow> bool" where
  "network_up cfg net \<longleftrightarrow> (\<forall>i. sc_url_error cfg i = None) \<and> (\<exists>body. net 0 = Inr (200, body))"

lemma network_up_results:
  assumes "network_up cfg net"
  shows "upsert_thread cfg net t = Inr ()" "delete_thread cfg net i = Inr ()"
proof -
  obtain body where "net 0 = Inr (200, body)" using assms by (auto simp: network_up_def)
  then have "send_request cfg j net = Inr (200, body)" for j
    using assms by (simp add: send_request_def network_up_def retry_def retry_loop.simps [of _ _ _ 0 0])
  then show "upsert_thread cfg net t = Inr ()" "delete_thread cfg net i = Inr ()"
    by (simp_all add: upsert_thread_def upsert_result_def delete_thread_def delete_result_def)
qed

definition untouched :: "pending_sync_queue \<Rightarrow> pending_sync_entry \<Rightarrow> bool" where
  "untouched es e \<longleftrightarrow> list_all (\<lambda>x. \<not> entry_is (pe_thread_id x) (pe_operation x) e) es"

lemma stuck_same: "entry_is (pe_thread_id x) (pe_operation x) e \<Longrightarrow> stuck cfg d x = stuck cfg d e"
  by (auto simp: entry_is_def stuck_def)

text \<open>The request of an entry; whether the file of its thread can be read; what a retry answers, which ends at the first entry where it cannot.\<close>

definition entry_request :: "'j sync_config \<Rightarrow> thread_dir \<Rightarrow> pending_sync_entry \<Rightarrow> 'j wire_request list" where
  "entry_request cfg d e = (case pe_operation e of
     Delete \<Rightarrow> [DeleteRequest (pe_thread_id e)]
   | Upsert \<Rightarrow> (case local_load (sc_codec cfg) None d (pe_thread_id e) of Inr (Some t) \<Rightarrow> [PutThread t] | _ \<Rightarrow> []))"

definition readable :: "'j sync_config \<Rightarrow> thread_dir \<Rightarrow> pending_sync_entry \<Rightarrow> bool" where
  "readable cfg d e \<longleftrightarrow> pe_operation e = Delete \<or> \<not> isl (local_load (sc_codec cfg) None d (pe_thread_id e))"

definition retry_answer :: "'j sync_config \<Rightarrow> thread_dir \<Rightarrow> nat \<Rightarrow> pending_sync_queue \<Rightarrow> store_error + nat" where
  "retry_answer cfg d n es = (case dropWhile (readable cfg d) es of
     [] \<Rightarrow> Inr (n + length (filter (\<lambda>e. \<not> stuck cfg d e) es))
   | e # _ \<Rightarrow> map_sum id (\<lambda>_. 0) (local_load (sc_codec cfg) None d (pe_thread_id e)))"

lemma retry_answer_Cons:
  assumes "readable cfg d e"
  shows "retry_answer cfg d n (e # es) = retry_answer cfg d (if stuck cfg d e then n else Suc n) es"
  using assms by (cases "dropWhile (readable cfg d) es") (simp_all add: retry_answer_def del: dropWhile_eq_Nil_conv)

text \<open>A task that steps alone, on a disk without faults, until something holds.\<close>

definition steps_to :: "'j sync_config \<Rightarrow> network \<Rightarrow> string \<Rightarrow> nat \<Rightarrow> 'j sync_state \<Rightarrow> ('j sync_state \<Rightarrow> bool) \<Rightarrow> bool" where
  "steps_to cfg net now k st P \<longleftrightarrow> (\<exists>m. P (foldl (sync_step cfg) st (replicate m (TaskStep k net None now))))"

lemma steps_to_now: "P st \<Longrightarrow> steps_to cfg net now k st P"
  unfolding steps_to_def by (rule exI [of _ 0]) simp

lemma steps_to_later: "steps_to cfg net now k (step_task cfg net None now k st) P \<Longrightarrow> steps_to cfg net now k st P"
  unfolding steps_to_def
proof (elim exE)
  fix m
  assume "P (foldl (sync_step cfg) (step_task cfg net None now k st) (replicate m (TaskStep k net None now)))"
  then show "\<exists>m. P (foldl (sync_step cfg) st (replicate m (TaskStep k net None now)))"
    by (intro exI [of _ "Suc m"]) (simp add: sync_step_def)
qed

text \<open>The state after a retry: what it says to the caller and to the server, and what it leaves in the queue.\<close>

definition retried :: "'j sync_config \<Rightarrow> nat \<Rightarrow> 'j sync_state \<Rightarrow> nat \<Rightarrow> pending_sync_queue \<Rightarrow> pending_sync_queue \<Rightarrow> 'j sync_state \<Rightarrow> bool" where
  "retried cfg k st n es q st' \<longleftrightarrow> sy_dir st' = sy_dir st \<and> sy_tasks st' = remove_at k (sy_tasks st)
     \<and> sy_returned st' = sy_returned st @ [retry_answer cfg (sy_dir st) n es]
     \<and> sy_wire st' = sy_wire st @ concat (map (entry_request cfg (sy_dir st)) (takeWhile (readable cfg (sy_dir st)) es))
     \<and> pending_load (sc_queue cfg) None (sy_queue_file st')
         = Inr (filter (\<lambda>e. stuck cfg (sy_dir st) e \<or> untouched (takeWhile (readable cfg (sy_dir st)) es) e) q)"

lemma remove_at_update: "remove_at k (xs[k := x]) = remove_at k xs"
  by (simp add: remove_at_def)

lemma retried_sent:
  assumes up: "network_up cfg net" and "\<not> stuck cfg (sy_dir st) e" and "readable cfg (sy_dir st) e"
    and "k < length (sy_tasks st)" and "sy_tasks st ! k = RetryNext n (e # es)"
    and "steps_to cfg net now k (st\<lparr>sy_wire := sy_wire st @ entry_request cfg (sy_dir st) e, sy_tasks := (sy_tasks st)[k := RetryNext (Suc n) es],
      sy_queue_file := fst (remove_pending (sc_queue cfg) None (sy_queue_file st) (pe_thread_id e) (pe_operation e))\<rparr>) P"
  shows "steps_to cfg net now k st P"
proof (cases "pe_operation e")
  case Delete
  have s: "step_task cfg net None now k st = (sent (DeleteRequest (pe_thread_id e)) st)\<lparr>sy_tasks := (sy_tasks st)[k := RetryRemove n e es]\<rparr>"
    using Delete assms(4,5) by (simp add: step_task_def network_up_results [OF up])
  have s2: "step_task cfg net None now k ((sent (DeleteRequest (pe_thread_id e)) st)\<lparr>sy_tasks := (sy_tasks st)[k := RetryRemove n e es]\<rparr>)
      = st\<lparr>sy_wire := sy_wire st @ entry_request cfg (sy_dir st) e, sy_tasks := (sy_tasks st)[k := RetryNext (Suc n) es],
      sy_queue_file := fst (remove_pending (sc_queue cfg) None (sy_queue_file st) (pe_thread_id e) (pe_operation e))\<rparr>"
    using assms(4) Delete by (simp add: step_task_def retry_remove_step_def entry_request_def sent_def)
  show ?thesis using assms(6) unfolding s2 [symmetric] s [symmetric] by (blast intro: steps_to_later)
next
  case Upsert
  with assms(2,3) obtain t where t: "local_load (sc_codec cfg) None (sy_dir st) (pe_thread_id e) = Inr (Some t)"
    by (cases "local_load (sc_codec cfg) None (sy_dir st) (pe_thread_id e)") (auto simp: stuck_def readable_def local_load_None
        [of "sc_codec cfg" None, symmetric])
  have s1: "step_task cfg net None now k st = st\<lparr>sy_tasks := (sy_tasks st)[k := RetryUpsert n e t es]\<rparr>"
    using Upsert assms(4,5) t by (simp add: step_task_def)
  have s2: "step_task cfg net None now k (st\<lparr>sy_tasks := (sy_tasks st)[k := RetryUpsert n e t es]\<rparr>)
      = (sent (PutThread t) st)\<lparr>sy_tasks := (sy_tasks st)[k := RetryRemove n e es]\<rparr>"
    using assms(4) by (simp add: step_task_def retry_upsert_step_def network_up_results [OF up] sent_def)
  have s3: "step_task cfg net None now k ((sent (PutThread t) st)\<lparr>sy_tasks := (sy_tasks st)[k := RetryRemove n e es]\<rparr>)
      = st\<lparr>sy_wire := sy_wire st @ entry_request cfg (sy_dir st) e, sy_tasks := (sy_tasks st)[k := RetryNext (Suc n) es],
      sy_queue_file := fst (remove_pending (sc_queue cfg) None (sy_queue_file st) (pe_thread_id e) (pe_operation e))\<rparr>"
    using assms(4) t Upsert by (simp add: step_task_def retry_remove_step_def entry_request_def sent_def)
  show ?thesis using assms(6) unfolding s3 [symmetric] s2 [symmetric] s1 [symmetric] by (blast intro: steps_to_later)
qed

lemma retry_next_runs:
  assumes up: "network_up cfg net"
  shows "writes_queue (sc_queue cfg) q \<Longrightarrow> pending_load (sc_queue cfg) None (sy_queue_file st) = Inr q \<Longrightarrow> k < length (sy_tasks st)
    \<Longrightarrow> sy_tasks st ! k = RetryNext n es \<Longrightarrow> steps_to cfg net now k st (retried cfg k st n es q)"
proof (induction es arbitrary: n st q)
  case Nil
  have s: "step_task cfg net None now k st = st\<lparr>sy_tasks := remove_at k (sy_tasks st), sy_returned := sy_returned st @ [Inr n]\<rparr>"
    using Nil(3,4) by (simp add: step_task_def)
  show ?case
    by (rule steps_to_later [OF steps_to_now]) (use Nil(2) in \<open>simp add: s retried_def retry_answer_def untouched_def\<close>)
next
  case (Cons e es)
  let ?d = "sy_dir st"
  consider (unreadable) "\<not> readable cfg ?d e" | (stuck) "readable cfg ?d e" "stuck cfg ?d e" | (sent) "readable cfg ?d e" "\<not> stuck cfg ?d e"
    by blast
  then show ?case
  proof cases
    case unreadable
    then obtain err where "pe_operation e = Upsert" and err: "local_load (sc_codec cfg) None ?d (pe_thread_id e) = Inl err"
      by (cases "pe_operation e") (auto simp: readable_def isl_def)
    with Cons.prems(3,4) have s: "step_task cfg net None now k st = st\<lparr>sy_tasks := remove_at k (sy_tasks st), sy_returned := sy_returned st @ [Inl err]\<rparr>"
      by (simp add: step_task_def)
    show ?thesis
      by (rule steps_to_later [OF steps_to_now]) (use Cons.prems(2) unreadable in \<open>simp add: s retried_def retry_answer_def untouched_def err\<close>)
  next
    case stuck
    with Cons.prems(3,4) have s: "step_task cfg net None now k st = st\<lparr>sy_tasks := (sy_tasks st)[k := RetryNext n es]\<rparr>"
      using local_load_None [of "sc_codec cfg" None ?d "pe_thread_id e"] by (simp add: step_task_def stuck_def)
    have none: "entry_request cfg ?d e = []"
      using stuck local_load_None [of "sc_codec cfg" None ?d "pe_thread_id e"] by (simp add: entry_request_def stuck_def)
    have "filter (\<lambda>x. stuck cfg ?d x \<or> untouched (e # xs) x) q = filter (\<lambda>x. stuck cfg ?d x \<or> untouched xs x) q" for xs
      using stuck stuck_same [of e _ cfg ?d] by (intro filter_cong) (auto simp: untouched_def)
    with stuck none have "retried cfg k st n (e # es) q = retried cfg k (st\<lparr>sy_tasks := (sy_tasks st)[k := RetryNext n es]\<rparr>) n es q"
      by (intro ext) (simp add: retried_def retry_answer_Cons remove_at_update)
    with Cons.prems Cons.IH [of q "st\<lparr>sy_tasks := (sy_tasks st)[k := RetryNext n es]\<rparr>" n] show ?thesis
      by (intro steps_to_later [of cfg net now k st, unfolded s]) simp
  next
    case sent
    let ?q = "queue_remove (pe_thread_id e) (pe_operation e) q"
    let ?st = "st\<lparr>sy_wire := sy_wire st @ entry_request cfg ?d e, sy_tasks := (sy_tasks st)[k := RetryNext (Suc n) es],
      sy_queue_file := fst (remove_pending (sc_queue cfg) None (sy_queue_file st) (pe_thread_id e) (pe_operation e))\<rparr>"
    have "writes_queue (sc_queue cfg) ?q" unfolding queue_remove_def by (rule writes_queue_filter [OF Cons.prems(1)])
    moreover have "pending_load (sc_queue cfg) None (sy_queue_file ?st) = Inr ?q" using pending_load_remove [OF Cons.prems(1,2)] by simp
    ultimately have ih: "steps_to cfg net now k ?st (retried cfg k ?st (Suc n) es ?q)" using Cons.prems(3) by (intro Cons.IH) auto
    have "filter (\<lambda>x. stuck cfg ?d x \<or> untouched xs x) ?q = filter (\<lambda>x. stuck cfg ?d x \<or> untouched (e # xs) x) q" for xs
      using sent stuck_same [of e _ cfg ?d] by (auto simp: queue_remove_def untouched_def intro!: filter_cong)
    with sent have "retried cfg k ?st (Suc n) es ?q = retried cfg k st n (e # es) q"
      by (intro ext) (simp add: retried_def retry_answer_Cons remove_at_update)
    with ih show ?thesis by (intro retried_sent [OF up sent(2,1) Cons.prems(3,4)]) simp
  qed
qed

lemma retry_answer_cases:
  fixes cfg d q
  defines "tried \<equiv> takeWhile (readable cfg d) q"
  shows "if tried = q then retry_answer cfg d 0 q = Inr (length (filter (\<lambda>e. \<not> stuck cfg d e) q))
    else \<exists>err. local_load (sc_codec cfg) None d (pe_thread_id (q ! length tried)) = Inl err \<and> retry_answer cfg d 0 q = Inl err"
proof (cases "dropWhile (readable cfg d) q")
  case Nil
  then have "tried = q" unfolding tried_def by (metis append_Nil2 takeWhile_dropWhile_id)
  with Nil show ?thesis by (simp add: retry_answer_def del: dropWhile_eq_Nil_conv)
next
  case (Cons e es)
  then have "q = tried @ e # es" unfolding tried_def by (metis takeWhile_dropWhile_id)
  then have "tried \<noteq> q" "q ! length tried = e" by (metis append_Nil2 list.distinct(1) same_append_eq, metis nth_append_length)
  moreover have "\<not> readable cfg d e" using Cons by (metis dropWhile_eq_Cons_conv)
  ultimately show ?thesis using Cons by (auto simp: retry_answer_def readable_def isl_def)
qed

lemma local_save_loads:
  assumes "codec_ok tc" and "\<not> isl (tc_to_string tc u)"
  shows "\<exists>d'. local_save tc None d u = (d', Inr ()) \<and> local_load tc None d' (th_id u) = Inr (Some u)"
proof -
  obtain d' r where s: "local_save tc None d u = (d', r)" by force
  moreover have "r = Inr ()" using s assms(2) by (auto simp: local_save_def Let_def split: sum.splits)
  ultimately show ?thesis using local_load_save [OF assms(1) s, of None "th_id u"] by auto
qed

text \<open>A configuration for the witnesses: one thread, public and then private, and the queue with its failed upload.\<close>

definition demo_public :: "unit thread" where
  "demo_public = thread_new ''1'' ''now'' ()"

definition demo_private :: "unit thread" where
  "demo_private = demo_public\<lparr>th_is_private := True\<rparr>"

definition demo_error :: http_error where
  "demo_error = \<lparr>he_is_timeout = False, he_is_connect = False, he_status = None, he_text = ''x''\<rparr>"

definition demo_entry :: pending_sync_entry where
  "demo_entry = \<lparr>pe_thread_id = ''T-1'', pe_operation = Upsert, pe_failed_at = ''now'', pe_retry_count = 0,
     pe_last_error = Some ''network error: x''\<rparr>"

definition demo_config :: "unit sync_config" where
  "demo_config = \<lparr>sc_client = True, sc_pending = True, sc_max_attempts = 3, sc_url_error = (\<lambda>_. None), sc_show_status = show_nat,
     sc_codec = \<lparr>tc_to_string = (\<lambda>t. if t = demo_public then Inr ''a'' else if t = demo_private then Inr ''b'' else Inl ''?''),
       tc_from_str = (\<lambda>s. if s = ''a'' then Inr demo_public else Inr demo_private)\<rparr>,
     sc_queue = \<lparr>qc_to_string = (\<lambda>q. if q = [] then Inr ''e'' else if q = [demo_entry] then Inr ''q'' else Inl ''?''),
       qc_from_str = (\<lambda>s. if s = ''e'' then Inr [] else Inr [demo_entry])\<rparr>\<rparr>"

lemma demo_codecs: "codec_ok (sc_codec demo_config)" "queue_codec_ok (sc_queue demo_config)" "writes_queue (sc_queue demo_config) [demo_entry]"
proof -
  show "codec_ok (sc_codec demo_config)" by (auto simp: codec_ok_def demo_config_def utf8_valid_ascii split: if_splits)
  show q: "queue_codec_ok (sc_queue demo_config)" by (auto simp: queue_codec_ok_def demo_config_def utf8_valid_ascii split: if_splits)
  show "writes_queue (sc_queue demo_config) [demo_entry]" unfolding writes_queue_def
    by (intro conjI q) (simp add: demo_config_def)
qed

text \<open>A private thread that a deletion looked for before it was saved; and a queue with one upload of a thread of the store.\<close>

definition demo_race :: "unit sync_event list" where
  "demo_race = [DeleteCall ''T-1'', TaskStep 0 (\<lambda>_. Inr (200, [])) None ''now'', SaveCall demo_private, TaskStep 1 (\<lambda>_. Inr (200, [])) None ''now'',
     TaskStep 0 (\<lambda>_. Inr (200, [])) None ''now'', TaskStep 0 (\<lambda>_. Inr (200, [])) None ''now'']"

definition demo_queued :: "unit sync_state" where
  "demo_queued = \<lparr>sy_dir = Some [(thread_path ''T-1'', ''a'')], sy_queue_file = Some ''q'', sy_tasks = [], sy_wire = [], sy_returned = []\<rparr>"

section \<open>Properties\<close>

text \<open>
  C14: A private thread never leaves the machine: from an empty store, in every interleaving of the steps of saves, deletes, retries and background
  tasks, with any disk and network faults, no request to the server carries a thread whose saves all marked it private. Nor does a request
  concern its id, except for the announcement of a deletion when some deletion had looked for that thread and not found it (before it was saved).
  A call gives way to the others between any two operations of the local store, the queue and the client; each of these operations is one step.
\<close>

theorem private_threads_never_sent:
  assumes "codec_ok (sc_codec cfg)" and "queue_codec_ok (sc_queue cfg)" and "list_all (keeps_privacy hidden) evs"
  shows "list_all (request_public hidden (looked_in_vain cfg evs)) (sy_wire (foldl (sync_step cfg) sync_start evs))"
  using sync_run_inv [OF assms] by (simp add: sync_inv_def)

theorem private_threads_never_sent_witness:
  "list_all (request_public (\<lambda>_. True) (looked_in_vain demo_config demo_race)) (sy_wire (foldl (sync_step demo_config) sync_start demo_race))
     \<and> sy_wire (foldl (sync_step demo_config) sync_start demo_race) = [DeleteRequest ''T-1'']"
proof
  show "list_all (request_public (\<lambda>_. True) (looked_in_vain demo_config demo_race)) (sy_wire (foldl (sync_step demo_config) sync_start demo_race))"
    by (rule private_threads_never_sent [OF demo_codecs(1,2)]) (simp add: demo_race_def demo_private_def)
  show "sy_wire (foldl (sync_step demo_config) sync_start demo_race) = [DeleteRequest ''T-1'']"
    by code_simp
qed

text \<open>
  C15: A retry that runs alone with the network up and no disk fault goes through the queue up to the first upsert whose thread file cannot be read
  (damaged, say): it sends the current thread of each upsert and the id of each deletion, in order, and takes these entries out of the queue; upserts of
  threads that no longer exist locally are skipped and stay in the queue. With every file readable it returns the number of entries sent; otherwise it
  returns the error of that file, and the entries from there on stay in the queue, also those it could have sent (unless an earlier one is for the same
  thread and operation).
\<close>

theorem retry_pending_drains:
  assumes "network_up cfg net" and "writes_queue (sc_queue cfg) q" and "sc_client cfg" and "sc_pending cfg"
    and "pending_load (sc_queue cfg) None (sy_queue_file st) = Inr q"
    and "tried = takeWhile (readable cfg (sy_dir st)) q"
  shows "\<exists>m st'. st' = foldl (sync_step cfg) st (RetryCall # replicate m (TaskStep (length (sy_tasks st)) net None now))
    \<and> sy_tasks st' = sy_tasks st \<and> sy_dir st' = sy_dir st
    \<and> sy_wire st' = sy_wire st @ concat (map (entry_request cfg (sy_dir st)) tried)
    \<and> pending_load (sc_queue cfg) None (sy_queue_file st') = Inr (filter (\<lambda>e. stuck cfg (sy_dir st) e \<or> untouched tried e) q)
    \<and> (if tried = q then sy_returned st' = sy_returned st @ [Inr (length (filter (\<lambda>e. \<not> stuck cfg (sy_dir st) e) q))]
       else \<exists>err. local_load (sc_codec cfg) None (sy_dir st) (pe_thread_id (q ! length tried)) = Inl err
         \<and> sy_returned st' = sy_returned st @ [Inl err])"
proof -
  let ?k = "length (sy_tasks st)" and ?d = "sy_dir st"
  let ?st = "st\<lparr>sy_tasks := sy_tasks st @ [RetryNext 0 q]\<rparr>"
  have "steps_to cfg net now ?k ?st (retried cfg ?k ?st 0 q q)" by (rule retry_next_runs [OF assms(1,2)]) (simp_all add: assms(5))
  then obtain m where m: "retried cfg ?k ?st 0 q q (foldl (sync_step cfg) ?st (replicate m (TaskStep ?k net None now)))"
    by (auto simp: steps_to_def)
  have "foldl (sync_step cfg) st (RetryCall # replicate (Suc m) (TaskStep ?k net None now))
      = foldl (sync_step cfg) ?st (replicate m (TaskStep ?k net None now))"
    using assms(3-5) by (simp add: sync_step_def step_task_def retry_load_step_def)
  with m show ?thesis
    by (intro exI [of _ "Suc m"] exI [of _ "foldl (sync_step cfg) ?st (replicate m (TaskStep ?k net None now))"])
      (simp add: retried_def remove_at_def assms(6) retry_answer_cases)
qed

theorem retry_pending_drains_witness:
  "\<exists>m st'. st' = foldl (sync_step demo_config) demo_queued (RetryCall # replicate m (TaskStep 0 (\<lambda>_. Inr (200, [])) None ''now''))
     \<and> sy_wire st' = [PutThread demo_public] \<and> sy_returned st' = [Inr 1] \<and> pending_load (sc_queue demo_config) None (sy_queue_file st') = Inr []"
proof -
  have up: "network_up demo_config (\<lambda>_. Inr (200, []))" "sc_client demo_config" "sc_pending demo_config"
    by (simp_all add: network_up_def demo_config_def)
  have load: "pending_load (sc_queue demo_config) None (sy_queue_file demo_queued) = Inr [demo_entry]" by code_simp
  have thread: "local_load (sc_codec demo_config) None (sy_dir demo_queued) ''T-1'' = Inr (Some demo_public)" by code_simp
  have ok: "takeWhile (readable demo_config (sy_dir demo_queued)) [demo_entry] = [demo_entry]" "\<not> stuck demo_config (sy_dir demo_queued) demo_entry"
    "entry_request demo_config (sy_dir demo_queued) demo_entry = [PutThread demo_public]" "\<not> untouched [demo_entry] demo_entry"
    using thread local_load_None [of "sc_codec demo_config" None "sy_dir demo_queued" "''T-1''"]
    by (simp_all add: readable_def demo_entry_def stuck_def entry_request_def untouched_def entry_is_def)
  have start: "sy_tasks demo_queued = []" "sy_wire demo_queued = []" "sy_returned demo_queued = []" by (simp_all add: demo_queued_def)
  from retry_pending_drains [OF up(1) demo_codecs(3) up(2,3) load ok(1) [symmetric], of "''now''"] show ?thesis
    by (simp add: ok(2-4) start) blast
qed

text \<open>
  C40: Making a thread private does not stop a pending upload: when a save of a public thread could not be sent and the thread is then saved as private,
  the next retry sends the private thread to the server, whatever the network answers.
\<close>

theorem made_private_still_sent:
  assumes "codec_ok (sc_codec cfg)" and "sc_url_error cfg (th_id t) = None" and "sc_client cfg" and "sc_pending cfg"
    and "writes_queue (sc_queue cfg) [\<lparr>pe_thread_id = th_id t, pe_operation = Upsert, pe_failed_at = now, pe_retry_count = 0,
      pe_last_error = Some (''network error: '' @ he_text e)\<rparr>]"
    and "\<not> isl (tc_to_string (sc_codec cfg) t)" and "\<not> isl (tc_to_string (sc_codec cfg) t')"
    and "\<not> th_is_private t" and "th_is_private t'" and "th_id t' = th_id t" and "\<not> is_retryable e"
    and "evs = SaveCall t # replicate 3 (TaskStep 0 (\<lambda>_. Inl e) None now) @ SaveCall t' # TaskStep 0 net None now #
      RetryCall # replicate 3 (TaskStep 0 net None now)"
  shows "PutThread t' \<in> set (sy_wire (foldl (sync_step cfg) sync_start evs))"
proof -
  let ?i = "th_id t"
  have "retry (sc_max_attempts cfg) sync_is_retryable (\<lambda>k. map_sum SyncNetwork id (Inl e :: http_error + status_code \<times> string)) = (Inl (SyncNetwork e), 1, [])"
    using assms(11) by (simp add: retry_def retry_loop.simps [of _ _ _ 0 0])
  then have failed: "upsert_thread cfg (\<lambda>_. Inl e) t = Inl (SyncNetwork e)"
    using assms(2) by (simp add: upsert_thread_def send_request_def)
  obtain d1 where d1: "local_save (sc_codec cfg) None None t = (d1, Inr ())" using local_save_loads [OF assms(1,6)] by blast
  obtain d2 where d2: "local_save (sc_codec cfg) None d1 t' = (d2, Inr ())" "local_load (sc_codec cfg) None d2 ?i = Inr (Some t')"
    using local_save_loads [OF assms(1,7), of d1] assms(10) by auto
  define err where "err = Some (show_sync_error (sc_show_status cfg) (SyncNetwork e))"
  define q where "q = fst (add_pending (sc_queue cfg) None now None ?i Upsert err)"
  have q: "pending_load (sc_queue cfg) None q = Inr (queue_add now ?i Upsert err [])"
    using pending_load_save [OF assms(5), of None] by (simp add: q_def add_pending_def pending_load_def [of _ _ None] err_def)
  have three: "replicate 3 x = [x, x, x]" for x :: "'a sync_event" by (simp add: numeral_3_eq_3)
  have first: "foldl (sync_step cfg) sync_start (SaveCall t # replicate 3 (TaskStep 0 (\<lambda>_. Inl e) None now))
      = \<lparr>sy_dir = d1, sy_queue_file = q, sy_tasks = [], sy_wire = [PutThread t], sy_returned = [Inr 0]\<rparr>"
    using assms(3,4,8) d1
    by (simp add: three sync_start_def sync_step_def step_task_def save_step_def sent_def failed remove_at_def record_outcome_def q_def err_def)
  have second: "foldl (sync_step cfg) \<lparr>sy_dir = d1, sy_queue_file = q, sy_tasks = [], sy_wire = [PutThread t], sy_returned = [Inr 0]\<rparr>
        [SaveCall t', TaskStep 0 net None now]
      = \<lparr>sy_dir = d2, sy_queue_file = q, sy_tasks = [], sy_wire = [PutThread t], sy_returned = [Inr 0, Inr 0]\<rparr>"
    using assms(9) d2(1) by (simp add: sync_step_def step_task_def save_step_def remove_at_def)
  have third: "PutThread t' \<in> set (sy_wire (foldl (sync_step cfg)
        \<lparr>sy_dir = d2, sy_queue_file = q, sy_tasks = [], sy_wire = [PutThread t], sy_returned = [Inr 0, Inr 0]\<rparr>
        (RetryCall # replicate 3 (TaskStep 0 net None now))))"
    using assms(3,4) q d2(2) by (simp add: three sync_step_def step_task_def retry_load_step_def retry_upsert_step_def sent_def)
  have "evs = (SaveCall t # replicate 3 (TaskStep 0 (\<lambda>_. Inl e) None now)) @ [SaveCall t', TaskStep 0 net None now] @
      RetryCall # replicate 3 (TaskStep 0 net None now)"
    by (simp add: assms(12))
  then show ?thesis using third by (simp only: foldl_append first second)
qed

theorem made_private_still_sent_witness:
  "PutThread demo_private \<in> set (sy_wire (foldl (sync_step demo_config) sync_start
     (SaveCall demo_public # replicate 3 (TaskStep 0 (\<lambda>_. Inl demo_error) None ''now'') @ SaveCall demo_private #
      TaskStep 0 (\<lambda>_. Inr (200, [])) None ''now'' # RetryCall # replicate 3 (TaskStep 0 (\<lambda>_. Inr (200, [])) None ''now''))))"
proof (rule made_private_still_sent [OF demo_codecs(1) _ _ _ _ _ _ _ _ _ _ refl])
  show "writes_queue (sc_queue demo_config) [\<lparr>pe_thread_id = th_id demo_public, pe_operation = Upsert, pe_failed_at = ''now'',
      pe_retry_count = 0, pe_last_error = Some (''network error: '' @ he_text demo_error)\<rparr>]"
    using demo_codecs(3) by (simp add: demo_entry_def demo_public_def thread_new_def demo_error_def)
qed (simp_all add: demo_config_def demo_private_def demo_public_def thread_new_def demo_error_def is_retryable_def)

end
