(* ===== verification/Effects.thy ===== *)
theory Effects
  imports Prelude
begin

text \<open>
  Code that talks to the database: an action reads and changes tables through statements that may fail, reads the
  clock and draws identifiers, and ends with a value or an error (the \<^verbatim>\<open>?\<close> operator is \<^verbatim>\<open>bind\<close>). Which statements
  fail, what the clock shows and which identifiers are drawn is part of the world an action runs in, so a statement proved
  for all worlds covers a failure between any two statements.

  \<^verbatim>\<open>safe\<close> is the weakest-precondition style judgement the component proofs use; its introduction rules follow
  the structure of an action.
\<close>

record 'd world =
  wd_tables :: 'd
  wd_queries :: nat  \<comment> \<open>statements executed so far\<close>
  wd_fault :: "nat \<Rightarrow> string option"  \<comment> \<open>the statements the database fails to execute\<close>
  wd_reads :: nat
  wd_clock :: "nat \<Rightarrow> datetime"
  wd_drawn :: nat
  wd_random :: "nat \<Rightarrow> uuid"

type_synonym ('d, 'e, 'a) action = "'d world \<Rightarrow> ('e + 'a) \<times> 'd world"

definition ret :: "'a \<Rightarrow> ('d, 'e, 'a) action" where
  "ret x w = (Inr x, w)"

definition fail :: "'e \<Rightarrow> ('d, 'e, 'a) action" where
  "fail e w = (Inl e, w)"

definition bind :: "('d, 'e, 'a) action \<Rightarrow> ('a \<Rightarrow> ('d, 'e, 'b) action) \<Rightarrow> ('d, 'e, 'b) action" where
  "bind m f w = (case m w of (Inl e, w') \<Rightarrow> (Inl e, w') | (Inr x, w') \<Rightarrow> f x w')"

text \<open>Matching on the \<^verbatim>\<open>Result\<close> of an action instead of passing an error on.\<close>

definition attempt :: "('d, 'e, 'a) action \<Rightarrow> ('d, 'f, 'e + 'a) action" where
  "attempt m w = (case m w of (r, w') \<Rightarrow> (Inr r, w'))"

definition map_err :: "('e \<Rightarrow> 'f) \<Rightarrow> ('d, 'e, 'a) action \<Rightarrow> ('d, 'f, 'a) action" where
  "map_err h m w = (case m w of (Inl e, w') \<Rightarrow> (Inl (h e), w') | (Inr x, w') \<Rightarrow> (Inr x, w'))"

text \<open>One SQL statement: a function of the tables that fails on a violated constraint.\<close>

definition query :: "(string \<Rightarrow> 'e) \<Rightarrow> ('d \<Rightarrow> string + 'a \<times> 'd) \<Rightarrow> ('d, 'e, 'a) action" where
  "query err g w = (let w' = w\<lparr>wd_queries := Suc (wd_queries w)\<rparr> in
     case wd_fault w (wd_queries w) of
       Some e \<Rightarrow> (Inl (err e), w')
     | None \<Rightarrow> (case g (wd_tables w) of
         Inl e \<Rightarrow> (Inl (err e), w')
       | Inr (x, d) \<Rightarrow> (Inr x, w'\<lparr>wd_tables := d\<rparr>)))"

definition now :: "('d, 'e, datetime) action" where
  "now w = (Inr (wd_clock w (wd_reads w)), w\<lparr>wd_reads := Suc (wd_reads w)\<rparr>)"

definition draw_uuid :: "('d, 'e, uuid) action" where
  "draw_uuid w = (Inr (wd_random w (wd_drawn w)), w\<lparr>wd_drawn := Suc (wd_drawn w)\<rparr>)"

text \<open>A change of state held in memory, which cannot fail.\<close>

definition modify :: "('d \<Rightarrow> 'd) \<Rightarrow> ('d, 'e, unit) action" where
  "modify f w = (Inr (), w\<lparr>wd_tables := f (wd_tables w)\<rparr>)"

fun for_each :: "('a \<Rightarrow> ('d, 'e, 'b) action) \<Rightarrow> 'a list \<Rightarrow> ('d, 'e, 'b list) action" where
  "for_each f [] = ret []"
| "for_each f (x # xs) = bind (f x) (\<lambda>y. bind (for_each f xs) (\<lambda>ys. ret (y # ys)))"

lemma find_snoc: "List.find P (xs @ [y]) = (case List.find P xs of None \<Rightarrow> if P y then Some y else None | Some z \<Rightarrow> Some z)"
  by (induction xs) simp_all

section \<open>What an action guarantees\<close>

text \<open>
  \<^verbatim>\<open>safe faults m d Q E\<close>: started on tables \<^verbatim>\<open>d\<close>, and with any statements failing if \<^verbatim>\<open>faults\<close> holds, the action ends with a value and
  tables that satisfy \<^verbatim>\<open>Q\<close> or with an error and tables that satisfy \<^verbatim>\<open>E\<close>.
\<close>

definition safe :: "bool \<Rightarrow> ('d, 'e, 'a) action \<Rightarrow> 'd \<Rightarrow> ('a \<Rightarrow> 'd \<Rightarrow> bool) \<Rightarrow> ('e \<Rightarrow> 'd \<Rightarrow> bool) \<Rightarrow> bool" where
  "safe faults m d Q E \<longleftrightarrow> (\<forall>w. wd_tables w = d \<and> (faults \<or> wd_fault w = (\<lambda>_. None)) \<longrightarrow>
     (case m w of (r, w') \<Rightarrow> wd_fault w' = wd_fault w
        \<and> (case r of Inl e \<Rightarrow> E e (wd_tables w') | Inr x \<Rightarrow> Q x (wd_tables w'))))"

named_theorems safe_rules \<open>introduction rules of \<^verbatim>\<open>safe\<close>, one per form of action\<close>

lemma safeD:
  assumes "safe faults m d Q E" and "wd_tables w = d" and "faults \<or> wd_fault w = (\<lambda>_. None)" and "m w = (r, w')"
  shows "wd_fault w' = wd_fault w" and "case r of Inl e \<Rightarrow> E e (wd_tables w') | Inr x \<Rightarrow> Q x (wd_tables w')"
  using assms(1) unfolding safe_def using assms(2-4) by (auto dest!: spec [of _ w])

lemma safe_run:
  "safe faults m d Q E \<Longrightarrow> wd_tables w = d \<Longrightarrow> faults \<or> wd_fault w = (\<lambda>_. None) \<Longrightarrow>
   case m w of (r, w') \<Rightarrow> wd_fault w' = wd_fault w \<and> (case r of Inl e \<Rightarrow> E e (wd_tables w') | Inr x \<Rightarrow> Q x (wd_tables w'))"
  by (simp add: safe_def)

lemma safeI:
  "(\<And>w r w'. wd_tables w = d \<Longrightarrow> faults \<or> wd_fault w = (\<lambda>_. None) \<Longrightarrow> m w = (r, w') \<Longrightarrow>
     wd_fault w' = wd_fault w \<and> (case r of Inl e \<Rightarrow> E e (wd_tables w') | Inr x \<Rightarrow> Q x (wd_tables w'))) \<Longrightarrow> safe faults m d Q E"
  unfolding safe_def by (auto split: prod.split)

lemma safe_ret [safe_rules]: "Q x d \<Longrightarrow> safe faults (ret x) d Q E"
  by (simp add: safe_def ret_def)

lemma safe_fail [safe_rules]: "E e d \<Longrightarrow> safe faults (fail e) d Q E"
  by (simp add: safe_def fail_def)

lemma safe_bind [safe_rules]:
  assumes "safe faults m d (\<lambda>x d'. safe faults (f x) d' Q E) E"
  shows "safe faults (bind m f) d Q E"
  unfolding safe_def
proof (intro allI impI)
  fix w :: "'a world"
  assume w: "wd_tables w = d \<and> (faults \<or> wd_fault w = (\<lambda>_. None))"
  obtain r w1 where r: "m w = (r, w1)" by force
  note first = safeD [OF assms _ _ r] w
  show "case bind m f w of (r, w') \<Rightarrow> wd_fault w' = wd_fault w \<and> (case r of Inl e \<Rightarrow> E e (wd_tables w') | Inr x \<Rightarrow> Q x (wd_tables w'))"
  proof (cases r)
    case (Inl e)
    then show ?thesis using first by (simp add: bind_def r)
  next
    case (Inr x)
    obtain r2 w2 where r2: "f x w1 = (r2, w2)" by force
    with first Inr have "safe faults (f x) (wd_tables w1) Q E" by simp
    from safeD [OF this refl _ r2] first Inr show ?thesis by (simp add: bind_def r r2)
  qed
qed

lemma safe_query [safe_rules]:
  assumes "\<And>e. faults \<Longrightarrow> E (err e) d" and "\<And>e. g d = Inl e \<Longrightarrow> E (err e) d" and "\<And>x d'. g d = Inr (x, d') \<Longrightarrow> Q x d'"
  shows "safe faults (query err g) d Q E"
  using assms by (auto simp: safe_def query_def Let_def split: option.split sum.split)

lemma safe_now [safe_rules]: "(\<And>t. Q t d) \<Longrightarrow> safe faults now d Q E"
  by (simp add: safe_def now_def)

lemma safe_draw_uuid [safe_rules]: "(\<And>u. Q u d) \<Longrightarrow> safe faults draw_uuid d Q E"
  by (simp add: safe_def draw_uuid_def)

lemma safe_modify [safe_rules]: "Q () (f d) \<Longrightarrow> safe faults (modify f) d Q E"
  by (simp add: safe_def modify_def)

lemma safe_attempt [safe_rules]: "safe faults m d (\<lambda>x. Q (Inr x)) (\<lambda>e. Q (Inl e)) \<Longrightarrow> safe faults (attempt m) d Q E"
  by (rule safeI, drule (2) safe_run) (auto simp: attempt_def split: prod.splits sum.splits)

lemma safe_map_err [safe_rules]: "safe faults m d Q (\<lambda>e. E (h e)) \<Longrightarrow> safe faults (map_err h m) d Q E"
  by (rule safeI, drule (2) safe_run) (auto simp: map_err_def split: prod.splits sum.splits)

lemma safe_option [safe_rules]:
  "(x = None \<Longrightarrow> safe faults m d Q E) \<Longrightarrow> (\<And>y. x = Some y \<Longrightarrow> safe faults (f y) d Q E) \<Longrightarrow>
   safe faults (case x of None \<Rightarrow> m | Some y \<Rightarrow> f y) d Q E"
  by (cases x) auto

lemma safe_sum [safe_rules]:
  "(\<And>e. x = Inl e \<Longrightarrow> safe faults (g e) d Q E) \<Longrightarrow> (\<And>y. x = Inr y \<Longrightarrow> safe faults (f y) d Q E) \<Longrightarrow>
   safe faults (case x of Inl e \<Rightarrow> g e | Inr y \<Rightarrow> f y) d Q E"
  by (cases x) auto

lemma safe_if [safe_rules]:
  "(c \<Longrightarrow> safe faults m d Q E) \<Longrightarrow> (\<not> c \<Longrightarrow> safe faults n d Q E) \<Longrightarrow> safe faults (if c then m else n) d Q E"
  by simp

lemma safe_conseq:
  assumes "safe faults m d Q E" and "\<And>x d'. Q x d' \<Longrightarrow> Q' x d'" and "\<And>e d'. E e d' \<Longrightarrow> E' e d'"
  shows "safe faults m d Q' E'"
proof (rule safeI)
  fix w r w'
  assume "wd_tables w = d" and "faults \<or> wd_fault w = (\<lambda>_. None)" and "m w = (r, w')"
  from safeD [OF assms(1) this] assms(2,3)
  show "wd_fault w' = wd_fault w \<and> (case r of Inl e \<Rightarrow> E' e (wd_tables w') | Inr x \<Rightarrow> Q' x (wd_tables w'))" by (cases r) auto
qed

lemma safe_for_each:
  assumes "\<And>x d. x \<in> set xs \<Longrightarrow> I d \<Longrightarrow> safe faults (f x) d (\<lambda>_. I) (\<lambda>_. I)" and "I d"
  shows "safe faults (for_each f xs) d (\<lambda>_. I) (\<lambda>_. I)"
  using assms
proof (induction xs arbitrary: d)
  case (Cons x xs)
  show ?case unfolding for_each.simps
  proof (rule safe_bind, rule safe_conseq [OF Cons.prems(1)])
    fix y d'
    assume "I d'"
    then have "safe faults (for_each f xs) d' (\<lambda>_. I) (\<lambda>_. I)" using Cons by simp
    then show "safe faults (bind (for_each f xs) (\<lambda>ys. ret (y # ys))) d' (\<lambda>_. I) (\<lambda>_. I)"
      by (intro safe_bind) (auto elim: safe_conseq intro: safe_ret)
  qed (use Cons.prems(2) in simp_all)
qed (simp add: safe_ret)

section \<open>What every action keeps\<close>

text \<open>\<^verbatim>\<open>keeps I m\<close>: whatever fails, the action keeps the predicate \<^verbatim>\<open>I\<close> of the tables.\<close>

definition keeps :: "('d \<Rightarrow> bool) \<Rightarrow> ('d, 'e, 'a) action \<Rightarrow> bool" where
  "keeps I m \<longleftrightarrow> (\<forall>w. I (wd_tables w) \<longrightarrow> wd_fault (snd (m w)) = wd_fault w \<and> I (wd_tables (snd (m w))))"

named_theorems keeps_rules \<open>introduction rules of \<^verbatim>\<open>keeps\<close>, one per form of action\<close>

lemma keeps_simple [keeps_rules]: "keeps I (ret x)" "keeps I (fail e)" "keeps I now" "keeps I draw_uuid"
  by (simp_all add: keeps_def ret_def fail_def now_def draw_uuid_def)

lemma keeps_bind [keeps_rules]: "keeps I m \<Longrightarrow> (\<And>x. keeps I (f x)) \<Longrightarrow> keeps I (bind m f)"
  unfolding keeps_def bind_def by (simp add: split_beta split: sum.split)

lemma keeps_wrap [keeps_rules]: "keeps I m \<Longrightarrow> keeps I (attempt m)" "keeps I m \<Longrightarrow> keeps I (map_err h m)"
  unfolding keeps_def attempt_def map_err_def by (simp_all add: split_beta split: sum.split)

lemma keeps_query [keeps_rules]: "(\<And>d x d'. I d \<Longrightarrow> g d = Inr (x, d') \<Longrightarrow> I d') \<Longrightarrow> keeps I (query err g)"
  unfolding keeps_def query_def Let_def by (auto split: option.splits sum.splits)

lemma keeps_modify [keeps_rules]: "(\<And>d. I d \<Longrightarrow> I (f d)) \<Longrightarrow> keeps I (modify f)"
  by (simp add: keeps_def modify_def)

lemma keeps_cases [keeps_rules]:
  "(c \<Longrightarrow> keeps I m) \<Longrightarrow> (\<not> c \<Longrightarrow> keeps I n) \<Longrightarrow> keeps I (if c then m else n)"
  "keeps I m \<Longrightarrow> (\<And>y. keeps I (h y)) \<Longrightarrow> keeps I (case x of None \<Rightarrow> m | Some y \<Rightarrow> h y)"
  "(\<And>y. keeps I (k y)) \<Longrightarrow> (\<And>y. s = Inr y \<Longrightarrow> keeps I (h' y)) \<Longrightarrow> keeps I (case s of Inl y \<Rightarrow> k y | Inr y \<Rightarrow> h' y)"
  "(\<And>y z. keeps I (q y z)) \<Longrightarrow> keeps I (case p of (y, z) \<Rightarrow> q y z)"
  by (simp_all split: option.split sum.split prod.split)

lemma keeps_for_each [keeps_rules]: "(\<And>x. keeps I (f x)) \<Longrightarrow> keeps I (for_each f xs)"
  by (induction xs) (auto intro: keeps_rules)

lemma safe_keeps: "keeps I m \<Longrightarrow> I d \<Longrightarrow> safe faults m d (\<lambda>_. I) (\<lambda>_. I)"
  by (rule safeI) (metis (mono_tags, lifting) keeps_def snd_conv sum.case_eq_if)

lemma keeps_safe: "(\<And>d. I d \<Longrightarrow> safe True m d (\<lambda>_. I) (\<lambda>_. I)) \<Longrightarrow> keeps I m"
  unfolding keeps_def safe_def by (fastforce split: sum.splits)

lemma safe_bind_keeps:
  assumes "keeps I m" and "I d" and "\<And>x d'. I d' \<Longrightarrow> safe faults (f x) d' Q E" and "\<And>e d'. I d' \<Longrightarrow> E e d'"
  shows "safe faults (bind m f) d Q E"
  by (rule safe_bind, rule safe_conseq [OF safe_keeps [OF assms(1,2)]]) (auto intro: assms(3,4))

text \<open>A statement that only reads hands on what it read, about unchanged tables.\<close>

lemma safe_read:
  assumes "\<And>e. faults \<Longrightarrow> E (err e) d" and "Q (f d) d"
  shows "safe faults (query err (\<lambda>d. Inr (f d, d))) d Q E"
  using assms by (auto intro: safe_query)

end
