(* ===== verification/Analytics.thy ===== *)
theory Analytics
  imports Effects "HOL-Library.AList"
begin

text \<open>
  Product analytics: the persons, identities and events of \<^verbatim>\<open>loom-analytics-core\<close>, the repository of
  \<^verbatim>\<open>loom-server-analytics/src/repository.rs\<close> and the service of \<^verbatim>\<open>identity_resolution.rs\<close>.

  The tables are lists of rows in insertion order, a SQL statement is the function on them that it describes, with the primary keys,
  unique constraints and foreign keys of \<^verbatim>\<open>migrations/032_analytics.sql\<close>. The JSON text of a column is represented by the value it
  holds; only whether a value is an object, and its top-level keys, matters to the code.
\<close>

section \<open>Persons, identities, events\<close>

datatype 'j json_value = JsonObject "(string \<times> 'j) list" | JsonOther 'j

record 'j person =
  pn_id :: uuid
  pn_org_id :: uuid
  pn_properties :: "'j json_value"
  pn_created_at :: datetime
  pn_updated_at :: datetime
  pn_merged_into_id :: "uuid option"
  pn_merged_at :: "datetime option"

definition person_new :: "uuid \<Rightarrow> datetime \<Rightarrow> uuid \<Rightarrow> 'j person" where
  "person_new i t org = \<lparr>pn_id = i, pn_org_id = org, pn_properties = JsonObject [], pn_created_at = t, pn_updated_at = t,
     pn_merged_into_id = None, pn_merged_at = None\<rparr>"

definition with_properties :: "'j json_value \<Rightarrow> 'j person \<Rightarrow> 'j person" where
  "with_properties props p = p\<lparr>pn_properties := props\<rparr>"

definition is_merged :: "'j person \<Rightarrow> bool" where
  "is_merged p \<longleftrightarrow> is_some (pn_merged_into_id p)"

definition or_insert :: "string \<Rightarrow> 'j \<Rightarrow> (string \<times> 'j) list \<Rightarrow> (string \<times> 'j) list" where
  "or_insert k v m = (case map_of m k of None \<Rightarrow> m @ [(k, v)] | Some _ \<Rightarrow> m)"

fun extend_object :: "(string \<Rightarrow> 'j \<Rightarrow> (string \<times> 'j) list \<Rightarrow> (string \<times> 'j) list) \<Rightarrow> 'j json_value \<Rightarrow> 'j json_value \<Rightarrow> 'j json_value" where
  "extend_object put (JsonObject existing) (JsonObject fresh) = JsonObject (fold (\<lambda>(k, v). put k v) fresh existing)"
| "extend_object put existing fresh = existing"

definition set_property :: "datetime \<Rightarrow> string \<Rightarrow> 'j \<Rightarrow> 'j person \<Rightarrow> 'j person" where
  "set_property t k v p = p\<lparr>pn_properties := extend_object AList.update (pn_properties p) (JsonObject [(k, v)]), pn_updated_at := t\<rparr>"

definition set_properties :: "datetime \<Rightarrow> 'j json_value \<Rightarrow> 'j person \<Rightarrow> 'j person" where
  "set_properties t props p = p\<lparr>pn_properties := extend_object AList.update (pn_properties p) props, pn_updated_at := t\<rparr>"

definition set_property_once :: "datetime \<Rightarrow> string \<Rightarrow> 'j \<Rightarrow> 'j person \<Rightarrow> 'j person" where
  "set_property_once t k v p = p\<lparr>pn_properties := extend_object or_insert (pn_properties p) (JsonObject [(k, v)]), pn_updated_at := t\<rparr>"

definition unset_property :: "datetime \<Rightarrow> string \<Rightarrow> 'j person \<Rightarrow> 'j person" where
  "unset_property t k p = p\<lparr>pn_properties := (case pn_properties p of JsonObject m \<Rightarrow> JsonObject (AList.delete k m) | v \<Rightarrow> v),
     pn_updated_at := t\<rparr>"

definition merge_into :: "datetime \<Rightarrow> datetime \<Rightarrow> uuid \<Rightarrow> 'j person \<Rightarrow> 'j person" where
  "merge_into t t' winner p = p\<lparr>pn_merged_into_id := Some winner, pn_merged_at := Some t, pn_updated_at := t'\<rparr>"

datatype identity_type = Anonymous | Identified

fun identity_type_as_str :: "identity_type \<Rightarrow> string" where
  "identity_type_as_str Anonymous = ''anonymous''"
| "identity_type_as_str Identified = ''identified''"

definition identity_type_from_str :: "string \<Rightarrow> identity_type option" where
  "identity_type_from_str s =
     (if s = ''anonymous'' then Some Anonymous else if s = ''identified'' then Some Identified else None)"

record person_identity =
  pi_id :: uuid
  pi_person_id :: uuid
  pi_distinct_id :: string
  pi_identity_type :: identity_type
  pi_created_at :: datetime

definition identity_new :: "uuid \<Rightarrow> datetime \<Rightarrow> uuid \<Rightarrow> string \<Rightarrow> identity_type \<Rightarrow> person_identity" where
  "identity_new i t person distinct_id ty = \<lparr>pi_id = i, pi_person_id = person, pi_distinct_id = distinct_id,
     pi_identity_type = ty, pi_created_at = t\<rparr>"

type_synonym 'j person_with_identities = "'j person \<times> person_identity list"

definition has_identified_identity :: "'j person_with_identities \<Rightarrow> bool" where
  "has_identified_identity p \<longleftrightarrow> list_ex (\<lambda>i. pi_identity_type i = Identified) (snd p)"

datatype merge_reason = IdentifyReason string string | AliasReason string string | ManualReason string

record person_merge =
  pm_id :: uuid
  pm_winner_id :: uuid
  pm_loser_id :: uuid
  pm_reason :: merge_reason
  pm_merged_at :: datetime

record 'j identify_payload =
  ip_distinct_id :: string
  ip_user_id :: string
  ip_properties :: "'j json_value"

record alias_payload =
  ap_distinct_id :: string
  ap_alias :: string

record 'j analytics_event =
  ev_id :: uuid
  ev_org_id :: uuid
  ev_person_id :: "uuid option"
  ev_distinct_id :: string
  ev_event_name :: string
  ev_properties :: "'j json_value"
  ev_timestamp :: datetime
  ev_ip_address :: "string option"
  ev_user_agent :: "string option"
  ev_lib :: "string option"
  ev_lib_version :: "string option"
  ev_created_at :: datetime

definition event_new :: "uuid \<Rightarrow> datetime \<Rightarrow> uuid \<Rightarrow> string \<Rightarrow> string \<Rightarrow> 'j analytics_event" where
  "event_new i t org distinct_id name = \<lparr>ev_id = i, ev_org_id = org, ev_person_id = None, ev_distinct_id = distinct_id,
     ev_event_name = name, ev_properties = JsonObject [], ev_timestamp = t, ev_ip_address = None, ev_user_agent = None,
     ev_lib = None, ev_lib_version = None, ev_created_at = t\<rparr>"

datatype analytics_key_type = KeyWrite | KeyReadWrite

fun key_type_as_str :: "analytics_key_type \<Rightarrow> string" where
  "key_type_as_str KeyWrite = ''write''"
| "key_type_as_str KeyReadWrite = ''read_write''"

definition key_type_from_str :: "string \<Rightarrow> analytics_key_type option" where
  "key_type_from_str s = (if s = ''write'' then Some KeyWrite else if s = ''read_write'' then Some KeyReadWrite else None)"

fun can_query :: "analytics_key_type \<Rightarrow> bool" where
  "can_query KeyReadWrite = True"
| "can_query KeyWrite = False"

record analytics_api_key =
  ak_id :: uuid
  ak_org_id :: uuid
  ak_name :: string
  ak_key_type :: analytics_key_type
  ak_key_hash :: string
  ak_created_by :: uuid
  ak_created_at :: datetime
  ak_last_used_at :: "datetime option"
  ak_revoked_at :: "datetime option"

definition WRITE_PREFIX :: string where
  "WRITE_PREFIX = ''loom_analytics_write_''"

definition READ_WRITE_PREFIX :: string where
  "READ_WRITE_PREFIX = ''loom_analytics_rw_''"

definition parse_analytics_key :: "string \<Rightarrow> (analytics_key_type \<times> string) option" where
  "parse_analytics_key key =
     (case (case strip_prefix key WRITE_PREFIX of
              Some rest \<Rightarrow> Some (KeyWrite, rest)
            | None \<Rightarrow> map_option (\<lambda>rest. (KeyReadWrite, rest)) (strip_prefix key READ_WRITE_PREFIX)) of
        None \<Rightarrow> None
      | Some (ty, rest) \<Rightarrow> if length rest \<noteq> 32 \<or> \<not> list_all is_ascii_hexdigit rest then None else Some (ty, rest))"

text \<open>The random part is a UUID printed without its dashes.\<close>

fun generate_analytics_key :: "string \<Rightarrow> analytics_key_type \<Rightarrow> string" where
  "generate_analytics_key random KeyWrite = WRITE_PREFIX @ random"
| "generate_analytics_key random KeyReadWrite = READ_WRITE_PREFIX @ random"

datatype analytics_error =
    CoreError string
  | DatabaseError string
  | SerializationError string
  | ApiKeyVerification
  | UnauthorizedError string
  | ForbiddenError string
  | NotFoundError string
  | InternalError string

section \<open>The repository\<close>

record 'j analytics_tables =
  tb_persons :: "'j person list"
  tb_identities :: "person_identity list"
  tb_events :: "'j analytics_event list"
  tb_merges :: "person_merge list"
  tb_api_keys :: "analytics_api_key list"

type_synonym ('j, 'a) analytics_action = "('j analytics_tables, analytics_error, 'a) action"

abbreviation sql :: "('j analytics_tables \<Rightarrow> string + 'a \<times> 'j analytics_tables) \<Rightarrow> ('j, 'a) analytics_action" where
  "sql \<equiv> query DatabaseError"

abbreviation select :: "('j analytics_tables \<Rightarrow> 'a) \<Rightarrow> ('j, 'a) analytics_action" where
  "select f \<equiv> sql (\<lambda>d. Inr (f d, d))"

definition person_row :: "'j analytics_tables \<Rightarrow> uuid \<Rightarrow> 'j person option" where
  "person_row d i = List.find (\<lambda>p. pn_id p = i) (tb_persons d)"

definition create_person :: "'j person \<Rightarrow> ('j, unit) analytics_action" where
  "create_person p = sql (\<lambda>d.
     if pn_id p \<in> set (map pn_id (tb_persons d)) then Inl ''UNIQUE constraint failed: analytics_persons.id''
     else Inr ((), d\<lparr>tb_persons := tb_persons d @ [p]\<rparr>))"

definition get_person_by_id :: "uuid \<Rightarrow> ('j, 'j person option) analytics_action" where
  "get_person_by_id i = select (\<lambda>d. person_row d i)"

definition list_identities_for_person :: "uuid \<Rightarrow> ('j, person_identity list) analytics_action" where
  "list_identities_for_person i =
     select (\<lambda>d. sort_key pi_created_at (filter (\<lambda>x. pi_person_id x = i) (tb_identities d)))"

definition get_person_with_identities :: "uuid \<Rightarrow> ('j, 'j person_with_identities option) analytics_action" where
  "get_person_with_identities i = bind (get_person_by_id i) (\<lambda>row. case row of
     None \<Rightarrow> ret None
   | Some p \<Rightarrow> bind (list_identities_for_person i) (\<lambda>is. ret (Some (p, is))))"

definition live_persons :: "uuid \<Rightarrow> 'j analytics_tables \<Rightarrow> 'j person list" where
  "live_persons org d = filter (\<lambda>p. pn_org_id p = org \<and> pn_merged_into_id p = None) (tb_persons d)"

definition list_persons :: "uuid \<Rightarrow> u32 \<Rightarrow> u32 \<Rightarrow> ('j, 'j person list) analytics_action" where
  "list_persons org limit offset = select (\<lambda>d.
     take (unat limit) (drop (unat offset) (sort_key (\<lambda>p. - pn_created_at p) (live_persons org d))))"

definition count_persons :: "uuid \<Rightarrow> ('j, u64) analytics_action" where
  "count_persons org = select (\<lambda>d. of_nat (length (live_persons org d)))"

definition update_person :: "'j person \<Rightarrow> ('j, unit) analytics_action" where
  "update_person p = sql (\<lambda>d.
     if (case pn_merged_into_id p of None \<Rightarrow> False | Some i \<Rightarrow> i \<notin> set (map pn_id (tb_persons d))) then Inl ''FOREIGN KEY constraint failed''
     else Inr ((), d\<lparr>tb_persons := map (\<lambda>q. if pn_id q = pn_id p
       then q\<lparr>pn_properties := pn_properties p, pn_updated_at := pn_updated_at p,
              pn_merged_into_id := pn_merged_into_id p, pn_merged_at := pn_merged_at p\<rparr>
       else q) (tb_persons d)\<rparr>))"

definition create_identity :: "person_identity \<Rightarrow> ('j, unit) analytics_action" where
  "create_identity x = sql (\<lambda>d.
     if pi_id x \<in> set (map pi_id (tb_identities d)) then Inl ''UNIQUE constraint failed: analytics_person_identities.id''
     else if (pi_person_id x, pi_distinct_id x) \<in> set (map (\<lambda>y. (pi_person_id y, pi_distinct_id y)) (tb_identities d))
     then Inl ''UNIQUE constraint failed: analytics_person_identities.person_id, analytics_person_identities.distinct_id''
     else if pi_person_id x \<notin> set (map pn_id (tb_persons d)) then Inl ''FOREIGN KEY constraint failed''
     else Inr ((), d\<lparr>tb_identities := tb_identities d @ [x]\<rparr>))"

text \<open>The join of identities with their persons, restricted to an organization and a distinct id.\<close>

definition identity_matches :: "'j analytics_tables \<Rightarrow> uuid \<Rightarrow> string \<Rightarrow> person_identity \<Rightarrow> bool" where
  "identity_matches d org distinct_id x \<longleftrightarrow>
     pi_distinct_id x = distinct_id \<and> list_ex (\<lambda>p. pn_id p = pi_person_id x \<and> pn_org_id p = org) (tb_persons d)"

definition identity_row :: "'j analytics_tables \<Rightarrow> uuid \<Rightarrow> string \<Rightarrow> person_identity option" where
  "identity_row d org distinct_id = List.find (identity_matches d org distinct_id) (tb_identities d)"

definition get_identity_by_distinct_id :: "uuid \<Rightarrow> string \<Rightarrow> ('j, person_identity option) analytics_action" where
  "get_identity_by_distinct_id org distinct_id = select (\<lambda>d. identity_row d org distinct_id)"

definition transfer_identities :: "uuid \<Rightarrow> uuid \<Rightarrow> ('j, u64) analytics_action" where
  "transfer_identities source target = sql (\<lambda>d.
     let moved = filter (\<lambda>x. pi_person_id x = source) (tb_identities d);
         rows = map (\<lambda>x. if pi_person_id x = source then x\<lparr>pi_person_id := target\<rparr> else x) (tb_identities d)
     in if \<not> distinct (map (\<lambda>x. (pi_person_id x, pi_distinct_id x)) rows)
        then Inl ''UNIQUE constraint failed: analytics_person_identities.person_id, analytics_person_identities.distinct_id''
        else if moved \<noteq> [] \<and> target \<notin> set (map pn_id (tb_persons d)) then Inl ''FOREIGN KEY constraint failed''
        else Inr (of_nat (length moved), d\<lparr>tb_identities := rows\<rparr>))"

definition insert_event :: "'j analytics_event \<Rightarrow> ('j, unit) analytics_action" where
  "insert_event e = sql (\<lambda>d.
     if ev_id e \<in> set (map ev_id (tb_events d)) then Inl ''UNIQUE constraint failed: analytics_events.id''
     else if (case ev_person_id e of None \<Rightarrow> False | Some i \<Rightarrow> i \<notin> set (map pn_id (tb_persons d))) then Inl ''FOREIGN KEY constraint failed''
     else Inr ((), d\<lparr>tb_events := tb_events d @ [e]\<rparr>))"

definition insert_events :: "'j analytics_event list \<Rightarrow> ('j, u64) analytics_action" where
  "insert_events es = bind (for_each insert_event es) (\<lambda>units. ret (of_nat (length units)))"

definition get_event_by_id :: "uuid \<Rightarrow> ('j, 'j analytics_event option) analytics_action" where
  "get_event_by_id i = select (\<lambda>d. List.find (\<lambda>e. ev_id e = i) (tb_events d))"

record event_filter =
  ef_distinct_id :: "string option"
  ef_event_name :: "string option"
  ef_start_time :: "datetime option"
  ef_end_time :: "datetime option"

definition event_selected :: "uuid \<Rightarrow> event_filter \<Rightarrow> 'j analytics_event \<Rightarrow> bool" where
  "event_selected org f e \<longleftrightarrow> ev_org_id e = org
     \<and> (case ef_distinct_id f of Some x \<Rightarrow> ev_distinct_id e = x | None \<Rightarrow> True)
     \<and> (case ef_event_name f of Some x \<Rightarrow> ev_event_name e = x | None \<Rightarrow> True)
     \<and> (case ef_start_time f of Some t \<Rightarrow> t \<le> ev_timestamp e | None \<Rightarrow> True)
     \<and> (case ef_end_time f of Some t \<Rightarrow> ev_timestamp e \<le> t | None \<Rightarrow> True)"

definition list_events :: "uuid \<Rightarrow> event_filter \<Rightarrow> u32 \<Rightarrow> u32 \<Rightarrow> ('j, 'j analytics_event list) analytics_action" where
  "list_events org f limit offset = select (\<lambda>d.
     take (unat limit) (drop (unat offset) (sort_key (\<lambda>e. - ev_timestamp e) (filter (event_selected org f) (tb_events d)))))"

definition count_events :: "uuid \<Rightarrow> event_filter \<Rightarrow> ('j, u64) analytics_action" where
  "count_events org f = select (\<lambda>d. of_nat (length (filter (event_selected org f) (tb_events d))))"

definition reassign_events :: "uuid \<Rightarrow> uuid \<Rightarrow> ('j, u64) analytics_action" where
  "reassign_events source target = sql (\<lambda>d.
     let moved = filter (\<lambda>e. ev_person_id e = Some source) (tb_events d)
     in if moved \<noteq> [] \<and> target \<notin> set (map pn_id (tb_persons d)) then Inl ''FOREIGN KEY constraint failed''
        else Inr (of_nat (length moved), d\<lparr>tb_events :=
          map (\<lambda>e. if ev_person_id e = Some source then e\<lparr>ev_person_id := Some target\<rparr> else e) (tb_events d)\<rparr>))"

definition create_merge :: "person_merge \<Rightarrow> ('j, unit) analytics_action" where
  "create_merge m = sql (\<lambda>d.
     if pm_id m \<in> set (map pm_id (tb_merges d)) then Inl ''UNIQUE constraint failed: analytics_person_merges.id''
     else if pm_winner_id m \<notin> set (map pn_id (tb_persons d)) \<or> pm_loser_id m \<notin> set (map pn_id (tb_persons d))
     then Inl ''FOREIGN KEY constraint failed''
     else Inr ((), d\<lparr>tb_merges := tb_merges d @ [m]\<rparr>))"

definition list_merges_for_person :: "uuid \<Rightarrow> ('j, person_merge list) analytics_action" where
  "list_merges_for_person i = select (\<lambda>d.
     sort_key (\<lambda>m. - pm_merged_at m) (filter (\<lambda>m. pm_winner_id m = i \<or> pm_loser_id m = i) (tb_merges d)))"

definition create_api_key :: "analytics_api_key \<Rightarrow> ('j, unit) analytics_action" where
  "create_api_key k = sql (\<lambda>d.
     if ak_id k \<in> set (map ak_id (tb_api_keys d)) then Inl ''UNIQUE constraint failed: analytics_api_keys.id''
     else Inr ((), d\<lparr>tb_api_keys := tb_api_keys d @ [k]\<rparr>))"

definition get_api_key_by_id :: "uuid \<Rightarrow> ('j, analytics_api_key option) analytics_action" where
  "get_api_key_by_id i = select (\<lambda>d. List.find (\<lambda>k. ak_id k = i) (tb_api_keys d))"

definition get_api_key_by_hash :: "string \<Rightarrow> ('j, analytics_api_key option) analytics_action" where
  "get_api_key_by_hash h = select (\<lambda>d. List.find (\<lambda>k. ak_key_hash k = h) (tb_api_keys d))"

definition list_api_keys :: "uuid \<Rightarrow> ('j, analytics_api_key list) analytics_action" where
  "list_api_keys org = select (\<lambda>d. sort_key (\<lambda>k. - ak_created_at k) (filter (\<lambda>k. ak_org_id k = org) (tb_api_keys d)))"

definition revoke_api_key :: "uuid \<Rightarrow> ('j, bool) analytics_action" where
  "revoke_api_key i = bind now (\<lambda>t. sql (\<lambda>d.
     let hit = (\<lambda>k. ak_id k = i \<and> ak_revoked_at k = None)
     in Inr (list_ex hit (tb_api_keys d),
             d\<lparr>tb_api_keys := map (\<lambda>k. if hit k then k\<lparr>ak_revoked_at := Some t\<rparr> else k) (tb_api_keys d)\<rparr>)))"

definition update_api_key_last_used :: "uuid \<Rightarrow> ('j, unit) analytics_action" where
  "update_api_key_last_used i = bind now (\<lambda>t. sql (\<lambda>d.
     Inr ((), d\<lparr>tb_api_keys := map (\<lambda>k. if ak_id k = i then k\<lparr>ak_last_used_at := Some t\<rparr> else k) (tb_api_keys d)\<rparr>)))"

text \<open>Both searches compare the raw key with the stored hash itself before verifying it; a hash that cannot be parsed is skipped.\<close>

fun verified_key :: "(string \<Rightarrow> string \<Rightarrow> analytics_error + bool) \<Rightarrow> string \<Rightarrow> analytics_api_key list \<Rightarrow> analytics_api_key option" where
  "verified_key verify raw [] = None"
| "verified_key verify raw (k # ks) =
     (if ak_key_hash k = raw then Some k
      else case verify raw (ak_key_hash k) of
        Inr True \<Rightarrow> Some k
      | Inr False \<Rightarrow> verified_key verify raw ks
      | Inl _ \<Rightarrow> verified_key verify raw ks)"

definition find_api_key_by_verification ::
  "(string \<Rightarrow> string \<Rightarrow> analytics_error + bool) \<Rightarrow> string \<Rightarrow> uuid \<Rightarrow> ('j, analytics_api_key option) analytics_action" where
  "find_api_key_by_verification verify raw org =
     bind (list_api_keys org) (\<lambda>ks. ret (verified_key verify raw (filter (\<lambda>k. ak_revoked_at k = None) ks)))"

definition find_api_key_by_raw ::
  "(string \<Rightarrow> string \<Rightarrow> analytics_error + bool) \<Rightarrow> string \<Rightarrow> ('j, analytics_api_key option) analytics_action" where
  "find_api_key_by_raw verify raw =
     bind (select (\<lambda>d. filter (\<lambda>k. ak_revoked_at k = None) (tb_api_keys d))) (\<lambda>ks. ret (verified_key verify raw ks))"

section \<open>Identity resolution\<close>

definition add_identity :: "uuid \<Rightarrow> string \<Rightarrow> identity_type \<Rightarrow> ('j, person_identity) analytics_action" where
  "add_identity person distinct_id ty = bind draw_uuid (\<lambda>i. bind now (\<lambda>t.
     let x = identity_new i t person distinct_id ty in bind (create_identity x) (\<lambda>_. ret x)))"

definition add_person :: "uuid \<Rightarrow> ('j person \<Rightarrow> 'j person) \<Rightarrow> ('j, 'j person) analytics_action" where
  "add_person org prepare = bind now (\<lambda>t. bind draw_uuid (\<lambda>i.
     let p = prepare (person_new i t org) in bind (create_person p) (\<lambda>_. ret p)))"

definition resolve_person_for_distinct_id :: "uuid \<Rightarrow> string \<Rightarrow> ('j, 'j person_with_identities) analytics_action" where
  "resolve_person_for_distinct_id org distinct_id =
     (let create = bind (add_person org id) (\<lambda>p.
            bind (add_identity (pn_id p) distinct_id Anonymous) (\<lambda>x. ret (p, [x])))
      in bind (get_identity_by_distinct_id org distinct_id) (\<lambda>found. case found of
           None \<Rightarrow> create
         | Some x \<Rightarrow> bind (get_person_with_identities (pi_person_id x)) (\<lambda>row. case row of
             None \<Rightarrow> create
           | Some p \<Rightarrow> (case pn_merged_into_id (fst p) of
               None \<Rightarrow> ret p
             | Some winner \<Rightarrow> bind (get_person_with_identities winner) (\<lambda>w. case w of
                 Some q \<Rightarrow> ret q
               | None \<Rightarrow> ret p)))))"

definition determine_merge_winner ::
  "'j person_with_identities \<Rightarrow> 'j person_with_identities \<Rightarrow> 'j person_with_identities \<times> 'j person_with_identities" where
  "determine_merge_winner a b = (case (has_identified_identity a, has_identified_identity b) of
     (True, False) \<Rightarrow> (a, b)
   | (False, True) \<Rightarrow> (b, a)
   | _ \<Rightarrow> if pn_created_at (fst a) \<le> pn_created_at (fst b) then (a, b) else (b, a))"

definition existing :: "string \<Rightarrow> ('j, 'a option) analytics_action \<Rightarrow> ('j, 'a) analytics_action" where
  "existing msg m = bind m (\<lambda>x. case x of None \<Rightarrow> fail (InternalError msg) | Some y \<Rightarrow> ret y)"

text \<open>\<^verbatim>\<open>merge_persons\<close>, whose statements are not wrapped in a transaction. The numbers of moved rows go to the audit hook only.\<close>

definition move_person_rows :: "uuid \<Rightarrow> uuid \<Rightarrow> ('j, u64 \<times> u64) analytics_action" where
  "move_person_rows loser_id winner_id =
     bind (reassign_events loser_id winner_id) (\<lambda>events_reassigned.
     bind (transfer_identities loser_id winner_id) (\<lambda>identities_transferred.
     ret (events_reassigned, identities_transferred)))"

definition retire_person :: "uuid \<Rightarrow> 'j person \<Rightarrow> ('j, unit) analytics_action" where
  "retire_person winner_id loser = bind now (\<lambda>t. bind now (\<lambda>t'. update_person (merge_into t t' winner_id loser)))"

definition record_merge :: "uuid \<Rightarrow> uuid \<Rightarrow> merge_reason \<Rightarrow> ('j, unit) analytics_action" where
  "record_merge winner_id loser_id reason = bind draw_uuid (\<lambda>i. bind now (\<lambda>t.
     create_merge \<lparr>pm_id = i, pm_winner_id = winner_id, pm_loser_id = loser_id, pm_reason = reason, pm_merged_at = t\<rparr>))"

definition merge_persons :: "uuid \<Rightarrow> uuid \<Rightarrow> merge_reason \<Rightarrow> 'j json_value option \<Rightarrow> ('j, 'j person_with_identities) analytics_action" where
  "merge_persons winner_id loser_id reason additional =
     bind (existing ''Winner person not found'' (get_person_by_id winner_id)) (\<lambda>winner.
     bind (existing ''Loser person not found'' (get_person_by_id loser_id)) (\<lambda>loser.
     let winner = winner\<lparr>pn_properties := extend_object or_insert (pn_properties winner) (pn_properties loser)\<rparr> in
     bind (case additional of
             None \<Rightarrow> ret winner
           | Some props \<Rightarrow> bind now (\<lambda>t. ret (set_properties t props winner))) (\<lambda>winner.
     bind (update_person winner) (\<lambda>_.
     bind (move_person_rows loser_id winner_id) (\<lambda>_.
     bind (retire_person winner_id loser) (\<lambda>_.
     bind (record_merge winner_id loser_id reason) (\<lambda>_.
     bind (list_identities_for_person winner_id) (\<lambda>identities.
     ret (winner, identities)))))))))"

abbreviation orphan :: string where
  "orphan \<equiv> ''Person not found for identity''"

text \<open>The branches of \<^verbatim>\<open>identify\<close> and \<^verbatim>\<open>alias\<close> in which the person exists already.\<close>

definition apply_properties :: "'j json_value \<Rightarrow> 'j person \<Rightarrow> ('j, 'j person) analytics_action" where
  "apply_properties props p = bind now (\<lambda>t.
     let p = set_properties t props p in bind (update_person p) (\<lambda>_. ret p))"

definition with_current_identities :: "'j person \<Rightarrow> ('j, 'j person_with_identities) analytics_action" where
  "with_current_identities p = bind (list_identities_for_person (pn_id p)) (\<lambda>is. ret (p, is))"

definition merge_known ::
  "uuid \<Rightarrow> uuid \<Rightarrow> merge_reason \<Rightarrow> 'j json_value option \<Rightarrow> ('j, 'j person_with_identities) analytics_action" where
  "merge_known a b reason additional =
     bind (existing orphan (get_person_with_identities a)) (\<lambda>pa.
     bind (existing orphan (get_person_with_identities b)) (\<lambda>pb.
     let (winner, loser) = determine_merge_winner pa pb
     in merge_persons (pn_id (fst winner)) (pn_id (fst loser)) reason additional))"

definition identify :: "uuid \<Rightarrow> 'j identify_payload \<Rightarrow> ('j, 'j person_with_identities) analytics_action" where
  "identify org payload =
     (let distinct_id = ip_distinct_id payload; user_id = ip_user_id payload; props = ip_properties payload in
      bind (get_identity_by_distinct_id org distinct_id) (\<lambda>current_identity.
      bind (get_identity_by_distinct_id org user_id) (\<lambda>user_identity.
      case current_identity of
        None \<Rightarrow> (case user_identity of
          None \<Rightarrow> bind (add_person org (with_properties props)) (\<lambda>p.
            bind (add_identity (pn_id p) distinct_id Anonymous) (\<lambda>x.
            bind (add_identity (pn_id p) user_id Identified) (\<lambda>y. ret (p, [x, y]))))
        | Some user \<Rightarrow> bind (existing orphan (get_person_by_id (pi_person_id user))) (\<lambda>p.
            bind (apply_properties props p) (\<lambda>p.
            bind (add_identity (pn_id p) distinct_id Anonymous) (\<lambda>_. with_current_identities p))))
      | Some current \<Rightarrow> (case user_identity of
          None \<Rightarrow> bind (existing orphan (get_person_by_id (pi_person_id current))) (\<lambda>p.
            bind (apply_properties props p) (\<lambda>p.
            bind (add_identity (pn_id p) user_id Identified) (\<lambda>_. with_current_identities p)))
        | Some user \<Rightarrow>
            if pi_person_id current = pi_person_id user
            then bind (existing orphan (get_person_by_id (pi_person_id current))) (\<lambda>p.
                   bind (apply_properties props p) with_current_identities)
            else merge_known (pi_person_id current) (pi_person_id user) (IdentifyReason distinct_id user_id) (Some props)))))"

definition alias_ids :: "uuid \<Rightarrow> alias_payload \<Rightarrow> ('j, 'j person_with_identities) analytics_action" where
  "alias_ids org payload =
     (let distinct_id = ap_distinct_id payload; other = ap_alias payload in
      bind (get_identity_by_distinct_id org distinct_id) (\<lambda>primary_identity.
      bind (get_identity_by_distinct_id org other) (\<lambda>alias_identity.
      case primary_identity of
        None \<Rightarrow> (case alias_identity of
          None \<Rightarrow> bind (add_person org id) (\<lambda>p.
            bind (add_identity (pn_id p) distinct_id Anonymous) (\<lambda>x.
            bind (add_identity (pn_id p) other Anonymous) (\<lambda>y. ret (p, [x, y]))))
        | Some x \<Rightarrow> bind (existing orphan (get_person_by_id (pi_person_id x))) (\<lambda>p.
            bind (add_identity (pn_id p) distinct_id Anonymous) (\<lambda>_. with_current_identities p)))
      | Some primary \<Rightarrow> (case alias_identity of
          None \<Rightarrow> bind (existing orphan (get_person_by_id (pi_person_id primary))) (\<lambda>p.
            bind (add_identity (pn_id p) other Anonymous) (\<lambda>_. with_current_identities p))
        | Some x \<Rightarrow>
            if pi_person_id primary = pi_person_id x
            then bind (existing orphan (get_person_by_id (pi_person_id primary))) with_current_identities
            else merge_known (pi_person_id primary) (pi_person_id x) (AliasReason distinct_id other) None))))"


text \<open>The columns that hold an enumeration are read back as written.\<close>

interpretation identity_type_codec: text_codec identity_type_as_str identity_type_from_str
proof
  show "identity_type_from_str (identity_type_as_str x) = Some x" for x by (cases x) (simp_all add: identity_type_from_str_def)
  show "identity_type_from_str s = Some x \<Longrightarrow> s = identity_type_as_str x" for s x
    by (auto simp: identity_type_from_str_def split: if_splits)
qed

interpretation key_type_codec: text_codec key_type_as_str key_type_from_str
proof
  show "key_type_from_str (key_type_as_str x) = Some x" for x by (cases x) (simp_all add: key_type_from_str_def)
  show "key_type_from_str s = Some x \<Longrightarrow> s = key_type_as_str x" for s x
    by (auto simp: key_type_from_str_def split: if_splits)
qed

section \<open>The tables as an assignment of identifiers to persons\<close>

text \<open>A key is an organization with a distinct id; \<^verbatim>\<open>owner\<close> is the person it resolves to.\<close>

type_synonym key = "uuid \<times> string"

definition owner :: "'j analytics_tables \<Rightarrow> key \<Rightarrow> uuid option" where
  "owner d k = map_option pi_person_id (identity_row d (fst k) (snd k))"

definition alive :: "'j analytics_tables \<Rightarrow> uuid \<Rightarrow> uuid \<Rightarrow> bool" where
  "alive d org i \<longleftrightarrow> (\<exists>p. p \<in> set (tb_persons d) \<and> pn_id p = i \<and> pn_org_id p = org \<and> pn_merged_into_id p = None)"

text \<open>Invariant: person ids are unique, every identity belongs to a person that was not merged away, and no key has two identities.\<close>

definition tables_ok :: "'j analytics_tables \<Rightarrow> bool" where
  "tables_ok d \<longleftrightarrow> distinct (map pn_id (tb_persons d))
     \<and> (\<forall>x \<in> set (tb_identities d). \<exists>org. alive d org (pi_person_id x))
     \<and> distinct (map (\<lambda>x. (map_option pn_org_id (person_row d (pi_person_id x)), pi_distinct_id x)) (tb_identities d))"

definition attributed :: "'j analytics_tables \<Rightarrow> bool" where
  "attributed d \<longleftrightarrow> (\<forall>e \<in> set (tb_events d). \<forall>i. ev_person_id e = Some i \<longrightarrow> owner d (ev_org_id e, ev_distinct_id e) = Some i)"

text \<open>What holds between any two calls; the attribution of events only when no statement failed.\<close>

definition holds :: "bool \<Rightarrow> (key \<Rightarrow> uuid option) \<Rightarrow> 'j analytics_tables \<Rightarrow> bool" where
  "holds faults f d \<longleftrightarrow> tables_ok d \<and> owner d = f \<and> (faults \<or> attributed d)"

lemma person_row_unique:
  "distinct (map pn_id (tb_persons d)) \<Longrightarrow> p \<in> set (tb_persons d) \<Longrightarrow> person_row d (pn_id p) = Some p"
  unfolding person_row_def by (auto simp: find_Some_iff in_set_conv_nth distinct_conv_nth)

lemma person_row_Some: "person_row d i = Some p \<Longrightarrow> p \<in> set (tb_persons d) \<and> pn_id p = i"
  unfolding person_row_def by (drule find_Some_set) simp

lemma alive_row: "tables_ok d \<Longrightarrow> alive d org i \<Longrightarrow> \<exists>p. person_row d i = Some p \<and> pn_id p = i \<and> pn_org_id p = org \<and> pn_merged_into_id p = None"
  by (auto simp: alive_def tables_ok_def dest: person_row_unique)

lemma alive_org: "tables_ok d \<Longrightarrow> alive d org i \<Longrightarrow> alive d org' i \<Longrightarrow> org = org'"
  by (frule (1) alive_row, drule (1) alive_row) auto

lemma owner_iff:
  assumes "tables_ok d"
  shows "owner d k = Some i \<longleftrightarrow> (\<exists>x \<in> set (tb_identities d). pi_person_id x = i \<and> pi_distinct_id x = snd k \<and> alive d (fst k) i)"
    (is "_ \<longleftrightarrow> ?r")
proof
  have matches: "identity_matches d (fst k) (snd k) x \<longleftrightarrow> pi_distinct_id x = snd k \<and> alive d (fst k) (pi_person_id x)"
    if x: "x \<in> set (tb_identities d)" for x
  proof -
    obtain org where "alive d org (pi_person_id x)" using assms x by (auto simp: tables_ok_def)
    then obtain p where p: "person_row d (pi_person_id x) = Some p" "pn_org_id p = org" "pn_merged_into_id p = None" using alive_row [OF assms] by blast
    then have "q = p" if "q \<in> set (tb_persons d)" "pn_id q = pi_person_id x" for q
      using that person_row_unique [of d q] assms by (simp add: tables_ok_def)
    with p person_row_Some [OF p(1)] show ?thesis by (auto simp: identity_matches_def alive_def list_ex_iff)
  qed
  show "?r" if "owner d k = Some i"
    using that matches by (auto simp: owner_def identity_row_def dest!: find_Some_set)
  assume "?r"
  then obtain x where x: "x \<in> set (tb_identities d)" "pi_person_id x = i" "pi_distinct_id x = snd k" "alive d (fst k) i" by blast
  then obtain y where y: "identity_row d (fst k) (snd k) = Some y"
    using matches [OF x(1)] by (cases "identity_row d (fst k) (snd k)") (auto simp: identity_row_def find_None_iff)
  then have y': "y \<in> set (tb_identities d)" "pi_distinct_id y = snd k" "alive d (fst k) (pi_person_id y)"
    using matches find_Some_set [OF y [unfolded identity_row_def]] by auto
  have "map_option pn_org_id (person_row d j) = Some (fst k)" if "alive d (fst k) j" for j
    using alive_row [OF assms that] by auto
  from this [OF x(4)] this [OF y'(3)] x y' have "(map_option pn_org_id (person_row d (pi_person_id x)), pi_distinct_id x) = (map_option pn_org_id (person_row d (pi_person_id y)), pi_distinct_id y)"
    by auto
  with assms x(1) y'(1) have "x = y" by (auto simp: tables_ok_def distinct_map dest: inj_onD)
  with x y show "owner d k = Some i" by (simp add: owner_def)
qed


text \<open>The relation between the tables that the invariant depends on.\<close>

lemma tables_okI:
  assumes "distinct (map pn_id (tb_persons d))"
    and "\<And>x. x \<in> set (tb_identities d) \<Longrightarrow> \<exists>org. alive d org (pi_person_id x)"
    and "distinct (map (\<lambda>x. (map_option pn_org_id (person_row d (pi_person_id x)), pi_distinct_id x)) (tb_identities d))"
  shows "tables_ok d"
  using assms by (auto simp: tables_ok_def)

lemma owner_None_iff:
  "tables_ok d \<Longrightarrow> owner d k = None \<longleftrightarrow> (\<forall>x \<in> set (tb_identities d). pi_distinct_id x = snd k \<longrightarrow> \<not> alive d (fst k) (pi_person_id x))"
proof -
  assume "tables_ok d"
  note iff = owner_iff [OF this, of k]
  show "owner d k = None \<longleftrightarrow> (\<forall>x \<in> set (tb_identities d). pi_distinct_id x = snd k \<longrightarrow> \<not> alive d (fst k) (pi_person_id x))"
  proof (cases "owner d k")
    case None
    then show ?thesis using iff by auto
  next
    case (Some i)
    then show ?thesis using iff [of i] by auto
  qed
qed

lemma owner_eqI:
  assumes "tables_ok d" and "\<And>k i. f k = Some i \<longleftrightarrow> (\<exists>x \<in> set (tb_identities d). pi_person_id x = i \<and> pi_distinct_id x = snd k \<and> alive d (fst k) i)"
  shows "owner d = f"
proof
  fix k
  have "owner d k = Some i \<longleftrightarrow> f k = Some i" for i using owner_iff [OF assms(1)] assms(2) by simp
  then show "owner d k = f k" by (cases "f k"; cases "owner d k") auto
qed

lemma owner_alive: "tables_ok d \<Longrightarrow> owner d k = Some i \<Longrightarrow> alive d (fst k) i"
  by (auto simp: owner_iff)

lemma attributed_cong: "owner d' = owner d \<Longrightarrow> tb_events d' = tb_events d \<Longrightarrow> attributed d' = attributed d"
  by (simp add: attributed_def)

text \<open>A statement that keeps identities, and of each person the id, the organization and whether it was merged.\<close>

lemma same_persons:
  fixes d d' :: "'j analytics_tables"
  assumes "tb_identities d' = tb_identities d"
    and "map (\<lambda>p. (pn_id p, pn_org_id p, pn_merged_into_id p)) (tb_persons d') = map (\<lambda>p. (pn_id p, pn_org_id p, pn_merged_into_id p)) (tb_persons d)"
  shows "tables_ok d' = tables_ok d" and "owner d' = owner d" and "alive d' = alive d"
proof -
  let ?h = "\<lambda>p. (pn_id p, pn_org_id p, pn_merged_into_id p)"
  have image: "?h ` set (tb_persons d') = ?h ` set (tb_persons d)" using arg_cong [OF assms(2), of set] by simp
  have ids: "map pn_id (tb_persons d') = map pn_id (tb_persons d)" using arg_cong [OF assms(2), of "map fst"] by (simp add: comp_def)
  have row: "map_option pn_org_id (person_row d' i) = map_option pn_org_id (person_row d i)" for i
  proof -
    have find: "map_option pn_org_id (List.find (\<lambda>p. pn_id p = i) ps) = map_option (fst \<circ> snd) (List.find (\<lambda>t. fst t = i) (map ?h ps))" for ps :: "'j person list"
      by (induction ps) simp_all
    show ?thesis unfolding person_row_def find assms(2) ..
  qed
  show alive: "alive d' = alive d"
  proof (intro ext)
    fix org i
    have "alive e org i \<longleftrightarrow> (i, org, None) \<in> ?h ` set (tb_persons e)" for e :: "'j analytics_tables" by (force simp: alive_def image_iff)
    then show "alive d' org i = alive d org i" using image by simp
  qed
  show "tables_ok d' = tables_ok d" by (simp add: tables_ok_def ids row alive assms(1))
  have "identity_matches d' = identity_matches d"
  proof (intro ext)
    fix org s x
    have "list_ex (\<lambda>p. pn_id p = i \<and> pn_org_id p = org) (tb_persons e) \<longleftrightarrow> (\<exists>m. (i, org, m) \<in> ?h ` set (tb_persons e))" for e :: "'j analytics_tables" and i
      by (force simp: list_ex_iff image_iff)
    then show "identity_matches d' org s x = identity_matches d org s x" using image by (simp add: identity_matches_def)
  qed
  then show "owner d' = owner d" by (intro ext) (simp add: owner_def identity_row_def assms(1))
qed

lemma add_person_ok:
  assumes "tables_ok d" and "pn_id p \<notin> set (map pn_id (tb_persons d))" and "d' = d\<lparr>tb_persons := tb_persons d @ [p]\<rparr>"
  shows "tables_ok d'" and "owner d' = owner d" and "alive d org i \<Longrightarrow> alive d' org i" and "pn_id p \<notin> ran (owner d)"
proof -
  have no_row: "person_row d (pn_id p) = None"
  proof (cases "person_row d (pn_id p)")
    case (Some q)
    from person_row_Some [OF this] assms(2) show ?thesis by (metis imageI set_map)
  qed
  have row: "person_row d' i = (if i = pn_id p then Some p else person_row d i)" for i
    using no_row by (simp add: assms(3) person_row_def find_snoc split: option.split)
  have alive_iff: "alive d' org i \<longleftrightarrow> alive d org i \<or> i = pn_id p \<and> org = pn_org_id p \<and> pn_merged_into_id p = None" for org i
    by (auto simp: alive_def assms(3))
  then show "alive d org i \<Longrightarrow> alive d' org i" by simp
  have other: "pi_person_id x \<noteq> pn_id p" if x: "x \<in> set (tb_identities d)" for x
  proof -
    obtain org where "alive d org (pi_person_id x)" using x assms(1) by (auto simp: tables_ok_def)
    then show ?thesis using assms(2) by (auto simp: alive_def image_iff)
  qed
  show ok: "tables_ok d'"
  proof (rule tables_okI)
    show "distinct (map pn_id (tb_persons d'))" using assms by (auto simp: tables_ok_def)
    show "\<exists>org. alive d' org (pi_person_id x)" if "x \<in> set (tb_identities d')" for x
      using that assms(1,3) alive_iff by (auto simp: tables_ok_def)
    have "map (\<lambda>x. (map_option pn_org_id (person_row d' (pi_person_id x)), pi_distinct_id x)) (tb_identities d')
        = map (\<lambda>x. (map_option pn_org_id (person_row d (pi_person_id x)), pi_distinct_id x)) (tb_identities d)"
      using other by (simp add: assms(3) row [unfolded assms(3)])
    then show "distinct (map (\<lambda>x. (map_option pn_org_id (person_row d' (pi_person_id x)), pi_distinct_id x)) (tb_identities d'))"
      using assms(1) by (simp add: tables_ok_def)
  qed
  show "owner d' = owner d"
    using other alive_iff by (intro owner_eqI [OF ok]) (auto simp: owner_iff [OF assms(1)] assms(3))
  show "pn_id p \<notin> ran (owner d)"
    using other by (auto simp: ran_def owner_iff [OF assms(1)])
qed

lemma add_identity_ok:
  assumes "tables_ok d" and "alive d org (pi_person_id x)" and "owner d (org, pi_distinct_id x) = None"
    and "d' = d\<lparr>tb_identities := tb_identities d @ [x]\<rparr>"
  shows "tables_ok d'" and "owner d' = (owner d)((org, pi_distinct_id x) \<mapsto> pi_person_id x)" and "alive d' = alive d"
proof -
  have same: "alive d' = alive d" "person_row d' = person_row d"
    by (simp_all add: fun_eq_iff alive_def person_row_def assms(4))
  then show "alive d' = alive d" by simp
  let ?key = "\<lambda>x. (map_option pn_org_id (person_row d (pi_person_id x)), pi_distinct_id x)"
  have org_row: "map_option pn_org_id (person_row d i) = Some o'" if "alive d o' i" for o' i
    using alive_row [OF assms(1) that] by auto
  show ok: "tables_ok d'"
  proof (rule tables_okI)
    show "distinct (map pn_id (tb_persons d'))" using assms by (simp add: tables_ok_def)
    show "\<exists>o'. alive d' o' (pi_person_id y)" if "y \<in> set (tb_identities d')" for y
      using that assms(1,2,4) same by (auto simp: tables_ok_def)
    have "?key y \<noteq> (Some org, pi_distinct_id x)"
      if y: "y \<in> set (tb_identities d)" for y
    proof -
      obtain o' where o': "alive d o' (pi_person_id y)" using assms(1) y by (auto simp: tables_ok_def)
      with assms(3) y org_row [OF o'] show ?thesis by (auto simp: owner_None_iff [OF assms(1)])
    qed
    then have "(Some org, pi_distinct_id x) \<notin> ?key ` set (tb_identities d)" unfolding image_iff by metis
    then have "distinct (map ?key (tb_identities d'))" using assms(1) by (simp add: tables_ok_def assms(4) org_row [OF assms(2)])
    then show "distinct (map (\<lambda>x. (map_option pn_org_id (person_row d' (pi_person_id x)), pi_distinct_id x)) (tb_identities d'))"
      by (simp add: same)
  qed
  have ids: "tb_identities d' = tb_identities d @ [x]" by (simp add: assms(4))
  show "owner d' = (owner d)((org, pi_distinct_id x) \<mapsto> pi_person_id x)"
  proof (rule owner_eqI [OF ok])
    fix k :: key and i
    show "((owner d)((org, pi_distinct_id x) \<mapsto> pi_person_id x)) k = Some i \<longleftrightarrow>
        (\<exists>y \<in> set (tb_identities d'). pi_person_id y = i \<and> pi_distinct_id y = snd k \<and> alive d' (fst k) i)"
    proof (cases "k = (org, pi_distinct_id x)")
      case True
      then show ?thesis using assms(2,3) by (auto simp: same ids owner_None_iff [OF assms(1)])
    next
      case False
      then have "\<not> (pi_distinct_id x = snd k \<and> alive d (fst k) (pi_person_id x))"
        using alive_org [OF assms(1) assms(2), of "fst k"] by (cases k) auto
      with False show ?thesis by (auto simp: same ids owner_iff [OF assms(1)])
    qed
  qed
qed

definition merged_owner :: "(key \<Rightarrow> uuid option) \<Rightarrow> uuid \<Rightarrow> uuid \<Rightarrow> key \<Rightarrow> uuid option" where
  "merged_owner f loser winner k = (if f k = Some loser then Some winner else f k)"

lemma transfer_ok:
  assumes "tables_ok d" and "alive d org loser" and "alive d org winner"
    and "d' = d\<lparr>tb_identities := map (\<lambda>x. if pi_person_id x = loser then x\<lparr>pi_person_id := winner\<rparr> else x) (tb_identities d)\<rparr>"
  shows "tables_ok d'" and "owner d' = merged_owner (owner d) loser winner" and "alive d' = alive d"
    and "distinct (map (\<lambda>x. (pi_person_id x, pi_distinct_id x)) (tb_identities d'))"
proof -
  have same: "alive d' = alive d" "person_row d' = person_row d"
    by (simp_all add: fun_eq_iff alive_def person_row_def assms(4))
  then show "alive d' = alive d" by simp
  let ?key = "\<lambda>x. (map_option pn_org_id (person_row d (pi_person_id x)), pi_distinct_id x)"
  have "map_option pn_org_id (person_row d i) = Some org" if "alive d org i" for i
    using alive_row [OF assms(1) that] by auto
  from this [OF assms(2)] this [OF assms(3)] have keys: "map ?key (tb_identities d') = map ?key (tb_identities d)"
    by (auto simp: assms(4))
  show ok: "tables_ok d'"
  proof (rule tables_okI)
    show "distinct (map pn_id (tb_persons d'))" using assms by (simp add: tables_ok_def)
    show "\<exists>o'. alive d' o' (pi_person_id y)" if "y \<in> set (tb_identities d')" for y
      using that assms same by (auto simp: tables_ok_def)
    show "distinct (map (\<lambda>x. (map_option pn_org_id (person_row d' (pi_person_id x)), pi_distinct_id x)) (tb_identities d'))"
      using assms(1) keys by (simp add: tables_ok_def same)
  qed
  show "distinct (map (\<lambda>x. (pi_person_id x, pi_distinct_id x)) (tb_identities d'))"
  proof -
    have "distinct (map ((\<lambda>t. (map_option pn_org_id (person_row d (fst t)), snd t)) \<circ> (\<lambda>x. (pi_person_id x, pi_distinct_id x))) (tb_identities d'))"
      using ok by (simp add: tables_ok_def same comp_def)
    then show ?thesis unfolding distinct_map by (auto simp: inj_on_def)
  qed
  have org: "fst k = org" if "alive d (fst k) i" "i = loser \<or> i = winner" for k i
    using alive_org [OF assms(1)] assms(2,3) that by blast
  show "owner d' = merged_owner (owner d) loser winner"
  proof (rule owner_eqI [OF ok])
    fix k :: key and i
    let ?has = "\<lambda>j. \<exists>x \<in> set (tb_identities d). pi_person_id x = j \<and> pi_distinct_id x = snd k"
    have f: "owner d k = Some j \<longleftrightarrow> ?has j \<and> alive d (fst k) j" for j using owner_iff [OF assms(1)] by auto
    have "(\<exists>y \<in> set (tb_identities d'). pi_person_id y = i \<and> pi_distinct_id y = snd k) \<longleftrightarrow> (if i = winner then ?has loser \<or> ?has winner else i \<noteq> loser \<and> ?has i)"
    proof -
      have "(\<exists>y \<in> set (tb_identities d'). P y) \<longleftrightarrow> (\<exists>x \<in> set (tb_identities d). P (if pi_person_id x = loser then x\<lparr>pi_person_id := winner\<rparr> else x))" for P
        unfolding assms(4) by (simp add: bex_simps(7) image_def flip: ex_simps) blast
      then show ?thesis by (auto split: if_splits)
    qed
    moreover have "alive d (fst k) loser \<longleftrightarrow> alive d (fst k) winner" using org assms(2,3) by metis
    moreover have "merged_owner (owner d) loser winner k = Some i \<longleftrightarrow> (if i = winner then owner d k = Some loser \<or> owner d k = Some winner else i \<noteq> loser \<and> owner d k = Some i)"
      by (auto simp: merged_owner_def)
    ultimately show "merged_owner (owner d) loser winner k = Some i \<longleftrightarrow>
        (\<exists>y \<in> set (tb_identities d'). pi_person_id y = i \<and> pi_distinct_id y = snd k \<and> alive d' (fst k) i)"
      using f same by (auto split: if_splits)
  qed
qed


section \<open>What the statements guarantee\<close>

lemma safe_select: "(\<And>e. E (DatabaseError e) d) \<Longrightarrow> Q (f d) d \<Longrightarrow> safe faults (select f) d Q E"
  by (rule safe_query) simp_all

lemma safe_create_person:
  "(\<And>e. E e d) \<Longrightarrow> (pn_id p \<notin> set (map pn_id (tb_persons d)) \<Longrightarrow> Q () (d\<lparr>tb_persons := tb_persons d @ [p]\<rparr>)) \<Longrightarrow>
   safe faults (create_person p) d Q E"
  unfolding create_person_def by (rule safe_query) (auto split: if_splits)

lemma safe_create_identity:
  "(\<And>e. E e d) \<Longrightarrow>
   ((pi_person_id x, pi_distinct_id x) \<notin> set (map (\<lambda>y. (pi_person_id y, pi_distinct_id y)) (tb_identities d)) \<Longrightarrow> Q () (d\<lparr>tb_identities := tb_identities d @ [x]\<rparr>)) \<Longrightarrow>
   safe faults (create_identity x) d Q E"
  unfolding create_identity_def by (rule safe_query) (auto split: if_splits)

definition write_person :: "'j person \<Rightarrow> 'j analytics_tables \<Rightarrow> 'j analytics_tables" where
  "write_person p d = d\<lparr>tb_persons := map (\<lambda>q. if pn_id q = pn_id p
     then q\<lparr>pn_properties := pn_properties p, pn_updated_at := pn_updated_at p, pn_merged_into_id := pn_merged_into_id p, pn_merged_at := pn_merged_at p\<rparr>
     else q) (tb_persons d)\<rparr>"

lemma safe_update_person: "(\<And>e. E e d) \<Longrightarrow> Q () (write_person p d) \<Longrightarrow> safe faults (update_person p) d Q E"
  unfolding update_person_def write_person_def by (rule safe_query) (auto split: if_splits)

lemma safe_reassign_events:
  "(\<And>e. E e d) \<Longrightarrow>
   (\<And>n. Q n (d\<lparr>tb_events := map (\<lambda>e. if ev_person_id e = Some source then e\<lparr>ev_person_id := Some target\<rparr> else e) (tb_events d)\<rparr>)) \<Longrightarrow>
   safe faults (reassign_events source target) d Q E"
  unfolding reassign_events_def Let_def by (rule safe_query) (auto split: if_splits)

lemma safe_transfer_identities:
  assumes "d' = d\<lparr>tb_identities := map (\<lambda>x. if pi_person_id x = source then x\<lparr>pi_person_id := target\<rparr> else x) (tb_identities d)\<rparr>"
    and "distinct (map (\<lambda>x. (pi_person_id x, pi_distinct_id x)) (tb_identities d'))" and "target \<in> set (map pn_id (tb_persons d))"
    and "\<And>e. faults \<Longrightarrow> E e d" and "\<And>n. Q n d'"
  shows "safe faults (transfer_identities source target) d Q E"
  unfolding transfer_identities_def Let_def using assms by (intro safe_query) (auto split: if_splits)

lemma safe_list_identities: "(\<And>e. E e d) \<Longrightarrow> (\<And>is. Q is d) \<Longrightarrow> safe faults (list_identities_for_person i) d Q E"
  unfolding list_identities_for_person_def by (rule safe_select)

lemma holds_other_tables:
  "holds faults f d \<Longrightarrow> holds faults f (d\<lparr>tb_merges := ms\<rparr>)" "holds faults f d \<Longrightarrow> holds faults f (d\<lparr>tb_api_keys := ks\<rparr>)"
  using same_persons(1,2) [of "d\<lparr>tb_merges := ms\<rparr>" d] same_persons(1,2) [of "d\<lparr>tb_api_keys := ks\<rparr>" d]
  by (auto simp: holds_def attributed_def)

lemma safe_create_merge:
  "holds faults f d \<Longrightarrow> (\<And>e. E e d) \<Longrightarrow> (\<And>d'. holds faults f d' \<Longrightarrow> Q () d') \<Longrightarrow> safe faults (create_merge m) d Q E"
  unfolding create_merge_def by (rule safe_query) (auto split: if_splits intro: holds_other_tables)

lemma safe_get_identity:
  assumes "holds faults f d" and "\<And>e. E e d" and "f (org, x) = None \<Longrightarrow> Q None d"
    and "\<And>y. f (org, x) = Some (pi_person_id y) \<Longrightarrow> alive d org (pi_person_id y) \<Longrightarrow> Q (Some y) d"
  shows "safe faults (get_identity_by_distinct_id org x) d Q E"
  unfolding get_identity_by_distinct_id_def
proof (rule safe_select)
  have f: "map_option pi_person_id (identity_row d org x) = f (org, x)" "tables_ok d"
    using assms(1) by (auto simp: holds_def owner_def)
  show "Q (identity_row d org x) d"
  proof (cases "identity_row d org x")
    case (Some y)
    then have "f (org, x) = Some (pi_person_id y)" using f by simp
    moreover have "alive d org (pi_person_id y)" using owner_alive [OF f(2), of "(org, x)"] Some by (simp add: owner_def)
    ultimately show ?thesis using assms(4) Some by simp
  qed (use f assms(3) in simp)
qed (rule assms(2))

lemma safe_existing_person:
  assumes "tables_ok d" and "alive d org i" and "\<And>e. E e d"
    and "\<And>p. person_row d i = Some p \<Longrightarrow> pn_id p = i \<Longrightarrow> pn_org_id p = org \<Longrightarrow> pn_merged_into_id p = None \<Longrightarrow> Q p d"
  shows "safe faults (existing msg (get_person_by_id i)) d Q E"
  using alive_row [OF assms(1,2)] assms(3,4)
  by (auto simp: existing_def get_person_by_id_def intro!: safe_bind safe_select safe_ret)

lemma safe_existing_with_identities:
  assumes "tables_ok d" and "alive d org i" and "\<And>e. E e d"
    and "\<And>p is. person_row d i = Some p \<Longrightarrow> pn_id p = i \<Longrightarrow> pn_org_id p = org \<Longrightarrow> pn_merged_into_id p = None \<Longrightarrow> Q (p, is) d"
  shows "safe faults (existing msg (get_person_with_identities i)) d Q E"
  using alive_row [OF assms(1,2)] assms(3,4)
  by (auto simp: existing_def get_person_with_identities_def get_person_by_id_def list_identities_for_person_def
      intro!: safe_bind safe_select safe_ret)

lemma safe_with_current_identities: "(\<And>e. E e d) \<Longrightarrow> (\<And>is. Q (p, is) d) \<Longrightarrow> safe faults (with_current_identities p) d Q E"
  by (auto simp: with_current_identities_def list_identities_for_person_def intro!: safe_bind safe_select safe_ret)

definition person_view :: "'j person \<Rightarrow> uuid \<times> uuid \<times> uuid option" where
  "person_view p = (pn_id p, pn_org_id p, pn_merged_into_id p)"

text \<open>Writing back a person that was read and neither merged nor renamed keeps the assignment.\<close>

lemma safe_update_same:
  assumes "holds faults f d" and "person_row d (pn_id p) = Some q" and "pn_merged_into_id p = pn_merged_into_id q" and "\<And>e. E e d"
    and "\<And>d'. holds faults f d' \<Longrightarrow> alive d' = alive d \<Longrightarrow> tb_events d' = tb_events d \<Longrightarrow> Q () d'"
  shows "safe faults (update_person p) d Q E"
proof (rule safe_update_person, rule assms(4), rule assms(5))
  have "r = q" if "r \<in> set (tb_persons d)" "pn_id r = pn_id p" for r
    using person_row_unique [OF _ that(1)] assms(1,2) that(2) by (simp add: holds_def tables_ok_def)
  then have "map (\<lambda>p. (pn_id p, pn_org_id p, pn_merged_into_id p)) (tb_persons (write_person p d)) = map (\<lambda>p. (pn_id p, pn_org_id p, pn_merged_into_id p)) (tb_persons d)"
    using assms(3) by (auto simp: write_person_def)
  from same_persons [OF _ this] assms(1) show "holds faults f (write_person p d)" "alive (write_person p d) = alive d"
    by (auto simp: holds_def write_person_def attributed_def)
  show "tb_events (write_person p d) = tb_events d" by (simp add: write_person_def)
qed

lemma safe_apply_properties:
  assumes "holds faults f d" and "person_row d (pn_id p) = Some p" and "\<And>e. E e d"
    and "\<And>p' d'. holds faults f d' \<Longrightarrow> alive d' = alive d \<Longrightarrow> pn_id p' = pn_id p \<Longrightarrow> Q p' d'"
  shows "safe faults (apply_properties props p) d Q E"
  unfolding apply_properties_def Let_def using assms
  by (auto intro!: safe_rules(3,5,1) safe_update_same [of faults f d _ p] simp: set_properties_def)

lemma safe_add_person:
  assumes "holds faults f d" and "\<And>i t. person_view (prepare (person_new i t org)) = (i, org, None)" and "\<And>e. E e d"
    and "\<And>p d'. holds faults f d' \<Longrightarrow> alive d' org (pn_id p) \<Longrightarrow> pn_id p \<notin> ran f \<Longrightarrow> pn_merged_into_id p = None \<Longrightarrow> Q p d'"
  shows "safe faults (add_person org prepare) d Q E"
  unfolding add_person_def Let_def
proof (intro safe_bind safe_now safe_draw_uuid safe_create_person assms(3) safe_ret)
  fix t i
  let ?p = "prepare (person_new i t org)"
  let ?d = "d\<lparr>tb_persons := tb_persons d @ [?p]\<rparr>"
  assume new: "pn_id ?p \<notin> set (map pn_id (tb_persons d))"
  note ok = add_person_ok [OF _ new refl]
  from assms(1) ok have "holds faults f ?d" by (auto simp: holds_def attributed_def)
  moreover have "alive ?d org (pn_id ?p)" using assms(2) [of i t] by (auto simp: alive_def person_view_def)
  moreover have "pn_id ?p \<notin> ran f" using ok(4) assms(1) by (simp add: holds_def)
  moreover have "pn_merged_into_id ?p = None" using assms(2) [of i t] by (simp add: person_view_def)
  ultimately show "Q ?p ?d" by (intro assms(4))
qed

lemma safe_add_identity:
  assumes "holds faults f d" and "alive d org i" and "f (org, x) = None" and "\<And>e. E e d"
    and "\<And>y d'. holds faults (f((org, x) \<mapsto> i)) d' \<Longrightarrow> alive d' = alive d \<Longrightarrow> Q y d'"
  shows "safe faults (add_identity i x ty) d Q E"
  unfolding add_identity_def Let_def
proof (intro safe_bind safe_now safe_draw_uuid safe_create_identity assms(4) safe_ret)
  fix j t
  let ?y = "identity_new j t i x ty"
  let ?d = "d\<lparr>tb_identities := tb_identities d @ [?y]\<rparr>"
  have y: "pi_person_id ?y = i" "pi_distinct_id ?y = x" by (simp_all add: identity_new_def)
  note ok = add_identity_ok [OF _ _ _ refl, of d org ?y, unfolded y]
  have "attributed ?d" if "attributed d"
    using that ok(2) assms(1-3) by (fastforce simp: attributed_def holds_def)
  then have "holds faults (f((org, x) \<mapsto> i)) ?d" using assms(1-3) ok by (auto simp: holds_def)
  then show "Q ?y ?d" using assms(1-3) ok(3) by (intro assms(5)) (auto simp: holds_def)
qed

text \<open>A second identity of the same person and key violates the unique constraint.\<close>

lemma safe_add_identity_twice:
  assumes "holds faults f d" and "f (org, x) = Some i" and "\<And>e. E e d"
  shows "safe faults (add_identity i x ty) d Q E"
  unfolding add_identity_def Let_def
proof (intro safe_bind safe_now safe_draw_uuid safe_create_identity assms(3))
  fix j t
  let ?y = "identity_new j t i x ty"
  assume new: "(pi_person_id ?y, pi_distinct_id ?y) \<notin> set (map (\<lambda>y. (pi_person_id y, pi_distinct_id y)) (tb_identities d))"
  have "owner d (org, x) = Some i" using assms(1,2) by (simp add: holds_def)
  then obtain y where "y \<in> set (tb_identities d)" "pi_person_id y = i" "pi_distinct_id y = x"
    using assms(1) owner_iff [of d "(org, x)" i] by (auto simp: holds_def)
  then have False using new by (force simp: identity_new_def)
  then show "safe faults (ret ?y) (d\<lparr>tb_identities := tb_identities d @ [?y]\<rparr>) Q E" ..
qed

text \<open>Marking a person without identities as merged keeps the assignment.\<close>

lemma retire_ok:
  assumes "tables_ok d" and "\<And>x. x \<in> set (tb_identities d) \<Longrightarrow> pi_person_id x \<noteq> i"
    and "tb_identities d' = tb_identities d" and "tb_persons d' = map (\<lambda>q. if pn_id q = i then h q else q) (tb_persons d)"
    and "\<And>q. pn_id (h q) = pn_id q"
  shows "tables_ok d'" and "owner d' = owner d"
proof -
  have alive: "alive d' org j = alive d org j" if "j \<noteq> i" for org j
    using that assms(5) by (auto simp: alive_def assms(4))
  have ids: "map pn_id (tb_persons d') = map pn_id (tb_persons d)" by (simp add: assms(4,5))
  have row: "person_row d' j = person_row d j" if "j \<noteq> i" for j
  proof -
    have "List.find (\<lambda>p. pn_id p = j) (map (\<lambda>q. if pn_id q = i then h q else q) ps) = List.find (\<lambda>p. pn_id p = j) ps" for ps
      using that assms(5) by (induction ps) auto
    then show ?thesis by (simp add: person_row_def assms(4))
  qed
  show ok: "tables_ok d'"
  proof (rule tables_okI)
    show "distinct (map pn_id (tb_persons d'))" using assms(1) ids by (simp add: tables_ok_def)
    show "\<exists>org. alive d' org (pi_person_id x)" if "x \<in> set (tb_identities d')" for x
      using that assms(1-3) alive by (auto simp: tables_ok_def)
    have "map (\<lambda>x. (map_option pn_org_id (person_row d' (pi_person_id x)), pi_distinct_id x)) (tb_identities d')
        = map (\<lambda>x. (map_option pn_org_id (person_row d (pi_person_id x)), pi_distinct_id x)) (tb_identities d)"
      using assms(2) by (simp add: assms(3) row)
    then show "distinct (map (\<lambda>x. (map_option pn_org_id (person_row d' (pi_person_id x)), pi_distinct_id x)) (tb_identities d'))"
      using assms(1) by (simp add: tables_ok_def)
  qed
  show "owner d' = owner d"
    using assms(2) alive by (intro owner_eqI [OF ok]) (auto simp: owner_iff [OF assms(1)] assms(3))
qed

lemma attributed_transfer:
  assumes "attributed d" and "owner d' = merged_owner (owner d) loser winner"
    and "tb_events d' = map (\<lambda>e. if ev_person_id e = Some loser then e\<lparr>ev_person_id := Some winner\<rparr> else e) (tb_events d)"
  shows "attributed d'"
  using assms(1) unfolding attributed_def assms(2,3) by (auto simp: merged_owner_def split: if_splits)

lemma retire_loser:
  assumes d: "holds faults (merged_owner f loser winner) d" and "winner \<noteq> loser" and l: "pn_id l = loser"
  shows "holds faults (merged_owner f loser winner) (write_person (merge_into t t' winner l) d)"
proof -
  let ?d = "write_person (merge_into t t' winner l) d"
  have ok: "tables_ok d" using d by (simp add: holds_def)
  have free: "pi_person_id x \<noteq> loser" if x: "x \<in> set (tb_identities d)" for x
  proof -
    obtain org where "alive d org (pi_person_id x)" using ok x by (auto simp: tables_ok_def)
    then have "merged_owner f loser winner (org, pi_distinct_id x) = Some (pi_person_id x)"
      using d x owner_iff [OF ok, of "(org, pi_distinct_id x)"] by (auto simp: holds_def)
    then show ?thesis using assms(2) by (auto simp: merged_owner_def split: if_splits)
  qed
  have same: "tb_identities ?d = tb_identities d" "tb_events ?d = tb_events d" by (simp_all add: write_person_def)
  have persons: "tb_persons ?d = map (\<lambda>q. if pn_id q = loser then q\<lparr>pn_properties := pn_properties l, pn_updated_at := t',
      pn_merged_into_id := Some winner, pn_merged_at := Some t\<rparr> else q) (tb_persons d)"
    by (simp add: write_person_def merge_into_def l)
  from retire_ok [OF ok free same(1) persons] d same(2) show ?thesis by (auto simp: holds_def attributed_def)
qed

lemma safe_move_person_rows:
  assumes "holds faults f d" and "alive d org winner" and "alive d org loser"
    and "\<And>e d'. holds faults f d' \<Longrightarrow> E e d'" and "\<And>n d'. holds faults (merged_owner f loser winner) d' \<Longrightarrow> Q n d'"
  shows "safe faults (move_person_rows loser winner) d Q E"
  unfolding move_person_rows_def
proof (intro safe_bind safe_reassign_events)
  let ?d2 = "d\<lparr>tb_events := map (\<lambda>e. if ev_person_id e = Some loser then e\<lparr>ev_person_id := Some winner\<rparr> else e) (tb_events d)\<rparr>"
  let ?d3 = "?d2\<lparr>tb_identities := map (\<lambda>x. if pi_person_id x = loser then x\<lparr>pi_person_id := winner\<rparr> else x) (tb_identities ?d2)\<rparr>"
  have d2: "tables_ok ?d2" "owner ?d2 = f" "alive ?d2 = alive d"
    using assms(1) same_persons [of ?d2 d] by (simp_all add: holds_def)
  note moved = transfer_ok [OF d2(1), of org loser winner ?d3]
  have d3: "holds faults (merged_owner f loser winner) ?d3" "distinct (map (\<lambda>x. (pi_person_id x, pi_distinct_id x)) (tb_identities ?d3))"
    using moved d2 assms(1-3) attributed_transfer [of d ?d3 loser winner] by (auto simp: holds_def)
  have "alive ?d2 org winner" using d2(3) assms(2) by simp
  then have "winner \<in> set (map pn_id (tb_persons ?d2))" by (auto simp: alive_def)
  then show "safe faults (transfer_identities loser winner) ?d2 (\<lambda>m d'. safe faults (ret (n, m)) d' Q E) E" for n
    using d3 d2 assms(4) [of ?d2] by (intro safe_transfer_identities [OF refl]) (auto simp: holds_def intro!: safe_ret assms(5))
qed (use assms(1,4) in auto)

lemma safe_merge_persons:
  assumes "holds faults f d" and "alive d org winner" and "alive d org loser" and "winner \<noteq> loser"
    and "\<And>e d'. holds faults f d' \<or> holds faults (merged_owner f loser winner) d' \<Longrightarrow> E e d'"
    and "\<And>p d'. holds faults (merged_owner f loser winner) d' \<Longrightarrow> pn_id (fst p) = winner \<Longrightarrow> Q p d'"
  shows "safe faults (merge_persons winner loser reason additional) d Q E"
proof -
  let ?f = "merged_owner f loser winner"
  have ok: "tables_ok d" using assms(1) by (simp add: holds_def)
  have E: "holds faults f d' \<Longrightarrow> E e d'" "holds faults ?f d' \<Longrightarrow> E e d'" for e d' using assms(5) by blast+
  have retire: "safe faults (retire_person winner l) d' (\<lambda>_. holds faults ?f) E" if "holds faults ?f d'" "pn_id l = loser" for l d'
    unfolding retire_person_def by (intro safe_bind safe_now safe_update_person E(2) that retire_loser assms(4))
  have finish: "safe faults (bind (retire_person winner l) (\<lambda>_. bind (record_merge winner loser reason) (\<lambda>_.
      bind (list_identities_for_person winner) (\<lambda>is. ret (p, is))))) d' Q E"
    if "holds faults ?f d'" and "pn_id p = winner" and "pn_id l = loser" for p l d'
    using that E(2) assms(6) unfolding record_merge_def
    by (intro safe_bind safe_conseq [OF retire])
      (auto intro!: safe_bind safe_draw_uuid safe_now safe_create_merge [of _ ?f] safe_list_identities safe_ret)
  have update: "safe faults (bind (update_person p) (\<lambda>_. bind (move_person_rows loser winner) (\<lambda>_.
      bind (retire_person winner l) (\<lambda>_. bind (record_merge winner loser reason) (\<lambda>_.
      bind (list_identities_for_person winner) (\<lambda>is. ret (p, is))))))) d Q E"
    if "person_row d winner = Some q" "person_view p = (winner, org, pn_merged_into_id q)" "pn_id l = loser" for p q l
    using that assms(1-3) E
    by (intro safe_bind [of _ "update_person p"] safe_update_same [OF assms(1), of p q] safe_bind [of _ "move_person_rows loser winner"]
        safe_move_person_rows [where f = f and org = org] finish) (auto simp: person_view_def)
  show ?thesis unfolding merge_persons_def Let_def
    by (intro safe_bind safe_existing_person [OF ok assms(2)] safe_existing_person [OF ok assms(3)] safe_option safe_ret safe_now update)
      (auto simp: E assms(1) person_view_def set_properties_def)
qed

section \<open>The abstract machine: a growing partition\<close>

text \<open>What a call about the keys \<^verbatim>\<open>x\<close> and \<^verbatim>\<open>y\<close> may do to the assignment of keys to owners.\<close>

inductive assigns :: "('k \<Rightarrow> 'p option) \<Rightarrow> 'k \<Rightarrow> 'k \<Rightarrow> ('k \<Rightarrow> 'p option) \<Rightarrow> bool" where
  assigns_nothing: "assigns f x y f"
| assigns_first: "f x = None \<Longrightarrow> p \<notin> ran f \<Longrightarrow> assigns f x y (f(x \<mapsto> p))"
| assigns_both: "f x = None \<Longrightarrow> f y = None \<Longrightarrow> p \<notin> ran f \<Longrightarrow> assigns f x y (f(x \<mapsto> p, y \<mapsto> p))"
| assigns_join_right: "f x = None \<Longrightarrow> f y = Some p \<Longrightarrow> assigns f x y (f(x \<mapsto> p))"
| assigns_join_left: "f x = Some p \<Longrightarrow> f y = None \<Longrightarrow> assigns f x y (f(y \<mapsto> p))"
| assigns_merge: "f x = Some a \<Longrightarrow> f y = Some b \<Longrightarrow> {a, b} = {l, w} \<Longrightarrow>
    assigns f x y (\<lambda>k. if f k = Some l then Some w else f k)"

definition together :: "('k \<Rightarrow> 'p option) \<Rightarrow> ('k \<times> 'k) set" where
  "together f = {(u, v). \<exists>p. f u = Some p \<and> f v = Some p}"

lemma together_trans: "(u, v) \<in> together f \<Longrightarrow> (v, w) \<in> together f \<Longrightarrow> (u, w) \<in> together f"
  by (auto simp: together_def)

lemma together_sym: "(u, v) \<in> together f \<Longrightarrow> (v, u) \<in> together f"
  by (auto simp: together_def)

lemma assigns_keeps: "assigns f x y g \<Longrightarrow> together f \<subseteq> together g"
  by (induction rule: assigns.induct) (auto simp: together_def ran_def split: if_splits)

lemma assigns_joins_only:
  assumes "assigns f x y g"
  shows "together g \<subseteq> (together f \<union> {(x, y), (y, x)})\<^sup>*"
proof clarify
  fix u v
  assume uv: "(u, v) \<in> together g"
  let ?R = "together f \<union> {(x, y), (y, x)}"
  have link: "(x, y) \<in> ?R\<^sup>*" "(y, x) \<in> ?R\<^sup>*" by blast+
  have old: "(a, b) \<in> ?R\<^sup>*" if "f a = Some p" "f b = Some p" for a b p
    using that by (intro r_into_rtrancl) (auto simp: together_def)
  obtain q where q: "g u = Some q" "g v = Some q" using uv by (auto simp: together_def)
  show "(u, v) \<in> ?R\<^sup>*"
  proof (cases "u = v")
    case False
    from assms show ?thesis
    proof cases
      case (assigns_first p)
      then show ?thesis using q False by (intro old [of u q v]) (auto simp: ran_def split: if_splits)
    next
      case (assigns_both p)
      then show ?thesis using q False link old [of u q v] by (auto simp: ran_def split: if_splits)
    next
      case (assigns_join_right p)
      then show ?thesis using q False link old [of u q v] rtrancl_trans [OF old [of u p y] link(2)] rtrancl_trans [OF link(1) old [of y p v]]
        by (auto split: if_splits)
    next
      case (assigns_join_left p)
      then show ?thesis using q False link old [of u q v] rtrancl_trans [OF old [of u p x] link(1)] rtrancl_trans [OF link(2) old [of x p v]]
        by (auto split: if_splits)
    next
      case (assigns_merge a b l w)
      then have "f u = f v \<or> (f u = Some a \<and> f v = Some b) \<or> (f u = Some b \<and> f v = Some a)" and "f u \<noteq> None"
        using q by (auto simp: doubleton_eq_iff split: if_splits)
      then show ?thesis using assigns_merge rtrancl_trans [OF old [of u a x] rtrancl_trans [OF link(1) old [of y b v]]]
          rtrancl_trans [OF old [of u b y] rtrancl_trans [OF link(2) old [of x a v]]] old [of u _ v] by auto
    qed (use q old in blast)
  qed simp
qed


section \<open>The service implements the machine\<close>

definition result_of :: "bool \<Rightarrow> (key \<Rightarrow> uuid option) \<Rightarrow> key \<Rightarrow> key \<Rightarrow> 'j person_with_identities \<Rightarrow> 'j analytics_tables \<Rightarrow> bool" where
  "result_of faults f x y p d \<longleftrightarrow> (\<exists>g. holds faults g d \<and> assigns f x y g \<and> g x = Some (pn_id (fst p)) \<and> g y = Some (pn_id (fst p)))"

definition left_by :: "bool \<Rightarrow> (key \<Rightarrow> uuid option) \<Rightarrow> key \<Rightarrow> key \<Rightarrow> 'j analytics_tables \<Rightarrow> bool" where
  "left_by faults f x y d \<longleftrightarrow> (\<exists>g. holds faults g d \<and> assigns f x y g)"

lemma left_byI: "holds faults g d \<Longrightarrow> assigns f x y g \<Longrightarrow> left_by faults f x y d"
  by (auto simp: left_by_def)

lemma result_ofI: "holds faults g d \<Longrightarrow> assigns f x y g \<Longrightarrow> g x = Some (pn_id (fst p)) \<Longrightarrow> g y = Some (pn_id (fst p)) \<Longrightarrow> result_of faults f x y p d"
  by (auto simp: result_of_def)

lemma person_view_new: "person_view (id (person_new i t org)) = (i, org, None)" "person_view (with_properties props (person_new i t org)) = (i, org, None)"
  by (simp_all add: person_view_def person_new_def with_properties_def)

lemma safe_resolve:
  assumes "holds faults f d"
  shows "safe faults (resolve_person_for_distinct_id org x) d
    (\<lambda>p d'. result_of faults f (org, x) (org, x) p d' \<and> pn_merged_into_id (fst p) = None) (\<lambda>_. left_by faults f (org, x) (org, x))"
proof -
  let ?k = "(org, x)"
  note start = left_byI [OF assms assigns_nothing]
  have ok: "tables_ok d" using assms by (simp add: holds_def)
  have create: "safe faults (bind (add_person org id) (\<lambda>p. bind (add_identity (pn_id p) x Anonymous) (\<lambda>y. ret (p, [y])))) d
      (\<lambda>p d'. result_of faults f ?k ?k p d' \<and> pn_merged_into_id (fst p) = None) (\<lambda>_. left_by faults f ?k ?k)" if "f ?k = None"
    using that start
    by (intro safe_bind safe_add_person [OF assms person_view_new(1)] safe_add_identity [where f = f and org = org] safe_ret)
      (auto intro: left_byI [OF _ assigns_nothing] result_ofI [OF _ assigns_first])
  have found: "safe faults (bind (get_person_with_identities i) (\<lambda>row. case row of
       None \<Rightarrow> m | Some p \<Rightarrow> (case pn_merged_into_id (fst p) of
         None \<Rightarrow> ret p
       | Some winner \<Rightarrow> bind (get_person_with_identities winner) (\<lambda>w. case w of Some q \<Rightarrow> ret q | None \<Rightarrow> ret p)))) d
      (\<lambda>p d'. result_of faults f ?k ?k p d' \<and> pn_merged_into_id (fst p) = None) (\<lambda>_. left_by faults f ?k ?k)" if "f ?k = Some i" "alive d org i" for i m
    using that start alive_row [OF ok that(2)]
    by (auto simp: get_person_with_identities_def get_person_by_id_def list_identities_for_person_def
        intro!: safe_bind safe_select safe_ret result_ofI [OF assms assigns_nothing])
  show ?thesis unfolding resolve_person_for_distinct_id_def Let_def
    by (intro safe_bind safe_get_identity [OF assms]) (auto intro!: create found start)
qed


lemma determine_merge_winner_cases: "determine_merge_winner a b = (a, b) \<or> determine_merge_winner a b = (b, a)"
  by (auto simp: determine_merge_winner_def split: bool.split)

lemma assigns_merged_owner:
  "f x = Some a \<Longrightarrow> f y = Some b \<Longrightarrow> {a, b} = {loser, winner} \<Longrightarrow> assigns f x y (merged_owner f loser winner)"
  unfolding merged_owner_def by (rule assigns_merge)

lemma safe_merge_known:
  assumes "holds faults f d" and "f (org, x) = Some a" and "f (org, y) = Some b" and "alive d org a" and "alive d org b" and "a \<noteq> b"
  shows "safe faults (merge_known a b reason additional) d (result_of faults f (org, x) (org, y)) (\<lambda>_. left_by faults f (org, x) (org, y))"
proof -
  have ok: "tables_ok d" using assms(1) by (simp add: holds_def)
  have merge: "safe faults (merge_persons winner loser reason additional) d (result_of faults f (org, x) (org, y)) (\<lambda>_. left_by faults f (org, x) (org, y))"
    if "{a, b} = {loser, winner}" "winner \<noteq> loser" for winner loser
    using that assms assigns_merged_owner [OF assms(2,3) that(1)]
    by (intro safe_merge_persons [OF assms(1), of org])
      (auto simp: doubleton_eq_iff merged_owner_def intro: left_byI [OF _ assigns_nothing] left_byI intro!: result_ofI)
  have decide: "safe faults (let (winner, loser) = determine_merge_winner pa pb in merge_persons (pn_id (fst winner)) (pn_id (fst loser)) reason additional) d
      (result_of faults f (org, x) (org, y)) (\<lambda>_. left_by faults f (org, x) (org, y))" if "pn_id (fst pa) = a" "pn_id (fst pb) = b" for pa pb
    using determine_merge_winner_cases [of pa pb] that assms(6) merge [of a b] merge [of b a] by (auto simp: insert_commute)
  show ?thesis unfolding merge_known_def
    by (intro safe_bind safe_existing_with_identities [OF ok assms(4)] safe_existing_with_identities [OF ok assms(5)] decide)
      (auto intro: left_byI [OF assms(1) assigns_nothing])
qed

text \<open>The two new identities of a new person; the second fails when both are the same.\<close>

lemma safe_new_person_two:
  assumes "holds faults f d" and "f (org, x) = None" and "f (org, y) = None" and "\<And>i t. person_view (prepare (person_new i t org)) = (i, org, None)"
  shows "safe faults (bind (add_person org prepare) (\<lambda>p. bind (add_identity (pn_id p) x tx) (\<lambda>a. bind (add_identity (pn_id p) y ty) (\<lambda>b. ret (p, [a, b]))))) d
    (result_of faults f (org, x) (org, y)) (\<lambda>_. left_by faults f (org, x) (org, y))"
proof -
  have second: "safe faults (bind (add_identity i y ty) (\<lambda>b. ret (p, [c, b]))) d2
      (result_of faults f (org, x) (org, y)) (\<lambda>_. left_by faults f (org, x) (org, y))"
    if d2: "holds faults (f((org, x) \<mapsto> i)) d2" "alive d2 org i" and i: "i \<notin> ran f" "pn_id p = i" for i p c d2
  proof (cases "x = y")
    case True
    then show ?thesis using d2 assms(2) i
      by (intro safe_bind safe_add_identity_twice [OF d2(1), of org]) (auto intro: left_byI [OF _ assigns_first])
  next
    case False
    then show ?thesis using d2 assms(2,3) i
      by (intro safe_bind safe_add_identity [OF d2] safe_ret)
        (auto intro: left_byI [OF _ assigns_first] result_ofI [OF _ assigns_both])
  qed
  show ?thesis
    using assms(2) left_byI [OF assms(1) assigns_nothing]
    by (intro safe_bind [of _ "add_person org prepare"] safe_add_person [OF assms(1,4)])
      (auto intro!: safe_bind [of _ "add_identity _ x tx"] safe_add_identity [where f = f and org = org] second intro: left_byI [OF _ assigns_nothing])
qed

text \<open>One new identity for the person of the other key.\<close>

lemma safe_join:
  assumes "holds faults f d" and "alive d org (pn_id p)" and "f (org, x) = None"
    and "assigns f u v (f((org, x) \<mapsto> pn_id p))" and "{u, v} = {(org, x), (org, y)}" and "f (org, y) = Some (pn_id p)"
    and "left_by faults f u v d"
  shows "safe faults (bind (add_identity (pn_id p) x ty) (\<lambda>_. with_current_identities p)) d (result_of faults f u v) (\<lambda>_. left_by faults f u v)"
  using assms
  by (intro safe_bind safe_add_identity [OF assms(1-3)] safe_with_current_identities)
    (auto simp: doubleton_eq_iff intro: left_byI intro!: result_ofI)


lemma safe_two_keys:
  assumes "holds faults f d" and "\<And>e. E e d"
    and "f (org, x) = None \<Longrightarrow> f (org, y) = None \<Longrightarrow> safe faults (k None None) d Q E"
    and "\<And>v. f (org, x) = None \<Longrightarrow> f (org, y) = Some (pi_person_id v) \<Longrightarrow> alive d org (pi_person_id v) \<Longrightarrow> safe faults (k None (Some v)) d Q E"
    and "\<And>u. f (org, x) = Some (pi_person_id u) \<Longrightarrow> f (org, y) = None \<Longrightarrow> alive d org (pi_person_id u) \<Longrightarrow> safe faults (k (Some u) None) d Q E"
    and "\<And>u v. f (org, x) = Some (pi_person_id u) \<Longrightarrow> f (org, y) = Some (pi_person_id v) \<Longrightarrow> alive d org (pi_person_id u) \<Longrightarrow> alive d org (pi_person_id v) \<Longrightarrow>
      safe faults (k (Some u) (Some v)) d Q E"
  shows "safe faults (bind (get_identity_by_distinct_id org x) (\<lambda>a. bind (get_identity_by_distinct_id org y) (\<lambda>b. k a b))) d Q E"
  by (intro safe_bind safe_get_identity [OF assms(1)] assms)

lemma safe_identify:
  assumes "holds faults f d"
  shows "safe faults (identify org payload) d (result_of faults f (org, ip_distinct_id payload) (org, ip_user_id payload))
    (\<lambda>_. left_by faults f (org, ip_distinct_id payload) (org, ip_user_id payload))"
    (is "safe _ _ _ (result_of _ _ ?x ?y) _")
proof -
  have ok: "tables_ok d" using assms by (simp add: holds_def)
  note start = left_byI [OF assms assigns_nothing]
  have known: "safe faults (bind (existing orphan (get_person_by_id i)) (\<lambda>p. bind (apply_properties (ip_properties payload) p) k)) d
      (result_of faults f ?x ?y) (\<lambda>_. left_by faults f ?x ?y)"
    if "alive d org i" "\<And>p d'. holds faults f d' \<Longrightarrow> alive d' org (pn_id p) \<Longrightarrow> pn_id p = i \<Longrightarrow>
      safe faults (k p) d' (result_of faults f ?x ?y) (\<lambda>_. left_by faults f ?x ?y)" for i k
    using that start
    by (intro safe_bind safe_existing_person [OF ok that(1)] safe_apply_properties [OF assms]) auto
  show ?thesis unfolding identify_def Let_def
  proof (rule safe_two_keys [OF assms], goal_cases)
    case (1 e)
    show ?case by (rule start)
  next
    case 2
    from safe_new_person_two [where prepare = "with_properties (ip_properties payload)", OF assms this person_view_new(2)] show ?case by simp
  next
    case (3 v)
    then have "assigns f ?x ?y (f(?x \<mapsto> pi_person_id v))" by (simp add: assigns_join_right)
    with 3 show ?case
      by (auto intro!: known safe_join [where y = "ip_user_id payload"] left_byI [OF _ assigns_nothing])
  next
    case (4 u)
    then have "assigns f ?x ?y (f(?y \<mapsto> pi_person_id u))" by (simp add: assigns_join_left)
    with 4 show ?case
      by (auto intro!: known safe_join [where y = "ip_distinct_id payload"] left_byI [OF _ assigns_nothing] simp: insert_commute)
  next
    case (5 u v)
    then show ?case
      by (auto intro!: known safe_with_current_identities safe_merge_known [OF assms] result_ofI [OF _ assigns_nothing]
          intro: left_byI [OF _ assigns_nothing])
  qed
qed

lemma safe_alias:
  assumes "holds faults f d"
  shows "safe faults (alias_ids org payload) d (result_of faults f (org, ap_distinct_id payload) (org, ap_alias payload))
    (\<lambda>_. left_by faults f (org, ap_distinct_id payload) (org, ap_alias payload))"
    (is "safe _ _ _ (result_of _ _ ?x ?y) _")
proof -
  have ok: "tables_ok d" using assms by (simp add: holds_def)
  note start = left_byI [OF assms assigns_nothing]
  have known: "safe faults (bind (existing orphan (get_person_by_id i)) k) d (result_of faults f ?x ?y) (\<lambda>_. left_by faults f ?x ?y)"
    if "alive d org i" "\<And>p. alive d org (pn_id p) \<Longrightarrow> pn_id p = i \<Longrightarrow> safe faults (k p) d (result_of faults f ?x ?y) (\<lambda>_. left_by faults f ?x ?y)" for i k
    using that start by (intro safe_bind safe_existing_person [OF ok that(1)]) auto
  show ?thesis unfolding alias_ids_def Let_def
  proof (rule safe_two_keys [OF assms], goal_cases)
    case (1 e)
    show ?case by (rule start)
  next
    case 2
    from safe_new_person_two [where prepare = id, OF assms this person_view_new(1)] show ?case by simp
  next
    case (3 v)
    then have "assigns f ?x ?y (f(?x \<mapsto> pi_person_id v))" by (simp add: assigns_join_right)
    with 3 show ?case
      by (auto intro!: known safe_join [where y = "ap_alias payload"] left_byI [OF _ assigns_nothing] simp: assms)
  next
    case (4 u)
    then have "assigns f ?x ?y (f(?y \<mapsto> pi_person_id u))" by (simp add: assigns_join_left)
    with 4 show ?case
      by (auto intro!: known safe_join [where y = "ap_distinct_id payload"] left_byI [OF _ assigns_nothing] simp: assms insert_commute)
  next
    case (5 u v)
    then show ?case
      by (auto intro!: known safe_with_current_identities safe_merge_known [OF assms] result_ofI [OF _ assigns_nothing]
          intro: left_byI [OF _ assigns_nothing] simp: assms)
  qed
qed

end
