(* ===== verification/AnalyticsApi.thy ===== *)
theory AnalyticsApi
  imports Analytics
begin

text \<open>
  The analytics API: the handlers of \<^verbatim>\<open>loom-server-analytics/src/handlers\<close> and the API-key check of
  \<^verbatim>\<open>loom-server/src/routes/analytics.rs\<close>. An early return of a handler is an error of its action, so both ways out carry
  a reply. Unicode's alphabetic and numeric characters, the size of a JSON text, the password hash and the UUID reader are fields of
  an environment.

  The theorems are about sequences of requests with any database failures: what \<^verbatim>\<open>identify\<close> and \<^verbatim>\<open>alias\<close> link, which person
  an event belongs to, and what an API key lets one see.
\<close>

section \<open>Requests and replies\<close>

record 'j analytics_env =
  ae_is_alphanumeric :: "string \<Rightarrow> bool"  \<comment> \<open>of one character, as the bytes that encode it\<close>
  ae_json_len :: "'j json_value \<Rightarrow> nat"
  ae_verify :: "string \<Rightarrow> string \<Rightarrow> analytics_error + bool"
  ae_hash :: "string \<Rightarrow> analytics_error + string"
  ae_parse_uuid :: "string \<Rightarrow> uuid option"
  ae_simple_uuid :: "uuid \<Rightarrow> string"  \<comment> \<open>32 hexadecimal digits\<close>

datatype header_value = HeaderText string | HeaderOpaque

type_synonym header_map = "string \<Rightarrow> header_value option"

record api_key_context =
  kc_api_key_id :: uuid
  kc_org_id :: uuid
  kc_key_type :: analytics_key_type

record 'j capture_request =
  cr_distinct_id :: string
  cr_event :: string
  cr_properties :: "'j json_value"
  cr_timestamp :: "datetime option"

record 'j set_properties_request =
  sp_distinct_id :: string
  sp_properties :: "'j json_value"
  sp_set_once :: bool

record person_identity_response =
  ir_id :: uuid
  ir_distinct_id :: string
  ir_identity_type :: string
  ir_created_at :: datetime

record 'j person_response =
  pr_id :: uuid
  pr_org_id :: uuid
  pr_properties :: "'j json_value"
  pr_identities :: "person_identity_response list"
  pr_created_at :: datetime
  pr_updated_at :: datetime

record 'j event_response =
  er_id :: uuid
  er_org_id :: uuid
  er_person_id :: "uuid option"
  er_distinct_id :: string
  er_event_name :: string
  er_properties :: "'j json_value"
  er_timestamp :: datetime
  er_user_agent :: "string option"
  er_lib :: "string option"
  er_lib_version :: "string option"
  er_created_at :: datetime

record analytics_api_key_response =
  kr_id :: uuid
  kr_org_id :: uuid
  kr_name :: string
  kr_key_type :: analytics_key_type
  kr_created_by :: uuid
  kr_created_at :: datetime
  kr_last_used_at :: "datetime option"
  kr_revoked_at :: "datetime option"

datatype 'j reply =
    ErrorReply nat string string  \<comment> \<open>status, error, message\<close>
  | CaptureReply "uuid option" "u64 option"
  | IdentifyReply uuid
  | PersonsReply "'j person_response list" u64 u32 u32
  | PersonReply "'j person_response"
  | EventsReply "'j event_response list" u64 u32 u32
  | CountReply u64
  | ExportReply "'j event_response list" u64
  | KeysReply "analytics_api_key_response list"
  | KeyCreatedReply uuid string string analytics_key_type datetime
  | SuccessReply string

type_synonym ('j, 'a) handler = "('j analytics_tables, 'j reply, 'a) action"

abbreviation bad_request :: "string \<Rightarrow> string \<Rightarrow> 'j reply" where
  "bad_request \<equiv> ErrorReply 400"

abbreviation unauthorized :: "string \<Rightarrow> 'j reply" where
  "unauthorized \<equiv> ErrorReply 401 ''unauthorized''"

abbreviation forbidden :: "string \<Rightarrow> 'j reply" where
  "forbidden \<equiv> ErrorReply 403 ''forbidden''"

abbreviation not_found :: "string \<Rightarrow> 'j reply" where
  "not_found \<equiv> ErrorReply 404 ''not_found''"

abbreviation internal_error :: "string \<Rightarrow> 'j reply" where
  "internal_error \<equiv> ErrorReply 500 ''internal_error''"

definition or_internal :: "string \<Rightarrow> ('j, 'a) analytics_action \<Rightarrow> ('j, 'a) handler" where
  "or_internal msg = map_err (\<lambda>_. internal_error msg)"

definition check :: "string + unit \<Rightarrow> string \<Rightarrow> ('j, unit) handler" where
  "check r error = (case r of Inl msg \<Rightarrow> fail (bad_request error msg) | Inr _ \<Rightarrow> ret ())"

definition note_key_used :: "uuid \<Rightarrow> ('j, unit) handler" where
  "note_key_used i = bind (attempt (update_api_key_last_used i)) (\<lambda>_. ret ())"

section \<open>Capturing events\<close>

definition MAX_EVENT_NAME_LENGTH :: nat where
  "MAX_EVENT_NAME_LENGTH = 200"

definition MAX_DISTINCT_ID_LENGTH :: nat where
  "MAX_DISTINCT_ID_LENGTH = 200"

definition MAX_PROPERTIES_SIZE :: nat where
  "MAX_PROPERTIES_SIZE = 1024 * 1024"

function str_chars :: "string \<Rightarrow> string list" where
  "str_chars s = (if s = [] then [] else take (fst (utf8_step s)) s # str_chars (drop (fst (utf8_step s)) s))"
  by pat_completeness auto
termination
  by (relation "measure length") (auto simp: utf8_step_pos)

definition validate_event_name :: "'j analytics_env \<Rightarrow> string \<Rightarrow> string + unit" where
  "validate_event_name env name =
     (if name = [] then Inl ''Event name cannot be empty''
      else if length name > MAX_EVENT_NAME_LENGTH then Inl ''Event name exceeds maximum length''
      else if \<not> list_all (\<lambda>c. ae_is_alphanumeric env c \<or> c = ''_'' \<or> c = ''$'' \<or> c = ''.'') (str_chars name)
      then Inl ''Event name contains invalid characters''
      else Inr ())"

definition validate_distinct_id :: "string \<Rightarrow> string + unit" where
  "validate_distinct_id distinct_id =
     (if distinct_id = [] then Inl ''Distinct ID cannot be empty''
      else if length distinct_id > MAX_DISTINCT_ID_LENGTH then Inl ''Distinct ID exceeds maximum length''
      else Inr ())"

definition validate_user_id :: "string \<Rightarrow> string + unit" where
  "validate_user_id user_id =
     (if user_id = [] then Inl ''User ID cannot be empty''
      else if length user_id > MAX_DISTINCT_ID_LENGTH then Inl ''User ID exceeds maximum length''
      else Inr ())"

definition validate_properties :: "'j analytics_env \<Rightarrow> 'j json_value \<Rightarrow> string + unit" where
  "validate_properties env props =
     (if ae_json_len env props > MAX_PROPERTIES_SIZE then Inl ''Properties exceed maximum size'' else Inr ())"

definition header_str :: "header_map \<Rightarrow> string \<Rightarrow> string option" where
  "header_str hs name = (case hs name of Some (HeaderText s) \<Rightarrow> Some s | _ \<Rightarrow> None)"

definition extract_client_info :: "header_map \<Rightarrow> string option \<times> string option \<times> string option \<times> string option" where
  "extract_client_info hs =
     ((case header_str hs ''x-forwarded-for'' of
         Some s \<Rightarrow> Some (str_trim (hd (str_split (CHR '','') s)))
       | None \<Rightarrow> header_str hs ''x-real-ip''),
      header_str hs ''user-agent'', header_str hs ''x-loom-lib'', header_str hs ''x-loom-lib-version'')"

text \<open>The event of a request, with the person its distinct id resolves to, or without one when that fails.\<close>

definition build_event :: "uuid \<Rightarrow> header_map \<Rightarrow> 'j capture_request \<Rightarrow> ('j, 'j analytics_event) handler" where
  "build_event org hs payload =
     (let (ip_address, user_agent, lib, lib_version) = extract_client_info hs in
      bind now (\<lambda>t. bind draw_uuid (\<lambda>i.
      bind (case cr_timestamp payload of Some t' \<Rightarrow> ret t' | None \<Rightarrow> now) (\<lambda>timestamp.
      let event = (event_new i t org (cr_distinct_id payload) (cr_event payload))
            \<lparr>ev_properties := cr_properties payload, ev_timestamp := timestamp, ev_ip_address := ip_address,
             ev_user_agent := user_agent, ev_lib := lib, ev_lib_version := lib_version\<rparr> in
      bind (attempt (resolve_person_for_distinct_id org (ev_distinct_id event))) (\<lambda>r. case r of
        Inr p \<Rightarrow> ret (event\<lparr>ev_person_id := Some (pn_id (fst p))\<rparr>)
      | Inl _ \<Rightarrow> ret event)))))"

definition capture_event_impl :: "'j analytics_env \<Rightarrow> api_key_context \<Rightarrow> header_map \<Rightarrow> 'j capture_request \<Rightarrow> ('j, 'j reply) handler" where
  "capture_event_impl env ctx hs payload =
     bind (check (validate_event_name env (cr_event payload)) ''invalid_event_name'') (\<lambda>_.
     bind (check (validate_distinct_id (cr_distinct_id payload)) ''invalid_distinct_id'') (\<lambda>_.
     bind (check (validate_properties env (cr_properties payload)) ''invalid_properties'') (\<lambda>_.
     bind (build_event (kc_org_id ctx) hs payload) (\<lambda>event.
     bind (or_internal ''Failed to capture event'' (insert_event event)) (\<lambda>_.
     bind (note_key_used (kc_api_key_id ctx)) (\<lambda>_.
     ret (CaptureReply (Some (ev_id event)) None)))))))"

definition validate_item :: "'j analytics_env \<Rightarrow> nat \<times> 'j capture_request \<Rightarrow> ('j, unit) handler" where
  "validate_item env item = (case item of (i, req) \<Rightarrow>
     let at = map_sum (\<lambda>msg. ''Event '' @ show_nat i @ '': '' @ msg) id in
     bind (check (at (validate_event_name env (cr_event req))) ''invalid_event_name'') (\<lambda>_.
     bind (check (at (validate_distinct_id (cr_distinct_id req))) ''invalid_distinct_id'') (\<lambda>_.
     check (at (validate_properties env (cr_properties req))) ''invalid_properties'')))"

definition batch_capture_impl :: "'j analytics_env \<Rightarrow> api_key_context \<Rightarrow> header_map \<Rightarrow> 'j capture_request list \<Rightarrow> ('j, 'j reply) handler" where
  "batch_capture_impl env ctx hs batch =
     (if batch = [] then fail (bad_request ''empty_batch'' ''Batch cannot be empty'')
      else if length batch > 100 then fail (bad_request ''batch_too_large'' ''Batch cannot exceed 100 events'')
      else
        bind (for_each (validate_item env) (enumerate 0 batch)) (\<lambda>_.
        bind (for_each (build_event (kc_org_id ctx) hs) batch) (\<lambda>events.
        bind (or_internal ''Failed to capture events'' (insert_events events)) (\<lambda>count.
        bind (note_key_used (kc_api_key_id ctx)) (\<lambda>_.
        ret (CaptureReply None (Some count)))))))"

section \<open>Identifying persons\<close>

definition identify_impl :: "'j analytics_env \<Rightarrow> api_key_context \<Rightarrow> 'j identify_payload \<Rightarrow> ('j, 'j reply) handler" where
  "identify_impl env ctx payload =
     bind (check (validate_distinct_id (ip_distinct_id payload)) ''invalid_distinct_id'') (\<lambda>_.
     bind (check (validate_user_id (ip_user_id payload)) ''invalid_user_id'') (\<lambda>_.
     bind (check (validate_properties env (ip_properties payload)) ''invalid_properties'') (\<lambda>_.
     bind (or_internal ''Failed to identify user'' (identify (kc_org_id ctx) payload)) (\<lambda>result.
     bind (note_key_used (kc_api_key_id ctx)) (\<lambda>_.
     ret (IdentifyReply (pn_id (fst result))))))))"

definition alias_impl :: "api_key_context \<Rightarrow> alias_payload \<Rightarrow> ('j, 'j reply) handler" where
  "alias_impl ctx payload =
     bind (check (validate_distinct_id (ap_distinct_id payload)) ''invalid_distinct_id'') (\<lambda>_.
     bind (check (validate_distinct_id (ap_alias payload)) ''invalid_alias'') (\<lambda>_.
     bind (or_internal ''Failed to create alias'' (alias_ids (kc_org_id ctx) payload)) (\<lambda>result.
     bind (note_key_used (kc_api_key_id ctx)) (\<lambda>_.
     ret (IdentifyReply (pn_id (fst result)))))))"

definition set_properties_impl :: "'j analytics_env \<Rightarrow> api_key_context \<Rightarrow> 'j set_properties_request \<Rightarrow> ('j, 'j reply) handler" where
  "set_properties_impl env ctx payload =
     bind (check (validate_distinct_id (sp_distinct_id payload)) ''invalid_distinct_id'') (\<lambda>_.
     bind (check (validate_properties env (sp_properties payload)) ''invalid_properties'') (\<lambda>_.
     bind (or_internal ''Failed to resolve person'' (resolve_person_for_distinct_id (kc_org_id ctx) (sp_distinct_id payload))) (\<lambda>p.
     bind (if sp_set_once payload
           then ret ((fst p)\<lparr>pn_properties := extend_object or_insert (pn_properties (fst p)) (sp_properties payload)\<rparr>)
           else bind now (\<lambda>t. ret (set_properties t (sp_properties payload) (fst p)))) (\<lambda>person.
     bind (or_internal ''Failed to set properties'' (update_person person)) (\<lambda>_.
     bind (note_key_used (kc_api_key_id ctx)) (\<lambda>_.
     ret (IdentifyReply (pn_id person))))))))"

section \<open>Queries\<close>

definition identity_to_response :: "person_identity \<Rightarrow> person_identity_response" where
  "identity_to_response x = \<lparr>ir_id = pi_id x, ir_distinct_id = pi_distinct_id x,
     ir_identity_type = identity_type_as_str (pi_identity_type x), ir_created_at = pi_created_at x\<rparr>"

definition person_to_response :: "'j person_with_identities \<Rightarrow> 'j person_response" where
  "person_to_response p = \<lparr>pr_id = pn_id (fst p), pr_org_id = pn_org_id (fst p), pr_properties = pn_properties (fst p),
     pr_identities = map identity_to_response (snd p), pr_created_at = pn_created_at (fst p), pr_updated_at = pn_updated_at (fst p)\<rparr>"

definition event_to_response :: "'j analytics_event \<Rightarrow> 'j event_response" where
  "event_to_response e = \<lparr>er_id = ev_id e, er_org_id = ev_org_id e, er_person_id = ev_person_id e, er_distinct_id = ev_distinct_id e,
     er_event_name = ev_event_name e, er_properties = ev_properties e, er_timestamp = ev_timestamp e, er_user_agent = ev_user_agent e,
     er_lib = ev_lib e, er_lib_version = ev_lib_version e, er_created_at = ev_created_at e\<rparr>"

definition require_read_write :: "api_key_context \<Rightarrow> string \<Rightarrow> ('j, unit) handler" where
  "require_read_write ctx msg = (if kc_key_type ctx \<noteq> KeyReadWrite then fail (forbidden msg) else ret ())"

definition list_persons_impl :: "api_key_context \<Rightarrow> u32 \<Rightarrow> u32 \<Rightarrow> ('j, 'j reply) handler" where
  "list_persons_impl ctx limit offset =
     bind (require_read_write ctx ''ReadWrite API key required to query persons'') (\<lambda>_.
     let limit = min limit 100 in
     bind (or_internal ''Failed to list persons'' (list_persons (kc_org_id ctx) limit offset)) (\<lambda>persons.
     bind (or_internal ''Failed to count persons'' (count_persons (kc_org_id ctx))) (\<lambda>total.
     bind (for_each (\<lambda>p. bind (or_internal ''Failed to get person identities'' (list_identities_for_person (pn_id p))) (\<lambda>is.
             ret (person_to_response (p, is)))) persons) (\<lambda>responses.
     bind (note_key_used (kc_api_key_id ctx)) (\<lambda>_.
     ret (PersonsReply responses total limit offset))))))"

definition get_person_impl :: "'j analytics_env \<Rightarrow> api_key_context \<Rightarrow> string \<Rightarrow> ('j, 'j reply) handler" where
  "get_person_impl env ctx person_id =
     bind (require_read_write ctx ''ReadWrite API key required to query persons'') (\<lambda>_.
     case ae_parse_uuid env person_id of
       None \<Rightarrow> fail (bad_request ''invalid_id'' ''Invalid person ID format'')
     | Some i \<Rightarrow>
         bind (or_internal ''Failed to get person'' (get_person_with_identities i)) (\<lambda>row. case row of
           None \<Rightarrow> fail (not_found ''Person not found'')
         | Some p \<Rightarrow>
             if pn_org_id (fst p) \<noteq> kc_org_id ctx then fail (not_found ''Person not found'')
             else bind (note_key_used (kc_api_key_id ctx)) (\<lambda>_. ret (PersonReply (person_to_response p)))))"

definition get_person_by_distinct_id_impl :: "api_key_context \<Rightarrow> string \<Rightarrow> ('j, 'j reply) handler" where
  "get_person_by_distinct_id_impl ctx distinct_id =
     bind (require_read_write ctx ''ReadWrite API key required to query persons'') (\<lambda>_.
     bind (or_internal ''Failed to get person'' (get_identity_by_distinct_id (kc_org_id ctx) distinct_id)) (\<lambda>found. case found of
       None \<Rightarrow> fail (not_found ''Person not found for distinct_id'')
     | Some x \<Rightarrow>
         bind (or_internal ''Failed to get person'' (get_person_with_identities (pi_person_id x))) (\<lambda>row. case row of
           None \<Rightarrow> fail (not_found ''Person not found'')
         | Some p \<Rightarrow> bind (note_key_used (kc_api_key_id ctx)) (\<lambda>_. ret (PersonReply (person_to_response p))))))"

definition list_events_impl :: "api_key_context \<Rightarrow> event_filter \<Rightarrow> u32 \<Rightarrow> u32 \<Rightarrow> ('j, 'j reply) handler" where
  "list_events_impl ctx f limit offset =
     bind (require_read_write ctx ''ReadWrite API key required to query events'') (\<lambda>_.
     let limit = min limit 100 in
     bind (or_internal ''Failed to list events'' (list_events (kc_org_id ctx) f limit offset)) (\<lambda>events.
     bind (or_internal ''Failed to count events'' (count_events (kc_org_id ctx) f)) (\<lambda>total.
     bind (note_key_used (kc_api_key_id ctx)) (\<lambda>_.
     ret (EventsReply (map event_to_response events) total limit offset)))))"

definition count_events_impl :: "api_key_context \<Rightarrow> event_filter \<Rightarrow> ('j, 'j reply) handler" where
  "count_events_impl ctx f =
     bind (require_read_write ctx ''ReadWrite API key required to query events'') (\<lambda>_.
     bind (or_internal ''Failed to count events'' (count_events (kc_org_id ctx) f)) (\<lambda>count.
     bind (note_key_used (kc_api_key_id ctx)) (\<lambda>_.
     ret (CountReply count))))"

definition export_events_impl :: "api_key_context \<Rightarrow> event_filter \<Rightarrow> u32 \<Rightarrow> ('j, 'j reply) handler" where
  "export_events_impl ctx f limit =
     bind (require_read_write ctx ''ReadWrite API key required to export events'') (\<lambda>_.
     bind (or_internal ''Failed to export events'' (list_events (kc_org_id ctx) f (min limit 10000) 0)) (\<lambda>events.
     let responses = map event_to_response events in
     bind (note_key_used (kc_api_key_id ctx)) (\<lambda>_.
     ret (ExportReply responses (of_nat (length responses))))))"

section \<open>API keys\<close>

definition api_key_to_response :: "analytics_api_key \<Rightarrow> analytics_api_key_response" where
  "api_key_to_response k = \<lparr>kr_id = ak_id k, kr_org_id = ak_org_id k, kr_name = ak_name k, kr_key_type = ak_key_type k,
     kr_created_by = ak_created_by k, kr_created_at = ak_created_at k, kr_last_used_at = ak_last_used_at k, kr_revoked_at = ak_revoked_at k\<rparr>"

record user_auth_context =
  uc_user_id :: uuid
  uc_org_id :: uuid

definition list_api_keys_impl :: "user_auth_context \<Rightarrow> ('j, 'j reply) handler" where
  "list_api_keys_impl user = bind (or_internal ''Failed to list API keys'' (list_api_keys (uc_org_id user))) (\<lambda>keys.
     ret (KeysReply (map api_key_to_response keys)))"

definition create_api_key_impl :: "'j analytics_env \<Rightarrow> user_auth_context \<Rightarrow> string \<Rightarrow> analytics_key_type \<Rightarrow> ('j, 'j reply) handler" where
  "create_api_key_impl env user name key_type =
     (if name = [] then fail (bad_request ''invalid_name'' ''Name cannot be empty'')
      else if length name > 100 then fail (bad_request ''invalid_name'' ''Name exceeds maximum length'')
      else bind draw_uuid (\<lambda>random.
        let raw_key = generate_analytics_key (ae_simple_uuid env random) key_type in
        case ae_hash env raw_key of
          Inl _ \<Rightarrow> fail (internal_error ''Failed to create API key'')
        | Inr key_hash \<Rightarrow> bind draw_uuid (\<lambda>i. bind now (\<lambda>t.
            let k = \<lparr>ak_id = i, ak_org_id = uc_org_id user, ak_name = name, ak_key_type = key_type, ak_key_hash = key_hash,
                     ak_created_by = uc_user_id user, ak_created_at = t, ak_last_used_at = None, ak_revoked_at = None\<rparr> in
            bind (or_internal ''Failed to create API key'' (create_api_key k)) (\<lambda>_.
            ret (KeyCreatedReply (ak_id k) raw_key (ak_name k) (ak_key_type k) (ak_created_at k)))))))"

definition revoke_api_key_impl :: "'j analytics_env \<Rightarrow> user_auth_context \<Rightarrow> string \<Rightarrow> ('j, 'j reply) handler" where
  "revoke_api_key_impl env user key_id = (case ae_parse_uuid env key_id of
     None \<Rightarrow> fail (bad_request ''invalid_id'' ''Invalid API key ID format'')
   | Some i \<Rightarrow>
       bind (or_internal ''Failed to revoke API key'' (get_api_key_by_id i)) (\<lambda>found. case found of
         None \<Rightarrow> fail (not_found ''API key not found'')
       | Some k \<Rightarrow>
           if ak_org_id k \<noteq> uc_org_id user then fail (not_found ''API key not found'')
           else if is_some (ak_revoked_at k) then fail (bad_request ''already_revoked'' ''API key is already revoked'')
           else bind (or_internal ''Failed to revoke API key'' (revoke_api_key i)) (\<lambda>revoked.
             if revoked then ret (SuccessReply ''API key revoked successfully'')
             else fail (not_found ''API key not found''))))"

definition parse_key_type :: "string \<Rightarrow> analytics_key_type option" where
  "parse_key_type key =
     (if starts_with key ''loom_analytics_write_'' then Some KeyWrite
      else if starts_with key ''loom_analytics_rw_'' then Some KeyReadWrite
      else None)"

definition extract_api_key_context :: "'j analytics_env \<Rightarrow> header_map \<Rightarrow> ('j, api_key_context) handler" where
  "extract_api_key_context env hs = (case hs ''authorization'' of
     None \<Rightarrow> fail (unauthorized ''Missing Authorization header'')
   | Some HeaderOpaque \<Rightarrow> fail (unauthorized ''Invalid Authorization header encoding'')
   | Some (HeaderText auth_header) \<Rightarrow> (case strip_prefix auth_header ''Bearer '' of
       None \<Rightarrow> fail (unauthorized ''Invalid Authorization header format, expected Bearer token'')
     | Some token \<Rightarrow> (case parse_key_type token of
         None \<Rightarrow> fail (unauthorized ''Invalid API key format'')
       | Some key_type \<Rightarrow>
           bind (or_internal ''Failed to validate API key'' (find_api_key_by_raw (ae_verify env) token)) (\<lambda>found. case found of
             None \<Rightarrow> fail (unauthorized ''Invalid API key'')
           | Some k \<Rightarrow>
               if is_some (ak_revoked_at k) then fail (unauthorized ''API key has been revoked'')
               else ret \<lparr>kc_api_key_id = ak_id k, kc_org_id = ak_org_id k, kc_key_type = key_type\<rparr>))))"

section \<open>The key of the server itself\<close>

text \<open>
  When the server starts with self-monitoring it makes a write key for its own front end, \<^verbatim>\<open>self_monitoring.rs\<close> of \<^verbatim>\<open>loom-server\<close>. The key
  itself is stored in place of its hash.
\<close>

datatype self_monitoring_error = MonitoringDatabase string | MonitoringInvalidId | CrashClientInit string | AlreadyInitialized

definition SYSTEM_USER_ID :: uuid where
  "SYSTEM_USER_ID = 0"

definition ensure_analytics_api_key ::
  "'j analytics_env \<Rightarrow> uuid \<Rightarrow> string \<Rightarrow> ('j analytics_tables, self_monitoring_error, string) action" where
  "ensure_analytics_api_key env org name =
     bind (query MonitoringDatabase (\<lambda>d. Inr (List.find (\<lambda>k. ak_org_id k = org \<and> ak_name k = name \<and> ak_revoked_at k = None) (tb_api_keys d), d)))
       (\<lambda>existing. case existing of
         Some k \<Rightarrow> ret (ak_key_hash k)
       | None \<Rightarrow>
           bind draw_uuid (\<lambda>random.
           let key = ''loom_analytics_write_'' @ ae_simple_uuid env random in
           bind draw_uuid (\<lambda>key_id. bind now (\<lambda>t.
           bind (query MonitoringDatabase (\<lambda>d.
             if key_id \<in> set (map ak_id (tb_api_keys d)) then Inl ''UNIQUE constraint failed: analytics_api_keys.id''
             else Inr ((), d\<lparr>tb_api_keys := tb_api_keys d @ [\<lparr>ak_id = key_id, ak_org_id = org, ak_name = name, ak_key_type = KeyWrite,
               ak_key_hash = key, ak_created_by = SYSTEM_USER_ID, ak_created_at = t, ak_last_used_at = None, ak_revoked_at = None\<rparr>]\<rparr>))) (\<lambda>_.
           ret key)))))"

section \<open>Serving requests\<close>

datatype 'j analytics_call =
    CaptureCall api_key_context header_map "'j capture_request"
  | BatchCall api_key_context header_map "'j capture_request list"
  | IdentifyCall api_key_context "'j identify_payload"
  | AliasCall api_key_context alias_payload
  | SetCall api_key_context "'j set_properties_request"
  | ListPersonsCall api_key_context u32 u32
  | GetPersonCall api_key_context string
  | GetDistinctCall api_key_context string
  | ListEventsCall api_key_context event_filter u32 u32
  | CountEventsCall api_key_context event_filter
  | ExportCall api_key_context event_filter u32
  | ListKeysCall user_auth_context
  | CreateKeyCall user_auth_context string analytics_key_type
  | RevokeKeyCall user_auth_context string

fun handle :: "'j analytics_env \<Rightarrow> 'j analytics_call \<Rightarrow> ('j, 'j reply) handler" where
  "handle env (CaptureCall ctx hs req) = capture_event_impl env ctx hs req"
| "handle env (BatchCall ctx hs reqs) = batch_capture_impl env ctx hs reqs"
| "handle env (IdentifyCall ctx req) = identify_impl env ctx req"
| "handle env (AliasCall ctx req) = alias_impl ctx req"
| "handle env (SetCall ctx req) = set_properties_impl env ctx req"
| "handle env (ListPersonsCall ctx limit offset) = list_persons_impl ctx limit offset"
| "handle env (GetPersonCall ctx i) = get_person_impl env ctx i"
| "handle env (GetDistinctCall ctx i) = get_person_by_distinct_id_impl ctx i"
| "handle env (ListEventsCall ctx f limit offset) = list_events_impl ctx f limit offset"
| "handle env (CountEventsCall ctx f) = count_events_impl ctx f"
| "handle env (ExportCall ctx f limit) = export_events_impl ctx f limit"
| "handle env (ListKeysCall user) = list_api_keys_impl user"
| "handle env (CreateKeyCall user name ty) = create_api_key_impl env user name ty"
| "handle env (RevokeKeyCall user i) = revoke_api_key_impl env user i"

definition serve :: "'j analytics_env \<Rightarrow> 'j analytics_call \<Rightarrow> 'j analytics_tables world \<Rightarrow> 'j reply \<times> 'j analytics_tables world" where
  "serve env call w = (case handle env call w of (Inl r, w') \<Rightarrow> (r, w') | (Inr r, w') \<Rightarrow> (r, w'))"

fun serve_all :: "'j analytics_env \<Rightarrow> 'j analytics_call list \<Rightarrow> 'j analytics_tables world \<Rightarrow> 'j reply list \<times> 'j analytics_tables world" where
  "serve_all env [] w = ([], w)"
| "serve_all env (c # cs) w = (case serve env c w of (r, w') \<Rightarrow> (case serve_all env cs w' of (rs, w'') \<Rightarrow> (r # rs, w'')))"

text \<open>The pairs of keys a call is about, and those of the calls that were answered with a person.\<close>

fun call_links :: "'j analytics_call \<Rightarrow> (key \<times> key) set" where
  "call_links (CaptureCall ctx hs req) = {((kc_org_id ctx, cr_distinct_id req), (kc_org_id ctx, cr_distinct_id req))}"
| "call_links (BatchCall ctx hs reqs) = (\<lambda>req. ((kc_org_id ctx, cr_distinct_id req), (kc_org_id ctx, cr_distinct_id req))) ` set reqs"
| "call_links (IdentifyCall ctx req) = {((kc_org_id ctx, ip_distinct_id req), (kc_org_id ctx, ip_user_id req))}"
| "call_links (AliasCall ctx req) = {((kc_org_id ctx, ap_distinct_id req), (kc_org_id ctx, ap_alias req))}"
| "call_links (SetCall ctx req) = {((kc_org_id ctx, sp_distinct_id req), (kc_org_id ctx, sp_distinct_id req))}"
| "call_links _ = {}"

fun answered_links :: "'j analytics_call list \<Rightarrow> 'j reply list \<Rightarrow> (key \<times> key) set" where
  "answered_links (c # cs) (IdentifyReply i # rs) = call_links c \<union> answered_links cs rs"
| "answered_links (c # cs) (r # rs) = answered_links cs rs"
| "answered_links _ _ = {}"

definition all_links :: "'j analytics_call list \<Rightarrow> (key \<times> key) set" where
  "all_links cs = (\<Union>c \<in> set cs. call_links c)"

definition grows :: "('k \<Rightarrow> 'p option) \<Rightarrow> ('k \<times> 'k) set \<Rightarrow> ('k \<Rightarrow> 'p option) \<Rightarrow> bool" where
  "grows f A g \<longleftrightarrow> together f \<subseteq> together g \<and> together g \<subseteq> (together f \<union> A \<union> A\<inverse>)\<^sup>*"

lemma grows_refl: "grows f A f"
  by (auto simp: grows_def)

lemma assigns_grows: "assigns f x y g \<Longrightarrow> (x, y) \<in> A \<Longrightarrow> grows f A g"
  unfolding grows_def
proof (intro conjI assigns_keeps)
  assume "assigns f x y g" "(x, y) \<in> A"
  have "together f \<union> {(x, y), (y, x)} \<subseteq> together f \<union> A \<union> A\<inverse>" using \<open>(x, y) \<in> A\<close> by auto
  from rtrancl_mono [OF this] assigns_joins_only [OF \<open>assigns f x y g\<close>]
  show "together g \<subseteq> (together f \<union> A \<union> A\<inverse>)\<^sup>*" by blast
qed

lemma grows_trans:
  assumes "grows f A g" and "grows g B h"
  shows "grows f (A \<union> B) h"
proof -
  let ?R = "together f \<union> (A \<union> B) \<union> (A \<union> B)\<inverse>"
  have "(together f \<union> A \<union> A\<inverse>)\<^sup>* \<subseteq> ?R\<^sup>*" by (intro rtrancl_mono) auto
  then have "together g \<union> B \<union> B\<inverse> \<subseteq> ?R\<^sup>*" using assms(1) by (auto simp: grows_def)
  from rtrancl_subset_rtrancl [OF this] show ?thesis using assms by (auto simp: grows_def)
qed

lemma grows_mono: "grows f A g \<Longrightarrow> A \<subseteq> B \<Longrightarrow> grows f B g"
  using grows_trans [of f A g B g] grows_refl [of g B] by (simp add: sup.absorb2)

lemma assigns_same_key: "assigns f x x g \<Longrightarrow> f \<subseteq>\<^sub>m g"
  by (cases rule: assigns.cases [of f x x g]) (auto simp: doubleton_eq_iff map_le_def dom_def)

definition kept :: "bool \<Rightarrow> (key \<Rightarrow> uuid option) \<Rightarrow> (key \<times> key) set \<Rightarrow> 'j analytics_tables \<Rightarrow> bool" where
  "kept faults f A d \<longleftrightarrow> (\<exists>g. holds faults g d \<and> grows f A g)"

lemma keptI: "holds faults g d \<Longrightarrow> grows f A g \<Longrightarrow> kept faults f A d"
  by (auto simp: kept_def)

lemma left_by_kept: "left_by faults f x y d \<Longrightarrow> (x, y) \<in> A \<Longrightarrow> kept faults f A d"
  unfolding left_by_def kept_def by (blast intro: assigns_grows)

lemma safe_check: "(\<And>msg. E (bad_request error msg) d) \<Longrightarrow> Q () d \<Longrightarrow> safe faults (check v error) d Q E"
  by (auto simp: check_def intro!: safe_rules split: sum.split)

lemma safe_or_internal: "safe faults m d Q (\<lambda>_. E (internal_error msg)) \<Longrightarrow> safe faults (or_internal msg m) d Q E"
  unfolding or_internal_def by (rule safe_map_err)

lemma safe_note_key_used:
  "holds faults f d \<Longrightarrow> (\<And>d'. holds faults f d' \<Longrightarrow> Q () d') \<Longrightarrow> safe faults (note_key_used i) d Q E"
  unfolding note_key_used_def update_api_key_last_used_def
  by (intro safe_bind safe_attempt safe_now safe_query safe_ret) (auto intro: holds_other_tables)

text \<open>Answers a handler gives after its last change of persons and identities.\<close>

lemma safe_finish:
  "holds faults g d \<Longrightarrow> grows f A g \<Longrightarrow> (\<And>d'. holds faults g d' \<Longrightarrow> kept faults f A d' \<Longrightarrow> Q r d') \<Longrightarrow>
   safe faults (bind (note_key_used i) (\<lambda>_. ret r)) d Q E"
  by (intro safe_bind safe_note_key_used [where f = g] safe_ret) (auto intro: keptI)


definition outcome :: "bool \<Rightarrow> (key \<Rightarrow> uuid option) \<Rightarrow> 'j analytics_call \<Rightarrow> 'j reply \<Rightarrow> 'j analytics_tables \<Rightarrow> bool" where
  "outcome faults f call r d \<longleftrightarrow> kept faults f (call_links call) d
     \<and> (case r of IdentifyReply i \<Rightarrow> call_links call \<subseteq> together (owner d) | _ \<Rightarrow> True)"

lemma outcome_error: "kept faults f (call_links call) d \<Longrightarrow> outcome faults f call (ErrorReply n e m) d"
  by (simp add: outcome_def)

lemma outcome_start: "holds faults f d \<Longrightarrow> outcome faults f call (ErrorReply n e m) d"
  by (intro outcome_error keptI [of faults f d f] grows_refl)

text \<open>A service call about the keys \<^verbatim>\<open>x\<close> and \<^verbatim>\<open>y\<close> whose result is answered.\<close>

lemma safe_linking:
  assumes "safe faults m d (result_of faults f x y) (\<lambda>_. left_by faults f x y)" and "call_links call = {(x, y)}"
  shows "safe faults (bind (or_internal msg m) (\<lambda>p. bind (note_key_used i) (\<lambda>_. ret (IdentifyReply (pn_id (fst p)))))) d
    (outcome faults f call) (outcome faults f call)"
proof (intro safe_bind safe_or_internal, rule safe_conseq [OF assms(1)])
  fix p and d' :: "'a analytics_tables"
  assume "result_of faults f x y p d'"
  then obtain g where g: "holds faults g d'" "assigns f x y g" "g x = Some (pn_id (fst p))" "g y = Some (pn_id (fst p))"
    by (auto simp: result_of_def)
  then have "grows f (call_links call) g" by (intro assigns_grows) (auto simp: assms(2))
  moreover have "call_links call \<subseteq> together g" using g(3,4) by (auto simp: assms(2) together_def)
  ultimately show "safe faults (bind (note_key_used i) (\<lambda>_. ret (IdentifyReply (pn_id (fst p))))) d' (outcome faults f call) (outcome faults f call)"
    using g(1) by (intro safe_bind safe_note_key_used [OF g(1)] safe_ret) (auto simp: outcome_def holds_def intro: keptI)
qed (auto simp: assms(2) intro!: outcome_error left_by_kept)

lemma safe_identify_impl: "holds faults f d \<Longrightarrow> safe faults (identify_impl env ctx req) d (outcome faults f (IdentifyCall ctx req)) (outcome faults f (IdentifyCall ctx req))"
  unfolding identify_impl_def
  by (rule safe_bind, rule safe_check, erule outcome_start)+ (rule safe_linking [OF safe_identify], assumption, simp)

lemma safe_alias_impl: "holds faults f d \<Longrightarrow> safe faults (alias_impl ctx req) d (outcome faults f (AliasCall ctx req)) (outcome faults f (AliasCall ctx req))"
  unfolding alias_impl_def
  by (rule safe_bind, rule safe_check, erule outcome_start)+ (rule safe_linking [OF safe_alias], assumption, simp)

text \<open>The events of a request are attributed to the person their distinct id resolves to.\<close>

definition event_fits :: "(key \<Rightarrow> uuid option) \<Rightarrow> 'j analytics_event \<Rightarrow> bool" where
  "event_fits f e \<longleftrightarrow> (case ev_person_id e of None \<Rightarrow> True | Some i \<Rightarrow> f (ev_org_id e, ev_distinct_id e) = Some i)"

lemma event_fits_mono: "f \<subseteq>\<^sub>m g \<Longrightarrow> event_fits f e \<Longrightarrow> event_fits g e"
  by (auto simp: event_fits_def map_le_def dom_def split: option.splits)

lemma safe_build_event:
  assumes "holds faults f d" and "k = (org, cr_distinct_id req)"
  shows "safe faults (build_event org hs req) d (\<lambda>e d'. \<exists>g. holds faults g d' \<and> assigns f k k g \<and> event_fits g e) E"
proof -
  obtain ip ua lib ver where info: "extract_client_info hs = (ip, ua, lib, ver)" by (cases "extract_client_info hs") auto
  have resolve: "safe faults (bind (attempt (resolve_person_for_distinct_id org (ev_distinct_id e))) (\<lambda>r. case r of
        Inr p \<Rightarrow> ret (e\<lparr>ev_person_id := Some (pn_id (fst p))\<rparr>) | Inl _ \<Rightarrow> ret e)) d (\<lambda>e d'. \<exists>g. holds faults g d' \<and> assigns f k k g \<and> event_fits g e) E"
    if "ev_org_id e = org" "ev_distinct_id e = cr_distinct_id req" "ev_person_id e = None" for e :: "'a analytics_event"
    using that
    by (intro safe_bind safe_attempt safe_conseq [OF safe_resolve [OF assms(1)]])
      (auto simp: result_of_def left_by_def event_fits_def assms(2) intro!: safe_ret)
  show ?thesis unfolding build_event_def info Let_def prod.case
    by (intro safe_bind [of _ now] safe_bind [of _ draw_uuid] safe_now safe_draw_uuid safe_bind [of _ "case_option _ _ _"] safe_option safe_ret
        resolve) (auto simp: event_new_def)
qed


lemma safe_insert_event:
  assumes "holds faults f d" and "event_fits f e" and "\<And>r. E r d" and "\<And>d'. holds faults f d' \<Longrightarrow> Q () d'"
  shows "safe faults (insert_event e) d Q E"
proof -
  have "holds faults f (d\<lparr>tb_events := tb_events d @ [e]\<rparr>)"
    using assms(1,2) same_persons(1,2) [of "d\<lparr>tb_events := tb_events d @ [e]\<rparr>" d]
    by (auto simp: holds_def attributed_def event_fits_def)
  then show ?thesis unfolding insert_event_def using assms(3,4) by (intro safe_query) (auto split: if_splits)
qed

lemma safe_capture_event_impl:
  assumes "holds faults f d"
  shows "safe faults (capture_event_impl env ctx hs req) d (outcome faults f (CaptureCall ctx hs req)) (outcome faults f (CaptureCall ctx hs req))"
proof -
  let ?k = "(kc_org_id ctx, cr_distinct_id req)"
  have insert: "safe faults (bind (or_internal ''Failed to capture event'' (insert_event e)) (\<lambda>_. bind (note_key_used i) (\<lambda>_. ret (CaptureReply a b)))) d'
      (outcome faults f (CaptureCall ctx hs req)) (outcome faults f (CaptureCall ctx hs req))"
    if "holds faults g d'" "assigns f ?k ?k g" "event_fits g e" for e d' g i a b
  proof -
    have "grows f (call_links (CaptureCall ctx hs req)) g" using that(2) by (intro assigns_grows) auto
    then show ?thesis using that(1,3)
      by (intro safe_bind safe_or_internal safe_insert_event [OF that(1,3)] safe_finish [where g = g and f = f])
        (auto simp: outcome_def intro: outcome_error keptI)
  qed
  show ?thesis unfolding capture_event_impl_def
    by ((rule safe_bind, rule safe_check, rule outcome_start [OF assms])+, rule safe_bind,
        rule safe_conseq [OF safe_build_event [OF assms refl, where E = "\<lambda>_ _. False"]]) (auto intro: insert)
qed

lemma safe_insert_events:
  assumes "holds faults f d" and "list_all (event_fits f) es" and "\<And>r d'. holds faults f d' \<Longrightarrow> E r d'" and "\<And>n d'. holds faults f d' \<Longrightarrow> Q n d'"
  shows "safe faults (insert_events es) d Q E"
  unfolding insert_events_def
proof (intro safe_bind)
  have "safe faults (for_each insert_event es) d (\<lambda>_. holds faults f) (\<lambda>_. holds faults f)"
    using assms(1,2) by (intro safe_for_each safe_insert_event) (auto simp: list_all_iff)
  then show "safe faults (for_each insert_event es) d (\<lambda>units d'. safe faults (ret (of_nat (length units))) d' Q E) E"
    by (rule safe_conseq) (auto intro: assms safe_ret)
qed

lemma safe_build_events:
  assumes "holds faults f d"
  shows "safe faults (for_each (build_event org hs) reqs) d
    (\<lambda>es d'. \<exists>g. holds faults g d' \<and> grows f ((\<lambda>req. ((org, cr_distinct_id req), (org, cr_distinct_id req))) ` set reqs) g
      \<and> f \<subseteq>\<^sub>m g \<and> list_all (event_fits g) es) E"
  using assms
proof (induction reqs arbitrary: f d)
  case Nil
  then show ?case by (auto intro!: safe_ret exI [of _ f] grows_refl)
next
  case (Cons req reqs)
  let ?links = "\<lambda>reqs. (\<lambda>req. ((org, cr_distinct_id req), (org, cr_distinct_id req))) ` set reqs"
  let ?k = "(org, cr_distinct_id req)"
  have rest: "safe faults (bind (for_each (build_event org hs) reqs) (\<lambda>es. ret (e # es))) d'
      (\<lambda>es d'. \<exists>g. holds faults g d' \<and> grows f (?links (req # reqs)) g \<and> f \<subseteq>\<^sub>m g \<and> list_all (event_fits g) es) E"
    if g: "holds faults g d'" "assigns f ?k ?k g" "event_fits g e" for e d' g
  proof (intro safe_bind, rule safe_conseq [OF Cons.IH [OF g(1)]])
    fix es :: "'a analytics_event list" and d'' :: "'a analytics_tables"
    assume "\<exists>h. holds faults h d'' \<and> grows g (?links reqs) h \<and> g \<subseteq>\<^sub>m h \<and> list_all (event_fits h) es"
    then obtain h where h: "holds faults h d''" "grows g (?links reqs) h" "g \<subseteq>\<^sub>m h" "list_all (event_fits h) es" by blast
    have "grows f ({(?k, ?k)} \<union> ?links reqs) h" by (rule grows_trans [OF assigns_grows [OF g(2)] h(2)]) simp
    moreover have "event_fits h e" "f \<subseteq>\<^sub>m h"
      using event_fits_mono [OF h(3) g(3)] map_le_trans [OF assigns_same_key [OF g(2)] h(3)] .
    ultimately show "safe faults (ret (e # es)) d'' (\<lambda>es d'. \<exists>g. holds faults g d' \<and> grows f (?links (req # reqs)) g \<and> f \<subseteq>\<^sub>m g \<and> list_all (event_fits g) es) E"
      using h by (intro safe_ret exI [of _ h]) auto
  qed
  show ?case unfolding for_each.simps
    by (rule safe_bind, rule safe_conseq [OF safe_build_event [OF Cons.prems refl, where E = "\<lambda>_ _. False"]], elim exE conjE, rule rest)
      simp_all
qed


lemma safe_validate_item:
  "(\<And>r m. E (bad_request r m) d) \<Longrightarrow> Q () d \<Longrightarrow> safe faults (validate_item env item) d Q E"
  by (cases item) (auto simp: validate_item_def Let_def intro!: safe_bind safe_check)

lemma safe_validate_items:
  "(\<And>r m. E (bad_request r m) d) \<Longrightarrow> (\<And>us. Q us d) \<Longrightarrow> safe faults (for_each (validate_item env) items) d Q E"
proof (induction items arbitrary: Q)
  case (Cons item items)
  show ?case unfolding for_each.simps by (intro safe_bind safe_validate_item Cons safe_ret)
qed (simp add: safe_ret)

lemma safe_batch_capture_impl:
  assumes "holds faults f d"
  shows "safe faults (batch_capture_impl env ctx hs reqs) d (outcome faults f (BatchCall ctx hs reqs)) (outcome faults f (BatchCall ctx hs reqs))"
proof -
  let ?call = "BatchCall ctx hs reqs :: 'a analytics_call"
  have insert: "safe faults (bind (or_internal ''Failed to capture events'' (insert_events es)) (\<lambda>count.
      bind (note_key_used (kc_api_key_id ctx)) (\<lambda>_. ret (CaptureReply None (Some count))))) d' (outcome faults f ?call) (outcome faults f ?call)"
    if "holds faults g d'" "grows f (call_links ?call) g" "list_all (event_fits g) es" for es d' g
    using that
    by (intro safe_bind safe_or_internal safe_insert_events [OF that(1,3)] safe_finish [where g = g and f = f])
      (auto simp: outcome_def intro: outcome_error keptI)
  have build: "safe faults (bind (for_each (build_event (kc_org_id ctx) hs) reqs) (\<lambda>es. bind (or_internal ''Failed to capture events'' (insert_events es)) (\<lambda>count.
      bind (note_key_used (kc_api_key_id ctx)) (\<lambda>_. ret (CaptureReply None (Some count)))))) d (outcome faults f ?call) (outcome faults f ?call)"
    by (rule safe_bind, rule safe_conseq [OF safe_build_events [OF assms, where E = "\<lambda>_ _. False"]], elim exE conjE, rule insert) simp_all
  show ?thesis unfolding batch_capture_impl_def using outcome_start [OF assms, of ?call]
    by (intro safe_if safe_fail safe_bind [of _ "for_each (validate_item env) _"] safe_validate_items build) auto
qed


lemma safe_set_properties_impl:
  assumes "holds faults f d"
  shows "safe faults (set_properties_impl env ctx req) d (outcome faults f (SetCall ctx req)) (outcome faults f (SetCall ctx req))"
proof -
  let ?k = "(kc_org_id ctx, sp_distinct_id req)"
  let ?call = "SetCall ctx req :: 'a analytics_call"
  have update: "safe faults (bind (or_internal ''Failed to set properties'' (update_person p)) (\<lambda>_.
      bind (note_key_used (kc_api_key_id ctx)) (\<lambda>_. ret (IdentifyReply (pn_id p))))) d' (outcome faults f ?call) (outcome faults f ?call)"
    if "holds faults g d'" "assigns f ?k ?k g" "g ?k = Some (pn_id p)" "pn_merged_into_id p = None" for p d' g
  proof -
    have grows: "grows f (call_links ?call) g" using that(2) by (intro assigns_grows) auto
    have "owner d' ?k = Some (pn_id p)" "tables_ok d'" using that by (auto simp: holds_def)
    then obtain q where "person_row d' (pn_id p) = Some q" "pn_merged_into_id q = None"
      using owner_alive [of d' ?k "pn_id p"] alive_row by blast
    then show ?thesis using that grows
      by (intro safe_bind safe_or_internal safe_update_same [OF that(1), of p q] safe_finish [where g = g and f = f])
        (auto simp: outcome_def together_def holds_def intro!: outcome_error intro: keptI)
  qed
  have change: "safe faults (bind (if sp_set_once req
        then ret (p\<lparr>pn_properties := extend_object or_insert (pn_properties p) (sp_properties req)\<rparr>)
        else bind now (\<lambda>t. ret (set_properties t (sp_properties req) p))) (\<lambda>person.
      bind (or_internal ''Failed to set properties'' (update_person person)) (\<lambda>_.
      bind (note_key_used (kc_api_key_id ctx)) (\<lambda>_. ret (IdentifyReply (pn_id person)))))) d' (outcome faults f ?call) (outcome faults f ?call)"
    if "holds faults g d'" "assigns f ?k ?k g" "g ?k = Some (pn_id p)" "pn_merged_into_id p = None" for p d' g
    by (rule safe_bind, intro safe_if safe_ret safe_bind [of _ now] safe_now update [OF that(1,2)])
      (simp_all add: that set_properties_def)
  have resolved: "safe faults (or_internal ''Failed to resolve person'' (resolve_person_for_distinct_id (kc_org_id ctx) (sp_distinct_id req))) d
      (\<lambda>p d'. \<exists>g. holds faults g d' \<and> assigns f ?k ?k g \<and> g ?k = Some (pn_id (fst p)) \<and> pn_merged_into_id (fst p) = None) (outcome faults f ?call)"
    by (rule safe_or_internal, rule safe_conseq [OF safe_resolve [OF assms]]) (auto simp: result_of_def intro!: outcome_error left_by_kept)
  show ?thesis unfolding set_properties_impl_def
    by (intro safe_bind [of _ "check _ _"] safe_check outcome_start assms, rule safe_bind, rule safe_conseq [OF resolved], elim exE conjE, rule change,
        assumption+)
qed


section \<open>Queries\<close>

text \<open>The organization a query or a call of the key management is made for, and the replies that show rows of that organization only.\<close>

fun query_org :: "'j analytics_call \<Rightarrow> uuid option" where
  "query_org (ListPersonsCall ctx limit offset) = Some (kc_org_id ctx)"
| "query_org (GetPersonCall ctx i) = Some (kc_org_id ctx)"
| "query_org (GetDistinctCall ctx i) = Some (kc_org_id ctx)"
| "query_org (ListEventsCall ctx f limit offset) = Some (kc_org_id ctx)"
| "query_org (CountEventsCall ctx f) = Some (kc_org_id ctx)"
| "query_org (ExportCall ctx f limit) = Some (kc_org_id ctx)"
| "query_org (ListKeysCall user) = Some (uc_org_id user)"
| "query_org (CreateKeyCall user name ty) = Some (uc_org_id user)"
| "query_org (RevokeKeyCall user i) = Some (uc_org_id user)"
| "query_org _ = None"

fun reply_within :: "uuid \<Rightarrow> 'j reply \<Rightarrow> bool" where
  "reply_within org (PersonsReply ps n limit offset) \<longleftrightarrow> list_all (\<lambda>p. pr_org_id p = org) ps"
| "reply_within org (PersonReply p) \<longleftrightarrow> pr_org_id p = org"
| "reply_within org (EventsReply es n limit offset) \<longleftrightarrow> list_all (\<lambda>e. er_org_id e = org) es"
| "reply_within org (ExportReply es n) \<longleftrightarrow> list_all (\<lambda>e. er_org_id e = org) es"
| "reply_within org (KeysReply ks) \<longleftrightarrow> list_all (\<lambda>k. kr_org_id k = org) ks"
| "reply_within org (IdentifyReply i) \<longleftrightarrow> False"
| "reply_within org _ \<longleftrightarrow> True"

definition queried :: "bool \<Rightarrow> (key \<Rightarrow> uuid option) \<Rightarrow> uuid \<Rightarrow> 'j reply \<Rightarrow> 'j analytics_tables \<Rightarrow> bool" where
  "queried faults f org r d \<longleftrightarrow> holds faults f d \<and> reply_within org r"

lemma safe_answer:
  "holds faults f d \<Longrightarrow> reply_within org r \<Longrightarrow> safe faults (bind (note_key_used k) (\<lambda>_. ret r)) d (queried faults f org) E"
  by (intro safe_bind safe_note_key_used [where f = f] safe_ret) (simp_all add: queried_def)

lemma safe_get_person_with_identities:
  "(\<And>e. E e d) \<Longrightarrow> (person_row d i = None \<Longrightarrow> Q None d) \<Longrightarrow> (\<And>p is. person_row d i = Some p \<Longrightarrow> Q (Some (p, is)) d) \<Longrightarrow>
   safe faults (get_person_with_identities i) d Q E"
  unfolding get_person_with_identities_def get_person_by_id_def list_identities_for_person_def
  by (intro safe_bind safe_select safe_option safe_ret) auto

lemma safe_responses:
  assumes "E (internal_error msg) d" and "list_all (\<lambda>p. pn_org_id p = org) ps" and "\<And>rs. list_all (\<lambda>r. pr_org_id r = org) rs \<Longrightarrow> Q rs d"
  shows "safe faults (for_each (\<lambda>p. bind (or_internal msg (list_identities_for_person (pn_id p))) (\<lambda>is. ret (person_to_response (p, is)))) ps) d Q E"
  using assms(2,3)
proof (induction ps arbitrary: Q)
  case (Cons p ps)
  show ?case unfolding for_each.simps
    using Cons.prems
    by (intro safe_bind safe_or_internal safe_list_identities safe_ret Cons.IH assms(1)) (auto simp: person_to_response_def)
qed (simp add: safe_ret)

lemmas safe_reads = safe_bind [of _ "or_internal _ _"] safe_bind [of _ "require_read_write _ _"] safe_if safe_fail safe_or_internal safe_select safe_option safe_ret

lemma safe_require: "(\<And>m. E (forbidden m) d) \<Longrightarrow> Q () d \<Longrightarrow> safe faults (require_read_write ctx msg) d Q E"
  by (auto simp: require_read_write_def intro: safe_rules)

lemma list_all_sort_key: "list_all P (sort_key k xs) = list_all P xs"
  by (simp add: list_all_iff)

lemma list_all_take_drop: "list_all P xs \<Longrightarrow> list_all P (take n (drop m xs))"
  by (auto simp: list_all_iff dest: in_set_takeD in_set_dropD)

lemma safe_person_queries:
  assumes "holds faults f d"
  shows "safe faults (list_persons_impl ctx limit offset) d (queried faults f (kc_org_id ctx)) (queried faults f (kc_org_id ctx))"
    and "safe faults (get_person_impl env ctx i) d (queried faults f (kc_org_id ctx)) (queried faults f (kc_org_id ctx))"
    and "safe faults (get_person_by_distinct_id_impl ctx x) d (queried faults f (kc_org_id ctx)) (queried faults f (kc_org_id ctx))"
proof -
  have err: "queried faults f org (ErrorReply n e m) d" for org n e m using assms by (simp add: queried_def)
  show "safe faults (list_persons_impl ctx limit offset) d (queried faults f (kc_org_id ctx)) (queried faults f (kc_org_id ctx))"
    unfolding list_persons_impl_def Let_def list_persons_def count_persons_def
    by (intro safe_reads err safe_require safe_bind [of _ "for_each _ _"] safe_responses [where org = "kc_org_id ctx"] safe_answer [OF assms]
        list_all_take_drop) (simp_all add: list_all_sort_key live_persons_def list_all_iff)
  show "safe faults (get_person_impl env ctx i) d (queried faults f (kc_org_id ctx)) (queried faults f (kc_org_id ctx))"
    unfolding get_person_impl_def
    by (intro safe_reads err safe_require safe_get_person_with_identities safe_answer [OF assms]) (auto simp: person_to_response_def)
  have org: "pn_org_id p = kc_org_id ctx" if "alive d (kc_org_id ctx) j" "person_row d j = Some p" for j p
    using alive_row [OF _ that(1)] that(2) assms by (auto simp: holds_def)
  show "safe faults (get_person_by_distinct_id_impl ctx x) d (queried faults f (kc_org_id ctx)) (queried faults f (kc_org_id ctx))"
    unfolding get_person_by_distinct_id_impl_def
    by (intro safe_reads err safe_require safe_get_identity [OF assms] safe_get_person_with_identities safe_answer [OF assms])
      (auto simp: person_to_response_def dest: org)
qed

lemma safe_event_queries:
  assumes "holds faults f d"
  shows "safe faults (list_events_impl ctx h limit offset) d (queried faults f (kc_org_id ctx)) (queried faults f (kc_org_id ctx))"
    and "safe faults (count_events_impl ctx h) d (queried faults f (kc_org_id ctx)) (queried faults f (kc_org_id ctx))"
    and "safe faults (export_events_impl ctx h limit) d (queried faults f (kc_org_id ctx)) (queried faults f (kc_org_id ctx))"
proof -
  have err: "queried faults f org (ErrorReply n e m) d" for org n e m using assms by (simp add: queried_def)
  have rows: "list_all (\<lambda>e. er_org_id e = kc_org_id ctx) (map event_to_response (take n (drop m
      (sort_key k (filter (event_selected (kc_org_id ctx) h) (tb_events d))))))" for n m and k :: "'a analytics_event \<Rightarrow> int"
    by (auto simp: list_all_iff event_to_response_def event_selected_def dest!: in_set_takeD in_set_dropD)
  show "safe faults (list_events_impl ctx h limit offset) d (queried faults f (kc_org_id ctx)) (queried faults f (kc_org_id ctx))"
    unfolding list_events_impl_def Let_def list_events_def count_events_def
    by (intro safe_reads err safe_require safe_answer [OF assms]) (simp only: reply_within.simps rows)
  show "safe faults (count_events_impl ctx h) d (queried faults f (kc_org_id ctx)) (queried faults f (kc_org_id ctx))"
    unfolding count_events_impl_def count_events_def
    by (intro safe_reads err safe_require safe_answer [OF assms]) simp
  show "safe faults (export_events_impl ctx h limit) d (queried faults f (kc_org_id ctx)) (queried faults f (kc_org_id ctx))"
    unfolding export_events_impl_def Let_def list_events_def
    by (intro safe_reads err safe_require safe_answer [OF assms]) (simp only: reply_within.simps rows)
qed

lemma safe_key_calls:
  assumes "holds faults f d"
  shows "safe faults (list_api_keys_impl user) d (queried faults f (uc_org_id user)) (queried faults f (uc_org_id user))"
    and "safe faults (create_api_key_impl env user name ty) d (queried faults f (uc_org_id user)) (queried faults f (uc_org_id user))"
    and "safe faults (revoke_api_key_impl env user i) d (queried faults f (uc_org_id user)) (queried faults f (uc_org_id user))"
proof -
  have err: "queried faults f org (ErrorReply n e m) d" for org n e m using assms by (simp add: queried_def)
  show "safe faults (list_api_keys_impl user) d (queried faults f (uc_org_id user)) (queried faults f (uc_org_id user))"
    unfolding list_api_keys_impl_def list_api_keys_def
    by (intro safe_reads err) (auto simp: queried_def assms list_all_iff api_key_to_response_def)
  show "safe faults (create_api_key_impl env user name ty) d (queried faults f (uc_org_id user)) (queried faults f (uc_org_id user))"
    unfolding create_api_key_impl_def Let_def create_api_key_def
    by (intro safe_reads err safe_bind [of _ draw_uuid] safe_draw_uuid safe_bind [of _ now] safe_now safe_sum safe_query)
      (auto simp: queried_def assms split: if_splits intro!: safe_ret holds_other_tables)
  show "safe faults (revoke_api_key_impl env user i) d (queried faults f (uc_org_id user)) (queried faults f (uc_org_id user))"
    unfolding revoke_api_key_impl_def get_api_key_by_id_def revoke_api_key_def Let_def
    by (intro safe_reads err safe_bind [of _ now] safe_now safe_query)
      (auto simp: queried_def assms intro!: safe_ret safe_fail safe_if holds_other_tables)
qed

lemma safe_queries:
  assumes "holds faults f d" and "query_org call = Some org"
  shows "safe faults (handle env call) d (queried faults f org) (queried faults f org)"
  using assms(2) safe_person_queries [OF assms(1)] safe_event_queries [OF assms(1)] safe_key_calls [OF assms(1)]
  by (cases call) auto


section \<open>Runs\<close>

lemma outcome_queried: "queried faults f org r d \<Longrightarrow> outcome faults f call r d"
  unfolding outcome_def queried_def by (cases r) (auto intro: keptI [OF _ grows_refl])

lemma safe_handle:
  assumes "holds faults f d"
  shows "safe faults (handle env call) d (outcome faults f call) (outcome faults f call)"
proof (cases "query_org call")
  case None
  then show ?thesis
    using safe_capture_event_impl [OF assms] safe_batch_capture_impl [OF assms] safe_identify_impl [OF assms] safe_alias_impl [OF assms]
      safe_set_properties_impl [OF assms] by (cases call) auto
next
  case (Some org)
  from safe_queries [OF assms this] show ?thesis by (rule safe_conseq) (rule outcome_queried, assumption)+
qed

lemma serve_outcome:
  assumes "holds faults f (wd_tables w)" and "faults \<or> wd_fault w = (\<lambda>_. None)" and "serve env call w = (r, w')"
  shows "wd_fault w' = wd_fault w" and "outcome faults f call r (wd_tables w')"
  using safe_run [OF safe_handle [OF assms(1), where env = env and call = call] refl assms(2)] assms(3)
  by (auto simp: serve_def split: prod.splits sum.splits)

text \<open>One served request as a step, and the invariant of the tables along any sequence of them.\<close>

definition serve_world :: "'j analytics_env \<Rightarrow> 'j analytics_tables world \<Rightarrow> 'j analytics_call \<Rightarrow> 'j analytics_tables world" where
  "serve_world env w call = snd (serve env call w)"

lemma serve_all_world: "snd (serve_all env calls w) = foldl (serve_world env) w calls"
  by (induction calls arbitrary: w) (simp_all add: serve_world_def split_beta)

interpretation table_calls: event_driven "serve_world env" "\<lambda>w. \<exists>f. holds True f (wd_tables w)" for env :: "'j analytics_env"
proof
  fix w :: "'j analytics_tables world" and call
  assume "\<exists>f. holds True f (wd_tables w)"
  then obtain f where f: "holds True f (wd_tables w)" by blast
  obtain r w' where "serve env call w = (r, w')" by force
  from serve_outcome(2) [OF f _ this] show "\<exists>f. holds True f (wd_tables (serve_world env w call))"
    by (auto simp: outcome_def kept_def serve_world_def \<open>serve env call w = (r, w')\<close>)
qed

lemma serve_all_outcome:
  assumes "holds faults f (wd_tables w)" and "faults \<or> wd_fault w = (\<lambda>_. None)" and "serve_all env calls w = (rs, w')"
  shows "\<exists>g. holds faults g (wd_tables w') \<and> grows f (all_links calls) g \<and> answered_links calls rs \<subseteq> together g"
  using assms
proof (induction calls arbitrary: f w rs w')
  case Nil
  then show ?case by (auto intro!: exI [of _ f] grows_refl)
next
  case (Cons c cs)
  obtain r w1 where first: "serve env c w = (r, w1)" by force
  obtain rs' where rest: "serve_all env cs w1 = (rs', w')" and rs: "rs = r # rs'" using Cons.prems(3) first by (auto split: prod.splits)
  note out = serve_outcome [OF Cons.prems(1,2) first]
  then obtain g where g: "holds faults g (wd_tables w1)" "grows f (call_links c) g"
    and answered: "(case r of IdentifyReply i \<Rightarrow> call_links c \<subseteq> together (owner (wd_tables w1)) | _ \<Rightarrow> True)" unfolding outcome_def kept_def by blast
  from Cons.IH [OF g(1) _ rest] out(1) Cons.prems(2) obtain h where h: "holds faults h (wd_tables w')" "grows g (all_links cs) h"
    "answered_links cs rs' \<subseteq> together h" by auto
  have "grows f (all_links (c # cs)) h" using grows_trans [OF g(2) h(2)] by (simp add: all_links_def)
  moreover have "owner (wd_tables w1) = g" "together g \<subseteq> together h" using g(1) h(2) by (auto simp: holds_def grows_def)
  then have "answered_links (c # cs) rs \<subseteq> together h" using h(3) answered unfolding rs by (cases r) auto
  ultimately show ?case using h(1) by blast
qed

definition fresh_tables :: "'j analytics_tables \<Rightarrow> bool" where
  "fresh_tables d \<longleftrightarrow> tb_persons d = [] \<and> tb_identities d = [] \<and> tb_events d = []"

lemma fresh_holds: "fresh_tables d \<Longrightarrow> holds faults Map.empty d"
  by (auto simp: fresh_tables_def holds_def tables_ok_def attributed_def owner_def identity_row_def)

lemma together_empty: "together Map.empty = {}"
  by (simp add: together_def)

lemma trancl_together: "R \<subseteq> together f \<Longrightarrow> (R \<union> R\<inverse>)\<^sup>+ \<subseteq> together f"
proof clarify
  fix u v
  assume "R \<subseteq> together f" "(u, v) \<in> (R \<union> R\<inverse>)\<^sup>+"
  from this(2,1) show "(u, v) \<in> together f"
    by (induction rule: trancl_induct) (auto intro: together_sym together_trans)
qed

section \<open>Properties\<close>

text \<open>
  C17: Whatever statements of the database fail, two distinct ids resolve to the same person exactly along the links made: all pairs connected by
  answered identify and alias calls do, now and later, and no pair does that is not connected by calls of its own organization.
\<close>

theorem identities_linked_exactly:
  assumes "fresh_tables (wd_tables w)" and "serve_all env calls w = (replies, w')"
  shows "(answered_links calls replies \<union> (answered_links calls replies)\<inverse>)\<^sup>+ \<subseteq> together (owner (wd_tables w'))
    \<and> together (owner (wd_tables w')) \<subseteq> (all_links calls \<union> (all_links calls)\<inverse>)\<^sup>*"
proof -
  obtain g where g: "holds True g (wd_tables w')" "grows Map.empty (all_links calls) g" "answered_links calls replies \<subseteq> together g"
    using serve_all_outcome [OF fresh_holds [OF assms(1), of True] _ assms(2)] by blast
  then have "owner (wd_tables w') = g" by (simp add: holds_def)
  with g trancl_together [OF g(3)] show ?thesis by (simp add: grows_def together_empty)
qed

definition demo_env :: "unit analytics_env" where
  "demo_env = \<lparr>ae_is_alphanumeric = (\<lambda>_. True), ae_json_len = (\<lambda>_. 2), ae_verify = (\<lambda>t h. Inr (t = h)), ae_hash = Inr,
     ae_parse_uuid = (\<lambda>_. None), ae_simple_uuid = (\<lambda>_. ''0'')\<rparr>"

definition demo_ctx :: api_key_context where
  "demo_ctx = \<lparr>kc_api_key_id = 7, kc_org_id = 1, kc_key_type = KeyWrite\<rparr>"

definition demo_world :: "unit analytics_tables world" where
  "demo_world = \<lparr>wd_tables = \<lparr>tb_persons = [], tb_identities = [], tb_events = [], tb_merges = [], tb_api_keys = []\<rparr>,
     wd_queries = 0, wd_fault = (\<lambda>_. None), wd_reads = 0, wd_clock = int, wd_drawn = 0, wd_random = of_nat\<rparr>"

definition demo_calls :: "unit analytics_call list" where
  "demo_calls = [AliasCall demo_ctx \<lparr>ap_distinct_id = ''a'', ap_alias = ''b''\<rparr>, AliasCall demo_ctx \<lparr>ap_distinct_id = ''c'', ap_alias = ''b''\<rparr>]"

lemma demo_replies: "fst (serve_all demo_env demo_calls demo_world) = [IdentifyReply 0, IdentifyReply 0]"
  by code_simp


theorem identities_linked_exactly_witness:
  "((1, ''a''), (1, ''c'')) \<in> together (owner (wd_tables (snd (serve_all demo_env demo_calls demo_world))))"
proof -
  have "fresh_tables (wd_tables demo_world)" by (simp add: fresh_tables_def demo_world_def)
  have run: "serve_all demo_env demo_calls demo_world = ([IdentifyReply 0, IdentifyReply 0], snd (serve_all demo_env demo_calls demo_world))"
    by (metis demo_replies prod.collapse)
  note sub = identities_linked_exactly [OF \<open>fresh_tables (wd_tables demo_world)\<close> run, THEN conjunct1]
  let ?R = "answered_links demo_calls [IdentifyReply 0, IdentifyReply 0] :: (key \<times> key) set"
  have "((1, ''a''), (1, ''b'')) \<in> ?R" "((1, ''c''), (1, ''b'')) \<in> ?R" by (simp_all add: demo_calls_def demo_ctx_def)
  then have "((1, ''a''), (1, ''c'')) \<in> (?R \<union> ?R\<inverse>)\<^sup>+"
    by (meson UnI1 UnI2 converseI trancl.intros)
  with sub show ?thesis by blast
qed

text \<open>
  C18: While the database answers, every event stays with its user: after any requests, merges included, an event that was attributed to a person is
  attributed to the person its distinct id resolves to now.
\<close>

theorem events_follow_person:
  assumes "fresh_tables (wd_tables w)" and "wd_fault w = (\<lambda>_. None)" and "serve_all env calls w = (replies, w')"
  shows "list_all (event_fits (owner (wd_tables w'))) (tb_events (wd_tables w'))"
proof -
  obtain g where "holds False g (wd_tables w')"
    using serve_all_outcome [OF fresh_holds [OF assms(1), of False] _ assms(3)] assms(2) by blast
  then show ?thesis by (auto simp: holds_def attributed_def event_fits_def list_all_iff split: option.split)
qed

definition demo_capture :: "unit capture_request" where
  "demo_capture = \<lparr>cr_distinct_id = ''c'', cr_event = ''e'', cr_properties = JsonObject [], cr_timestamp = None\<rparr>"

text \<open>The event of \<^verbatim>\<open>c\<close> is captured for a person of its own, which the last call merges away.\<close>

lemma demo_capture_steps:
  "handle demo_env (CaptureCall demo_ctx (\<lambda>_. None) demo_capture) =
     bind (build_event 1 (\<lambda>_. None) demo_capture) (\<lambda>event.
     bind (or_internal ''Failed to capture event'' (insert_event event)) (\<lambda>_.
     bind (note_key_used 7) (\<lambda>_. ret (CaptureReply (Some (ev_id event)) None))))"
proof -
  have "validate_event_name demo_env ''e'' = Inr ()"
    by (auto simp: validate_event_name_def demo_env_def MAX_EVENT_NAME_LENGTH_def list_all_iff)
  moreover have "validate_distinct_id ''c'' = Inr ()" by (simp add: validate_distinct_id_def MAX_DISTINCT_ID_LENGTH_def)
  moreover have "validate_properties demo_env (JsonObject []) = Inr ()"
    by (simp add: validate_properties_def demo_env_def MAX_PROPERTIES_SIZE_def)
  ultimately show ?thesis
    by (simp add: capture_event_impl_def demo_capture_def demo_ctx_def check_def bind_def ret_def fun_eq_iff)
qed

lemma demo_merged_event:
  "map (\<lambda>e. (ev_distinct_id e, ev_person_id e)) (tb_events (wd_tables (snd (serve_all demo_env
     [AliasCall demo_ctx \<lparr>ap_distinct_id = ''a'', ap_alias = ''b''\<rparr>, CaptureCall demo_ctx (\<lambda>_. None) demo_capture,
      AliasCall demo_ctx \<lparr>ap_distinct_id = ''a'', ap_alias = ''c''\<rparr>] demo_world)))) = [(''c'', Some 0)]"
  unfolding serve_all.simps serve_def demo_capture_steps by code_simp

theorem events_follow_person_witness:
  "let w' = snd (serve_all demo_env [AliasCall demo_ctx \<lparr>ap_distinct_id = ''a'', ap_alias = ''b''\<rparr>, CaptureCall demo_ctx (\<lambda>_. None) demo_capture,
       AliasCall demo_ctx \<lparr>ap_distinct_id = ''a'', ap_alias = ''c''\<rparr>] demo_world)
   in list_all (event_fits (owner (wd_tables w'))) (tb_events (wd_tables w')) \<and> tb_events (wd_tables w') \<noteq> []"
proof -
  let ?calls = "[AliasCall demo_ctx \<lparr>ap_distinct_id = ''a'', ap_alias = ''b''\<rparr>, CaptureCall demo_ctx (\<lambda>_. None) demo_capture,
    AliasCall demo_ctx \<lparr>ap_distinct_id = ''a'', ap_alias = ''c''\<rparr>]"
  have "fresh_tables (wd_tables demo_world)" "wd_fault demo_world = (\<lambda>_. None)" by (simp_all add: fresh_tables_def demo_world_def)
  from events_follow_person [OF this, of demo_env ?calls "fst (serve_all demo_env ?calls demo_world)" "snd (serve_all demo_env ?calls demo_world)"]
    demo_merged_event show ?thesis by (auto simp: Let_def)
qed

text \<open>
  C20: A query shows rows of the organization of its key only: whatever requests of any organizations came before, and whatever statements
  failed, the persons, events and keys in its reply belong to that organization.
\<close>

theorem queries_within_org:
  assumes "fresh_tables (wd_tables w)" and "serve_all env calls w = (replies, w')" and "query_org call = Some org"
    and "serve env call w' = (r, w'')"
  shows "reply_within org r"
proof -
  have "w' = foldl (serve_world env) w calls" using serve_all_world [of env calls w] assms(2) by simp
  then obtain g where "holds True g (wd_tables w')"
    using table_calls.run_inv [of w env calls] fresh_holds [OF assms(1), of True] by auto
  from safe_run [OF safe_queries [OF this assms(3), where env = env] refl] assms(4) show ?thesis
    by (auto simp: serve_def queried_def split: prod.splits sum.splits)
qed

theorem queries_within_org_witness:
  "let w' = snd (serve_all demo_env demo_calls demo_world)
   in reply_within 1 (fst (serve demo_env (ListPersonsCall (demo_ctx\<lparr>kc_key_type := KeyReadWrite\<rparr>) 10 0) w'))"
proof -
  have "fresh_tables (wd_tables demo_world)" by (simp add: fresh_tables_def demo_world_def)
  let ?call = "ListPersonsCall (demo_ctx\<lparr>kc_key_type := KeyReadWrite\<rparr>) 10 0"
  let ?w = "snd (serve_all demo_env demo_calls demo_world)"
  have "query_org ?call = Some 1" by (simp add: demo_ctx_def)
  from queries_within_org [OF \<open>fresh_tables (wd_tables demo_world)\<close> surjective_pairing this, of demo_env demo_calls "fst (serve demo_env ?call ?w)"
      "snd (serve demo_env ?call ?w)"]
  show ?thesis by (simp add: Let_def)
qed


section \<open>Keys\<close>

text \<open>A property of all keys that neither using nor revoking a key affects is kept by every handler that does not create keys.\<close>

abbreviation keeps_keys :: "(analytics_api_key \<Rightarrow> bool) \<Rightarrow> ('j analytics_tables, 'e, 'a) action \<Rightarrow> bool" where
  "keeps_keys P \<equiv> keeps (\<lambda>d. list_all P (tb_api_keys d))"

lemma keeps_or_internal [keeps_rules]: "keeps I m \<Longrightarrow> keeps I (or_internal msg m)"
  unfolding or_internal_def by (rule keeps_wrap)

lemmas statement_defs = create_person_def get_person_by_id_def list_identities_for_person_def get_person_with_identities_def list_persons_def count_persons_def
  update_person_def create_identity_def get_identity_by_distinct_id_def transfer_identities_def insert_event_def insert_events_def list_events_def
  count_events_def reassign_events_def create_merge_def get_api_key_by_id_def list_api_keys_def revoke_api_key_def update_api_key_last_used_def

definition key_fields_free :: "(analytics_api_key \<Rightarrow> bool) \<Rightarrow> bool" where
  "key_fields_free P \<longleftrightarrow> (\<forall>k t. P k \<longrightarrow> P (k\<lparr>ak_last_used_at := t\<rparr>) \<and> P (k\<lparr>ak_revoked_at := t\<rparr>))"

lemma keeps_keys_statements:
  assumes "key_fields_free P"
  shows "keeps_keys P (create_person p)" "keeps_keys P (get_person_by_id i)" "keeps_keys P (list_identities_for_person i)"
    "keeps_keys P (list_persons org n m)" "keeps_keys P (count_persons org)" "keeps_keys P (update_person p)" "keeps_keys P (create_identity x)"
    "keeps_keys P (get_identity_by_distinct_id org s)" "keeps_keys P (transfer_identities i j)" "keeps_keys P (insert_event e)"
    "keeps_keys P (list_events org f n m)" "keeps_keys P (count_events org f)" "keeps_keys P (reassign_events i j)" "keeps_keys P (create_merge mm)"
    "keeps_keys P (get_api_key_by_id i)" "keeps_keys P (list_api_keys org)" "keeps_keys P (revoke_api_key i)" "keeps_keys P (update_api_key_last_used i)"
  using assms unfolding statement_defs Let_def
  by (auto intro!: keeps_rules split: if_splits simp: list_all_iff key_fields_free_def)

lemma keeps_keys_handlers:
  assumes "key_fields_free P" and "\<And>user name ty. keeps_keys P (create_api_key_impl env user name ty)"
  shows "keeps_keys P (handle env call)"
proof -
  note rules = keeps_rules keeps_keys_statements [OF assms(1)]
  have service: "keeps_keys P (get_person_with_identities i)" "keeps_keys P (existing msg (get_person_by_id i))" "keeps_keys P (add_identity i x ty)"
    "keeps_keys P (add_person org h)" "keeps_keys P (merge_persons i j reason props)" "keeps_keys P (with_current_identities p)"
    "keeps_keys P (apply_properties pr p)" "keeps_keys P (insert_events es)" "keeps_keys P (note_key_used i)" "keeps_keys P (check v err)"
    for i j x ty org h reason props p pr es v err msg
    unfolding get_person_with_identities_def existing_def add_identity_def add_person_def merge_persons_def with_current_identities_def apply_properties_def
      insert_events_def note_key_used_def check_def move_person_rows_def retire_person_def record_merge_def Let_def
    by (intro rules)+
  have merges: "keeps_keys P (existing msg (get_person_with_identities i))" "keeps_keys P (merge_known i j reason props)" for msg i j reason props
    unfolding existing_def merge_known_def Let_def by (intro rules service)+
  have calls: "keeps_keys P (resolve_person_for_distinct_id org x)" "keeps_keys P (identify org ip)" "keeps_keys P (alias_ids org ap)" for org x ip ap
    unfolding resolve_person_for_distinct_id_def identify_def alias_ids_def Let_def by (intro rules service merges)+
  have items: "keeps_keys P (build_event org hs req)" "keeps_keys P (validate_item env item)" "keeps_keys P (require_read_write ctx msg)" for org hs req item ctx msg
    unfolding build_event_def validate_item_def require_read_write_def Let_def by (intro rules service calls)+
  note all = rules service merges calls items
  have "keeps_keys P (capture_event_impl env ctx hs req)" for ctx hs req unfolding capture_event_impl_def by (intro all)
  moreover have "keeps_keys P (batch_capture_impl env ctx hs reqs)" for ctx hs reqs unfolding batch_capture_impl_def by (intro all)
  moreover have "keeps_keys P (identify_impl env ctx ip)" "keeps_keys P (alias_impl ctx ap)" "keeps_keys P (set_properties_impl env ctx sp)" for ctx ip ap sp
    unfolding identify_impl_def alias_impl_def set_properties_impl_def by (intro all)+
  moreover have "keeps_keys P (list_persons_impl ctx n m)" "keeps_keys P (get_person_impl env ctx i)" "keeps_keys P (get_person_by_distinct_id_impl ctx i)" for ctx n m i
    unfolding list_persons_impl_def get_person_impl_def get_person_by_distinct_id_impl_def Let_def by (intro all)+
  moreover have "keeps_keys P (list_events_impl ctx f n m)" "keeps_keys P (count_events_impl ctx f)" "keeps_keys P (export_events_impl ctx f n)" for ctx f n m
    unfolding list_events_impl_def count_events_impl_def export_events_impl_def Let_def by (intro all)+
  moreover have "keeps_keys P (list_api_keys_impl user)" "keeps_keys P (revoke_api_key_impl env user i)" for user i
    unfolding list_api_keys_impl_def revoke_api_key_impl_def by (intro all)+
  ultimately show ?thesis using assms(2) by (cases call) auto
qed


text \<open>
  Every key was made by the code from a raw key whose prefix tells its type: as the hash of it, or, for a key of the server itself, as a write key
  in plain text.
\<close>

definition key_sound :: "'j analytics_env \<Rightarrow> analytics_api_key \<Rightarrow> bool" where
  "key_sound env k \<longleftrightarrow> (\<exists>random. ae_hash env (generate_analytics_key random (ak_key_type k)) = Inr (ak_key_hash k)
     \<or> ak_key_type k = KeyWrite \<and> ak_key_hash k = generate_analytics_key random KeyWrite)"

lemma key_fields_free_sound: "key_fields_free (key_sound env)"
  by (simp add: key_fields_free_def key_sound_def)

lemma keeps_keys_create: "keeps_keys (key_sound env) (create_api_key_impl env user name ty)"
  unfolding create_api_key_impl_def create_api_key_def Let_def
  by (intro keeps_rules) (auto split: if_splits simp: key_sound_def)

lemma keeps_keys_ensure: "keeps_keys (key_sound env) (ensure_analytics_api_key env org name)"
  unfolding ensure_analytics_api_key_def Let_def
  by (intro keeps_rules) (auto split: if_splits simp: key_sound_def WRITE_PREFIX_def)

text \<open>The requests, and the starts of the server in between.\<close>

datatype 'j key_event = KeyRequest "'j analytics_call" | ServerStart uuid string

definition key_step :: "'j analytics_env \<Rightarrow> 'j analytics_tables world \<Rightarrow> 'j key_event \<Rightarrow> 'j analytics_tables world" where
  "key_step env w ev = (case ev of
     KeyRequest call \<Rightarrow> snd (serve env call w)
   | ServerStart org name \<Rightarrow> snd (ensure_analytics_api_key env org name w))"

interpretation key_calls: event_driven "key_step env" "\<lambda>w. list_all (key_sound env) (tb_api_keys (wd_tables w))" for env :: "'j analytics_env"
proof
  fix w :: "'j analytics_tables world" and ev
  assume "list_all (key_sound env) (tb_api_keys (wd_tables w))"
  moreover have "keeps_keys (key_sound env) (handle env call)" for call
    by (rule keeps_keys_handlers [OF key_fields_free_sound keeps_keys_create])
  moreover have "snd (serve env call w) = snd (handle env call w)" for call by (simp add: serve_def split: prod.split sum.split)
  ultimately show "list_all (key_sound env) (tb_api_keys (wd_tables (key_step env w ev)))"
    using keeps_keys_ensure [of env] by (cases ev) (simp_all add: keeps_def key_step_def)
qed

lemma verified_key_Some:
  "verified_key verify raw ks = Some k \<Longrightarrow> k \<in> set ks \<and> (ak_key_hash k = raw \<or> verify raw (ak_key_hash k) = Inr True)"
  by (induction ks) (auto split: if_splits sum.splits bool.splits)

text \<open>
  What the code relies on of the password hash: only the hashed key verifies (no collisions), and neither a hash nor a text against which anything
  verifies looks like a key.
\<close>

definition hashing_ok :: "'j analytics_env \<Rightarrow> bool" where
  "hashing_ok env \<longleftrightarrow> (\<forall>raw h token. ae_hash env raw = Inr h \<longrightarrow> ae_verify env token h = Inr True \<longrightarrow> token = raw)
     \<and> (\<forall>raw h. ae_hash env raw = Inr h \<longrightarrow> parse_key_type h = None)
     \<and> (\<forall>h token. ae_verify env token h = Inr True \<longrightarrow> parse_key_type h = None)"

lemma parse_generated: "parse_key_type (generate_analytics_key random ty) = Some ty"
  by (cases ty) (simp_all add: parse_key_type_def WRITE_PREFIX_def READ_WRITE_PREFIX_def starts_with_def)

lemma accepted_key_type:
  assumes "hashing_ok env" and "key_sound env k" and "parse_key_type token = Some ty"
    and "ak_key_hash k = token \<or> ae_verify env token (ak_key_hash k) = Inr True"
  shows "ak_key_type k = ty"
proof -
  from assms(2) obtain random where "ae_hash env (generate_analytics_key random (ak_key_type k)) = Inr (ak_key_hash k)
      \<or> ak_key_type k = KeyWrite \<and> ak_key_hash k = generate_analytics_key random KeyWrite"
    by (auto simp: key_sound_def)
  then show ?thesis
  proof
    assume "ae_hash env (generate_analytics_key random (ak_key_type k)) = Inr (ak_key_hash k)"
    with assms have "token = generate_analytics_key random (ak_key_type k)" by (auto simp: hashing_ok_def)
    with assms(3) show ?thesis by (simp add: parse_generated)
  next
    assume plain: "ak_key_type k = KeyWrite \<and> ak_key_hash k = generate_analytics_key random KeyWrite"
    then have looks: "parse_key_type (ak_key_hash k) = Some KeyWrite" using parse_generated [of random KeyWrite] by simp
    with assms(1,4) have "ak_key_hash k = token" by (auto simp: hashing_ok_def)
    with assms(3) plain looks show ?thesis by simp
  qed
qed

text \<open>The context of a call that reads.\<close>

fun reads_with :: "'j analytics_call \<Rightarrow> api_key_context option" where
  "reads_with (ListPersonsCall ctx limit offset) = Some ctx"
| "reads_with (GetPersonCall ctx i) = Some ctx"
| "reads_with (GetDistinctCall ctx i) = Some ctx"
| "reads_with (ListEventsCall ctx f limit offset) = Some ctx"
| "reads_with (CountEventsCall ctx f) = Some ctx"
| "reads_with (ExportCall ctx f limit) = Some ctx"
| "reads_with _ = None"

lemma write_key_refused:
  assumes "reads_with call = Some ctx" and "kc_key_type ctx = KeyWrite"
  shows "\<exists>msg. serve env call w = (forbidden msg, w)"
  using assms by (cases call) (auto simp: serve_def list_persons_impl_def get_person_impl_def get_person_by_distinct_id_impl_def list_events_impl_def
      count_events_impl_def export_events_impl_def require_read_write_def bind_def fail_def)

text \<open>
  C19: An API key gives what it was created for. Let every key of the table be one the code made (none at first, say), and let any requests and
  starts of the server follow, which add the server's own keys in plain text: a request whose authorization header is then accepted acts for the organization of
  a key in the table that was not revoked, and with exactly the type stored for that key; and when that is a write key, every call that reads persons
  or events is refused and changes nothing. This relies on a password hash without collisions, whose hashes do not look like keys.
\<close>

theorem api_key_grants_its_type:
  assumes "list_all (key_sound env) (tb_api_keys (wd_tables w))" and "w' = foldl (key_step env) w evs" and "hashing_ok env"
    and "extract_api_key_context env hs w' = (Inr ctx, w'')"
  shows "(\<exists>k \<in> set (tb_api_keys (wd_tables w')). ak_id k = kc_api_key_id ctx \<and> ak_org_id k = kc_org_id ctx
      \<and> ak_revoked_at k = None \<and> ak_key_type k = kc_key_type ctx)
    \<and> (kc_key_type ctx = KeyWrite \<longrightarrow> (\<forall>call v. reads_with call = Some ctx \<longrightarrow> (\<exists>msg. serve env call v = (forbidden msg, v))))"
proof -
  have sound: "list_all (key_sound env) (tb_api_keys (wd_tables w'))" using key_calls.run_inv [of env w evs] assms(1,2) by simp
  obtain token k where token: "parse_key_type token = Some (kc_key_type ctx)"
    and k: "verified_key (ae_verify env) token (filter (\<lambda>k. ak_revoked_at k = None) (tb_api_keys (wd_tables w'))) = Some k"
      "ak_id k = kc_api_key_id ctx" "ak_org_id k = kc_org_id ctx"
    using assms(4)
    by (auto simp: extract_api_key_context_def fail_def bind_def or_internal_def map_err_def find_api_key_by_raw_def query_def ret_def Let_def
        split: option.splits header_value.splits if_splits prod.splits sum.splits)
  from verified_key_Some [OF k(1)] have key: "k \<in> set (tb_api_keys (wd_tables w'))" "ak_revoked_at k = None"
    "ak_key_hash k = token \<or> ae_verify env token (ak_key_hash k) = Inr True" by auto
  with accepted_key_type [OF assms(3) _ token key(3)] sound have "ak_key_type k = kc_key_type ctx" by (simp add: list_all_iff)
  with key(1,2) k(2,3) show ?thesis using write_key_refused [of _ ctx env] by blast
qed

definition demo_keys_env :: "unit analytics_env" where
  "demo_keys_env = demo_env\<lparr>ae_hash := (\<lambda>raw. Inr (CHR ''$'' # raw)), ae_verify := (\<lambda>token h. Inr (h = CHR ''$'' # token))\<rparr>"

definition demo_headers :: header_map where
  "demo_headers = (\<lambda>name. if name = ''authorization'' then Some (HeaderText ''Bearer loom_analytics_write_0'') else None)"

text \<open>A key made at the start of the server, and one made by a user.\<close>

definition demo_key_events :: "unit key_event list" where
  "demo_key_events = [ServerStart 1 ''web'', KeyRequest (CreateKeyCall \<lparr>uc_user_id = 5, uc_org_id = 1\<rparr> ''k'' KeyReadWrite)]"

definition demo_key_world :: "unit analytics_tables world" where
  "demo_key_world = foldl (key_step demo_keys_env) demo_world demo_key_events"

lemma demo_authenticated:
  "fst (extract_api_key_context demo_keys_env demo_headers demo_key_world) = Inr \<lparr>kc_api_key_id = 1, kc_org_id = 1, kc_key_type = KeyWrite\<rparr>"
  by code_simp

theorem api_key_grants_its_type_witness:
  "(\<exists>k \<in> set (tb_api_keys (wd_tables demo_key_world)). ak_id k = 1 \<and> ak_key_type k = KeyWrite)
   \<and> (\<exists>msg. serve demo_keys_env (ListPersonsCall \<lparr>kc_api_key_id = 1, kc_org_id = 1, kc_key_type = KeyWrite\<rparr> 10 0) demo_key_world = (forbidden msg, demo_key_world))"
proof -
  have "hashing_ok demo_keys_env" by (auto simp: hashing_ok_def demo_keys_env_def parse_key_type_def starts_with_def)
  moreover have "extract_api_key_context demo_keys_env demo_headers demo_key_world =
      (Inr \<lparr>kc_api_key_id = 1, kc_org_id = 1, kc_key_type = KeyWrite\<rparr>, snd (extract_api_key_context demo_keys_env demo_headers demo_key_world))"
    by (metis demo_authenticated prod.collapse)
  moreover have "list_all (key_sound demo_keys_env) (tb_api_keys (wd_tables demo_world))" by (simp add: demo_world_def)
  ultimately show ?thesis
    using api_key_grants_its_type [OF _ demo_key_world_def [unfolded atomize_eq], of demo_headers
        "\<lparr>kc_api_key_id = 1, kc_org_id = 1, kc_key_type = KeyWrite\<rparr>"]
    by fastforce
qed

end
