(* ===== verification/SourceMaps.thy ===== *)
theory SourceMaps
  imports Prelude
begin

text \<open>
  Crash symbolication of \<^verbatim>\<open>loom-crash-symbolicate\<close>: the VLQ decoder and the mapping table of
  \<^verbatim>\<open>vlq.rs\<close>, the source map and its look-up of \<^verbatim>\<open>sourcemap.rs\<close>, and the caching processor of
  \<^verbatim>\<open>processor.rs\<close>, on the stack frames of \<^verbatim>\<open>loom-crash-core/src/event.rs\<close>.

  \<^verbatim>\<open>i32\<close> and \<^verbatim>\<open>u32\<close> arithmetic wraps and a shift amount is taken modulo 32, as in a release build.
  \<^verbatim>\<open>partition_point\<close> is the binary search of the standard library. The JSON reader is third-party
  code: \<open>parse\<close> is \<^verbatim>\<open>serde_json::from_slice\<close> at \<^verbatim>\<open>RawSourceMap\<close>, \<open>Inl\<close> the text of its error; so
  is \<open>demangle\<close>. The processor's mutex is held for the whole look-up in the cache, which makes that
  one step. \<open>encode_mappings\<close> is the source map format written as an encoder: the decoder's
  specification.
\<close>

unbundle bit_operations_syntax

section \<open>Base64 digits and VLQ segments\<close>

datatype symbolicate_error =
  InvalidSourceMapJson string
| InvalidSourceMapVersion u32
| InvalidVlqChar char
| InvalidSourceIndex u32
| InvalidNameIndex u32
| MissingField string
| NoMappingFound u32 u32
| SymIo string

definition BASE64_CHARS :: string where
  "BASE64_CHARS = ''ABCDEFGHIJKLMNOPQRSTUVWXYZabcdefghijklmnopqrstuvwxyz0123456789+/''"

definition decode_char :: "char \<Rightarrow> symbolicate_error + i32" where
  "decode_char ch = (case map_option of_nat (position (\<lambda>c. c = ch) BASE64_CHARS) of
     Some pos \<Rightarrow> Inr pos
   | None \<Rightarrow> Inl (InvalidVlqChar ch))"

text \<open>From sign-magnitude to two's complement: the lowest bit is the sign.\<close>

definition vlq_signed :: "i32 \<Rightarrow> i32" where
  "vlq_signed v = (let negated = v AND 1 \<noteq> 0; v' = signed_drop_bit 1 v
                   in if negated then - v' else v')"

text \<open>The loop over the bytes of a segment, with its three variables.\<close>

fun vlq_loop :: "i32 list \<Rightarrow> i32 \<Rightarrow> i32 \<Rightarrow> string \<Rightarrow> symbolicate_error + i32 list" where
  "vlq_loop values v shift [] = Inr values"
| "vlq_loop values v shift (ch # s) = (case decode_char ch of
     Inl e \<Rightarrow> Inl e
   | Inr digit \<Rightarrow>
       let continuation = digit AND 32 \<noteq> 0;
           digit_value = digit AND 31;
           v' = v + push_bit (unat (shift AND 31)) digit_value
       in if continuation then vlq_loop values v' (shift + 5) s
          else vlq_loop (values @ [vlq_signed v']) 0 0 s)"

definition decode_vlq_segment :: "string \<Rightarrow> symbolicate_error + i32 list" where
  "decode_vlq_segment segment = vlq_loop [] 0 0 segment"

section \<open>The mapping table\<close>

record mapping_entry =
  mp_generated_line :: u32
  mp_generated_column :: u32
  mp_source_index :: u32
  mp_original_line :: u32
  mp_original_column :: u32
  mp_name_index :: "u32 option"

text \<open>\<^verbatim>\<open>DecodedMappings\<close> is its vector.\<close>

type_synonym decoded_mappings = "mapping_entry list"

definition mappings_add :: "mapping_entry \<Rightarrow> decoded_mappings \<Rightarrow> decoded_mappings" where
  "mappings_add m ms = ms @ [m]"

text \<open>The loop of \<^verbatim>\<open>slice::partition_point\<close>: the window of \<open>n\<close> entries from \<open>base\<close> is halved.\<close>

fun pp_loop :: "('a \<Rightarrow> bool) \<Rightarrow> 'a list \<Rightarrow> nat \<Rightarrow> nat \<Rightarrow> nat" where
  "pp_loop p xs base n =
     (if n > 1
      then let half = n div 2; mid = base + half
           in pp_loop p xs (if p (xs ! mid) then mid else base) (n - half)
      else base)"

declare pp_loop.simps [simp del]

definition partition_point :: "('a \<Rightarrow> bool) \<Rightarrow> 'a list \<Rightarrow> nat" where
  "partition_point p xs =
     (if xs = [] then 0
      else let base = pp_loop p xs 0 (length xs) in if p (xs ! base) then base + 1 else base)"

definition mappings_find :: "u32 \<Rightarrow> u32 \<Rightarrow> decoded_mappings \<Rightarrow> mapping_entry option" where
  "mappings_find line column ms =
     (let line_start = partition_point (\<lambda>m. mp_generated_line m < line) ms;
          line_end = partition_point (\<lambda>m. mp_generated_line m \<le> line) ms
      in if line_start \<ge> line_end then None
         else let line_mappings = take (line_end - line_start) (drop line_start ms);
                  idx = partition_point (\<lambda>m. mp_generated_column m \<le> column) line_mappings
              in if idx = 0 then None else Some (line_mappings ! (idx - 1)))"

text \<open>The variables \<^verbatim>\<open>decode_vlq_mappings\<close> carries from segment to segment.\<close>

record decode_state =
  ds_result :: decoded_mappings
  ds_generated_line :: u32
  ds_prev_source :: i32
  ds_prev_original_line :: i32
  ds_prev_original_column :: i32
  ds_prev_name :: i32

definition decode_segment_values :: "i32 list \<Rightarrow> i32 \<Rightarrow> decode_state \<Rightarrow> i32 \<times> decode_state" where
  "decode_segment_values values column d =
     (let column' = column + values ! 0
      in if length values \<ge> 4 then
           let src = ds_prev_source d + values ! 1;
               ol = ds_prev_original_line d + values ! 2;
               oc = ds_prev_original_column d + values ! 3;
               nm = (if length values \<ge> 5 then ds_prev_name d + values ! 4 else ds_prev_name d);
               ni = (if length values \<ge> 5 then Some nm else None)
           in (column', d\<lparr>ds_prev_source := src, ds_prev_original_line := ol,
                 ds_prev_original_column := oc, ds_prev_name := nm,
                 ds_result := mappings_add \<lparr>mp_generated_line = ds_generated_line d,
                   mp_generated_column = column', mp_source_index = src, mp_original_line = ol,
                   mp_original_column = oc, mp_name_index = ni\<rparr> (ds_result d)\<rparr>)
         else (column', d))"

fun decode_segments :: "i32 \<Rightarrow> decode_state \<Rightarrow> string list \<Rightarrow> symbolicate_error + decode_state" where
  "decode_segments column d [] = Inr d"
| "decode_segments column d (segment # segments) =
     (if segment = [] then decode_segments column d segments
      else case decode_vlq_segment segment of
        Inl e \<Rightarrow> Inl e
      | Inr values \<Rightarrow>
          if values = [] then decode_segments column d segments
          else let (column', d') = decode_segment_values values column d
               in decode_segments column' d' segments)"

fun decode_lines :: "decode_state \<Rightarrow> string list \<Rightarrow> symbolicate_error + decode_state" where
  "decode_lines d [] = Inr d"
| "decode_lines d (line # ls) = (case decode_segments 0 d (str_split CHR '','' line) of
     Inl e \<Rightarrow> Inl e
   | Inr d' \<Rightarrow> decode_lines (d'\<lparr>ds_generated_line := ds_generated_line d' + 1\<rparr>) ls)"

definition decode_start :: decode_state where
  "decode_start = \<lparr>ds_result = [], ds_generated_line = 0, ds_prev_source = 0,
     ds_prev_original_line = 0, ds_prev_original_column = 0, ds_prev_name = 0\<rparr>"

definition decode_vlq_mappings :: "string \<Rightarrow> symbolicate_error + decoded_mappings" where
  "decode_vlq_mappings s = (case decode_lines decode_start (str_split CHR '';'' s) of
     Inl e \<Rightarrow> Inl e
   | Inr d \<Rightarrow> Inr (ds_result d))"

section \<open>Source maps\<close>

record raw_source_map =
  rs_version :: u32
  rs_file :: "string option"
  rs_source_root :: "string option"
  rs_sources :: "string list"
  rs_sources_content :: "string option list option"
  rs_names :: "string list"
  rs_mappings :: string

record parsed_source_map =
  sm_version :: u32
  sm_file :: "string option"
  sm_source_root :: "string option"
  sm_sources :: "string list"
  sm_sources_content :: "string option list"
  sm_names :: "string list"
  sm_mappings :: decoded_mappings

record original_position =
  op_source :: string
  op_line :: u32
  op_column :: u32
  op_name :: "string option"
  op_source_content :: "string option"

type_synonym json_reader = "bytes \<Rightarrow> string + raw_source_map"

definition from_bytes :: "json_reader \<Rightarrow> bytes \<Rightarrow> symbolicate_error + parsed_source_map" where
  "from_bytes parse data = (case parse data of
     Inl e \<Rightarrow> Inl (InvalidSourceMapJson e)
   | Inr raw \<Rightarrow>
       if rs_version raw \<noteq> 3 then Inl (InvalidSourceMapVersion (rs_version raw))
       else case decode_vlq_mappings (rs_mappings raw) of
         Inl e \<Rightarrow> Inl e
       | Inr ms \<Rightarrow> Inr \<lparr>sm_version = rs_version raw, sm_file = rs_file raw,
           sm_source_root = rs_source_root raw, sm_sources = rs_sources raw,
           sm_sources_content = unwrap_or (rs_sources_content raw) [], sm_names = rs_names raw,
           sm_mappings = ms\<rparr>)"

definition slice_get :: "'a list \<Rightarrow> u32 \<Rightarrow> 'a option" where
  "slice_get xs i = (if unat i < length xs then Some (xs ! unat i) else None)"

definition trim_end_slashes :: "string \<Rightarrow> string" where
  "trim_end_slashes s = rev (dropWhile (\<lambda>c. c = CHR ''/'') (rev s))"

definition resolve_source_path :: "parsed_source_map \<Rightarrow> string \<Rightarrow> string" where
  "resolve_source_path sm source = (case sm_source_root sm of
     Some root \<Rightarrow> (if root \<noteq> [] then trim_end_slashes root @ ''/'' @ source else source)
   | None \<Rightarrow> source)"

definition lookup :: "u32 \<Rightarrow> u32 \<Rightarrow> parsed_source_map \<Rightarrow> symbolicate_error + original_position option" where
  "lookup line column sm =
     (let line_0indexed = (if line < 1 then 0 else line - 1)
      in case mappings_find line_0indexed column (sm_mappings sm) of
        None \<Rightarrow> Inr None
      | Some m \<Rightarrow> (case slice_get (sm_sources sm) (mp_source_index m) of
          None \<Rightarrow> Inl (InvalidSourceIndex (mp_source_index m))
        | Some source \<Rightarrow> Inr (Some \<lparr>op_source = resolve_source_path sm source,
            op_line = mp_original_line m + 1, op_column = mp_original_column m,
            op_name = Option.bind (mp_name_index m) (slice_get (sm_names sm)),
            op_source_content = Option.bind (slice_get (sm_sources_content sm) (mp_source_index m)) id\<rparr>)))"

definition has_sources_content :: "parsed_source_map \<Rightarrow> bool" where
  "has_sources_content sm \<longleftrightarrow> list_ex is_some (sm_sources_content sm)"

definition extract_context :: "string \<Rightarrow> nat \<Rightarrow> nat \<Rightarrow> string list \<times> string \<times> string list" where
  "extract_context source_content line context_lines =
     (let ls = str_lines source_content;
          line_idx = saturating_sub line 1
      in if line_idx \<ge> length ls then ([], [], [])
         else let pre_start = saturating_sub line_idx context_lines;
                  post_end = min (line_idx + 1 + context_lines) (length ls)
              in (take (line_idx - pre_start) (drop pre_start ls), ls ! line_idx,
                  take (post_end - (line_idx + 1)) (drop (line_idx + 1) ls)))"

section \<open>Frames and the processor\<close>

record frame =
  fr_function :: "string option"
  fr_module :: "string option"
  fr_filename :: "string option"
  fr_abs_path :: "string option"
  fr_lineno :: "u32 option"
  fr_colno :: "u32 option"
  fr_context_line :: "string option"
  fr_pre_context :: "string list"
  fr_post_context :: "string list"
  fr_in_app :: bool
  fr_instruction_addr :: "string option"
  fr_symbol_addr :: "string option"

definition frame_default :: frame where
  "frame_default = \<lparr>fr_function = None, fr_module = None, fr_filename = None, fr_abs_path = None,
     fr_lineno = None, fr_colno = None, fr_context_line = None, fr_pre_context = [],
     fr_post_context = [], fr_in_app = False, fr_instruction_addr = None, fr_symbol_addr = None\<rparr>"

datatype platform = JavaScript | Node | Rust

fun show_platform :: "platform \<Rightarrow> string" where
  "show_platform JavaScript = ''javascript''"
| "show_platform Node = ''node''"
| "show_platform Rust = ''rust''"

definition read_platform :: "string \<Rightarrow> platform option" where
  "read_platform s =
     (if s = ''javascript'' then Some JavaScript
      else if s = ''node'' then Some Node
      else if s = ''rust'' then Some Rust
      else None)"

text \<open>\<^verbatim>\<open>InMemoryArtifacts\<close>, the implementation of \<^verbatim>\<open>ArtifactLookup\<close> of the sources.\<close>

type_synonym artifacts = "string \<times> string \<rightharpoonup> bytes"
type_synonym artifact_lookup = "string \<Rightarrow> string option \<Rightarrow> string \<Rightarrow> bytes option"

definition artifacts_add :: "string \<Rightarrow> string \<Rightarrow> bytes \<Rightarrow> artifacts \<Rightarrow> artifacts" where
  "artifacts_add release filename data arts = arts((release, filename) \<mapsto> data)"

definition find_source_map :: "artifacts \<Rightarrow> artifact_lookup" where
  "find_source_map arts release dist filename = (case arts (release, filename) of
     Some data \<Rightarrow> Some data
   | None \<Rightarrow> (case arts (release, filename @ ''.map'') of Some data \<Rightarrow> Some data | None \<Rightarrow> None))"

definition CONTEXT_LINES :: nat where
  "CONTEXT_LINES = 5"

type_synonym sm_cache = "string \<rightharpoonup> parsed_source_map"

definition cache_key :: "string \<Rightarrow> string \<Rightarrow> string" where
  "cache_key release filename = release @ '':'' @ filename"

text \<open>The critical section: the cached map, or the parsed one, which is then cached.\<close>

definition cached_source_map ::
  "json_reader \<Rightarrow> string \<Rightarrow> bytes \<Rightarrow> sm_cache \<Rightarrow> parsed_source_map option \<times> sm_cache" where
  "cached_source_map parse key data cache = (case cache key of
     Some sm \<Rightarrow> (Some sm, cache)
   | None \<Rightarrow> (case from_bytes parse data of
       Inr sm \<Rightarrow> (Some sm, cache(key \<mapsto> sm))
     | Inl e \<Rightarrow> (None, cache)))"

text \<open>What a position found in the source map writes into the frame.\<close>

definition apply_original :: "original_position \<Rightarrow> frame \<Rightarrow> frame" where
  "apply_original original f =
     (let f1 = f\<lparr>fr_filename := Some (op_source original), fr_lineno := Some (op_line original),
                 fr_colno := Some (op_column original)\<rparr>;
          f2 = (case op_name original of Some n \<Rightarrow> f1\<lparr>fr_function := Some n\<rparr> | None \<Rightarrow> f1)
      in case op_source_content original of
        Some content \<Rightarrow>
          (let (pre, line, post) = extract_context content (unat (op_line original)) CONTEXT_LINES
           in f2\<lparr>fr_pre_context := pre, fr_context_line := Some line, fr_post_context := post\<rparr>)
      | None \<Rightarrow> f2)"

definition symbolicate_with ::
  "parsed_source_map \<Rightarrow> u32 \<Rightarrow> u32 \<Rightarrow> frame \<Rightarrow> symbolicate_error + frame" where
  "symbolicate_with sm lineno colno f = (case lookup lineno colno sm of
     Inl e \<Rightarrow> Inl e
   | Inr None \<Rightarrow> Inr f
   | Inr (Some original) \<Rightarrow> Inr (apply_original original f))"

definition symbolicate_js_frame ::
  "json_reader \<Rightarrow> artifact_lookup \<Rightarrow> string \<Rightarrow> string option \<Rightarrow> frame \<Rightarrow> sm_cache
    \<Rightarrow> (symbolicate_error + frame) \<times> sm_cache" where
  "symbolicate_js_frame parse fsm release dist f cache =
     (case (fr_filename f, fr_lineno f, fr_colno f) of
        (Some filename, Some lineno, Some colno) \<Rightarrow>
          (case fsm release dist filename of
             None \<Rightarrow> (Inr f, cache)
           | Some data \<Rightarrow>
               (case cached_source_map parse (cache_key release filename) data cache of
                  (None, cache') \<Rightarrow> (Inr f, cache')
                | (Some sm, cache') \<Rightarrow> (symbolicate_with sm lineno colno f, cache')))
      | _ \<Rightarrow> (Inr f, cache))"

text \<open>The loop over the frames of the cloned stack trace; the first error abandons it.\<close>

fun symbolicate_js ::
  "json_reader \<Rightarrow> artifact_lookup \<Rightarrow> string \<Rightarrow> string option \<Rightarrow> frame list \<Rightarrow> sm_cache
    \<Rightarrow> (symbolicate_error + frame list) \<times> sm_cache" where
  "symbolicate_js parse fsm release dist [] cache = (Inr [], cache)"
| "symbolicate_js parse fsm release dist (f # fs) cache =
     (case symbolicate_js_frame parse fsm release dist f cache of
        (Inl e, cache') \<Rightarrow> (Inl e, cache')
      | (Inr f', cache') \<Rightarrow>
          (case symbolicate_js parse fsm release dist fs cache' of
             (Inl e, cache'') \<Rightarrow> (Inl e, cache'')
           | (Inr fs', cache'') \<Rightarrow> (Inr (f' # fs'), cache'')))"

definition symbolicate_rust_frame :: "(string \<Rightarrow> string) \<Rightarrow> frame \<Rightarrow> frame" where
  "symbolicate_rust_frame demangle f = (case fr_function f of
     None \<Rightarrow> f
   | Some func \<Rightarrow>
       (let demangled = demangle func
        in if demangled \<noteq> func then
             let f' = f\<lparr>fr_function := Some demangled\<rparr>
             in case rfind demangled ''::'' of
               Some last_sep \<Rightarrow>
                 (if str_contains (take last_sep demangled) ''::''
                  then f'\<lparr>fr_module := Some (take last_sep demangled)\<rparr>
                  else f'\<lparr>fr_module := Some (take last_sep demangled)\<rparr>)
             | None \<Rightarrow> f'
           else f))"

definition is_rust_symbol :: "string \<Rightarrow> bool" where
  "is_rust_symbol symbol \<longleftrightarrow> starts_with symbol ''_ZN'' \<or> starts_with symbol ''_R''"

definition symbolicate_rust :: "(string \<Rightarrow> string) \<Rightarrow> frame list \<Rightarrow> symbolicate_error + frame list" where
  "symbolicate_rust demangle fs = Inr (map (symbolicate_rust_frame demangle) fs)"

definition symbolicate ::
  "json_reader \<Rightarrow> artifact_lookup \<Rightarrow> (string \<Rightarrow> string) \<Rightarrow> frame list \<Rightarrow> platform \<Rightarrow> string option
    \<Rightarrow> string option \<Rightarrow> sm_cache \<Rightarrow> (symbolicate_error + frame list) \<times> sm_cache" where
  "symbolicate parse fsm demangle fs plat release dist cache =
     (if plat = JavaScript \<or> plat = Node then
        (case release of
           Some rel \<Rightarrow> symbolicate_js parse fsm rel dist fs cache
         | None \<Rightarrow> (Inr fs, cache))
      else (symbolicate_rust demangle fs, cache))"

section \<open>Specification: the encoder of the source map format\<close>

definition encode_digit :: "nat \<Rightarrow> char" where
  "encode_digit d = BASE64_CHARS ! d"

text \<open>Five bits per digit, the least significant first; bit 5 announces another digit.\<close>

fun encode_magnitude :: "nat \<Rightarrow> string" where
  "encode_magnitude m =
     (if m < 32 then [encode_digit m] else encode_digit (32 + m mod 32) # encode_magnitude (m div 32))"

declare encode_magnitude.simps [simp del]

definition encode_vlq :: "int \<Rightarrow> string" where
  "encode_vlq v = encode_magnitude (if v < 0 then 2 * nat (- v) + 1 else 2 * nat v)"

text \<open>The values a segment of 32-bit arithmetic can carry.\<close>

definition vlq_range :: "int \<Rightarrow> bool" where
  "vlq_range v \<longleftrightarrow> - (2 ^ 30) < v \<and> v < 2 ^ 30"

text \<open>A segment has five or four values, a mapping with or without a name, or only one: a column from which on nothing is mapped.\<close>

datatype map_segment = Mapped mapping_entry | Unmapped u32

fun segment_column :: "map_segment \<Rightarrow> u32" where
  "segment_column (Mapped m) = mp_generated_column m"
| "segment_column (Unmapped c) = c"

fun segment_mapping :: "map_segment \<Rightarrow> mapping_entry list" where
  "segment_mapping (Mapped m) = [m]"
| "segment_mapping (Unmapped c) = []"

text \<open>What the deltas of the next segment are relative to: source, line, column and name.\<close>

type_synonym prev = "int \<times> int \<times> int \<times> int"

fun advance :: "prev \<Rightarrow> map_segment \<Rightarrow> prev" where
  "advance (s, ol, oc, nm) (Mapped m) = (uint (mp_source_index m), uint (mp_original_line m), uint (mp_original_column m),
     (case mp_name_index m of None \<Rightarrow> nm | Some n \<Rightarrow> uint n))"
| "advance p (Unmapped c) = p"

fun segment_values :: "int \<Rightarrow> prev \<Rightarrow> map_segment \<Rightarrow> int list" where
  "segment_values c (s, ol, oc, nm) (Mapped m) =
     [uint (mp_generated_column m) - c, uint (mp_source_index m) - s, uint (mp_original_line m) - ol,
      uint (mp_original_column m) - oc] @ (case mp_name_index m of None \<Rightarrow> [] | Some n \<Rightarrow> [uint n - nm])"
| "segment_values c p (Unmapped g) = [uint g - c]"

definition encode_segment :: "int \<Rightarrow> prev \<Rightarrow> map_segment \<Rightarrow> string" where
  "encode_segment c p m = concat (map encode_vlq (segment_values c p m))"

fun encode_segments :: "int \<Rightarrow> prev \<Rightarrow> map_segment list \<Rightarrow> string list" where
  "encode_segments c p [] = []"
| "encode_segments c p (m # ms) = encode_segment c p m
     # encode_segments (uint (segment_column m)) (advance p m) ms"

fun encode_lines :: "prev \<Rightarrow> map_segment list list \<Rightarrow> string list" where
  "encode_lines p [] = []"
| "encode_lines p (l # ls) = str_join '','' (encode_segments 0 p l) # encode_lines (foldl advance p l) ls"

definition encode_mappings :: "map_segment list list \<Rightarrow> string" where
  "encode_mappings ls = str_join '';'' (encode_lines (0, 0, 0, 0) ls)"

definition line_mappings :: "map_segment list \<Rightarrow> mapping_entry list" where
  "line_mappings l = concat (map segment_mapping l)"

text \<open>Line \<open>i\<close> of the list holds the segments of generated line \<open>k + i\<close>; fields fit a VLQ delta.\<close>

fun numbered :: "u32 \<Rightarrow> map_segment list list \<Rightarrow> bool" where
  "numbered k [] = True"
| "numbered k (l # ls) = (list_all (\<lambda>m. mp_generated_line m = k) (line_mappings l) \<and> numbered (k + 1) ls)"

definition small :: "int \<Rightarrow> bool" where
  "small i \<longleftrightarrow> 0 \<le> i \<and> i < 2 ^ 30"

fun small_entry :: "map_segment \<Rightarrow> bool" where
  "small_entry (Mapped m) \<longleftrightarrow> small (uint (mp_generated_column m)) \<and> small (uint (mp_source_index m))
     \<and> small (uint (mp_original_line m)) \<and> small (uint (mp_original_column m))
     \<and> (case mp_name_index m of None \<Rightarrow> True | Some n \<Rightarrow> small (uint n))"
| "small_entry (Unmapped c) \<longleftrightarrow> small (uint c)"

fun small_prev :: "prev \<Rightarrow> bool" where
  "small_prev (s, ol, oc, nm) \<longleftrightarrow> small s \<and> small ol \<and> small oc \<and> small nm"

section \<open>Digits and values\<close>

lemma distinct_base64: "distinct BASE64_CHARS"
  by (simp add: BASE64_CHARS_def)

lemma length_base64: "length BASE64_CHARS = 64"
  by (simp add: BASE64_CHARS_def)

lemma position_nth: "distinct xs \<Longrightarrow> i < length xs \<Longrightarrow> position (\<lambda>c. c = xs ! i) xs = Some i"
  by (auto simp: position_Some nth_eq_iff_index_eq)

lemma decode_encode_digit [codec]: "d < 64 \<Longrightarrow> decode_char (encode_digit d) = Inr (of_nat d)"
  by (simp add: decode_char_def encode_digit_def position_nth distinct_base64 length_base64)

lemma encode_digit_no_separator: "d < 64 \<Longrightarrow> encode_digit d \<noteq> CHR '','' \<and> encode_digit d \<noteq> CHR '';''"
proof -
  have "CHR '','' \<notin> set BASE64_CHARS" "CHR '';'' \<notin> set BASE64_CHARS"
    by (simp_all add: BASE64_CHARS_def)
  then show "d < 64 \<Longrightarrow> ?thesis" by (metis encode_digit_def length_base64 nth_mem)
qed

lemma digit_value: "(of_nat d :: i32) AND 31 = of_nat (d mod 32)"
proof -
  have "(of_nat d :: i32) AND 31 = take_bit 5 (of_nat d)" by (simp add: take_bit_eq_mask mask_eq_exp_minus_1)
  also have "\<dots> = of_nat (d mod 32)" by (simp add: take_bit_of_nat take_bit_nat_def)
  finally show ?thesis .
qed

lemma digit_continues: "d < 64 \<Longrightarrow> ((of_nat d :: i32) AND 32 \<noteq> 0) = (32 \<le> d)"
proof -
  have "list_all (\<lambda>d. ((of_nat d :: i32) AND 32 \<noteq> 0) = (32 \<le> d)) [0..<64]" by code_simp
  then show "d < 64 \<Longrightarrow> ?thesis" by (simp add: list_all_iff)
qed

lemma push_digit: "push_bit sh (of_nat d :: i32) = of_nat (d * 2 ^ sh)"
  by (simp add: push_bit_of_nat push_bit_nat_def)

lemma vlq_loop_digit:
  assumes "d < 64" "sh < 32"
  shows "vlq_loop vs (of_nat acc) (of_nat sh) (encode_digit d # s) =
     (if 32 \<le> d then vlq_loop vs (of_nat (acc + d mod 32 * 2 ^ sh)) (of_nat (sh + 5)) s
      else vlq_loop (vs @ [vlq_signed (of_nat (acc + d * 2 ^ sh))]) 0 0 s)"
  using assms by (simp add: decode_encode_digit digit_continues digit_value unat_of_nat_u32 push_digit Let_def)

lemma vlq_loop_magnitude:
  assumes "sh < 32" "acc + m * 2 ^ sh < 2 ^ 31"
  shows "vlq_loop vs (of_nat acc) (of_nat sh) (encode_magnitude m @ s) =
     vlq_loop (vs @ [vlq_signed (of_nat (acc + m * 2 ^ sh))]) 0 0 s"
  using assms
proof (induction m arbitrary: acc sh rule: encode_magnitude.induct)
  case (1 m)
  show ?case
  proof (cases "m < 32")
    case True
    then show ?thesis using 1(2) by (simp add: encode_magnitude.simps [of m] vlq_loop_digit del: vlq_loop.simps)
  next
    case False
    have "m * 2 ^ sh = (m mod 32 + m div 32 * 32) * 2 ^ sh" by simp
    then have sum: "acc + m mod 32 * 2 ^ sh + m div 32 * 2 ^ (sh + 5) = acc + m * 2 ^ sh"
      by (simp only: add_mult_distrib power_add mult.assoc mult.commute [of 32]) simp
    have "sh + 5 < 32"
    proof (rule ccontr)
      assume "\<not> sh + 5 < 32"
      then have "(2::nat) ^ 32 \<le> 2 ^ (sh + 5)" by (intro power_increasing) auto
      also have "\<dots> \<le> m * 2 ^ sh" using False by (simp add: power_add)
      finally show False using 1(3) by simp
    qed
    then have IH: "vlq_loop vs (of_nat (acc + m mod 32 * 2 ^ sh)) (of_nat (sh + 5)) (encode_magnitude (m div 32) @ s) =
        vlq_loop (vs @ [vlq_signed (of_nat (acc + m * 2 ^ sh))]) 0 0 s"
      using 1(1) [OF False, of "sh + 5" "acc + m mod 32 * 2 ^ sh"] 1(3) unfolding sum by blast
    have "encode_magnitude m @ s = encode_digit (32 + m mod 32) # encode_magnitude (m div 32) @ s"
      using False by (simp add: encode_magnitude.simps [of m])
    then show ?thesis using vlq_loop_digit [of "32 + m mod 32" sh vs acc] 1(2) IH by simp
  qed
qed

lemma signed_drop_small:
  assumes "n < 2 ^ 31"
  shows "signed_drop_bit 1 (of_nat n :: i32) = of_nat (n div 2)"
proof -
  have s: "sint (of_nat k :: i32) = int k" if "k < 2 ^ 31" for k
    using that by (simp add: signed_of_nat signed_take_bit_int_eq_self_iff)
  have "sint (signed_drop_bit 1 (of_nat n :: i32)) = int n div 2"
    using assms by (simp add: sint_signed_drop_bit_eq s drop_bit_int_def)
  also have "\<dots> = sint (of_nat (n div 2) :: i32)" using assms by (simp add: s zdiv_int)
  finally show ?thesis by (rule signed_word_eqI)
qed

lemma vlq_signed_magnitude:
  assumes "- (2 ^ 30) < v" "v < 2 ^ 30"
  shows "vlq_signed (of_nat (if v < 0 then 2 * nat (- v) + 1 else 2 * nat v)) = of_int v"
proof -
  have odd: "(of_nat n :: i32) AND 1 = of_nat (n mod 2)" for n
  proof -
    have "(of_nat n :: i32) AND 1 = take_bit 1 (of_nat n)" by (simp add: take_bit_eq_mask)
    then show ?thesis by (simp add: take_bit_of_nat take_bit_nat_def)
  qed
  show ?thesis
  proof (cases "v < 0")
    case True
    define k where "k = nat (- v)"
    then have "v = - int k" "k < 2 ^ 30" using True assms by auto
    then show ?thesis
      using signed_drop_small [of "2 * k + 1"] odd [of "2 * k + 1"] True by (simp add: vlq_signed_def Let_def k_def)
  next
    case False
    define k where "k = nat v"
    then have "v = int k" "k < 2 ^ 30" using False assms by auto
    then show ?thesis
      using signed_drop_small [of "2 * k"] odd [of "2 * k"] False by (simp add: vlq_signed_def Let_def k_def)
  qed
qed

lemma vlq_loop_value:
  assumes "- (2 ^ 30) < v" "v < 2 ^ 30"
  shows "vlq_loop vs 0 0 (encode_vlq v @ s) = vlq_loop (vs @ [of_int v]) 0 0 s"
proof -
  define m where "m = (if v < 0 then 2 * nat (- v) + 1 else 2 * nat v)"
  have "m < 2 ^ 31" using assms by (auto simp: m_def)
  then have "vlq_loop vs 0 0 (encode_magnitude m @ s) = vlq_loop (vs @ [vlq_signed (of_nat m)]) 0 0 s"
    using vlq_loop_magnitude [of 0 0 m vs s] by simp
  then show ?thesis using vlq_signed_magnitude [OF assms] by (simp add: encode_vlq_def m_def)
qed

lemma vlq_loop_values:
  "list_all vlq_range ns \<Longrightarrow> vlq_loop vs 0 0 (concat (map encode_vlq ns)) = Inr (vs @ map of_int ns)"
proof (induction ns arbitrary: vs)
  case (Cons v ns)
  then show ?case by (simp add: vlq_loop_value vlq_range_def)
qed simp

lemma decode_encode_segment [codec]:
  "list_all vlq_range ns \<Longrightarrow> decode_vlq_segment (concat (map encode_vlq ns)) = Inr (map of_int ns)"
  by (simp add: decode_vlq_segment_def vlq_loop_values)

section \<open>Mapping strings\<close>

lemma encode_magnitude_chars:
  "encode_magnitude m \<noteq> [] \<and> CHR '','' \<notin> set (encode_magnitude m) \<and> CHR '';'' \<notin> set (encode_magnitude m)"
proof (induction m rule: encode_magnitude.induct)
  case (1 m)
  then show ?case
    using encode_digit_no_separator [of m] encode_digit_no_separator [of "32 + m mod 32"]
    by (auto simp: encode_magnitude.simps [of m])
qed

lemma encode_segment_chars:
  "encode_segment c p m \<noteq> [] \<and> CHR '','' \<notin> set (encode_segment c p m) \<and> CHR '';'' \<notin> set (encode_segment c p m)"
  unfolding encode_segment_def encode_vlq_def using encode_magnitude_chars by (cases "(c, p, m)" rule: segment_values.cases) auto

lemma encode_segments_chars:
  "w \<in> set (encode_segments c p ms) \<Longrightarrow> w \<noteq> [] \<and> CHR '','' \<notin> set w \<and> CHR '';'' \<notin> set w"
proof (induction ms arbitrary: c p)
  case (Cons m ms)
  then consider "w = encode_segment c p m" | "w \<in> set (encode_segments (uint (segment_column m)) (advance p m) ms)"
    by auto
  then show ?case
  proof cases
    case 1
    then show ?thesis by (simp only: encode_segment_chars simp_thms)
  qed (rule Cons.IH)
qed simp

lemma str_join_chars: "c \<in> set (str_join d ws) \<Longrightarrow> c \<in> set d \<or> (\<exists>w \<in> set ws. c \<in> set w)"
  by (induction d ws rule: str_join.induct) auto

lemma encode_lines_chars: "w \<in> set (encode_lines p ls) \<Longrightarrow> CHR '';'' \<notin> set w"
proof (induction ls arbitrary: p)
  case (Cons l ls)
  have "CHR '';'' \<notin> set (str_join '','' (encode_segments 0 p l))"
    using str_join_chars [of "CHR '';''" "'',''"] encode_segments_chars by fastforce
  with Cons.prems Cons.IH [of "foldl advance p l"] show ?case by auto
qed simp

lemma small_diff: "small a \<Longrightarrow> small b \<Longrightarrow> vlq_range (a - b)"
  by (simp add: small_def vlq_range_def)

lemma segment_values_in_range:
  "small c \<Longrightarrow> small_prev p \<Longrightarrow> small_entry m \<Longrightarrow> list_all vlq_range (segment_values c p m)"
  by (cases "(c, p, m)" rule: segment_values.cases) (auto intro: small_diff split: option.splits)

lemma small_prev_advance: "small_prev p \<Longrightarrow> small_entry m \<Longrightarrow> small_prev (advance p m)"
  by (cases "(p, m)" rule: advance.cases) (auto split: option.splits)

lemma small_prev_foldl: "small_prev p \<Longrightarrow> list_all small_entry ms \<Longrightarrow> small_prev (foldl advance p ms)"
  by (induction ms arbitrary: p) (auto simp: small_prev_advance)

lemma line_mappings_simps [simp]: "line_mappings [] = []" "line_mappings (m # ms) = segment_mapping m @ line_mappings ms"
  by (simp_all add: line_mappings_def)

fun decode_state_of :: "u32 \<Rightarrow> decoded_mappings \<Rightarrow> prev \<Rightarrow> decode_state" where
  "decode_state_of k r (s, ol, oc, nm) = \<lparr>ds_result = r, ds_generated_line = k,
     ds_prev_source = of_int s, ds_prev_original_line = of_int ol,
     ds_prev_original_column = of_int oc, ds_prev_name = of_int nm\<rparr>"

lemma decode_encoded_values:
  assumes "list_all (\<lambda>m. mp_generated_line m = k) (segment_mapping m)"
  shows "decode_segment_values (map of_int (segment_values c p m)) (of_int c) (decode_state_of k r p) =
     (segment_column m, decode_state_of k (r @ segment_mapping m) (advance p m))"
proof (cases m)
  case (Mapped e)
  with assms show ?thesis by (cases p; cases e) (auto simp: decode_segment_values_def mappings_add_def Let_def split: option.splits)
next
  case (Unmapped g)
  then show ?thesis by (simp add: decode_segment_values_def)
qed

lemma decode_encoded_segments:
  assumes "small c" "small_prev p" "list_all small_entry ms" "list_all (\<lambda>m. mp_generated_line m = k) (line_mappings ms)"
  shows "decode_segments (of_int c) (decode_state_of k r p) (encode_segments c p ms) =
     Inr (decode_state_of k (r @ line_mappings ms) (foldl advance p ms))"
  using assms
proof (induction ms arbitrary: c p r)
  case (Cons m ms)
  have "encode_segment c p m \<noteq> []" using encode_segment_chars by blast
  moreover have "segment_values c p m \<noteq> []" by (cases "(c, p, m)" rule: segment_values.cases) simp_all
  moreover have "decode_vlq_segment (encode_segment c p m) = Inr (map of_int (segment_values c p m))"
    using Cons.prems by (simp add: encode_segment_def decode_encode_segment segment_values_in_range)
  moreover have "small (uint (segment_column m))" using Cons.prems by (cases m) simp_all
  ultimately show ?case
    using Cons.IH [of "uint (segment_column m)" "advance p m" "r @ segment_mapping m"] Cons.prems
    by (simp add: decode_encoded_values small_prev_advance)
qed simp

lemma decode_encoded_line:
  assumes "small_prev p" "list_all small_entry ms" "list_all (\<lambda>m. mp_generated_line m = k) (line_mappings ms)"
  shows "decode_segments 0 (decode_state_of k r p) (str_split CHR '','' (str_join '','' (encode_segments 0 p ms))) =
     Inr (decode_state_of k (r @ line_mappings ms) (foldl advance p ms))"
proof (cases "ms = []")
  case False
  then have "encode_segments 0 p ms \<noteq> []" by (cases ms) auto
  then have "str_split CHR '','' (str_join '','' (encode_segments 0 p ms)) = encode_segments 0 p ms"
    using encode_segments_chars by (intro str_split_join) blast+
  then show ?thesis using decode_encoded_segments [of 0 p ms k r] assms by (simp add: small_def)
qed simp

lemma decode_encoded_lines:
  assumes "small_prev p" "list_all (list_all small_entry) ls" "numbered k ls"
  shows "\<exists>k' p'. decode_lines (decode_state_of k r p) (encode_lines p ls) = Inr (decode_state_of k' (r @ concat (map line_mappings ls)) p')"
  using assms
proof (induction ls arbitrary: k r p)
  case (Cons l ls)
  have next_line: "d\<lparr>ds_generated_line := ds_generated_line d + 1\<rparr> = decode_state_of (k + 1) r' p'"
    if "d = decode_state_of k r' p'" for d r' p'
    using that by (cases p') simp
  show ?case
    using Cons.IH [of "foldl advance p l" "k + 1" "r @ line_mappings l"] Cons.prems
    by (simp add: decode_encoded_line next_line small_prev_foldl)
qed auto

lemma decode_encode_mappings [codec]:
  assumes "list_all (list_all small_entry) ls" "numbered 0 ls"
  shows "decode_vlq_mappings (encode_mappings ls) = Inr (concat (map line_mappings ls))"
proof (cases "ls = []")
  case True
  then show ?thesis by (simp add: decode_vlq_mappings_def encode_mappings_def decode_start_def)
next
  case False
  then have "encode_lines (0, 0, 0, 0) ls \<noteq> []" by (cases ls) auto
  then have "str_split CHR '';'' (encode_mappings ls) = encode_lines (0, 0, 0, 0) ls"
    unfolding encode_mappings_def using encode_lines_chars by (intro str_split_join) blast+
  moreover have "decode_start = decode_state_of 0 [] (0, 0, 0, 0)" by (simp add: decode_start_def)
  moreover have "small_prev (0, 0, 0, 0)" by (simp add: small_def)
  ultimately obtain k' p' where
    "decode_lines decode_start (str_split CHR '';'' (encode_mappings ls)) = Inr (decode_state_of k' (concat (map line_mappings ls)) p')"
    using decode_encoded_lines [of "(0, 0, 0, 0)" ls 0 "[]"] assms by auto
  then show ?thesis by (cases p') (simp add: decode_vlq_mappings_def)
qed

section \<open>Binary search\<close>

text \<open>The precondition of \<^verbatim>\<open>partition_point\<close>: every entry with the property comes before every one without.\<close>

definition partitioned :: "('a \<Rightarrow> bool) \<Rightarrow> 'a list \<Rightarrow> bool" where
  "partitioned p xs \<longleftrightarrow> sorted_wrt (\<lambda>x y. p y \<longrightarrow> p x) xs"

lemma partitioned_takeWhile: "partitioned p xs \<Longrightarrow> takeWhile p xs = filter p xs"
  unfolding partitioned_def by (induction xs) auto

lemma partitioned_dropWhile: "partitioned p xs \<Longrightarrow> dropWhile p xs = filter (\<lambda>x. \<not> p x) xs"
  unfolding partitioned_def by (induction xs) (auto simp: filter_id_conv)

lemma partitioned_nth: "partitioned p xs \<Longrightarrow> i < length xs \<Longrightarrow> p (xs ! i) \<longleftrightarrow> i < length (filter p xs)"
proof (induction xs arbitrary: i)
  case (Cons x xs)
  have tail: "partitioned p xs" and head: "\<And>y. y \<in> set xs \<Longrightarrow> p y \<Longrightarrow> p x"
    using Cons.prems(1) by (auto simp: partitioned_def)
  show ?case
  proof (cases i)
    case 0
    then show ?thesis using head by (auto simp: filter_empty_conv)
  next
    case (Suc j)
    then have "p (xs ! j) \<longleftrightarrow> j < length (filter p xs)" using Cons.IH [OF tail] Cons.prems(2) by simp
    moreover have "filter p xs \<noteq> [] \<Longrightarrow> p x" using head by (auto simp: filter_empty_conv)
    ultimately show ?thesis using Suc by (cases "p x"; cases "filter p xs = []") simp_all
  qed
qed simp

lemma pp_loop_bounds:
  assumes "\<And>i. i < length xs \<Longrightarrow> p (xs ! i) \<longleftrightarrow> i < k"
    and "1 \<le> n" "base + n \<le> length xs" "base = 0 \<or> base < k" "k \<le> base + n"
  shows "pp_loop p xs base n < length xs \<and> (pp_loop p xs base n = 0 \<or> pp_loop p xs base n < k)
    \<and> k \<le> pp_loop p xs base n + 1"
  using assms(2-)
proof (induction n arbitrary: base rule: less_induct)
  case (less n)
  show ?case
  proof (cases "n > 1")
    case True
    define half where "half = n div 2"
    have half: "1 \<le> half" "half < n" using True by (auto simp: half_def)
    define base' where "base' = (if p (xs ! (base + half)) then base + half else base)"
    have "p (xs ! (base + half)) \<longleftrightarrow> base + half < k" using assms(1) half less.prems by simp
    then have "base' + (n - half) \<le> length xs" "base' = 0 \<or> base' < k" "k \<le> base' + (n - half)"
      using half less.prems True by (auto simp: base'_def half_def)
    moreover have "pp_loop p xs base n = pp_loop p xs base' (n - half)"
      using True by (simp add: pp_loop.simps [of p xs base n] half_def base'_def Let_def)
    ultimately show ?thesis using less.IH [of "n - half" base'] half by simp
  next
    case False
    then show ?thesis using less.prems by (simp add: pp_loop.simps [of p xs base n])
  qed
qed

text \<open>The binary search finds the number of entries with the property.\<close>

lemma partition_point_count:
  assumes "partitioned p xs"
  shows "partition_point p xs = length (filter p xs)"
proof (cases "xs = []")
  case False
  let ?b = "pp_loop p xs 0 (length xs)"
  have nth: "\<And>i. i < length xs \<Longrightarrow> p (xs ! i) \<longleftrightarrow> i < length (filter p xs)" using partitioned_nth [OF assms] .
  have "?b < length xs \<and> (?b = 0 \<or> ?b < length (filter p xs)) \<and> length (filter p xs) \<le> ?b + 1"
    using False by (intro pp_loop_bounds nth) (auto simp: Suc_le_eq)
  then show ?thesis using False nth [of ?b] by (auto simp: partition_point_def Let_def)
qed (simp add: partition_point_def)

lemma take_partition_point: "partitioned p xs \<Longrightarrow> take (partition_point p xs) xs = filter p xs"
  by (simp add: partition_point_count flip: partitioned_takeWhile takeWhile_eq_take)

lemma drop_partition_point: "partitioned p xs \<Longrightarrow> drop (partition_point p xs) xs = filter (\<lambda>x. \<not> p x) xs"
  by (simp add: partition_point_count flip: partitioned_dropWhile partitioned_takeWhile dropWhile_eq_drop)

section \<open>Look-up\<close>

text \<open>Specification: the last mapping of the line at or before the column.\<close>

definition closest_mapping :: "u32 \<Rightarrow> u32 \<Rightarrow> mapping_entry list \<Rightarrow> mapping_entry option" where
  "closest_mapping line column ms =
     (let fs = filter (\<lambda>m. mp_generated_line m = line \<and> mp_generated_column m \<le> column) ms
      in if fs = [] then None else Some (last fs))"

text \<open>Sorted by generated line, then generated column, as the comment on \<^verbatim>\<open>DecodedMappings\<close> requires.\<close>

definition mappings_sorted :: "mapping_entry list \<Rightarrow> bool" where
  "mappings_sorted ms \<longleftrightarrow> sorted_wrt (\<lambda>a b. mp_generated_line a < mp_generated_line b
     \<or> mp_generated_line a = mp_generated_line b \<and> mp_generated_column a \<le> mp_generated_column b) ms"

lemma mappings_sorted_partitioned:
  assumes "mappings_sorted ms"
  shows "partitioned (\<lambda>m. mp_generated_line m < line) ms" "partitioned (\<lambda>m. mp_generated_line m \<le> line) ms"
    "partitioned (\<lambda>m. mp_generated_column m \<le> column) (filter (\<lambda>m. mp_generated_line m = line) ms)"
proof -
  show "partitioned (\<lambda>m. mp_generated_line m < line) ms" "partitioned (\<lambda>m. mp_generated_line m \<le> line) ms"
    using assms unfolding partitioned_def mappings_sorted_def
    by (auto elim!: sorted_wrt_mono_rel [rotated] dest: less_trans less_le_trans)
  have "sorted_wrt (\<lambda>a b. mp_generated_line a < mp_generated_line b
      \<or> mp_generated_line a = mp_generated_line b \<and> mp_generated_column a \<le> mp_generated_column b)
      (filter (\<lambda>m. mp_generated_line m = line) ms)"
    using assms unfolding mappings_sorted_def by (rule sorted_wrt_filter)
  then show "partitioned (\<lambda>m. mp_generated_column m \<le> column) (filter (\<lambda>m. mp_generated_line m = line) ms)"
    unfolding partitioned_def by (rule sorted_wrt_mono_rel [rotated]) auto
qed

lemma mappings_find_closest:
  assumes "mappings_sorted ms"
  shows "mappings_find line column ms = closest_mapping line column ms"
proof -
  define lo hi where "lo = partition_point (\<lambda>m. mp_generated_line m < line) ms"
    and "hi = partition_point (\<lambda>m. mp_generated_line m \<le> line) ms"
  define lm where "lm = filter (\<lambda>m. mp_generated_line m = line) ms"
  note parts = mappings_sorted_partitioned [OF assms]
  have "take (hi - lo) (drop lo ms) = drop lo (take hi ms)" by (simp add: drop_take)
  also have "\<dots> = drop lo (filter (\<lambda>m. mp_generated_line m \<le> line) ms)"
    unfolding hi_def using parts(2) by (simp add: take_partition_point)
  also have "\<dots> = lm"
  proof -
    let ?fs = "filter (\<lambda>m. mp_generated_line m \<le> line) ms"
    have part: "partitioned (\<lambda>m. mp_generated_line m < line) ?fs"
      using parts(1) unfolding partitioned_def by (rule sorted_wrt_filter)
    have "filter (\<lambda>m. mp_generated_line m < line) ?fs = filter (\<lambda>m. mp_generated_line m < line) ms"
      unfolding filter_filter by (intro filter_cong) auto
    then have "lo = partition_point (\<lambda>m. mp_generated_line m < line) ?fs"
      unfolding lo_def using partition_point_count [OF parts(1)] partition_point_count [OF part] by simp
    then have "drop lo ?fs = filter (\<lambda>m. \<not> mp_generated_line m < line) ?fs"
      using drop_partition_point [OF part] by simp
    also have "\<dots> = lm" unfolding lm_def filter_filter by (intro filter_cong) auto
    finally show ?thesis .
  qed
  finally have slice: "take (hi - lo) (drop lo ms) = lm" .
  define idx where "idx = partition_point (\<lambda>m. mp_generated_column m \<le> column) lm"
  have pre: "take idx lm = filter (\<lambda>m. mp_generated_line m = line \<and> mp_generated_column m \<le> column) ms"
    unfolding idx_def lm_def using parts(3) by (simp add: take_partition_point conj_commute)
  have bound: "idx \<le> length lm"
    unfolding idx_def lm_def by (subst partition_point_count [OF parts(3)]) (rule length_filter_le)
  then have "idx \<noteq> 0 \<Longrightarrow> lm ! (idx - 1) = last (take idx lm)"
    by (subst last_conv_nth) auto
  moreover have "hi \<le> lo \<Longrightarrow> lm = []" using slice by auto
  moreover have "mappings_find line column ms =
      (if lo \<ge> hi then None else if idx = 0 then None else Some (lm ! (idx - 1)))"
    unfolding mappings_find_def Let_def lo_def [symmetric] hi_def [symmetric] slice idx_def [symmetric] ..
  moreover have "closest_mapping line column ms = (if take idx lm = [] then None else Some (last (take idx lm)))"
    unfolding closest_mapping_def Let_def pre ..
  ultimately show ?thesis using bound by auto
qed

text \<open>The decoder leaves the lines in order; the columns of a line are as the string has them.\<close>

definition columns_sorted :: "mapping_entry list \<Rightarrow> bool" where
  "columns_sorted ms \<longleftrightarrow> sorted_wrt (\<lambda>a b. mp_generated_line a = mp_generated_line b \<longrightarrow> mp_generated_column a \<le> mp_generated_column b) ms"

lemma unat_succ: "unat (k :: u32) + 1 < 2 ^ 32 \<Longrightarrow> unat (k + 1) = unat k + 1"
  by (simp add: unat_plus_simple unat_word_ariths(1))

definition lines_upto :: "decode_state \<Rightarrow> bool" where
  "lines_upto d \<longleftrightarrow> sorted (map mp_generated_line (ds_result d)) \<and> list_all (\<lambda>m. mp_generated_line m \<le> ds_generated_line d) (ds_result d)"

lemma decode_segment_values_lines:
  "decode_segment_values values column d = (column', d') \<Longrightarrow> lines_upto d \<Longrightarrow> lines_upto d' \<and> ds_generated_line d' = ds_generated_line d"
  by (auto simp: decode_segment_values_def Let_def mappings_add_def lines_upto_def sorted_append list_all_iff split: if_splits)

lemma decode_segments_lines:
  "decode_segments column d ss = Inr d' \<Longrightarrow> lines_upto d \<Longrightarrow> lines_upto d' \<and> ds_generated_line d' = ds_generated_line d"
proof (induction column d ss rule: decode_segments.induct)
  case (2 column d segment segments)
  show ?case
  proof (cases "segment = []")
    case False
    then obtain vs where vs: "decode_vlq_segment segment = Inr vs" using 2(4) by (auto split: sum.splits)
    show ?thesis
    proof (cases "vs = []")
      case True
      with 2(2) [OF False vs] 2(4,5) False vs show ?thesis by simp
    next
      case nonempty: False
      obtain column' d1 where d1: "decode_segment_values vs column d = (column', d1)" by force
      with 2(3) [OF False vs nonempty] 2(4,5) False vs nonempty decode_segment_values_lines [OF d1] show ?thesis by simp
    qed
  qed (use 2 in simp)
qed simp

lemma decode_lines_sorted:
  "decode_lines d ls = Inr d' \<Longrightarrow> lines_upto d \<Longrightarrow> unat (ds_generated_line d) + length ls \<le> 2 ^ 32 \<Longrightarrow> sorted (map mp_generated_line (ds_result d'))"
proof (induction d ls rule: decode_lines.induct)
  case (1 d)
  then show ?case by (simp add: lines_upto_def)
next
  case (2 d line ls)
  then obtain d1 where d1: "decode_segments 0 d (str_split CHR '','' line) = Inr d1" by (auto split: sum.splits)
  let ?d = "d1\<lparr>ds_generated_line := ds_generated_line d1 + 1\<rparr>"
  have up: "lines_upto d1" "ds_generated_line d1 = ds_generated_line d" using decode_segments_lines [OF d1] 2(3) by simp_all
  show ?case
  proof (cases "ls = []")
    case True
    with 2(2) d1 up show ?thesis by (auto simp: lines_upto_def)
  next
    case False
    then have "unat (ds_generated_line d) + 1 < 2 ^ 32" using 2(4) by (cases ls) auto
    then have u: "unat (ds_generated_line d + 1) = unat (ds_generated_line d) + 1" by (rule unat_succ)
    then have "ds_generated_line d \<le> ds_generated_line d + 1" by unat_arith
    then have "lines_upto ?d" using up by (auto simp: lines_upto_def list_all_iff)
    with 2(1) [OF d1] 2(2,4) d1 u up show ?thesis by simp
  qed
qed

lemma decoded_sorted:
  assumes "decode_vlq_mappings s = Inr ms" and "length (str_split CHR '';'' s) \<le> 2 ^ 32" and "columns_sorted ms"
  shows "mappings_sorted ms"
proof -
  obtain d where d: "decode_lines decode_start (str_split CHR '';'' s) = Inr d" "ms = ds_result d"
    using assms(1) by (auto simp: decode_vlq_mappings_def split: sum.splits)
  have "sorted (map mp_generated_line ms)"
    unfolding d(2) using assms(2) by (intro decode_lines_sorted [OF d(1)]) (simp_all add: decode_start_def lines_upto_def)
  with assms(3) show ?thesis
    unfolding mappings_sorted_def columns_sorted_def sorted_wrt_map sorted_wrt_iff_nth_less by fastforce
qed

section \<open>The cache is transparent\<close>

text \<open>Specification: every frame parses the source map anew.\<close>

definition symbolicate_js_frame_plain ::
  "json_reader \<Rightarrow> artifact_lookup \<Rightarrow> string \<Rightarrow> string option \<Rightarrow> frame \<Rightarrow> symbolicate_error + frame" where
  "symbolicate_js_frame_plain parse fsm release dist f =
     fst (symbolicate_js_frame parse fsm release dist f Map.empty)"

fun symbolicate_js_plain ::
  "json_reader \<Rightarrow> artifact_lookup \<Rightarrow> string \<Rightarrow> string option \<Rightarrow> frame list \<Rightarrow> symbolicate_error + frame list" where
  "symbolicate_js_plain parse fsm release dist [] = Inr []"
| "symbolicate_js_plain parse fsm release dist (f # fs) =
     (case symbolicate_js_frame_plain parse fsm release dist f of
        Inl e \<Rightarrow> Inl e
      | Inr f' \<Rightarrow> (case symbolicate_js_plain parse fsm release dist fs of
          Inl e \<Rightarrow> Inl e
        | Inr fs' \<Rightarrow> Inr (f' # fs')))"

lemma fst_symbolicate_js_frame:
  "fst (symbolicate_js_frame parse fsm release dist f cache) =
     (case (fr_filename f, fr_lineno f, fr_colno f) of
        (Some filename, Some lineno, Some colno) \<Rightarrow>
          (case fsm release dist filename of
             None \<Rightarrow> Inr f
           | Some data \<Rightarrow>
               (case fst (cached_source_map parse (cache_key release filename) data cache) of
                  None \<Rightarrow> Inr f
                | Some sm \<Rightarrow> symbolicate_with sm lineno colno f))
      | _ \<Rightarrow> Inr f)"
  by (auto simp: symbolicate_js_frame_def split: option.splits prod.splits)

lemma snd_symbolicate_js_frame:
  "snd (symbolicate_js_frame parse fsm release dist f cache) =
     (case (fr_filename f, fr_lineno f, fr_colno f) of
        (Some filename, Some lineno, Some colno) \<Rightarrow>
          (case fsm release dist filename of
             None \<Rightarrow> cache
           | Some data \<Rightarrow> snd (cached_source_map parse (cache_key release filename) data cache))
      | _ \<Rightarrow> cache)"
  by (auto simp: symbolicate_js_frame_def split: option.splits prod.splits)

text \<open>A processor's life: the results of a sequence of calls that share the cache.\<close>

fun symbolicate_calls ::
  "json_reader \<Rightarrow> artifact_lookup \<Rightarrow> sm_cache \<Rightarrow> (string \<times> string option \<times> frame list) list
    \<Rightarrow> (symbolicate_error + frame list) list" where
  "symbolicate_calls parse fsm cache [] = []"
| "symbolicate_calls parse fsm cache ((release, dist, fs) # cs) =
     (case symbolicate_js parse fsm release dist fs cache of
        (r, cache') \<Rightarrow> r # symbolicate_calls parse fsm cache' cs)"

text \<open>
  Interface of an artifact store as the cache relies on it: for the releases in use the cache key
  determines the artifact.
\<close>

locale keyed_artifacts =
  fixes fsm :: artifact_lookup and ok :: "string \<Rightarrow> bool"
  assumes key_determines:
    "ok r \<Longrightarrow> ok r' \<Longrightarrow> cache_key r f = cache_key r' f' \<Longrightarrow> fsm r d f = fsm r' d' f'"
begin

definition cache_sound :: "json_reader \<Rightarrow> sm_cache \<Rightarrow> bool" where
  "cache_sound parse cache \<longleftrightarrow> (\<forall>r d f data sm. ok r \<longrightarrow> fsm r d f = Some data
     \<longrightarrow> cache (cache_key r f) = Some sm \<longrightarrow> from_bytes parse data = Inr sm)"

lemma cached_source_map_sound:
  assumes "cache_sound parse cache" "ok r" "fsm r d f = Some data"
  shows "fst (cached_source_map parse (cache_key r f) data cache) =
      fst (cached_source_map parse (cache_key r f) data Map.empty)"
    and "cache_sound parse (snd (cached_source_map parse (cache_key r f) data cache))"
proof -
  have hit: "from_bytes parse data = Inr sm" if "cache (cache_key r f) = Some sm" for sm
    using assms that unfolding cache_sound_def by blast
  show "fst (cached_source_map parse (cache_key r f) data cache) =
      fst (cached_source_map parse (cache_key r f) data Map.empty)"
    by (auto simp: cached_source_map_def hit split: option.splits sum.splits)
  show "cache_sound parse (snd (cached_source_map parse (cache_key r f) data cache))"
    unfolding cache_sound_def
  proof (intro allI impI)
    fix r' d' f' data' sm
    assume a: "ok r'" "fsm r' d' f' = Some data'"
      "snd (cached_source_map parse (cache_key r f) data cache) (cache_key r' f') = Some sm"
    show "from_bytes parse data' = Inr sm"
    proof (cases "cache_key r' f' = cache_key r f")
      case True
      then have "data' = data" using key_determines [of r' r f' f d' d] a assms by simp
      then show ?thesis using a(3) True hit
        by (auto simp: cached_source_map_def split: option.splits sum.splits)
    next
      case False
      then have "cache (cache_key r' f') = Some sm"
        using a(3) by (auto simp: cached_source_map_def split: option.splits sum.splits)
      then show ?thesis using assms(1) a unfolding cache_sound_def by blast
    qed
  qed
qed

lemma frame_transparent:
  assumes "cache_sound parse cache" "ok r"
  shows "fst (symbolicate_js_frame parse fsm r d f cache) = symbolicate_js_frame_plain parse fsm r d f"
    and "cache_sound parse (snd (symbolicate_js_frame parse fsm r d f cache))"
proof -
  note sound = cached_source_map_sound [OF assms]
  show "fst (symbolicate_js_frame parse fsm r d f cache) = symbolicate_js_frame_plain parse fsm r d f"
    unfolding symbolicate_js_frame_plain_def fst_symbolicate_js_frame
    by (auto simp: sound(1) split: option.split)
  show "cache_sound parse (snd (symbolicate_js_frame parse fsm r d f cache))"
    unfolding snd_symbolicate_js_frame by (auto simp: sound(2) assms(1) split: option.split)
qed

lemma js_transparent:
  assumes "cache_sound parse cache" "ok r"
  shows "fst (symbolicate_js parse fsm r d fs cache) = symbolicate_js_plain parse fsm r d fs
    \<and> cache_sound parse (snd (symbolicate_js parse fsm r d fs cache))"
  using assms(1)
proof (induction fs arbitrary: cache)
  case (Cons f fs)
  obtain x cache' where s: "symbolicate_js_frame parse fsm r d f cache = (x, cache')" by fastforce
  have "x = symbolicate_js_frame_plain parse fsm r d f" "cache_sound parse cache'"
    using frame_transparent [OF Cons.prems assms(2), of d f] s by auto
  then show ?case using Cons.IH [of cache'] s by (auto split: sum.splits prod.splits)
qed simp

lemma calls_transparent:
  assumes "cache_sound parse cache" "list_all (\<lambda>(r, d, fs). ok r) cs"
  shows "symbolicate_calls parse fsm cache cs = map (\<lambda>(r, d, fs). symbolicate_js_plain parse fsm r d fs) cs"
  using assms
proof (induction cs arbitrary: cache)
  case (Cons c cs)
  obtain r d fs where c: "c = (r, d, fs)" by (cases c) auto
  obtain x cache' where s: "symbolicate_js parse fsm r d fs cache = (x, cache')" by fastforce
  have "x = symbolicate_js_plain parse fsm r d fs" "cache_sound parse cache'"
    using js_transparent [of parse cache r d fs] Cons.prems c s by auto
  then show ?case using Cons.IH [of cache'] Cons.prems c s by simp
qed simp

lemma empty_sound: "cache_sound parse Map.empty"
  by (simp add: cache_sound_def)

end

lemma cache_key_inj:
  "CHR '':'' \<notin> set r \<Longrightarrow> CHR '':'' \<notin> set r' \<Longrightarrow> cache_key r f = cache_key r' f' \<Longrightarrow> r = r' \<and> f = f'"
proof (induction r arbitrary: r')
  case Nil
  then show ?case by (cases r') (auto simp: cache_key_def)
next
  case (Cons c r)
  then show ?case by (cases r') (auto simp: cache_key_def)
qed

interpretation in_memory: keyed_artifacts "find_source_map arts" "\<lambda>r. CHR '':'' \<notin> set r" for arts
proof
  fix r r' f f' d d'
  assume "CHR '':'' \<notin> set r" "CHR '':'' \<notin> set r'" "cache_key r f = cache_key r' f'"
  then have "r = r' \<and> f = f'" by (rule cache_key_inj)
  then show "find_source_map arts r d f = find_source_map arts r' d' f'" by (simp add: find_source_map_def)
qed

section \<open>Properties\<close>

text \<open>
  C33: The decoder reads back the mapping strings of the format: encode the segments of the generated lines, each with one, four or five values, as
  VLQ deltas in their shortest form, with commas and semicolons, and \<^verbatim>\<open>decode_vlq_mappings\<close> returns the mappings (the
  segments with four or five values) in order, each with its line and its absolute column, for fields below \<open>2^30\<close>, the range a VLQ
  value can cover in 32-bit arithmetic.
\<close>

theorem vlq_mappings_roundtrip:
  assumes "list_all (list_all small_entry) ls" "numbered 0 ls"
  shows "decode_vlq_mappings (encode_mappings ls) = Inr (concat (map line_mappings ls))"
  using assms by (rule decode_encode_mappings)

theorem vlq_mappings_roundtrip_witness:
  "let m = (\<lambda>l c ol n. \<lparr>mp_generated_line = l, mp_generated_column = c, mp_source_index = 0,
        mp_original_line = ol, mp_original_column = 7, mp_name_index = n\<rparr>);
       ls = [[Mapped (m 0 0 5 None), Unmapped 16, Mapped (m 0 40 2 (Some 3))], [], [Mapped (m 2 9 100 (Some 1))]]
   in encode_mappings ls = ''AAKO,gB,wBAHAG;;SAkGAF''
    \<and> decode_vlq_mappings (encode_mappings ls) = Inr [m 0 0 5 None, m 0 40 2 (Some 3), m 2 9 100 (Some 1)]"
  unfolding Let_def by (intro conjI, code_simp, subst vlq_mappings_roundtrip) code_simp+

text \<open>
  C34: The two binary searches of \<^verbatim>\<open>DecodedMappings::find\<close>, run on a table decoded from any mapping string of at most \<open>2^32\<close> lines, return the last
  mapping of the line at or before the column, and nothing when there is none, provided that the columns decoded for each line ascend. The decoder puts
  the lines in order but does not sort the columns, nor refuse strings where they do not ascend.
\<close>

theorem decoded_find_is_closest:
  assumes "decode_vlq_mappings s = Inr ms" and "length (str_split CHR '';'' s) \<le> 2 ^ 32" and "columns_sorted ms"
  shows "mappings_find line column ms = closest_mapping line column ms"
  using decoded_sorted [OF assms] by (rule mappings_find_closest)

theorem decoded_find_is_closest_witness:
  "\<exists>ms. decode_vlq_mappings ''AAKO,gB,wBAHA;;SAkGA'' = Inr ms \<and> mappings_find 0 41 ms = closest_mapping 0 41 ms
     \<and> map_option mp_original_line (closest_mapping 0 41 ms) = Some 2 \<and> mappings_find 1 0 ms = None"
proof -
  let ?s = "''AAKO,gB,wBAHA;;SAkGA''"
  let ?m = "\<lambda>l c ol. \<lparr>mp_generated_line = l, mp_generated_column = c, mp_source_index = 0,
        mp_original_line = ol, mp_original_column = 7, mp_name_index = None\<rparr>"
  let ?ms = "[?m 0 0 5, ?m 0 40 2, ?m 2 9 100]"
  have ms: "decode_vlq_mappings ?s = Inr ?ms" by code_simp
  have "length (str_split CHR '';'' ?s) \<le> 2 ^ 32" "columns_sorted ?ms" by (simp, simp add: columns_sorted_def)
  from decoded_find_is_closest [OF ms this, of 0 41] decoded_find_is_closest [OF ms this, of 1 0] ms show ?thesis
    by (intro exI [of _ ?ms]) (simp add: closest_mapping_def)
qed

text \<open>
  C35: The processor's cache of parsed source maps changes no result: any sequence of stack traces
  symbolicated with one processor over an in-memory artifact store gives what parsing the source map
  afresh for every frame gives, as long as no release name contains a colon, the separator of the cache key.
\<close>

theorem source_map_cache_transparent:
  assumes "list_all (\<lambda>(release, dist, frames). CHR '':'' \<notin> set release) cs"
  shows "symbolicate_calls parse (find_source_map arts) Map.empty cs =
    map (\<lambda>(release, dist, frames). symbolicate_js_plain parse (find_source_map arts) release dist frames) cs"
  using in_memory.empty_sound assms by (rule in_memory.calls_transparent)

theorem source_map_cache_transparent_witness:
  "let raw = \<lparr>rs_version = 3, rs_file = None, rs_source_root = Some ''/r/'', rs_sources = [''a.ts''],
        rs_sources_content = None, rs_names = [''f''], rs_mappings = ''AAKOA''\<rparr>;
       parse = (\<lambda>d. if d = [1] then Inr raw else Inl ''bad'');
       f = frame_default\<lparr>fr_filename := Some ''b.js'', fr_lineno := Some 1, fr_colno := Some 9\<rparr>;
       g = f\<lparr>fr_filename := Some ''/r/a.ts'', fr_lineno := Some 6, fr_colno := Some 7, fr_function := Some ''f''\<rparr>;
       arts = artifacts_add ''v1'' ''b.js.map'' [1] Map.empty;
       cs = [(''v1'', None, [f, f]), (''v2'', None, [f]), (''v1'', Some ''d'', [f])]
   in symbolicate_calls parse (find_source_map arts) Map.empty cs =
        map (\<lambda>(release, dist, frames). symbolicate_js_plain parse (find_source_map arts) release dist frames) cs
    \<and> map (\<lambda>(release, dist, frames). symbolicate_js_plain parse (find_source_map arts) release dist frames) cs
        = [Inr [g, g], Inr [f], Inr [g]]"
  unfolding Let_def by (intro conjI source_map_cache_transparent) code_simp+

end
