(* ===== verification/Crash.thy ===== *)
theory Crash
  imports Effects SourceMaps
begin

text \<open>
  Crash tracking: the types of \<^verbatim>\<open>loom-crash-core\<close>, the grouping of events by fingerprint, the repository and the symbolication service of
  \<^verbatim>\<open>loom-server-crash\<close>.

  The tables are lists of rows in insertion order and a statement is a function on them, with the primary keys, unique constraints, foreign keys
  and delete actions of \<^verbatim>\<open>migrations/033_crash_analytics.sql\<close>; rows of other components that refer to a project are left out.
  A column that holds JSON, a timestamp or an identifier is represented by its value. Hashing, the UUID and RFC 3339 readers, the JSON reader,
  the demangler and Unicode upper case are fields of an environment.
\<close>

section \<open>Issues, events, projects\<close>

datatype issue_status = Unresolved | Resolved | Ignored | Regressed

fun show_issue_status :: "issue_status \<Rightarrow> string" where
  "show_issue_status Unresolved = ''unresolved''"
| "show_issue_status Resolved = ''resolved''"
| "show_issue_status Ignored = ''ignored''"
| "show_issue_status Regressed = ''regressed''"

definition read_issue_status :: "string \<Rightarrow> issue_status option" where
  "read_issue_status s =
     (if s = ''unresolved'' then Some Unresolved else if s = ''resolved'' then Some Resolved
      else if s = ''ignored'' then Some Ignored else if s = ''regressed'' then Some Regressed else None)"

datatype issue_level = LevelError | LevelWarning | LevelInfo

fun show_issue_level :: "issue_level \<Rightarrow> string" where
  "show_issue_level LevelError = ''error''"
| "show_issue_level LevelWarning = ''warning''"
| "show_issue_level LevelInfo = ''info''"

definition read_issue_level :: "string \<Rightarrow> issue_level option" where
  "read_issue_level s =
     (if s = ''error'' then Some LevelError else if s = ''warning'' then Some LevelWarning
      else if s = ''info'' then Some LevelInfo else None)"

datatype issue_priority = PriorityHigh | PriorityMedium | PriorityLow

fun show_issue_priority :: "issue_priority \<Rightarrow> string" where
  "show_issue_priority PriorityHigh = ''high''"
| "show_issue_priority PriorityMedium = ''medium''"
| "show_issue_priority PriorityLow = ''low''"

definition read_issue_priority :: "string \<Rightarrow> issue_priority option" where
  "read_issue_priority s =
     (if s = ''high'' then Some PriorityHigh else if s = ''medium'' then Some PriorityMedium
      else if s = ''low'' then Some PriorityLow else None)"

record issue_metadata =
  im_exception_type :: string
  im_exception_value :: string
  im_filename :: "string option"
  im_function :: "string option"

record issue =
  is_id :: uuid
  is_org_id :: uuid
  is_project_id :: uuid
  is_short_id :: string
  is_fingerprint :: string
  is_title :: string
  is_culprit :: "string option"
  is_metadata :: issue_metadata
  is_status :: issue_status
  is_level :: issue_level
  is_priority :: issue_priority
  is_event_count :: u64
  is_user_count :: u64
  is_first_seen :: datetime
  is_last_seen :: datetime
  is_resolved_at :: "datetime option"
  is_resolved_by :: "uuid option"
  is_resolved_in_release :: "string option"
  is_times_regressed :: u32
  is_last_regressed_at :: "datetime option"
  is_regressed_in_release :: "string option"
  is_assigned_to :: "uuid option"
  is_created_at :: datetime
  is_updated_at :: datetime

datatype breadcrumb_level = CrumbDebug | CrumbInfo | CrumbWarning | CrumbError

fun show_breadcrumb_level :: "breadcrumb_level \<Rightarrow> string" where
  "show_breadcrumb_level CrumbDebug = ''debug''"
| "show_breadcrumb_level CrumbInfo = ''info''"
| "show_breadcrumb_level CrumbWarning = ''warning''"
| "show_breadcrumb_level CrumbError = ''error''"

definition read_breadcrumb_level :: "string \<Rightarrow> breadcrumb_level option" where
  "read_breadcrumb_level s =
     (if s = ''debug'' then Some CrumbDebug else if s = ''info'' then Some CrumbInfo
      else if s = ''warning'' then Some CrumbWarning else if s = ''error'' then Some CrumbError else None)"

record 'j breadcrumb =
  bc_timestamp :: datetime
  bc_category :: string
  bc_message :: "string option"
  bc_level :: breadcrumb_level
  bc_data :: 'j

record runtime =
  rt_name :: string
  rt_version :: "string option"

record user_context =
  ux_id :: "string option"
  ux_email :: "string option"
  ux_username :: "string option"
  ux_ip_address :: "string option"

record device_context =
  dx_name :: "string option"
  dx_family :: "string option"
  dx_model :: "string option"
  dx_arch :: "string option"

record browser_context =
  bx_name :: "string option"
  bx_version :: "string option"

record os_context =
  ox_name :: "string option"
  ox_version :: "string option"

record request_context =
  rx_url :: "string option"
  rx_method :: "string option"
  rx_headers :: "(string \<times> string) list"
  rx_query_string :: "string option"

record 'j crash_event =
  ce_id :: uuid
  ce_org_id :: uuid
  ce_project_id :: uuid
  ce_issue_id :: "uuid option"
  ce_person_id :: "uuid option"
  ce_distinct_id :: string
  ce_exception_type :: string
  ce_exception_value :: string
  ce_stacktrace :: "frame list"
  ce_raw_stacktrace :: "frame list option"
  ce_release :: "string option"
  ce_dist :: "string option"
  ce_environment :: string
  ce_platform :: platform
  ce_runtime :: "runtime option"
  ce_server_name :: "string option"
  ce_tags :: "(string \<times> string) list"
  ce_extra :: 'j
  ce_user_context :: "user_context option"
  ce_device_context :: "device_context option"
  ce_browser_context :: "browser_context option"
  ce_os_context :: "os_context option"
  ce_active_flags :: "(string \<times> string) list"
  ce_request :: "request_context option"
  ce_breadcrumbs :: "'j breadcrumb list"
  ce_timestamp :: datetime
  ce_received_at :: datetime

datatype fingerprint_match_type = MatchExceptionType | MatchExceptionMessage | MatchModule | MatchFunction

record fingerprint_rule =
  fp_match_type :: fingerprint_match_type
  fp_pattern :: string
  fp_fingerprint :: "string list"

record crash_project =
  cp_id :: uuid
  cp_org_id :: uuid
  cp_name :: string
  cp_slug :: string
  cp_platform :: platform
  cp_auto_resolve_age_days :: "u32 option"
  cp_fingerprint_rules :: "fingerprint_rule list"
  cp_created_at :: datetime
  cp_updated_at :: datetime

definition validate_slug :: "string \<Rightarrow> bool" where
  "validate_slug slug \<longleftrightarrow> \<not> (length slug < 3 \<or> length slug > 50)
     \<and> list_all (\<lambda>c. is_ascii_lowercase c \<or> is_ascii_digit c \<or> c = CHR ''-'' \<or> c = CHR ''_'') slug
     \<and> (case slug of [] \<Rightarrow> False | c # _ \<Rightarrow> is_ascii_lowercase c)"

datatype crash_key_type = CaptureKey | AdminKey

fun show_crash_key_type :: "crash_key_type \<Rightarrow> string" where
  "show_crash_key_type CaptureKey = ''capture''"
| "show_crash_key_type AdminKey = ''admin''"

definition read_crash_key_type :: "string \<Rightarrow> crash_key_type option" where
  "read_crash_key_type s = (if s = ''capture'' then Some CaptureKey else if s = ''admin'' then Some AdminKey else None)"

record crash_api_key =
  ck_id :: uuid
  ck_project_id :: uuid
  ck_name :: string
  ck_key_type :: crash_key_type
  ck_key_hash :: string
  ck_rate_limit_per_minute :: "u32 option"
  ck_allowed_origins :: "string list"
  ck_created_by :: uuid
  ck_created_at :: datetime
  ck_last_used_at :: "datetime option"
  ck_revoked_at :: "datetime option"

definition key_is_revoked :: "crash_api_key \<Rightarrow> bool" where
  "key_is_revoked k \<longleftrightarrow> is_some (ck_revoked_at k)"

record release =
  rl_id :: uuid
  rl_org_id :: uuid
  rl_project_id :: uuid
  rl_version :: string
  rl_short_version :: "string option"
  rl_url :: "string option"
  rl_crash_count :: u64
  rl_new_issue_count :: u64
  rl_regression_count :: u64
  rl_user_count :: u64
  rl_date_released :: "datetime option"
  rl_first_event :: "datetime option"
  rl_last_event :: "datetime option"
  rl_created_at :: datetime

datatype artifact_type = SourceMapArtifact | MinifiedSource | RustDebugInfo

fun show_artifact_type :: "artifact_type \<Rightarrow> string" where
  "show_artifact_type SourceMapArtifact = ''source_map''"
| "show_artifact_type MinifiedSource = ''minified_source''"
| "show_artifact_type RustDebugInfo = ''rust_debug_info''"

definition read_artifact_type :: "string \<Rightarrow> artifact_type option" where
  "read_artifact_type s =
     (if s = ''source_map'' then Some SourceMapArtifact else if s = ''minified_source'' then Some MinifiedSource
      else if s = ''rust_debug_info'' then Some RustDebugInfo else None)"

record symbol_artifact =
  sa_id :: uuid
  sa_org_id :: uuid
  sa_project_id :: uuid
  sa_release :: string
  sa_dist :: "string option"
  sa_artifact_type :: artifact_type
  sa_name :: string
  sa_data :: bytes
  sa_size_bytes :: u64
  sa_sha256 :: string
  sa_source_map_url :: "string option"
  sa_sources_content :: bool
  sa_uploaded_at :: datetime
  sa_uploaded_by :: uuid
  sa_last_accessed_at :: "datetime option"

section \<open>Fingerprints and titles\<close>

record 'j crash_env =
  cv_sha256 :: "bytes \<Rightarrow> string"  \<comment> \<open>the digest in lower-case hexadecimal digits\<close>
  cv_to_uppercase :: "string \<Rightarrow> string"
  cv_parse_uuid :: "string \<Rightarrow> uuid option"
  cv_show_uuid :: "uuid \<Rightarrow> string"
  cv_parse_rfc3339 :: "string \<Rightarrow> datetime option"
  cv_read_json :: json_reader
  cv_demangle :: "string \<Rightarrow> string"
  cv_argon2_hash :: "uuid \<Rightarrow> string \<Rightarrow> string option"  \<comment> \<open>with the salt drawn\<close>
  cv_argon2_verify :: "string \<Rightarrow> string \<Rightarrow> bool option"  \<comment> \<open>\<open>None\<close>: not a password hash\<close>
  cv_translate :: "string \<Rightarrow> string \<Rightarrow> string"  \<comment> \<open>locale, message key\<close>
  cv_null :: 'j

definition as_bytes :: "string \<Rightarrow> bytes" where
  "as_bytes s = map (\<lambda>c. of_nat (of_char c)) s"

text \<open>The bytes fed to the hash.\<close>

definition fingerprint_input :: "'j crash_event \<Rightarrow> string" where
  "fingerprint_input e =
     (let in_app_frames = take 5 (filter fr_in_app (ce_stacktrace e))
      in ce_exception_type e @ ''|''
         @ concat (map (\<lambda>f. unwrap_or (fr_function f) [] @ ''@'' @ unwrap_or (fr_module f) [] @ ''|'') in_app_frames)
         @ (if in_app_frames = [] then concat (map (\<lambda>f. unwrap_or (fr_function f) [] @ ''|'') (take 5 (ce_stacktrace e))) else []))"

definition compute_fingerprint :: "'j crash_env \<Rightarrow> 'j crash_event \<Rightarrow> string" where
  "compute_fingerprint env e = cv_sha256 env (as_bytes (fingerprint_input e))"

definition find_culprit :: "'j crash_event \<Rightarrow> string option" where
  "find_culprit e = Option.bind (List.find fr_in_app (ce_stacktrace e)) fr_function"

text \<open>Slicing a string inside a character panics: \<open>None\<close>.\<close>

definition truncate_str :: "string \<Rightarrow> nat \<Rightarrow> string option" where
  "truncate_str s max_len =
     (if length s \<le> max_len then Some s
      else let n = saturating_sub max_len 3 in if is_char_boundary s n then Some (take n s @ ''...'') else None)"

datatype crash_error =
    ProjectNotFound string
  | IssueNotFound string
  | EventNotFound string
  | ApiKeyNotFound string
  | ApiKeyRevoked
  | InvalidApiKey
  | ApiKeyHash
  | CrashDatabase string
  | CrashSerialization string
  | InvalidUuid string
  | InvalidDateTime string
  | CrashParse string
  | Symbolication string
  | CrashPanic  \<comment> \<open>no value of \<^verbatim>\<open>CrashServerError\<close>: the code panicked\<close>

section \<open>The repository\<close>

datatype crash_stream_event =
    StreamInit uuid u64
  | CrashNew uuid uuid string string bool
  | IssueRegressed uuid string string u32 "string option"
  | IssueResolved uuid string
  | IssueAssigned uuid string "string option"
  | Heartbeat string

text \<open>
  The state of the server the crash handlers work on. The organizations, users and members belong to another component, which only
  the foreign keys and the membership check look at. A channel is a project somebody subscribed to, with what was sent to it.
\<close>

record 'j crash_tables =
  ct_orgs :: "uuid list"
  ct_users :: "uuid list"
  ct_members :: "(uuid \<times> uuid) list"  \<comment> \<open>organization, user\<close>
  ct_projects :: "crash_project list"
  ct_issues :: "issue list"
  ct_events :: "'j crash_event list"
  ct_issue_persons :: "(uuid \<times> uuid \<times> datetime) list"
  ct_releases :: "release list"
  ct_artifacts :: "symbol_artifact list"
  ct_api_keys :: "crash_api_key list"
  ct_channels :: "(uuid \<times> crash_stream_event list) list"

type_synonym ('j, 'a) crash_action = "('j crash_tables, crash_error, 'a) action"

abbreviation crash_sql :: "('j crash_tables \<Rightarrow> string + 'a \<times> 'j crash_tables) \<Rightarrow> ('j, 'a) crash_action" where
  "crash_sql \<equiv> query CrashDatabase"

abbreviation crash_select :: "('j crash_tables \<Rightarrow> 'a) \<Rightarrow> ('j, 'a) crash_action" where
  "crash_select f \<equiv> crash_sql (\<lambda>d. Inr (f d, d))"

text \<open>\<^verbatim>\<open>LIMIT\<close> and \<^verbatim>\<open>OFFSET\<close> of a number cast to \<^verbatim>\<open>i32\<close>: a negative one does not restrict the result.\<close>

definition sql_limit :: "u32 \<Rightarrow> 'a list \<Rightarrow> 'a list" where
  "sql_limit n rows = (if sint n < 0 then rows else take (unat n) rows)"

definition sql_offset :: "u32 \<Rightarrow> 'a list \<Rightarrow> 'a list" where
  "sql_offset n rows = (if sint n < 0 then rows else drop (unat n) rows)"

definition refers :: "uuid option \<Rightarrow> uuid list \<Rightarrow> bool" where
  "refers r keys \<longleftrightarrow> (case r of None \<Rightarrow> True | Some i \<Rightarrow> i \<in> set keys)"

definition project_row :: "'j crash_tables \<Rightarrow> uuid \<Rightarrow> crash_project option" where
  "project_row d i = List.find (\<lambda>p. cp_id p = i) (ct_projects d)"

definition issue_row :: "'j crash_tables \<Rightarrow> uuid \<Rightarrow> string \<Rightarrow> issue option" where
  "issue_row d p f = List.find (\<lambda>x. is_project_id x = p \<and> is_fingerprint x = f) (ct_issues d)"

subsection \<open>Projects\<close>

definition create_project :: "crash_project \<Rightarrow> ('j, unit) crash_action" where
  "create_project p = crash_sql (\<lambda>d.
     if cp_id p \<in> set (map cp_id (ct_projects d)) then Inl ''UNIQUE constraint failed: crash_projects.id''
     else if (cp_org_id p, cp_slug p) \<in> set (map (\<lambda>q. (cp_org_id q, cp_slug q)) (ct_projects d))
     then Inl ''UNIQUE constraint failed: crash_projects.org_id, crash_projects.slug''
     else if cp_org_id p \<notin> set (ct_orgs d) then Inl ''FOREIGN KEY constraint failed''
     else Inr ((), d\<lparr>ct_projects := ct_projects d @ [p]\<rparr>))"

definition get_project_by_id :: "uuid \<Rightarrow> ('j, crash_project option) crash_action" where
  "get_project_by_id i = crash_select (\<lambda>d. project_row d i)"

definition get_project_by_slug :: "uuid \<Rightarrow> string \<Rightarrow> ('j, crash_project option) crash_action" where
  "get_project_by_slug org slug = crash_select (\<lambda>d. List.find (\<lambda>p. cp_org_id p = org \<and> cp_slug p = slug) (ct_projects d))"

fun insert_by_name :: "crash_project \<Rightarrow> crash_project list \<Rightarrow> crash_project list" where
  "insert_by_name p [] = [p]"
| "insert_by_name p (q # qs) = (if str_less (cp_name q) (cp_name p) \<or> cp_name q = cp_name p then q # insert_by_name p qs else p # q # qs)"

definition list_projects :: "uuid \<Rightarrow> ('j, crash_project list) crash_action" where
  "list_projects org = crash_select (\<lambda>d. fold insert_by_name (filter (\<lambda>p. cp_org_id p = org) (ct_projects d)) [])"

definition update_project :: "crash_project \<Rightarrow> ('j, unit) crash_action" where
  "update_project p = crash_sql (\<lambda>d. Inr ((), d\<lparr>ct_projects := map (\<lambda>q. if cp_id q = cp_id p
     then q\<lparr>cp_name := cp_name p, cp_auto_resolve_age_days := cp_auto_resolve_age_days p, cp_updated_at := cp_updated_at p\<rparr>
     else q) (ct_projects d)\<rparr>))"

text \<open>Deleting issues clears the reference of their events and deletes their persons.\<close>

definition drop_issues :: "(issue \<Rightarrow> bool) \<Rightarrow> 'j crash_tables \<Rightarrow> 'j crash_tables" where
  "drop_issues gone d =
     (let ids = map is_id (filter gone (ct_issues d))
      in d\<lparr>ct_issues := filter (\<lambda>x. \<not> gone x) (ct_issues d),
           ct_events := map (\<lambda>e. if (case ce_issue_id e of None \<Rightarrow> False | Some i \<Rightarrow> i \<in> set ids) then e\<lparr>ce_issue_id := None\<rparr> else e) (ct_events d),
           ct_issue_persons := filter (\<lambda>r. fst r \<notin> set ids) (ct_issue_persons d)\<rparr>)"

definition delete_project :: "uuid \<Rightarrow> ('j, bool) crash_action" where
  "delete_project i = crash_sql (\<lambda>d.
     if list_ex (\<lambda>p. cp_id p = i) (ct_projects d)
     then let d' = drop_issues (\<lambda>x. is_project_id x = i) d
          in Inr (True, d'\<lparr>ct_projects := filter (\<lambda>p. cp_id p \<noteq> i) (ct_projects d'),
               ct_events := filter (\<lambda>e. ce_project_id e \<noteq> i) (ct_events d'),
               ct_releases := filter (\<lambda>r. rl_project_id r \<noteq> i) (ct_releases d'),
               ct_artifacts := filter (\<lambda>a. sa_project_id a \<noteq> i) (ct_artifacts d'),
               ct_api_keys := filter (\<lambda>k. ck_project_id k \<noteq> i) (ct_api_keys d')\<rparr>)
     else Inr (False, d))"

subsection \<open>Issues\<close>

definition create_issue :: "issue \<Rightarrow> ('j, unit) crash_action" where
  "create_issue x = crash_sql (\<lambda>d.
     if is_id x \<in> set (map is_id (ct_issues d)) then Inl ''UNIQUE constraint failed: crash_issues.id''
     else if (is_project_id x, is_fingerprint x) \<in> set (map (\<lambda>y. (is_project_id y, is_fingerprint y)) (ct_issues d))
     then Inl ''UNIQUE constraint failed: crash_issues.project_id, crash_issues.fingerprint''
     else if is_org_id x \<notin> set (ct_orgs d) \<or> is_project_id x \<notin> set (map cp_id (ct_projects d))
       \<or> \<not> refers (is_resolved_by x) (ct_users d) \<or> \<not> refers (is_assigned_to x) (ct_users d)
     then Inl ''FOREIGN KEY constraint failed''
     else Inr ((), d\<lparr>ct_issues := ct_issues d @ [x]\<rparr>))"

definition get_issue_by_id :: "uuid \<Rightarrow> ('j, issue option) crash_action" where
  "get_issue_by_id i = crash_select (\<lambda>d. List.find (\<lambda>x. is_id x = i) (ct_issues d))"

definition get_issue_by_fingerprint :: "uuid \<Rightarrow> string \<Rightarrow> ('j, issue option) crash_action" where
  "get_issue_by_fingerprint p f = crash_select (\<lambda>d. issue_row d p f)"

definition list_issues :: "uuid \<Rightarrow> u32 \<Rightarrow> ('j, issue list) crash_action" where
  "list_issues p limit = crash_select (\<lambda>d.
     sql_limit limit (sort_key (\<lambda>x. - is_last_seen x) (filter (\<lambda>x. is_project_id x = p) (ct_issues d))))"

definition get_issue_count :: "uuid \<Rightarrow> ('j, u64) crash_action" where
  "get_issue_count p = crash_select (\<lambda>d. of_nat (length (filter (\<lambda>x. is_project_id x = p) (ct_issues d))))"

text \<open>The columns an update writes; the others, among them the fingerprint and the short id, are never changed.\<close>

definition overwrite_issue :: "datetime \<Rightarrow> issue \<Rightarrow> issue \<Rightarrow> issue" where
  "overwrite_issue t x y = y\<lparr>is_title := is_title x, is_culprit := is_culprit x, is_metadata := is_metadata x, is_status := is_status x,
     is_level := is_level x, is_priority := is_priority x, is_event_count := is_event_count x, is_user_count := is_user_count x,
     is_last_seen := is_last_seen x, is_resolved_at := is_resolved_at x, is_resolved_by := is_resolved_by x,
     is_resolved_in_release := is_resolved_in_release x, is_times_regressed := is_times_regressed x,
     is_last_regressed_at := is_last_regressed_at x, is_regressed_in_release := is_regressed_in_release x,
     is_assigned_to := is_assigned_to x, is_updated_at := t\<rparr>"

definition update_issue :: "issue \<Rightarrow> ('j, unit) crash_action" where
  "update_issue x = bind now (\<lambda>t. crash_sql (\<lambda>d.
     if is_id x \<in> set (map is_id (ct_issues d)) \<and> \<not> (refers (is_resolved_by x) (ct_users d) \<and> refers (is_assigned_to x) (ct_users d))
     then Inl ''FOREIGN KEY constraint failed''
     else Inr ((), d\<lparr>ct_issues := map (\<lambda>y. if is_id y = is_id x then overwrite_issue t x y else y) (ct_issues d)\<rparr>)))"

definition delete_issue :: "uuid \<Rightarrow> ('j, bool) crash_action" where
  "delete_issue i = crash_sql (\<lambda>d. Inr (list_ex (\<lambda>x. is_id x = i) (ct_issues d), drop_issues (\<lambda>x. is_id x = i) d))"

definition increment_issue_event_count :: "uuid \<Rightarrow> ('j, unit) crash_action" where
  "increment_issue_event_count i = bind now (\<lambda>t. bind now (\<lambda>t'. crash_sql (\<lambda>d. Inr ((), d\<lparr>ct_issues :=
     map (\<lambda>y. if is_id y = i then y\<lparr>is_event_count := is_event_count y + 1, is_last_seen := t, is_updated_at := t'\<rparr> else y) (ct_issues d)\<rparr>))))"

definition persons_of :: "'j crash_tables \<Rightarrow> uuid \<Rightarrow> (uuid \<times> uuid \<times> datetime) list" where
  "persons_of d i = filter (\<lambda>r. fst r = i) (ct_issue_persons d)"

definition add_issue_person :: "uuid \<Rightarrow> uuid \<Rightarrow> ('j, unit) crash_action" where
  "add_issue_person i person = bind now (\<lambda>t.
     bind (crash_sql (\<lambda>d.
       if list_ex (\<lambda>r. fst r = i \<and> fst (snd r) = person) (ct_issue_persons d) then Inr ((), d)
       else if i \<notin> set (map is_id (ct_issues d)) then Inl ''FOREIGN KEY constraint failed''
       else Inr ((), d\<lparr>ct_issue_persons := ct_issue_persons d @ [(i, person, t)]\<rparr>))) (\<lambda>_.
     bind now (\<lambda>t'. crash_sql (\<lambda>d. Inr ((), d\<lparr>ct_issues :=
       map (\<lambda>y. if is_id y = i then y\<lparr>is_user_count := of_nat (length (persons_of d i)), is_updated_at := t'\<rparr> else y) (ct_issues d)\<rparr>)))))"

definition issue_has_person :: "uuid \<Rightarrow> uuid \<Rightarrow> ('j, bool) crash_action" where
  "issue_has_person i person = crash_select (\<lambda>d. list_ex (\<lambda>r. fst r = i \<and> fst (snd r) = person) (ct_issue_persons d))"

definition get_next_short_id :: "'j crash_env \<Rightarrow> uuid \<Rightarrow> ('j, string) crash_action" where
  "get_next_short_id env project_id = bind (get_project_by_id project_id) (\<lambda>found. case found of
     None \<Rightarrow> fail (ProjectNotFound (cv_show_uuid env project_id))
   | Some project \<Rightarrow>
       bind (crash_select (\<lambda>d. length (filter (\<lambda>x. is_project_id x = project_id) (ct_issues d)))) (\<lambda>count.
       let prefix = cv_to_uppercase env (cp_slug project) in
       if length prefix > 4 \<and> \<not> is_char_boundary prefix 4 then fail CrashPanic
       else ret ((if length prefix > 4 then take 4 prefix else prefix) @ ''-'' @ show_nat (count + 1))))"

subsection \<open>Events\<close>

definition create_event :: "'j crash_event \<Rightarrow> ('j, unit) crash_action" where
  "create_event e = crash_sql (\<lambda>d.
     if ce_id e \<in> set (map ce_id (ct_events d)) then Inl ''UNIQUE constraint failed: crash_events.id''
     else if ce_org_id e \<notin> set (ct_orgs d) \<or> ce_project_id e \<notin> set (map cp_id (ct_projects d)) \<or> \<not> refers (ce_issue_id e) (map is_id (ct_issues d))
     then Inl ''FOREIGN KEY constraint failed''
     else Inr ((), d\<lparr>ct_events := ct_events d @ [e]\<rparr>))"

definition get_event_by_id :: "uuid \<Rightarrow> ('j, 'j crash_event option) crash_action" where
  "get_event_by_id i = crash_select (\<lambda>d. List.find (\<lambda>e. ce_id e = i) (ct_events d))"

definition list_events_for_issue :: "uuid \<Rightarrow> u32 \<Rightarrow> ('j, 'j crash_event list) crash_action" where
  "list_events_for_issue i limit = crash_select (\<lambda>d.
     sql_limit limit (sort_key (\<lambda>e. - ce_timestamp e) (filter (\<lambda>e. ce_issue_id e = Some i) (ct_events d))))"

definition list_events_for_project :: "uuid \<Rightarrow> u32 \<Rightarrow> u32 \<Rightarrow> ('j, 'j crash_event list) crash_action" where
  "list_events_for_project p limit offset = crash_select (\<lambda>d.
     sql_limit limit (sql_offset offset (sort_key (\<lambda>e. - ce_timestamp e) (filter (\<lambda>e. ce_project_id e = p) (ct_events d)))))"

definition delete_old_events :: "datetime \<Rightarrow> ('j, u64) crash_action" where
  "delete_old_events cutoff = crash_sql (\<lambda>d.
     Inr (of_nat (length (filter (\<lambda>e. ce_received_at e < cutoff) (ct_events d))),
          d\<lparr>ct_events := filter (\<lambda>e. \<not> ce_received_at e < cutoff) (ct_events d)\<rparr>))"

subsection \<open>Releases\<close>

definition create_release :: "release \<Rightarrow> ('j, unit) crash_action" where
  "create_release r = crash_sql (\<lambda>d.
     if rl_id r \<in> set (map rl_id (ct_releases d)) then Inl ''UNIQUE constraint failed: crash_releases.id''
     else if (rl_project_id r, rl_version r) \<in> set (map (\<lambda>s. (rl_project_id s, rl_version s)) (ct_releases d))
     then Inl ''UNIQUE constraint failed: crash_releases.project_id, crash_releases.version''
     else if rl_org_id r \<notin> set (ct_orgs d) \<or> rl_project_id r \<notin> set (map cp_id (ct_projects d)) then Inl ''FOREIGN KEY constraint failed''
     else Inr ((), d\<lparr>ct_releases := ct_releases d @ [r]\<rparr>))"

definition get_release_by_id :: "uuid \<Rightarrow> ('j, release option) crash_action" where
  "get_release_by_id i = crash_select (\<lambda>d. List.find (\<lambda>r. rl_id r = i) (ct_releases d))"

definition get_release_by_version :: "uuid \<Rightarrow> string \<Rightarrow> ('j, release option) crash_action" where
  "get_release_by_version p version = crash_select (\<lambda>d. List.find (\<lambda>r. rl_project_id r = p \<and> rl_version r = version) (ct_releases d))"

definition list_releases :: "uuid \<Rightarrow> u32 \<Rightarrow> ('j, release list) crash_action" where
  "list_releases p limit = crash_select (\<lambda>d.
     sql_limit limit (sort_key (\<lambda>r. - rl_created_at r) (filter (\<lambda>r. rl_project_id r = p) (ct_releases d))))"

definition update_release :: "release \<Rightarrow> ('j, unit) crash_action" where
  "update_release r = crash_sql (\<lambda>d. Inr ((), d\<lparr>ct_releases := map (\<lambda>s. if rl_id s = rl_id r
     then s\<lparr>rl_short_version := rl_short_version r, rl_url := rl_url r, rl_crash_count := rl_crash_count r,
            rl_new_issue_count := rl_new_issue_count r, rl_regression_count := rl_regression_count r, rl_user_count := rl_user_count r,
            rl_date_released := rl_date_released r, rl_first_event := rl_first_event r, rl_last_event := rl_last_event r\<rparr>
     else s) (ct_releases d)\<rparr>))"

definition fresh_release :: "uuid \<Rightarrow> uuid \<Rightarrow> uuid \<Rightarrow> string \<Rightarrow> datetime \<Rightarrow> release" where
  "fresh_release i org project version t = \<lparr>rl_id = i, rl_org_id = org, rl_project_id = project, rl_version = version, rl_short_version = None,
     rl_url = None, rl_crash_count = 0, rl_new_issue_count = 0, rl_regression_count = 0, rl_user_count = 0, rl_date_released = None,
     rl_first_event = None, rl_last_event = None, rl_created_at = t\<rparr>"

definition get_or_create_release :: "uuid \<Rightarrow> uuid \<Rightarrow> string \<Rightarrow> ('j, release) crash_action" where
  "get_or_create_release project org version = bind (get_release_by_version project version) (\<lambda>found. case found of
     Some r \<Rightarrow> ret r
   | None \<Rightarrow> bind draw_uuid (\<lambda>i. bind now (\<lambda>t.
       let r = fresh_release i org project version t in bind (create_release r) (\<lambda>_. ret r))))"

definition increment_release_crash_count :: "uuid \<Rightarrow> string \<Rightarrow> bool \<Rightarrow> bool \<Rightarrow> ('j, unit) crash_action" where
  "increment_release_crash_count project version is_new_issue is_regression = bind now (\<lambda>t. crash_sql (\<lambda>d. Inr ((), d\<lparr>ct_releases :=
     map (\<lambda>r. if rl_project_id r = project \<and> rl_version r = version
       then r\<lparr>rl_crash_count := rl_crash_count r + 1, rl_last_event := Some t,
              rl_first_event := (case rl_first_event r of None \<Rightarrow> Some t | Some s \<Rightarrow> Some s),
              rl_new_issue_count := (if is_new_issue then rl_new_issue_count r + 1 else rl_new_issue_count r),
              rl_regression_count := (if is_regression then rl_regression_count r + 1 else rl_regression_count r)\<rparr>
       else r) (ct_releases d)\<rparr>)))"

subsection \<open>Artifacts\<close>

text \<open>Two rows without a distribution do not conflict: \<^verbatim>\<open>NULL\<close> differs from \<^verbatim>\<open>NULL\<close> in a unique constraint.\<close>

definition create_artifact :: "symbol_artifact \<Rightarrow> ('j, unit) crash_action" where
  "create_artifact a = crash_sql (\<lambda>d.
     if sa_id a \<in> set (map sa_id (ct_artifacts d)) then Inl ''UNIQUE constraint failed: symbol_artifacts.id''
     else if is_some (sa_dist a) \<and> (sa_project_id a, sa_release a, sa_name a, sa_dist a)
         \<in> set (map (\<lambda>b. (sa_project_id b, sa_release b, sa_name b, sa_dist b)) (ct_artifacts d))
     then Inl ''UNIQUE constraint failed: symbol_artifacts.project_id, symbol_artifacts.release, symbol_artifacts.name, symbol_artifacts.dist''
     else if sa_org_id a \<notin> set (ct_orgs d) \<or> sa_project_id a \<notin> set (map cp_id (ct_projects d)) \<or> sa_uploaded_by a \<notin> set (ct_users d)
     then Inl ''FOREIGN KEY constraint failed''
     else Inr ((), d\<lparr>ct_artifacts := ct_artifacts d @ [a]\<rparr>))"

definition get_artifact_by_id :: "uuid \<Rightarrow> ('j, symbol_artifact option) crash_action" where
  "get_artifact_by_id i = crash_select (\<lambda>d. List.find (\<lambda>a. sa_id a = i) (ct_artifacts d))"

definition get_artifact_by_sha256 :: "uuid \<Rightarrow> string \<Rightarrow> ('j, symbol_artifact option) crash_action" where
  "get_artifact_by_sha256 p sha = crash_select (\<lambda>d. List.find (\<lambda>a. sa_project_id a = p \<and> sa_sha256 a = sha) (ct_artifacts d))"

definition artifact_row :: "'j crash_tables \<Rightarrow> uuid \<Rightarrow> string \<Rightarrow> string \<Rightarrow> string option \<Rightarrow> symbol_artifact option" where
  "artifact_row d p release name dist =
     List.find (\<lambda>a. sa_project_id a = p \<and> sa_release a = release \<and> sa_name a = name \<and> sa_dist a = dist) (ct_artifacts d)"

definition get_artifact_by_name :: "uuid \<Rightarrow> string \<Rightarrow> string \<Rightarrow> string option \<Rightarrow> ('j, symbol_artifact option) crash_action" where
  "get_artifact_by_name p release name dist = crash_select (\<lambda>d. artifact_row d p release name dist)"

definition list_artifacts :: "uuid \<Rightarrow> string option \<Rightarrow> u32 \<Rightarrow> ('j, symbol_artifact list) crash_action" where
  "list_artifacts p release limit = crash_select (\<lambda>d. sql_limit limit (sort_key (\<lambda>a. - sa_uploaded_at a)
     (filter (\<lambda>a. sa_project_id a = p \<and> (case release of Some r \<Rightarrow> sa_release a = r | None \<Rightarrow> True)) (ct_artifacts d))))"

definition delete_artifact :: "uuid \<Rightarrow> ('j, bool) crash_action" where
  "delete_artifact i = crash_sql (\<lambda>d.
     Inr (list_ex (\<lambda>a. sa_id a = i) (ct_artifacts d), d\<lparr>ct_artifacts := filter (\<lambda>a. sa_id a \<noteq> i) (ct_artifacts d)\<rparr>))"

definition artifact_stale :: "datetime \<Rightarrow> symbol_artifact \<Rightarrow> bool" where
  "artifact_stale cutoff a \<longleftrightarrow> (case sa_last_accessed_at a of Some t \<Rightarrow> t < cutoff | None \<Rightarrow> sa_uploaded_at a < cutoff)"

definition delete_old_artifacts :: "datetime \<Rightarrow> ('j, u64) crash_action" where
  "delete_old_artifacts cutoff = crash_sql (\<lambda>d.
     Inr (of_nat (length (filter (artifact_stale cutoff) (ct_artifacts d))),
          d\<lparr>ct_artifacts := filter (\<lambda>a. \<not> artifact_stale cutoff a) (ct_artifacts d)\<rparr>))"

definition update_artifact_last_accessed :: "uuid \<Rightarrow> ('j, unit) crash_action" where
  "update_artifact_last_accessed i = bind now (\<lambda>t. crash_sql (\<lambda>d. Inr ((), d\<lparr>ct_artifacts :=
     map (\<lambda>a. if sa_id a = i then a\<lparr>sa_last_accessed_at := Some t\<rparr> else a) (ct_artifacts d)\<rparr>)))"

subsection \<open>API keys\<close>

definition create_api_key :: "crash_api_key \<Rightarrow> ('j, unit) crash_action" where
  "create_api_key k = crash_sql (\<lambda>d.
     if ck_id k \<in> set (map ck_id (ct_api_keys d)) then Inl ''UNIQUE constraint failed: crash_api_keys.id''
     else if ck_project_id k \<notin> set (map cp_id (ct_projects d)) \<or> ck_created_by k \<notin> set (ct_users d) then Inl ''FOREIGN KEY constraint failed''
     else Inr ((), d\<lparr>ct_api_keys := ct_api_keys d @ [k]\<rparr>))"

definition get_api_key_by_id :: "uuid \<Rightarrow> ('j, crash_api_key option) crash_action" where
  "get_api_key_by_id i = crash_select (\<lambda>d. List.find (\<lambda>k. ck_id k = i) (ct_api_keys d))"

definition get_api_key_by_hash :: "string \<Rightarrow> ('j, crash_api_key option) crash_action" where
  "get_api_key_by_hash h = crash_select (\<lambda>d. List.find (\<lambda>k. ck_key_hash k = h) (ct_api_keys d))"

definition list_api_keys :: "uuid \<Rightarrow> ('j, crash_api_key list) crash_action" where
  "list_api_keys p = crash_select (\<lambda>d. sort_key (\<lambda>k. - ck_created_at k) (filter (\<lambda>k. ck_project_id k = p) (ct_api_keys d)))"

definition revoke_api_key :: "uuid \<Rightarrow> ('j, bool) crash_action" where
  "revoke_api_key i = bind now (\<lambda>t. crash_sql (\<lambda>d.
     let hit = (\<lambda>k. ck_id k = i \<and> ck_revoked_at k = None)
     in Inr (list_ex hit (ct_api_keys d),
             d\<lparr>ct_api_keys := map (\<lambda>k. if hit k then k\<lparr>ck_revoked_at := Some t\<rparr> else k) (ct_api_keys d)\<rparr>)))"

definition update_api_key_last_used :: "uuid \<Rightarrow> ('j, unit) crash_action" where
  "update_api_key_last_used i = bind now (\<lambda>t. crash_sql (\<lambda>d. Inr ((), d\<lparr>ct_api_keys :=
     map (\<lambda>k. if ck_id k = i then k\<lparr>ck_last_used_at := Some t\<rparr> else k) (ct_api_keys d)\<rparr>)))"

definition KEY_PREFIX_CAPTURE :: string where
  "KEY_PREFIX_CAPTURE = ''loom_crash_capture_''"

definition KEY_PREFIX_ADMIN :: string where
  "KEY_PREFIX_ADMIN = ''loom_crash_admin_''"

definition hex_digit :: "nat \<Rightarrow> char" where
  "hex_digit n = (if n < 10 then char_of (48 + n) else char_of (87 + n))"

text \<open>Sixteen random bytes, two hexadecimal digits each.\<close>

definition generate_api_key :: "uuid \<Rightarrow> string \<Rightarrow> string" where
  "generate_api_key random key_prefix = key_prefix @ map (\<lambda>i. hex_digit (unat random div 16 ^ i mod 16)) (rev [0..<32])"

definition hash_api_key :: "'j crash_env \<Rightarrow> uuid \<Rightarrow> string \<Rightarrow> crash_error + string" where
  "hash_api_key env salt key = (case cv_argon2_hash env salt key of Some h \<Rightarrow> Inr h | None \<Rightarrow> Inl ApiKeyHash)"

text \<open>Keys of the server itself are stored in plain text.\<close>

definition verify_api_key :: "'j crash_env \<Rightarrow> string \<Rightarrow> string \<Rightarrow> crash_error + bool" where
  "verify_api_key env key hash_or_key =
     (if \<not> starts_with hash_or_key ''$argon2'' then Inr (key = hash_or_key)
      else case cv_argon2_verify env key hash_or_key of Some b \<Rightarrow> Inr b | None \<Rightarrow> Inl InvalidApiKey)"

subsection \<open>Broadcasts\<close>

fun event_type :: "crash_stream_event \<Rightarrow> string" where
  "event_type (StreamInit _ _) = ''init''"
| "event_type (CrashNew _ _ _ _ _) = ''crash.new''"
| "event_type (IssueRegressed _ _ _ _ _) = ''issue.regressed''"
| "event_type (IssueResolved _ _) = ''issue.resolved''"
| "event_type (IssueAssigned _ _ _) = ''issue.assigned''"
| "event_type (Heartbeat _) = ''heartbeat''"

definition subscribe :: "uuid \<Rightarrow> ('j crash_tables, 'e, unit) action" where
  "subscribe p = modify (\<lambda>d. case map_of (ct_channels d) p of
     Some _ \<Rightarrow> d
   | None \<Rightarrow> d\<lparr>ct_channels := ct_channels d @ [(p, [])]\<rparr>)"

text \<open>Nothing is sent for a project without a channel.\<close>

definition broadcast :: "uuid \<Rightarrow> crash_stream_event \<Rightarrow> ('j crash_tables, 'e, unit) action" where
  "broadcast p ev = modify (\<lambda>d. d\<lparr>ct_channels := map (\<lambda>(q, sent). (q, if q = p then sent @ [ev] else sent)) (ct_channels d)\<rparr>)"

definition broadcast_new_crash :: "uuid \<Rightarrow> uuid \<Rightarrow> issue \<Rightarrow> bool \<Rightarrow> ('j crash_tables, 'e, unit) action" where
  "broadcast_new_crash p event_id x is_new_issue = broadcast p (CrashNew event_id (is_id x) (is_short_id x) (is_title x) is_new_issue)"

definition broadcast_regression :: "uuid \<Rightarrow> issue \<Rightarrow> ('j crash_tables, 'e, unit) action" where
  "broadcast_regression p x =
     broadcast p (IssueRegressed (is_id x) (is_short_id x) (is_title x) (is_times_regressed x) (is_regressed_in_release x))"

definition broadcast_resolved :: "uuid \<Rightarrow> issue \<Rightarrow> ('j crash_tables, 'e, unit) action" where
  "broadcast_resolved p x = broadcast p (IssueResolved (is_id x) (is_short_id x))"

section \<open>Symbolication\<close>

definition as_source_map :: "symbol_artifact \<Rightarrow> symbol_artifact option" where
  "as_source_map a = (if sa_artifact_type a = SourceMapArtifact then Some a else None)"

text \<open>The source map of a file, looked up with the extension first; a failed look-up counts as none.\<close>

definition find_frame_map :: "uuid \<Rightarrow> string \<Rightarrow> string option \<Rightarrow> string \<Rightarrow> ('j, symbol_artifact option) crash_action" where
  "find_frame_map project release dist filename =
     (let source_map_name = (if ends_with filename ''.map'' then filename else filename @ ''.map'') in
      bind (attempt (get_artifact_by_name project release source_map_name dist)) (\<lambda>r. case r of
        Inl _ \<Rightarrow> ret None
      | Inr (Some a) \<Rightarrow> ret (as_source_map a)
      | Inr None \<Rightarrow> bind (attempt (get_artifact_by_name project release filename dist)) (\<lambda>r'.
          ret (case r' of Inr (Some a) \<Rightarrow> as_source_map a | _ \<Rightarrow> None))))"

text \<open>The task that records the access runs beside the request; its failure is ignored.\<close>

definition symbolicate_stored_frame :: "'j crash_env \<Rightarrow> uuid \<Rightarrow> string \<Rightarrow> string option \<Rightarrow> frame \<Rightarrow> ('j, frame) crash_action" where
  "symbolicate_stored_frame env project release dist f =
     (case (fr_filename f, fr_lineno f, fr_colno f) of
        (Some filename, Some lineno, Some colno) \<Rightarrow>
          bind (find_frame_map project release dist filename) (\<lambda>found. case found of
            None \<Rightarrow> ret f
          | Some a \<Rightarrow> bind (attempt (update_artifact_last_accessed (sa_id a))) (\<lambda>_.
              case from_bytes (cv_read_json env) (sa_data a) of
                Inl _ \<Rightarrow> ret f
              | Inr sm \<Rightarrow> (case lookup lineno colno sm of
                  Inr (Some original) \<Rightarrow> ret (apply_original original f)
                | _ \<Rightarrow> ret f)))
      | _ \<Rightarrow> ret f)"

definition symbolicate_stored :: "'j crash_env \<Rightarrow> frame list \<Rightarrow> platform \<Rightarrow> uuid \<Rightarrow> string option \<Rightarrow> string option \<Rightarrow> ('j, frame list) crash_action" where
  "symbolicate_stored env frames platform project release dist = (case release of
     None \<Rightarrow> ret frames
   | Some r \<Rightarrow> (case platform of
       Rust \<Rightarrow> (case symbolicate_rust (cv_demangle env) frames of Inl _ \<Rightarrow> fail (Symbolication []) | Inr fs \<Rightarrow> ret fs)
     | _ \<Rightarrow> for_each (symbolicate_stored_frame env project r dist) frames))"

end
