(* ===== verification/CrashApi.thy ===== *)
theory CrashApi
  imports Crash
begin

text \<open>
  The crash API: the handlers of \<^verbatim>\<open>loom-server/src/routes/crash\<close> and the two retention jobs. An early return of a handler is an error of its
  action, so both ways out carry a reply; a panic ends the request without one. A background task started by a handler runs at the point
  where it is started. The audit log is left out, and a user comes with the locale resolved for them.

  The theorems are about requests and jobs in any sequence, with any failures of the database: events are grouped by fingerprint and the tables
  stay consistent, a request reaches only organizations its user is a member of, a resolved issue that crashes again has regressed.
\<close>

section \<open>Requests and replies\<close>

record current_user =
  cu_id :: uuid
  cu_locale :: string

record capture_frame =
  cf_function :: "string option"
  cf_module :: "string option"
  cf_filename :: "string option"
  cf_abs_path :: "string option"
  cf_lineno :: "u32 option"
  cf_colno :: "u32 option"
  cf_in_app :: bool

record 'j capture_breadcrumb =
  cb_timestamp :: "string option"
  cb_category :: "string option"
  cb_message :: "string option"
  cb_level :: "string option"
  cb_data :: 'j

record 'j crash_capture_request =
  cq_project_id :: string
  cq_exception_type :: string
  cq_exception_value :: string
  cq_stacktrace :: "capture_frame list option"
  cq_environment :: "string option"
  cq_platform :: "string option"
  cq_release :: "string option"
  cq_dist :: "string option"
  cq_distinct_id :: "string option"
  cq_person_id :: "string option"
  cq_server_name :: "string option"
  cq_tags :: "(string \<times> string) list"
  cq_extra :: 'j
  cq_active_flags :: "(string \<times> string) list"
  cq_breadcrumbs :: "'j capture_breadcrumb list"
  cq_timestamp :: "string option"

record capture_response =
  cs_event_id :: uuid
  cs_issue_id :: uuid
  cs_short_id :: string
  cs_is_new_issue :: bool
  cs_is_regression :: bool

record batch_capture_event_result =
  br_index :: nat
  br_result :: "string + capture_response"  \<comment> \<open>the error, or the fields set on success\<close>

record project_response =
  pj_id :: uuid
  pj_org_id :: uuid
  pj_name :: string
  pj_slug :: string
  pj_platform :: string
  pj_created_at :: datetime
  pj_updated_at :: datetime

record issue_response =
  ii_id :: uuid
  ii_project_id :: uuid
  ii_short_id :: string
  ii_title :: string
  ii_culprit :: "string option"
  ii_status :: string
  ii_level :: string
  ii_priority :: string
  ii_event_count :: u64
  ii_user_count :: u64
  ii_first_seen :: datetime
  ii_last_seen :: datetime
  ii_times_regressed :: u32

record issue_detail_response = issue_response +
  ii_org_id :: uuid
  ii_fingerprint :: string
  ii_metadata :: issue_metadata
  ii_resolved_at :: "datetime option"
  ii_resolved_by :: "uuid option"
  ii_resolved_in_release :: "string option"
  ii_last_regressed_at :: "datetime option"
  ii_regressed_in_release :: "string option"
  ii_assigned_to :: "uuid option"
  ii_created_at :: datetime
  ii_updated_at :: datetime

record frame_response =
  fs_function :: "string option"
  fs_module :: "string option"
  fs_filename :: "string option"
  fs_abs_path :: "string option"
  fs_lineno :: "u32 option"
  fs_colno :: "u32 option"
  fs_in_app :: bool
  fs_context_line :: "string option"
  fs_pre_context :: "string list"
  fs_post_context :: "string list"

record crash_event_response =
  es_id :: uuid
  es_issue_id :: "uuid option"
  es_person_id :: "uuid option"
  es_distinct_id :: string
  es_exception_type :: string
  es_exception_value :: string
  es_stacktrace :: "frame_response list"
  es_release :: "string option"
  es_dist :: "string option"
  es_environment :: string
  es_platform :: string
  es_server_name :: "string option"
  es_tags :: "(string \<times> string) list"
  es_active_flags :: "(string \<times> string) list"
  es_timestamp :: datetime
  es_received_at :: datetime

record release_response =
  rs_id :: uuid
  rs_project_id :: uuid
  rs_version :: string
  rs_short_version :: "string option"
  rs_url :: "string option"
  rs_crash_count :: u64
  rs_new_issue_count :: u64
  rs_regression_count :: u64
  rs_user_count :: u64
  rs_date_released :: "datetime option"
  rs_first_event :: "datetime option"
  rs_last_event :: "datetime option"
  rs_created_at :: datetime

record artifact_response =
  as_id :: uuid
  as_project_id :: uuid
  as_release :: string
  as_dist :: "string option"
  as_artifact_type :: string
  as_name :: string
  as_size_bytes :: u64
  as_sha256 :: string
  as_source_map_url :: "string option"
  as_sources_content :: bool
  as_uploaded_at :: datetime
  as_uploaded_by :: uuid
  as_last_accessed_at :: "datetime option"

record upload_artifact_response =
  us_total :: nat
  us_uploaded_count :: nat
  us_existing_count :: nat
  us_error_count :: nat
  us_artifacts :: "artifact_response list"
  us_errors :: "(string \<times> string) list"

record api_key_response =
  ks_id :: uuid
  ks_name :: string
  ks_key_type :: string
  ks_rate_limit_per_minute :: "u32 option"
  ks_allowed_origins :: "string list"
  ks_created_at :: datetime
  ks_last_used_at :: "datetime option"
  ks_revoked_at :: "datetime option"

datatype crash_reply =
    CrashErrorReply nat string string  \<comment> \<open>status, error, message\<close>
  | Panicked
  | CapturedReply capture_response
  | BatchReply nat nat nat "batch_capture_event_result list"
  | ProjectsReply "project_response list"
  | ProjectReply nat project_response
  | NoContentReply
  | IssuesReply "issue_response list"
  | IssueReply issue_response
  | IssueDetailReply issue_detail_response
  | CrashEventsReply "crash_event_response list"
  | CrashEventReply crash_event_response
  | ReleasesReply "release_response list"
  | ReleaseReply nat release_response
  | ArtifactsReply "artifact_response list"
  | ArtifactReply artifact_response
  | UploadReply upload_artifact_response
  | CrashKeysReply "api_key_response list"
  | CrashKeyCreatedReply uuid string string string datetime
  | StreamReply crash_stream_event
  | JobDone u64
  | JobFailed string
  | JobCancelled

type_synonym ('j, 'a) crash_handler = "('j crash_tables, crash_reply, 'a) action"

section \<open>Shared helpers\<close>

definition internal_error :: "'j crash_env \<Rightarrow> string \<Rightarrow> crash_reply" where
  "internal_error env locale = CrashErrorReply 500 ''internal_error'' (cv_translate env locale ''server.api.error.internal'')"

definition not_found :: "string \<Rightarrow> crash_reply" where
  "not_found resource = CrashErrorReply 404 (resource @ ''_not_found'')
     (map (\<lambda>c. if c = CHR ''_'' then CHR '' '' else c) resource @ '' not found'')"

text \<open>The error of a repository call as the error of the handler; a panic is no error it could handle.\<close>

definition on_error :: "'e \<Rightarrow> (crash_error \<Rightarrow> 'e) \<Rightarrow> ('j, 'a) crash_action \<Rightarrow> ('j crash_tables, 'e, 'a) action" where
  "on_error panicked f = map_err (\<lambda>e. if e = CrashPanic then panicked else f e)"

abbreviation or_internal :: "'j crash_env \<Rightarrow> string \<Rightarrow> ('j, 'a) crash_action \<Rightarrow> ('j, 'a) crash_handler" where
  "or_internal env locale \<equiv> on_error Panicked (\<lambda>_. internal_error env locale)"

definition parse_id :: "'j crash_env \<Rightarrow> string \<Rightarrow> string \<Rightarrow> string \<Rightarrow> ('j, uuid) crash_handler" where
  "parse_id env error message s = (case cv_parse_uuid env s of None \<Rightarrow> fail (CrashErrorReply 400 error message) | Some i \<Rightarrow> ret i)"

definition parse_project_id :: "'j crash_env \<Rightarrow> string \<Rightarrow> ('j, uuid) crash_handler" where
  "parse_project_id env = parse_id env ''invalid_project_id'' ''Invalid project ID''"

definition parse_issue_id :: "'j crash_env \<Rightarrow> string \<Rightarrow> ('j, uuid) crash_handler" where
  "parse_issue_id env = parse_id env ''invalid_issue_id'' ''Invalid issue ID''"

definition parse_event_id :: "'j crash_env \<Rightarrow> string \<Rightarrow> ('j, uuid) crash_handler" where
  "parse_event_id env = parse_id env ''invalid_event_id'' ''Invalid event ID''"

definition parse_artifact_id :: "'j crash_env \<Rightarrow> string \<Rightarrow> ('j, uuid) crash_handler" where
  "parse_artifact_id env = parse_id env ''invalid_artifact_id'' ''Invalid artifact ID''"

definition parse_api_key_id :: "'j crash_env \<Rightarrow> string \<Rightarrow> ('j, uuid) crash_handler" where
  "parse_api_key_id env = parse_id env ''invalid_key_id'' ''Invalid API key ID''"

definition get_membership :: "uuid \<Rightarrow> uuid \<Rightarrow> ('j, bool) crash_action" where
  "get_membership org user = crash_select (\<lambda>d. (org, user) \<in> set (ct_members d))"

definition verify_org_membership :: "'j crash_env \<Rightarrow> uuid \<Rightarrow> current_user \<Rightarrow> ('j, unit) crash_handler" where
  "verify_org_membership env org user =
     bind (or_internal env (cu_locale user) (get_membership org (cu_id user))) (\<lambda>member.
     if member then ret () else fail (CrashErrorReply 403 ''forbidden'' (cv_translate env (cu_locale user) ''server.api.org.not_a_member'')))"

definition get_project_with_auth :: "'j crash_env \<Rightarrow> uuid \<Rightarrow> current_user \<Rightarrow> ('j, crash_project) crash_handler" where
  "get_project_with_auth env project_id user =
     bind (or_internal env (cu_locale user) (get_project_by_id project_id)) (\<lambda>found. case found of
       None \<Rightarrow> fail (not_found ''project'')
     | Some project \<Rightarrow> bind (verify_org_membership env (cp_org_id project) user) (\<lambda>_. ret project))"

definition get_issue_for_project :: "'j crash_env \<Rightarrow> uuid \<Rightarrow> uuid \<Rightarrow> string \<Rightarrow> ('j, issue) crash_handler" where
  "get_issue_for_project env project_id issue_id locale =
     bind (or_internal env locale (get_issue_by_id issue_id)) (\<lambda>found. case found of
       None \<Rightarrow> fail (not_found ''issue'')
     | Some x \<Rightarrow> if is_project_id x \<noteq> project_id then fail (not_found ''issue'') else ret x)"

text \<open>The stack trace is replaced, and the original kept, only if something changed.\<close>

definition symbolicate_event :: "'j crash_env \<Rightarrow> 'j crash_event \<Rightarrow> uuid \<Rightarrow> ('j crash_tables, 'e, 'j crash_event) action" where
  "symbolicate_event env event project_id = (case ce_release event of
     None \<Rightarrow> ret event
   | Some release \<Rightarrow>
       bind (attempt (symbolicate_stored env (ce_stacktrace event) (ce_platform event) project_id (Some release) (ce_dist event))) (\<lambda>r. case r of
         Inl _ \<Rightarrow> ret event
       | Inr frames \<Rightarrow>
           if frames \<noteq> ce_stacktrace event
           then ret (event\<lparr>ce_raw_stacktrace := Some (ce_stacktrace event), ce_stacktrace := frames\<rparr>)
           else ret event))"

section \<open>Capturing\<close>

definition read_time :: "'j crash_env \<Rightarrow> string option \<Rightarrow> ('j crash_tables, 'e, datetime) action" where
  "read_time env s = (case Option.bind s (cv_parse_rfc3339 env) of Some t \<Rightarrow> ret t | None \<Rightarrow> now)"

definition convert_frame :: "capture_frame \<Rightarrow> frame" where
  "convert_frame f = frame_default\<lparr>fr_function := cf_function f, fr_module := cf_module f, fr_filename := cf_filename f,
     fr_abs_path := cf_abs_path f, fr_lineno := cf_lineno f, fr_colno := cf_colno f, fr_in_app := cf_in_app f\<rparr>"

definition convert_breadcrumb :: "'j crash_env \<Rightarrow> 'j capture_breadcrumb \<Rightarrow> ('j crash_tables, 'e, 'j breadcrumb) action" where
  "convert_breadcrumb env b = bind (read_time env (cb_timestamp b)) (\<lambda>t.
     ret \<lparr>bc_timestamp = t, bc_category = unwrap_or (cb_category b) [], bc_message = cb_message b,
          bc_level = unwrap_or (Option.bind (cb_level b) read_breadcrumb_level) CrumbInfo, bc_data = cb_data b\<rparr>)"

definition convert_capture_request :: "'j crash_env \<Rightarrow> 'j crash_capture_request \<Rightarrow> uuid \<Rightarrow> uuid \<Rightarrow> ('j crash_tables, 'e, 'j crash_event) action" where
  "convert_capture_request env body org project =
     bind (for_each (convert_breadcrumb env) (cq_breadcrumbs body)) (\<lambda>breadcrumbs.
     bind (read_time env (cq_timestamp body)) (\<lambda>timestamp.
     bind draw_uuid (\<lambda>i.
     bind (case cq_distinct_id body of Some x \<Rightarrow> ret x | None \<Rightarrow> bind draw_uuid (\<lambda>u. ret (cv_show_uuid env u))) (\<lambda>distinct_id.
     bind now (\<lambda>received_at.
     ret \<lparr>ce_id = i, ce_org_id = org, ce_project_id = project, ce_issue_id = None,
          ce_person_id = Option.bind (cq_person_id body) (cv_parse_uuid env), ce_distinct_id = distinct_id,
          ce_exception_type = cq_exception_type body, ce_exception_value = cq_exception_value body,
          ce_stacktrace = map convert_frame (unwrap_or (cq_stacktrace body) []), ce_raw_stacktrace = None,
          ce_release = cq_release body, ce_dist = cq_dist body, ce_environment = unwrap_or (cq_environment body) ''production'',
          ce_platform = unwrap_or (read_platform (unwrap_or (cq_platform body) ''javascript'')) JavaScript,
          ce_runtime = None, ce_server_name = cq_server_name body, ce_tags = cq_tags body, ce_extra = cq_extra body,
          ce_user_context = None, ce_device_context = None, ce_browser_context = None, ce_os_context = None,
          ce_active_flags = cq_active_flags body, ce_request = None, ce_breadcrumbs = breadcrumbs,
          ce_timestamp = timestamp, ce_received_at = received_at\<rparr>)))))"

definition new_issue :: "uuid \<Rightarrow> datetime \<Rightarrow> datetime \<Rightarrow> string \<Rightarrow> string \<Rightarrow> string \<Rightarrow> string option \<Rightarrow> uuid \<Rightarrow> uuid \<Rightarrow> 'j crash_event \<Rightarrow> issue" where
  "new_issue i t t' short_id fp title culprit org project event =
     \<lparr>is_id = i, is_org_id = org, is_project_id = project, is_short_id = short_id, is_fingerprint = fp, is_title = title,
      is_culprit = culprit,
      is_metadata = \<lparr>im_exception_type = ce_exception_type event, im_exception_value = ce_exception_value event,
        im_filename = Option.bind (List.find fr_in_app (ce_stacktrace event)) fr_filename,
        im_function = Option.bind (List.find fr_in_app (ce_stacktrace event)) fr_function\<rparr>,
      is_status = Unresolved, is_level = LevelError, is_priority = PriorityMedium, is_event_count = 1,
      is_user_count = (if is_some (ce_person_id event) then 1 else 0), is_first_seen = ce_timestamp event, is_last_seen = ce_timestamp event,
      is_resolved_at = None, is_resolved_by = None, is_resolved_in_release = None, is_times_regressed = 0, is_last_regressed_at = None,
      is_regressed_in_release = None, is_assigned_to = None, is_created_at = t, is_updated_at = t'\<rparr>"

text \<open>Failures of tracking a person are ignored.\<close>

definition track_person :: "uuid \<Rightarrow> 'j crash_event \<Rightarrow> ('j crash_tables, 'e, unit) action" where
  "track_person i event = (case ce_person_id event of
     None \<Rightarrow> ret ()
   | Some person \<Rightarrow> bind (attempt (add_issue_person i person)) (\<lambda>_. ret ()))"

text \<open>
  The issue of an event. The handler of single events and the one of batches have the same code but for the errors
  they turn a failed statement into: \<^verbatim>\<open>err\<close>, of what failed and how.
\<close>

definition find_or_create_issue :: "'e \<Rightarrow> (string \<Rightarrow> crash_error \<Rightarrow> 'e) \<Rightarrow> 'j crash_env \<Rightarrow> 'j crash_event \<Rightarrow> uuid \<Rightarrow> string
    \<Rightarrow> ('j crash_tables, 'e, issue \<times> bool \<times> bool) action" where
  "find_or_create_issue panicked err env event project_id fp =
     bind (on_error panicked (err ''find issue'') (get_issue_by_fingerprint project_id fp)) (\<lambda>found. case found of
       Some existing \<Rightarrow>
         let is_regression = (is_status existing = Resolved);
             seen = existing\<lparr>is_event_count := is_event_count existing + 1, is_last_seen := ce_timestamp event\<rparr> in
         bind (if is_regression
               then bind now (\<lambda>t. ret (seen\<lparr>is_status := Regressed, is_times_regressed := is_times_regressed seen + 1,
                 is_last_regressed_at := Some t, is_regressed_in_release := ce_release event\<rparr>))
               else ret seen) (\<lambda>x.
         bind (on_error panicked (err ''update issue'') (update_issue x)) (\<lambda>_.
         bind (track_person (is_id x) event) (\<lambda>_.
         bind (if is_regression then broadcast_regression project_id x else ret ()) (\<lambda>_.
         ret (x, False, is_regression)))))
     | None \<Rightarrow>
         bind (on_error panicked (err ''get short ID'') (get_next_short_id env project_id)) (\<lambda>short_id.
         case truncate_str (ce_exception_value event) 100 of
           None \<Rightarrow> fail panicked
         | Some val \<Rightarrow>
             bind draw_uuid (\<lambda>i. bind now (\<lambda>t. bind now (\<lambda>t'.
             let x = new_issue i t t' short_id fp (ce_exception_type event @ '': '' @ val) (find_culprit event) (ce_org_id event) project_id event in
             bind (on_error panicked (err ''create issue'') (create_issue x)) (\<lambda>_.
             bind (track_person (is_id x) event) (\<lambda>_.
             ret (x, True, False))))))))"

text \<open>Failures of counting a release are logged only.\<close>

definition track_release :: "'j crash_event \<Rightarrow> uuid \<Rightarrow> bool \<Rightarrow> bool \<Rightarrow> ('j crash_tables, 'e, unit) action" where
  "track_release event project_id is_new_issue is_regression = (case ce_release event of
     None \<Rightarrow> ret ()
   | Some version \<Rightarrow>
       bind (attempt (get_or_create_release project_id (ce_org_id event) version)) (\<lambda>_.
       bind (attempt (increment_release_crash_count project_id version is_new_issue is_regression)) (\<lambda>_.
       ret ())))"

text \<open>The end of every capture: the event is stored with its issue, counted for its release and broadcast.\<close>

definition store_event :: "'e \<Rightarrow> (string \<Rightarrow> crash_error \<Rightarrow> 'e) \<Rightarrow> 'j crash_event \<Rightarrow> uuid \<Rightarrow> issue \<times> bool \<times> bool
    \<Rightarrow> ('j crash_tables, 'e, capture_response) action" where
  "store_event panicked err event project_id outcome = (case outcome of (x, is_new_issue, is_regression) \<Rightarrow>
     let event' = event\<lparr>ce_issue_id := Some (is_id x)\<rparr> in
     bind (on_error panicked (err ''create event'') (create_event event')) (\<lambda>_.
     bind (track_release event' project_id is_new_issue is_regression) (\<lambda>_.
     bind (broadcast_new_crash project_id (ce_id event') x is_new_issue) (\<lambda>_.
     ret \<lparr>cs_event_id = ce_id event', cs_issue_id = is_id x, cs_short_id = is_short_id x, cs_is_new_issue = is_new_issue,
          cs_is_regression = is_regression\<rparr>))))"

definition capture_crash :: "'j crash_env \<Rightarrow> current_user \<Rightarrow> 'j crash_capture_request \<Rightarrow> ('j, crash_reply) crash_handler" where
  "capture_crash env user body =
     (let err = (\<lambda>_ _. internal_error env (cu_locale user)) in
      bind (parse_project_id env (cq_project_id body)) (\<lambda>project_id.
      bind (or_internal env (cu_locale user) (get_project_by_id project_id)) (\<lambda>found. case found of
        None \<Rightarrow> fail (CrashErrorReply 404 ''project_not_found'' ''Project not found'')
      | Some project \<Rightarrow>
          bind (verify_org_membership env (cp_org_id project) user) (\<lambda>_.
          bind (convert_capture_request env body (cp_org_id project) project_id) (\<lambda>converted.
          bind (symbolicate_event env converted project_id) (\<lambda>event.
          bind (find_or_create_issue Panicked err env event project_id (compute_fingerprint env event)) (\<lambda>outcome.
          bind (store_event Panicked err event project_id outcome) (\<lambda>response.
          ret (CapturedReply response)))))))))"

subsection \<open>With an API key\<close>

abbreviation server_error :: crash_reply where
  "server_error \<equiv> CrashErrorReply 500 ''internal_error'' ''Internal server error''"

fun verified_key :: "'j crash_env \<Rightarrow> string \<Rightarrow> crash_api_key list \<Rightarrow> crash_api_key option" where
  "verified_key env raw [] = None"
| "verified_key env raw (k # ks) =
     (if key_is_revoked k then verified_key env raw ks
      else case verify_api_key env raw (ck_key_hash k) of
        Inr True \<Rightarrow> Some k
      | _ \<Rightarrow> verified_key env raw ks)"

definition verify_project_api_key :: "'j crash_env \<Rightarrow> uuid \<Rightarrow> string \<Rightarrow> ('j, crash_api_key) crash_handler" where
  "verify_project_api_key env project_id raw =
     bind (on_error Panicked (\<lambda>_. server_error) (list_api_keys project_id)) (\<lambda>keys. case verified_key env raw keys of
       Some k \<Rightarrow> bind (attempt (update_api_key_last_used (ck_id k))) (\<lambda>_. ret k)
     | None \<Rightarrow> fail (CrashErrorReply 401 ''invalid_api_key'' ''Invalid or revoked API key''))"

text \<open>A known person is not counted again; a failed look-up counts as unknown.\<close>

definition count_person :: "issue \<Rightarrow> 'j crash_event \<Rightarrow> ('j crash_tables, 'e, issue) action" where
  "count_person x event = (case ce_person_id event of
     None \<Rightarrow> ret x
   | Some person \<Rightarrow> bind (attempt (issue_has_person (is_id x) person)) (\<lambda>r.
       if (case r of Inr b \<Rightarrow> b | Inl _ \<Rightarrow> False) then ret x
       else bind (attempt (add_issue_person (is_id x) person)) (\<lambda>_. ret (x\<lparr>is_user_count := is_user_count x + 1\<rparr>))))"

definition sdk_culprit :: "'j crash_event \<Rightarrow> string option" where
  "sdk_culprit event = map_option (\<lambda>f. unwrap_or (fr_function f) ''<anonymous>'' @ '' in '' @ unwrap_or (fr_filename f) ''<unknown>'')
     (List.find fr_in_app (ce_stacktrace event))"

definition sdk_find_or_create_issue :: "'j crash_env \<Rightarrow> 'j crash_event \<Rightarrow> crash_project \<Rightarrow> string \<Rightarrow> ('j, issue \<times> bool \<times> bool) crash_handler" where
  "sdk_find_or_create_issue env event project fp =
     (let project_id = cp_id project; err = (\<lambda>_. server_error) in
      bind (attempt (get_issue_by_fingerprint project_id fp)) (\<lambda>found. case found of
        Inr (Some existing) \<Rightarrow>
          let is_regression = (is_status existing = Resolved);
              marked = (if is_regression
                then existing\<lparr>is_status := Unresolved, is_times_regressed := is_times_regressed existing + 1,
                  is_last_regressed_at := Some (ce_timestamp event), is_regressed_in_release := ce_release event\<rparr>
                else existing) in
          bind now (\<lambda>t.
          bind (count_person (marked\<lparr>is_event_count := is_event_count marked + 1, is_last_seen := ce_timestamp event, is_updated_at := t\<rparr>) event) (\<lambda>x.
          bind (on_error Panicked err (update_issue x)) (\<lambda>_.
          ret (x, False, is_regression))))
      | _ \<Rightarrow>
          bind (on_error Panicked err (get_next_short_id env project_id)) (\<lambda>short_id.
          bind draw_uuid (\<lambda>i. bind now (\<lambda>t. bind now (\<lambda>t'.
          let x = new_issue i t t' short_id fp (ce_exception_type event @ '': '' @ ce_exception_value event) (sdk_culprit event)
                (cp_org_id project) project_id event in
          bind (on_error Panicked err (create_issue x)) (\<lambda>_.
          bind (track_person (is_id x) event) (\<lambda>_.
          ret (x, True, False)))))))))"

definition CRASH_API_KEY_HEADER :: string where
  "CRASH_API_KEY_HEADER = ''x-crash-api-key''"

text \<open>\<^verbatim>\<open>raw_key\<close> is the value of the header, if it is there and is text.\<close>

definition capture_crash_with_api_key :: "'j crash_env \<Rightarrow> string option \<Rightarrow> 'j crash_capture_request \<Rightarrow> ('j, crash_reply) crash_handler" where
  "capture_crash_with_api_key env raw_key body = (case raw_key of
     None \<Rightarrow> fail (CrashErrorReply 401 ''missing_api_key'' (''Missing '' @ CRASH_API_KEY_HEADER @ '' header''))
   | Some raw \<Rightarrow>
      bind (parse_project_id env (cq_project_id body)) (\<lambda>project_id.
      bind (on_error Panicked (\<lambda>_. server_error) (get_project_by_id project_id)) (\<lambda>found. case found of
        None \<Rightarrow> fail (CrashErrorReply 404 ''project_not_found'' ''Project not found'')
      | Some project \<Rightarrow>
          bind (verify_project_api_key env project_id raw) (\<lambda>api_key.
          if ck_key_type api_key \<noteq> CaptureKey \<and> ck_key_type api_key \<noteq> AdminKey
          then fail (CrashErrorReply 403 ''forbidden'' ''API key does not have capture permission'')
          else
            bind (convert_capture_request env body (cp_org_id project) project_id) (\<lambda>converted.
            bind (symbolicate_event env converted project_id) (\<lambda>event.
            bind (sdk_find_or_create_issue env event project (compute_fingerprint env event)) (\<lambda>outcome.
            bind (store_event Panicked (\<lambda>_ _. server_error) event project_id outcome) (\<lambda>response.
            ret (CapturedReply response)))))))))"

subsection \<open>In batches\<close>

fun show_crash_error :: "crash_error \<Rightarrow> string" where
  "show_crash_error (ProjectNotFound s) = ''project not found: '' @ s"
| "show_crash_error (IssueNotFound s) = ''issue not found: '' @ s"
| "show_crash_error (EventNotFound s) = ''event not found: '' @ s"
| "show_crash_error (ApiKeyNotFound s) = ''API key not found: '' @ s"
| "show_crash_error ApiKeyRevoked = ''API key revoked''"
| "show_crash_error InvalidApiKey = ''invalid API key''"
| "show_crash_error ApiKeyHash = ''failed to hash API key''"
| "show_crash_error (CrashDatabase s) = ''database error: '' @ s"
| "show_crash_error (CrashSerialization s) = ''serialization error: '' @ s"
| "show_crash_error (InvalidUuid s) = ''invalid UUID: '' @ s"
| "show_crash_error (InvalidDateTime s) = ''invalid datetime: '' @ s"
| "show_crash_error (CrashParse s) = ''parse error: '' @ s"
| "show_crash_error (Symbolication s) = ''symbolication error: '' @ s"
| "show_crash_error CrashPanic = []"

datatype item_error = ItemFailed string | ItemPanicked

definition item_failed :: "string \<Rightarrow> crash_error \<Rightarrow> item_error" where
  "item_failed what e = ItemFailed (''Failed to '' @ what @ '': '' @ show_crash_error e)"

definition process_single_capture :: "'j crash_env \<Rightarrow> current_user \<Rightarrow> 'j crash_capture_request \<Rightarrow> ('j crash_tables, item_error, capture_response) action" where
  "process_single_capture env user body = (case cv_parse_uuid env (cq_project_id body) of
     None \<Rightarrow> fail (ItemFailed ''Invalid project ID'')
   | Some project_id \<Rightarrow>
       bind (on_error ItemPanicked (item_failed ''get project'') (get_project_by_id project_id)) (\<lambda>found. case found of
         None \<Rightarrow> fail (ItemFailed ''Project not found'')
       | Some project \<Rightarrow>
           bind (on_error ItemPanicked (item_failed ''check org membership'') (get_membership (cp_org_id project) (cu_id user))) (\<lambda>member.
           if \<not> member then fail (ItemFailed (cv_translate env (cu_locale user) ''server.api.org.not_a_member''))
           else
             bind (convert_capture_request env body (cp_org_id project) project_id) (\<lambda>converted.
             bind (symbolicate_event env converted project_id) (\<lambda>event.
             bind (find_or_create_issue ItemPanicked item_failed env event project_id (compute_fingerprint env event)) (\<lambda>outcome.
             store_event ItemPanicked item_failed event project_id outcome))))))"

definition batch_item :: "'j crash_env \<Rightarrow> current_user \<Rightarrow> nat \<times> 'j crash_capture_request \<Rightarrow> ('j, batch_capture_event_result) crash_handler" where
  "batch_item env user item = bind (attempt (process_single_capture env user (snd item))) (\<lambda>r. case r of
     Inr response \<Rightarrow> ret \<lparr>br_index = fst item, br_result = Inr response\<rparr>
   | Inl e \<Rightarrow> (case e of ItemFailed msg \<Rightarrow> ret \<lparr>br_index = fst item, br_result = Inl msg\<rparr> | ItemPanicked \<Rightarrow> fail Panicked))"

definition batch_capture_crash :: "'j crash_env \<Rightarrow> current_user \<Rightarrow> 'j crash_capture_request list \<Rightarrow> ('j, crash_reply) crash_handler" where
  "batch_capture_crash env user events =
     (if length events > 100 then fail (CrashErrorReply 400 ''batch_too_large'' ''Batch size exceeds maximum of 100 events'')
      else if events = [] then ret (BatchReply 0 0 0 [])
      else bind (for_each (batch_item env user) (enumerate 0 events)) (\<lambda>results.
        ret (BatchReply (length results) (length (filter (\<lambda>r. \<not> isl (br_result r)) results))
               (length (filter (\<lambda>r. isl (br_result r)) results)) results)))"

section \<open>Projects\<close>

definition project_to_response :: "crash_project \<Rightarrow> project_response" where
  "project_to_response p = \<lparr>pj_id = cp_id p, pj_org_id = cp_org_id p, pj_name = cp_name p, pj_slug = cp_slug p,
     pj_platform = show_platform (cp_platform p), pj_created_at = cp_created_at p, pj_updated_at = cp_updated_at p\<rparr>"

definition list_projects_route :: "'j crash_env \<Rightarrow> current_user \<Rightarrow> string \<Rightarrow> ('j, crash_reply) crash_handler" where
  "list_projects_route env user org_id =
     bind (parse_id env ''invalid_org_id'' ''Invalid organization ID'' org_id) (\<lambda>org.
     bind (verify_org_membership env org user) (\<lambda>_.
     bind (or_internal env (cu_locale user) (list_projects org)) (\<lambda>projects.
     ret (ProjectsReply (map project_to_response projects)))))"

record create_project_request =
  pq_org_id :: string
  pq_name :: string
  pq_slug :: string
  pq_platform :: string

definition create_project_route :: "'j crash_env \<Rightarrow> current_user \<Rightarrow> create_project_request \<Rightarrow> ('j, crash_reply) crash_handler" where
  "create_project_route env user body =
     bind (parse_id env ''invalid_org_id'' ''Invalid organization ID'' (pq_org_id body)) (\<lambda>org.
     bind (verify_org_membership env org user) (\<lambda>_.
     if \<not> validate_slug (pq_slug body)
     then fail (CrashErrorReply 400 ''invalid_slug'' ''Slug must be 3-50 lowercase alphanumeric characters with hyphens/underscores'')
     else
       bind now (\<lambda>t. bind draw_uuid (\<lambda>i.
       let project = \<lparr>cp_id = i, cp_org_id = org, cp_name = pq_name body, cp_slug = pq_slug body,
             cp_platform = unwrap_or (read_platform (pq_platform body)) JavaScript, cp_auto_resolve_age_days = None,
             cp_fingerprint_rules = [], cp_created_at = t, cp_updated_at = t\<rparr> in
       bind (or_internal env (cu_locale user) (create_project project)) (\<lambda>_.
       ret (ProjectReply 201 (project_to_response project)))))))"

definition get_project_route :: "'j crash_env \<Rightarrow> current_user \<Rightarrow> string \<Rightarrow> ('j, crash_reply) crash_handler" where
  "get_project_route env user project_id_str =
     bind (parse_project_id env project_id_str) (\<lambda>project_id.
     bind (get_project_with_auth env project_id user) (\<lambda>project.
     ret (ProjectReply 200 (project_to_response project))))"

definition update_project_route :: "'j crash_env \<Rightarrow> current_user \<Rightarrow> string \<Rightarrow> string option \<Rightarrow> u32 option \<Rightarrow> ('j, crash_reply) crash_handler" where
  "update_project_route env user project_id_str name auto_resolve_age_days =
     bind (parse_project_id env project_id_str) (\<lambda>project_id.
     bind (get_project_with_auth env project_id user) (\<lambda>project.
     if name = Some [] then fail (CrashErrorReply 400 ''invalid_name'' ''Project name cannot be empty'')
     else
       bind now (\<lambda>t.
       let project' = project\<lparr>cp_name := unwrap_or name (cp_name project),
             cp_auto_resolve_age_days := (if is_some auto_resolve_age_days then auto_resolve_age_days else cp_auto_resolve_age_days project),
             cp_updated_at := t\<rparr> in
       bind (or_internal env (cu_locale user) (update_project project')) (\<lambda>_.
       ret (ProjectReply 200 (project_to_response project'))))))"

definition delete_project_route :: "'j crash_env \<Rightarrow> current_user \<Rightarrow> string \<Rightarrow> ('j, crash_reply) crash_handler" where
  "delete_project_route env user project_id_str =
     bind (parse_project_id env project_id_str) (\<lambda>project_id.
     bind (get_project_with_auth env project_id user) (\<lambda>_.
     bind (or_internal env (cu_locale user) (delete_project project_id)) (\<lambda>deleted.
     if deleted then ret NoContentReply else fail (not_found ''project''))))"

section \<open>Issues\<close>

definition issue_to_response :: "issue \<Rightarrow> issue_response" where
  "issue_to_response x = \<lparr>ii_id = is_id x, ii_project_id = is_project_id x, ii_short_id = is_short_id x, ii_title = is_title x,
     ii_culprit = is_culprit x, ii_status = show_issue_status (is_status x), ii_level = show_issue_level (is_level x),
     ii_priority = show_issue_priority (is_priority x), ii_event_count = is_event_count x, ii_user_count = is_user_count x,
     ii_first_seen = is_first_seen x, ii_last_seen = is_last_seen x, ii_times_regressed = is_times_regressed x\<rparr>"

definition issue_to_detail_response :: "issue \<Rightarrow> issue_detail_response" where
  "issue_to_detail_response x = issue_response.extend (issue_to_response x)
     (issue_detail_response.fields (is_org_id x) (is_fingerprint x) (is_metadata x) (is_resolved_at x) (is_resolved_by x)
        (is_resolved_in_release x) (is_last_regressed_at x) (is_regressed_in_release x) (is_assigned_to x) (is_created_at x) (is_updated_at x))"

definition list_issues_route :: "'j crash_env \<Rightarrow> current_user \<Rightarrow> string \<Rightarrow> ('j, crash_reply) crash_handler" where
  "list_issues_route env user project_id_str =
     bind (parse_project_id env project_id_str) (\<lambda>project_id.
     bind (get_project_with_auth env project_id user) (\<lambda>_.
     bind (or_internal env (cu_locale user) (list_issues project_id 100)) (\<lambda>issues.
     ret (IssuesReply (map issue_to_response issues)))))"

text \<open>What the handlers of one issue do first.\<close>

definition with_issue :: "'j crash_env \<Rightarrow> current_user \<Rightarrow> string \<Rightarrow> string \<Rightarrow> (uuid \<Rightarrow> issue \<Rightarrow> ('j, crash_reply) crash_handler) \<Rightarrow> ('j, crash_reply) crash_handler" where
  "with_issue env user project_id_str issue_id_str f =
     bind (parse_project_id env project_id_str) (\<lambda>project_id.
     bind (parse_issue_id env issue_id_str) (\<lambda>issue_id.
     bind (get_project_with_auth env project_id user) (\<lambda>_.
     bind (get_issue_for_project env project_id issue_id (cu_locale user)) (f project_id))))"

definition get_issue_route :: "'j crash_env \<Rightarrow> current_user \<Rightarrow> string \<Rightarrow> string \<Rightarrow> ('j, crash_reply) crash_handler" where
  "get_issue_route env user project_id_str issue_id_str = with_issue env user project_id_str issue_id_str (\<lambda>_ x.
     ret (IssueDetailReply (issue_to_detail_response x)))"

definition resolve_issue :: "'j crash_env \<Rightarrow> current_user \<Rightarrow> string \<Rightarrow> string \<Rightarrow> string option \<Rightarrow> ('j, crash_reply) crash_handler" where
  "resolve_issue env user project_id_str issue_id_str resolved_in_release = with_issue env user project_id_str issue_id_str (\<lambda>project_id x.
     bind now (\<lambda>t.
     let x' = x\<lparr>is_status := Resolved, is_resolved_at := Some t, is_resolved_by := Some (cu_id user),
                is_resolved_in_release := resolved_in_release\<rparr> in
     bind (or_internal env (cu_locale user) (update_issue x')) (\<lambda>_.
     bind (broadcast_resolved project_id x') (\<lambda>_.
     ret (IssueReply (issue_to_response x'))))))"

definition unresolve_issue :: "'j crash_env \<Rightarrow> current_user \<Rightarrow> string \<Rightarrow> string \<Rightarrow> ('j, crash_reply) crash_handler" where
  "unresolve_issue env user project_id_str issue_id_str = with_issue env user project_id_str issue_id_str (\<lambda>_ x.
     let x' = x\<lparr>is_status := Unresolved, is_resolved_at := None, is_resolved_by := None, is_resolved_in_release := None\<rparr> in
     bind (or_internal env (cu_locale user) (update_issue x')) (\<lambda>_.
     ret (IssueReply (issue_to_response x'))))"

definition ignore_issue :: "'j crash_env \<Rightarrow> current_user \<Rightarrow> string \<Rightarrow> string \<Rightarrow> ('j, crash_reply) crash_handler" where
  "ignore_issue env user project_id_str issue_id_str = with_issue env user project_id_str issue_id_str (\<lambda>_ x.
     let x' = x\<lparr>is_status := Ignored\<rparr> in
     bind (or_internal env (cu_locale user) (update_issue x')) (\<lambda>_.
     ret (IssueReply (issue_to_response x'))))"

definition assign_issue :: "'j crash_env \<Rightarrow> current_user \<Rightarrow> string \<Rightarrow> string \<Rightarrow> string option \<Rightarrow> ('j, crash_reply) crash_handler" where
  "assign_issue env user project_id_str issue_id_str user_id = with_issue env user project_id_str issue_id_str (\<lambda>_ x.
     bind (case user_id of
             None \<Rightarrow> ret None
           | Some s \<Rightarrow> bind (parse_id env ''invalid_user_id'' ''Invalid user ID'' s) (\<lambda>u. ret (Some u))) (\<lambda>assigned.
     bind now (\<lambda>t.
     let x' = x\<lparr>is_assigned_to := assigned, is_updated_at := t\<rparr> in
     bind (or_internal env (cu_locale user) (update_issue x')) (\<lambda>_.
     ret (IssueDetailReply (issue_to_detail_response x'))))))"

definition delete_issue_route :: "'j crash_env \<Rightarrow> current_user \<Rightarrow> string \<Rightarrow> string \<Rightarrow> ('j, crash_reply) crash_handler" where
  "delete_issue_route env user project_id_str issue_id_str = with_issue env user project_id_str issue_id_str (\<lambda>_ x.
     bind (or_internal env (cu_locale user) (delete_issue (is_id x))) (\<lambda>deleted.
     if deleted then ret NoContentReply else fail (not_found ''issue'')))"

section \<open>Events and releases\<close>

definition frame_to_response :: "frame \<Rightarrow> frame_response" where
  "frame_to_response f = \<lparr>fs_function = fr_function f, fs_module = fr_module f, fs_filename = fr_filename f, fs_abs_path = fr_abs_path f,
     fs_lineno = fr_lineno f, fs_colno = fr_colno f, fs_in_app = fr_in_app f, fs_context_line = fr_context_line f,
     fs_pre_context = fr_pre_context f, fs_post_context = fr_post_context f\<rparr>"

definition crash_event_to_response :: "'j crash_event \<Rightarrow> crash_event_response" where
  "crash_event_to_response e = \<lparr>es_id = ce_id e, es_issue_id = ce_issue_id e, es_person_id = ce_person_id e, es_distinct_id = ce_distinct_id e,
     es_exception_type = ce_exception_type e, es_exception_value = ce_exception_value e,
     es_stacktrace = map frame_to_response (ce_stacktrace e), es_release = ce_release e, es_dist = ce_dist e, es_environment = ce_environment e,
     es_platform = show_platform (ce_platform e), es_server_name = ce_server_name e, es_tags = ce_tags e, es_active_flags = ce_active_flags e,
     es_timestamp = ce_timestamp e, es_received_at = ce_received_at e\<rparr>"

definition list_events_route :: "'j crash_env \<Rightarrow> current_user \<Rightarrow> string \<Rightarrow> u32 \<Rightarrow> u32 \<Rightarrow> ('j, crash_reply) crash_handler" where
  "list_events_route env user project_id_str limit offset =
     bind (parse_project_id env project_id_str) (\<lambda>project_id.
     bind (get_project_with_auth env project_id user) (\<lambda>_.
     bind (or_internal env (cu_locale user) (list_events_for_project project_id (min limit 1000) offset)) (\<lambda>events.
     ret (CrashEventsReply (map crash_event_to_response events)))))"

definition get_event_route :: "'j crash_env \<Rightarrow> current_user \<Rightarrow> string \<Rightarrow> string \<Rightarrow> ('j, crash_reply) crash_handler" where
  "get_event_route env user project_id_str event_id_str =
     bind (parse_project_id env project_id_str) (\<lambda>project_id.
     bind (parse_event_id env event_id_str) (\<lambda>event_id.
     bind (get_project_with_auth env project_id user) (\<lambda>_.
     bind (or_internal env (cu_locale user) (get_event_by_id event_id)) (\<lambda>found. case found of
       None \<Rightarrow> fail (not_found ''event'')
     | Some e \<Rightarrow> if ce_project_id e \<noteq> project_id then fail (not_found ''event'') else ret (CrashEventReply (crash_event_to_response e))))))"

definition list_issue_events :: "'j crash_env \<Rightarrow> current_user \<Rightarrow> string \<Rightarrow> string \<Rightarrow> ('j, crash_reply) crash_handler" where
  "list_issue_events env user project_id_str issue_id_str = with_issue env user project_id_str issue_id_str (\<lambda>_ x.
     bind (or_internal env (cu_locale user) (list_events_for_issue (is_id x) 100)) (\<lambda>events.
     ret (CrashEventsReply (map crash_event_to_response events))))"

definition release_to_response :: "release \<Rightarrow> release_response" where
  "release_to_response r = \<lparr>rs_id = rl_id r, rs_project_id = rl_project_id r, rs_version = rl_version r, rs_short_version = rl_short_version r,
     rs_url = rl_url r, rs_crash_count = rl_crash_count r, rs_new_issue_count = rl_new_issue_count r,
     rs_regression_count = rl_regression_count r, rs_user_count = rl_user_count r, rs_date_released = rl_date_released r,
     rs_first_event = rl_first_event r, rs_last_event = rl_last_event r, rs_created_at = rl_created_at r\<rparr>"

definition list_releases_route :: "'j crash_env \<Rightarrow> current_user \<Rightarrow> string \<Rightarrow> ('j, crash_reply) crash_handler" where
  "list_releases_route env user project_id_str =
     bind (parse_project_id env project_id_str) (\<lambda>project_id.
     bind (get_project_with_auth env project_id user) (\<lambda>_.
     bind (or_internal env (cu_locale user) (list_releases project_id 100)) (\<lambda>releases.
     ret (ReleasesReply (map release_to_response releases)))))"

record create_release_request =
  lq_version :: string
  lq_short_version :: "string option"
  lq_url :: "string option"
  lq_date_released :: "string option"

definition create_release_route :: "'j crash_env \<Rightarrow> current_user \<Rightarrow> string \<Rightarrow> create_release_request \<Rightarrow> ('j, crash_reply) crash_handler" where
  "create_release_route env user project_id_str body =
     bind (parse_project_id env project_id_str) (\<lambda>project_id.
     if lq_version body = [] \<or> length (lq_version body) > 200
     then fail (CrashErrorReply 400 ''invalid_version'' ''Version must be 1-200 characters'')
     else
       bind (get_project_with_auth env project_id user) (\<lambda>project.
       bind (or_internal env (cu_locale user) (get_release_by_version project_id (lq_version body))) (\<lambda>found. case found of
         Some _ \<Rightarrow> fail (CrashErrorReply 409 ''release_exists'' (''Release '' @ lq_version body @ '' already exists''))
       | None \<Rightarrow>
           bind draw_uuid (\<lambda>i. bind now (\<lambda>t.
           let r = (fresh_release i (cp_org_id project) project_id (lq_version body) t)
                 \<lparr>rl_short_version := lq_short_version body, rl_url := lq_url body,
                  rl_date_released := Option.bind (lq_date_released body) (cv_parse_rfc3339 env)\<rparr> in
           bind (or_internal env (cu_locale user) (create_release r)) (\<lambda>_.
           ret (ReleaseReply 201 (release_to_response r))))))))"

definition get_release_route :: "'j crash_env \<Rightarrow> current_user \<Rightarrow> string \<Rightarrow> string \<Rightarrow> ('j, crash_reply) crash_handler" where
  "get_release_route env user project_id_str version =
     bind (parse_project_id env project_id_str) (\<lambda>project_id.
     bind (get_project_with_auth env project_id user) (\<lambda>_.
     bind (or_internal env (cu_locale user) (get_release_by_version project_id version)) (\<lambda>found. case found of
       None \<Rightarrow> fail (CrashErrorReply 404 ''release_not_found'' (''Release '' @ version @ '' not found''))
     | Some r \<Rightarrow> ret (ReleaseReply 200 (release_to_response r)))))"

section \<open>Artifacts\<close>

definition artifact_to_response :: "symbol_artifact \<Rightarrow> artifact_response" where
  "artifact_to_response a = \<lparr>as_id = sa_id a, as_project_id = sa_project_id a, as_release = sa_release a, as_dist = sa_dist a,
     as_artifact_type = show_artifact_type (sa_artifact_type a), as_name = sa_name a, as_size_bytes = sa_size_bytes a, as_sha256 = sa_sha256 a,
     as_source_map_url = sa_source_map_url a, as_sources_content = sa_sources_content a, as_uploaded_at = sa_uploaded_at a,
     as_uploaded_by = sa_uploaded_by a, as_last_accessed_at = sa_last_accessed_at a\<rparr>"

text \<open>The parts of a multipart form as they arrive: a field with its name, file name and content, or a broken stream.\<close>

datatype multipart_part = FormField "string option" "string option" "string + bytes" | FormBroken string

record upload_form =
  uf_release :: "string option"
  uf_dist :: "string option"
  uf_files :: "(string \<times> bytes) list"

definition invalid_multipart :: "string \<Rightarrow> crash_reply" where
  "invalid_multipart = CrashErrorReply 400 ''invalid_multipart''"

definition bytes_text :: "bytes \<Rightarrow> string" where
  "bytes_text bs = from_utf8_lossy (map (\<lambda>b. char_of (unat b)) bs)"

definition read_field :: "string option \<Rightarrow> string option \<Rightarrow> string + bytes \<Rightarrow> upload_form \<Rightarrow> crash_reply + upload_form" where
  "read_field name file_name content form =
     (if name = Some ''release'' then (case content of
        Inl e \<Rightarrow> Inl (invalid_multipart (''Failed to read release field: '' @ e))
      | Inr bs \<Rightarrow> Inr (form\<lparr>uf_release := Some (bytes_text bs)\<rparr>))
      else if name = Some ''dist'' then (case content of
        Inl e \<Rightarrow> Inl (invalid_multipart (''Failed to read dist field: '' @ e))
      | Inr bs \<Rightarrow> Inr (if bytes_text bs = [] then form else form\<lparr>uf_dist := Some (bytes_text bs)\<rparr>))
      else case file_name of
        None \<Rightarrow> Inr form
      | Some filename \<Rightarrow> (case content of
          Inl e \<Rightarrow> Inl (invalid_multipart (''Failed to read file '' @ filename @ '': '' @ e))
        | Inr bs \<Rightarrow> Inr (form\<lparr>uf_files := uf_files form @ [(filename, bs)]\<rparr>)))"

fun read_multipart :: "multipart_part list \<Rightarrow> upload_form \<Rightarrow> crash_reply + upload_form" where
  "read_multipart [] form = Inr form"
| "read_multipart (FormBroken e # parts) form = Inl (invalid_multipart (''Failed to read multipart data: '' @ e))"
| "read_multipart (FormField name file_name content # parts) form =
     (case read_field name file_name content form of Inl r \<Rightarrow> Inl r | Inr form' \<Rightarrow> read_multipart parts form')"

datatype upload_outcome = Uploaded artifact_response | Existing artifact_response | UploadFailed string string

definition upload_file :: "'j crash_env \<Rightarrow> current_user \<Rightarrow> crash_project \<Rightarrow> string \<Rightarrow> string option \<Rightarrow> string \<times> bytes \<Rightarrow> ('j, upload_outcome) crash_handler" where
  "upload_file env user project release dist file = (case file of (filename, data) \<Rightarrow>
     let sha256 = cv_sha256 env data in
     bind (attempt (get_artifact_by_sha256 (cp_id project) sha256)) (\<lambda>found. case found of
       Inl e \<Rightarrow> ret (UploadFailed filename (''Failed to check for duplicates: '' @ show_crash_error e))
     | Inr (Some existing) \<Rightarrow> ret (Existing (artifact_to_response existing))
     | Inr None \<Rightarrow>
         let artifact_type = (if ends_with filename ''.map'' then SourceMapArtifact else MinifiedSource) in
         bind draw_uuid (\<lambda>i. bind now (\<lambda>t.
         let artifact = \<lparr>sa_id = i, sa_org_id = cp_org_id project, sa_project_id = cp_id project, sa_release = release, sa_dist = dist,
               sa_artifact_type = artifact_type, sa_name = filename, sa_data = data, sa_size_bytes = of_nat (length data), sa_sha256 = sha256,
               sa_source_map_url = None,
               sa_sources_content = (artifact_type = SourceMapArtifact \<and> str_contains (bytes_text data) (CHR 0x22 # ''sourcesContent'' @ [CHR 0x22])),
               sa_uploaded_at = t, sa_uploaded_by = cu_id user, sa_last_accessed_at = None\<rparr> in
         bind (attempt (create_artifact artifact)) (\<lambda>r. case r of
           Inr _ \<Rightarrow> ret (Uploaded (artifact_to_response artifact))
         | Inl e \<Rightarrow> ret (UploadFailed filename (''Failed to save: '' @ show_crash_error e)))))))"

definition upload_summary :: "upload_outcome list \<Rightarrow> upload_artifact_response" where
  "upload_summary rs = \<lparr>us_total = length rs,
     us_uploaded_count = length (filter (\<lambda>r. case r of Uploaded _ \<Rightarrow> True | _ \<Rightarrow> False) rs),
     us_existing_count = length (filter (\<lambda>r. case r of Existing _ \<Rightarrow> True | _ \<Rightarrow> False) rs),
     us_error_count = length (filter (\<lambda>r. case r of UploadFailed _ _ \<Rightarrow> True | _ \<Rightarrow> False) rs),
     us_artifacts = concat (map (\<lambda>r. case r of Uploaded a \<Rightarrow> [a] | Existing a \<Rightarrow> [a] | UploadFailed _ _ \<Rightarrow> []) rs),
     us_errors = concat (map (\<lambda>r. case r of UploadFailed f e \<Rightarrow> [(f, e)] | _ \<Rightarrow> []) rs)\<rparr>"

definition upload_artifacts :: "'j crash_env \<Rightarrow> current_user \<Rightarrow> string \<Rightarrow> multipart_part list \<Rightarrow> ('j, crash_reply) crash_handler" where
  "upload_artifacts env user project_id_str parts =
     bind (parse_project_id env project_id_str) (\<lambda>project_id.
     bind (get_project_with_auth env project_id user) (\<lambda>project.
     case read_multipart parts \<lparr>uf_release = None, uf_dist = None, uf_files = []\<rparr> of
       Inl r \<Rightarrow> fail r
     | Inr form \<Rightarrow> (case uf_release form of
         None \<Rightarrow> fail (CrashErrorReply 400 ''missing_release'' (''The '' @ quoted ''release'' @ '' field is required''))
       | Some release \<Rightarrow>
           if release = [] \<or> length release > 200 then fail (CrashErrorReply 400 ''invalid_release'' ''Release must be 1-200 characters'')
           else bind (for_each (upload_file env user project release (uf_dist form)) (uf_files form)) (\<lambda>outcomes.
             ret (UploadReply (upload_summary outcomes))))))"

definition list_artifacts_route :: "'j crash_env \<Rightarrow> current_user \<Rightarrow> string \<Rightarrow> string option \<Rightarrow> u32 \<Rightarrow> ('j, crash_reply) crash_handler" where
  "list_artifacts_route env user project_id_str release limit =
     bind (parse_project_id env project_id_str) (\<lambda>project_id.
     bind (get_project_with_auth env project_id user) (\<lambda>_.
     bind (or_internal env (cu_locale user) (list_artifacts project_id release (min limit 1000))) (\<lambda>artifacts.
     ret (ArtifactsReply (map artifact_to_response artifacts)))))"

definition with_artifact :: "'j crash_env \<Rightarrow> current_user \<Rightarrow> string \<Rightarrow> string \<Rightarrow> (symbol_artifact \<Rightarrow> ('j, crash_reply) crash_handler) \<Rightarrow> ('j, crash_reply) crash_handler" where
  "with_artifact env user project_id_str artifact_id_str f =
     bind (parse_project_id env project_id_str) (\<lambda>project_id.
     bind (parse_artifact_id env artifact_id_str) (\<lambda>artifact_id.
     bind (get_project_with_auth env project_id user) (\<lambda>_.
     bind (or_internal env (cu_locale user) (get_artifact_by_id artifact_id)) (\<lambda>found. case found of
       None \<Rightarrow> fail (not_found ''artifact'')
     | Some a \<Rightarrow> if sa_project_id a \<noteq> project_id then fail (not_found ''artifact'') else f a))))"

definition get_artifact_route :: "'j crash_env \<Rightarrow> current_user \<Rightarrow> string \<Rightarrow> string \<Rightarrow> ('j, crash_reply) crash_handler" where
  "get_artifact_route env user project_id_str artifact_id_str = with_artifact env user project_id_str artifact_id_str (\<lambda>a.
     bind (attempt (update_artifact_last_accessed (sa_id a))) (\<lambda>_. ret (ArtifactReply (artifact_to_response a))))"

definition delete_artifact_route :: "'j crash_env \<Rightarrow> current_user \<Rightarrow> string \<Rightarrow> string \<Rightarrow> ('j, crash_reply) crash_handler" where
  "delete_artifact_route env user project_id_str artifact_id_str = with_artifact env user project_id_str artifact_id_str (\<lambda>a.
     bind (or_internal env (cu_locale user) (delete_artifact (sa_id a))) (\<lambda>deleted.
     if deleted then ret NoContentReply else fail (not_found ''artifact'')))"

section \<open>API keys\<close>

record create_api_key_request =
  kq_name :: string
  kq_key_type :: string
  kq_rate_limit_per_minute :: "u32 option"
  kq_allowed_origins :: "string list"

definition api_key_to_response :: "crash_api_key \<Rightarrow> api_key_response" where
  "api_key_to_response k = \<lparr>ks_id = ck_id k, ks_name = ck_name k, ks_key_type = show_crash_key_type (ck_key_type k),
     ks_rate_limit_per_minute = ck_rate_limit_per_minute k, ks_allowed_origins = ck_allowed_origins k, ks_created_at = ck_created_at k,
     ks_last_used_at = ck_last_used_at k, ks_revoked_at = ck_revoked_at k\<rparr>"

definition create_api_key_route :: "'j crash_env \<Rightarrow> current_user \<Rightarrow> string \<Rightarrow> create_api_key_request \<Rightarrow> ('j, crash_reply) crash_handler" where
  "create_api_key_route env user project_id_str body =
     bind (parse_project_id env project_id_str) (\<lambda>project_id.
     bind (get_project_with_auth env project_id user) (\<lambda>_.
     case read_crash_key_type (kq_key_type body) of
       None \<Rightarrow> fail (CrashErrorReply 400 ''invalid_key_type''
         (''Key type must be '' @ quoted ''capture'' @ '' or '' @ quoted ''admin''))
     | Some key_type \<Rightarrow>
         bind draw_uuid (\<lambda>random.
         let raw_key = generate_api_key random (case key_type of CaptureKey \<Rightarrow> KEY_PREFIX_CAPTURE | AdminKey \<Rightarrow> KEY_PREFIX_ADMIN) in
         bind draw_uuid (\<lambda>salt. case hash_api_key env salt raw_key of
           Inl _ \<Rightarrow> fail (internal_error env (cu_locale user))
         | Inr key_hash \<Rightarrow>
             bind now (\<lambda>t. bind draw_uuid (\<lambda>i.
             let k = \<lparr>ck_id = i, ck_project_id = project_id, ck_name = kq_name body, ck_key_type = key_type, ck_key_hash = key_hash,
                   ck_rate_limit_per_minute = kq_rate_limit_per_minute body, ck_allowed_origins = kq_allowed_origins body,
                   ck_created_by = cu_id user, ck_created_at = t, ck_last_used_at = None, ck_revoked_at = None\<rparr> in
             bind (or_internal env (cu_locale user) (create_api_key k)) (\<lambda>_.
             ret (CrashKeyCreatedReply (ck_id k) raw_key (ck_name k) (show_crash_key_type key_type) (ck_created_at k)))))))))"

definition list_api_keys_route :: "'j crash_env \<Rightarrow> current_user \<Rightarrow> string \<Rightarrow> ('j, crash_reply) crash_handler" where
  "list_api_keys_route env user project_id_str =
     bind (parse_project_id env project_id_str) (\<lambda>project_id.
     bind (get_project_with_auth env project_id user) (\<lambda>_.
     bind (or_internal env (cu_locale user) (list_api_keys project_id)) (\<lambda>keys.
     ret (CrashKeysReply (map api_key_to_response keys)))))"

definition revoke_api_key_route :: "'j crash_env \<Rightarrow> current_user \<Rightarrow> string \<Rightarrow> string \<Rightarrow> ('j, crash_reply) crash_handler" where
  "revoke_api_key_route env user project_id_str key_id_str =
     (let missing = CrashErrorReply 404 ''api_key_not_found'' in
      bind (parse_project_id env project_id_str) (\<lambda>project_id.
      bind (parse_api_key_id env key_id_str) (\<lambda>key_id.
      bind (get_project_with_auth env project_id user) (\<lambda>_.
      bind (or_internal env (cu_locale user) (get_api_key_by_id key_id)) (\<lambda>found. case found of
        None \<Rightarrow> fail (missing ''API key not found'')
      | Some k \<Rightarrow>
          if ck_project_id k \<noteq> project_id then fail (missing ''API key not found'')
          else bind (or_internal env (cu_locale user) (revoke_api_key key_id)) (\<lambda>revoked.
            if revoked then ret NoContentReply else fail (missing ''API key not found or already revoked'')))))))"

section \<open>Streaming and retention\<close>

definition stream_crash :: "'j crash_env \<Rightarrow> current_user \<Rightarrow> string \<Rightarrow> ('j, crash_reply) crash_handler" where
  "stream_crash env user project_id_str =
     bind (parse_project_id env project_id_str) (\<lambda>project_id.
     bind (get_project_with_auth env project_id user) (\<lambda>_.
     bind (or_internal env (cu_locale user) (list_issues project_id 1)) (\<lambda>issues.
     bind (attempt (get_issue_count project_id)) (\<lambda>r.
     bind (subscribe project_id) (\<lambda>_.
     ret (StreamReply (StreamInit project_id (case r of Inr n \<Rightarrow> n | Inl _ \<Rightarrow> of_nat (length issues)))))))))"

definition crash_event_cleanup :: "bool \<Rightarrow> int \<Rightarrow> ('j, crash_reply) crash_handler" where
  "crash_event_cleanup cancelled retention_days =
     (if cancelled then fail JobCancelled
      else bind now (\<lambda>t.
        bind (on_error Panicked (\<lambda>e. JobFailed (''Failed to delete old crash events: '' @ show_crash_error e)) (delete_old_events (t - days retention_days))) (\<lambda>n.
        ret (JobDone n))))"

definition symbol_artifact_cleanup :: "bool \<Rightarrow> int \<Rightarrow> ('j, crash_reply) crash_handler" where
  "symbol_artifact_cleanup cancelled retention_days =
     (if cancelled then fail JobCancelled
      else bind now (\<lambda>t.
        bind (on_error Panicked (\<lambda>e. JobFailed (''Failed to delete old symbol artifacts: '' @ show_crash_error e)) (delete_old_artifacts (t - days retention_days))) (\<lambda>n.
        ret (JobDone n))))"

section \<open>Serving requests\<close>

datatype 'j crash_call =
    CaptureCrash current_user "'j crash_capture_request"
  | CaptureWithKey "string option" "'j crash_capture_request"
  | CaptureBatch current_user "'j crash_capture_request list"
  | ListProjects current_user string
  | CreateProject current_user create_project_request
  | GetProject current_user string
  | UpdateProject current_user string "string option" "u32 option"
  | DeleteProject current_user string
  | ListIssues current_user string
  | GetIssue current_user string string
  | ResolveIssue current_user string string "string option"
  | UnresolveIssue current_user string string
  | IgnoreIssue current_user string string
  | AssignIssue current_user string string "string option"
  | DeleteIssue current_user string string
  | ListEvents current_user string u32 u32
  | GetEvent current_user string string
  | ListIssueEvents current_user string string
  | ListReleases current_user string
  | CreateRelease current_user string create_release_request
  | GetRelease current_user string string
  | UploadArtifacts current_user string "multipart_part list"
  | ListArtifacts current_user string "string option" u32
  | GetArtifact current_user string string
  | DeleteArtifact current_user string string
  | CreateApiKey current_user string create_api_key_request
  | ListApiKeys current_user string
  | RevokeApiKey current_user string string
  | StreamCrash current_user string
  | CleanupEvents bool int
  | CleanupArtifacts bool int

fun handle_crash :: "'j crash_env \<Rightarrow> 'j crash_call \<Rightarrow> ('j, crash_reply) crash_handler" where
  "handle_crash env (CaptureCrash u body) = capture_crash env u body"
| "handle_crash env (CaptureWithKey k body) = capture_crash_with_api_key env k body"
| "handle_crash env (CaptureBatch u bodies) = batch_capture_crash env u bodies"
| "handle_crash env (ListProjects u org) = list_projects_route env u org"
| "handle_crash env (CreateProject u body) = create_project_route env u body"
| "handle_crash env (GetProject u p) = get_project_route env u p"
| "handle_crash env (UpdateProject u p name age) = update_project_route env u p name age"
| "handle_crash env (DeleteProject u p) = delete_project_route env u p"
| "handle_crash env (ListIssues u p) = list_issues_route env u p"
| "handle_crash env (GetIssue u p i) = get_issue_route env u p i"
| "handle_crash env (ResolveIssue u p i r) = resolve_issue env u p i r"
| "handle_crash env (UnresolveIssue u p i) = unresolve_issue env u p i"
| "handle_crash env (IgnoreIssue u p i) = ignore_issue env u p i"
| "handle_crash env (AssignIssue u p i who) = assign_issue env u p i who"
| "handle_crash env (DeleteIssue u p i) = delete_issue_route env u p i"
| "handle_crash env (ListEvents u p limit offset) = list_events_route env u p limit offset"
| "handle_crash env (GetEvent u p i) = get_event_route env u p i"
| "handle_crash env (ListIssueEvents u p i) = list_issue_events env u p i"
| "handle_crash env (ListReleases u p) = list_releases_route env u p"
| "handle_crash env (CreateRelease u p body) = create_release_route env u p body"
| "handle_crash env (GetRelease u p v) = get_release_route env u p v"
| "handle_crash env (UploadArtifacts u p parts) = upload_artifacts env u p parts"
| "handle_crash env (ListArtifacts u p r limit) = list_artifacts_route env u p r limit"
| "handle_crash env (GetArtifact u p i) = get_artifact_route env u p i"
| "handle_crash env (DeleteArtifact u p i) = delete_artifact_route env u p i"
| "handle_crash env (CreateApiKey u p body) = create_api_key_route env u p body"
| "handle_crash env (ListApiKeys u p) = list_api_keys_route env u p"
| "handle_crash env (RevokeApiKey u p i) = revoke_api_key_route env u p i"
| "handle_crash env (StreamCrash u p) = stream_crash env u p"
| "handle_crash env (CleanupEvents c n) = crash_event_cleanup c n"
| "handle_crash env (CleanupArtifacts c n) = symbol_artifact_cleanup c n"

definition serve_crash :: "'j crash_env \<Rightarrow> 'j crash_call \<Rightarrow> 'j crash_tables world \<Rightarrow> crash_reply \<times> 'j crash_tables world" where
  "serve_crash env call w = (case handle_crash env call w of (Inl r, w') \<Rightarrow> (r, w') | (Inr r, w') \<Rightarrow> (r, w'))"

definition crash_world :: "'j crash_env \<Rightarrow> 'j crash_tables world \<Rightarrow> 'j crash_call \<Rightarrow> 'j crash_tables world" where
  "crash_world env w call = snd (serve_crash env call w)"

end
