(* ===== verification/CrashCorrect.thy ===== *)
theory CrashCorrect
  imports CrashApi
begin

text \<open>
  The invariant of crash tracking, statement by statement: the tables conform to their schema and group events by fingerprint, and the rows of a
  protected organization stay as they are. \<^verbatim>\<open>guarded\<close> combines the two; statements that write carry the ownership of what they write
  as a precondition, \<^verbatim>\<open>working\<close> says what a request knows while it is at work on a project.
\<close>

section \<open>Conformance\<close>

definition owns :: "'j crash_tables \<Rightarrow> uuid \<Rightarrow> uuid \<Rightarrow> bool" where
  "owns d org p \<longleftrightarrow> (\<exists>q \<in> set (ct_projects d). cp_id q = p \<and> cp_org_id q = org)"

text \<open>An issue of the project \<^verbatim>\<open>p\<close> of \<^verbatim>\<open>org\<close> with the given identifier and fingerprint.\<close>

definition has_issue :: "'j crash_tables \<Rightarrow> uuid \<Rightarrow> uuid \<Rightarrow> uuid \<Rightarrow> string \<Rightarrow> bool" where
  "has_issue d org p i f \<longleftrightarrow> (\<exists>x \<in> set (ct_issues d). is_id x = i \<and> is_project_id x = p \<and> is_org_id x = org \<and> is_fingerprint x = f)"

definition issues_conform :: "'j crash_tables \<Rightarrow> bool" where
  "issues_conform d \<longleftrightarrow> distinct (map is_id (ct_issues d)) \<and> distinct (map (\<lambda>x. (is_project_id x, is_fingerprint x)) (ct_issues d))
     \<and> (\<forall>x \<in> set (ct_issues d). owns d (is_org_id x) (is_project_id x))"

definition events_conform :: "'j crash_env \<Rightarrow> 'j crash_tables \<Rightarrow> bool" where
  "events_conform env d \<longleftrightarrow> distinct (map ce_id (ct_events d))
     \<and> (\<forall>e \<in> set (ct_events d). owns d (ce_org_id e) (ce_project_id e)
          \<and> (\<forall>i. ce_issue_id e = Some i \<longrightarrow> has_issue d (ce_org_id e) (ce_project_id e) i (compute_fingerprint env e)))"

definition persons_conform :: "'j crash_tables \<Rightarrow> bool" where
  "persons_conform d \<longleftrightarrow> distinct (map (\<lambda>r. (fst r, fst (snd r))) (ct_issue_persons d))
     \<and> (\<forall>r \<in> set (ct_issue_persons d). fst r \<in> set (map is_id (ct_issues d)))"

definition releases_conform :: "'j crash_tables \<Rightarrow> bool" where
  "releases_conform d \<longleftrightarrow> distinct (map rl_id (ct_releases d)) \<and> distinct (map (\<lambda>r. (rl_project_id r, rl_version r)) (ct_releases d))
     \<and> (\<forall>r \<in> set (ct_releases d). owns d (rl_org_id r) (rl_project_id r))"

definition artifacts_conform :: "'j crash_tables \<Rightarrow> bool" where
  "artifacts_conform d \<longleftrightarrow> distinct (map sa_id (ct_artifacts d)) \<and> (\<forall>a \<in> set (ct_artifacts d). owns d (sa_org_id a) (sa_project_id a))"

definition keys_conform :: "'j crash_tables \<Rightarrow> bool" where
  "keys_conform d \<longleftrightarrow> distinct (map ck_id (ct_api_keys d)) \<and> (\<forall>k \<in> set (ct_api_keys d). ck_project_id k \<in> set (map cp_id (ct_projects d)))"

definition conforms :: "'j crash_env \<Rightarrow> 'j crash_tables \<Rightarrow> bool" where
  "conforms env d \<longleftrightarrow> distinct (map cp_id (ct_projects d)) \<and> issues_conform d \<and> events_conform env d \<and> persons_conform d
     \<and> releases_conform d \<and> artifacts_conform d \<and> keys_conform d"

lemmas conform_defs = conforms_def issues_conform_def events_conform_def persons_conform_def releases_conform_def artifacts_conform_def
  keys_conform_def

lemma same_row: "distinct (map key rows) \<Longrightarrow> x \<in> set rows \<Longrightarrow> y \<in> set rows \<Longrightarrow> key x = key y \<Longrightarrow> x = y"
  by (metis distinct_map inj_onD)

lemma owns_unique: "conforms env d \<Longrightarrow> owns d org p \<Longrightarrow> owns d org' p \<Longrightarrow> org = org'"
  unfolding owns_def conforms_def by (metis same_row)

lemma owns_id: "owns d org p \<Longrightarrow> p \<in> cp_id ` set (ct_projects d)"
  by (auto simp: owns_def)

section \<open>What an organization holds\<close>

record 'j org_rows =
  or_projects :: "crash_project list"
  or_issues :: "issue list"
  or_events :: "'j crash_event list"
  or_persons :: "(uuid \<times> uuid \<times> datetime) list"
  or_releases :: "release list"
  or_artifacts :: "symbol_artifact list"
  or_keys :: "crash_api_key list"
  or_channels :: "(uuid \<times> crash_stream_event list) list"

definition rows_of :: "uuid \<Rightarrow> 'j crash_tables \<Rightarrow> 'j org_rows" where
  "rows_of org d =
     \<lparr>or_projects = filter (\<lambda>p. cp_org_id p = org) (ct_projects d), or_issues = filter (\<lambda>x. is_org_id x = org) (ct_issues d),
      or_events = filter (\<lambda>e. ce_org_id e = org) (ct_events d),
      or_persons = filter (\<lambda>r. \<exists>x \<in> set (ct_issues d). is_id x = fst r \<and> is_org_id x = org) (ct_issue_persons d),
      or_releases = filter (\<lambda>r. rl_org_id r = org) (ct_releases d), or_artifacts = filter (\<lambda>a. sa_org_id a = org) (ct_artifacts d),
      or_keys = filter (\<lambda>k. owns d org (ck_project_id k)) (ct_api_keys d), or_channels = filter (\<lambda>c. owns d org (fst c)) (ct_channels d)\<rparr>"

text \<open>
  \<^verbatim>\<open>watch\<close> is an organization with the rows it has to keep, or none; an organization may be written if it is not the watched one.
\<close>

type_synonym 'j watch = "(uuid \<times> 'j org_rows) option"

definition guarded :: "'j crash_env \<Rightarrow> 'j watch \<Rightarrow> (uuid \<times> uuid) list \<Rightarrow> 'j crash_tables \<Rightarrow> bool" where
  "guarded env watch members d \<longleftrightarrow> conforms env d \<and> ct_members d = members \<and> (case watch of None \<Rightarrow> True | Some (org, rows) \<Rightarrow> rows_of org d = rows)"

definition may_write :: "'j watch \<Rightarrow> uuid \<Rightarrow> bool" where
  "may_write watch org \<longleftrightarrow> (case watch of None \<Rightarrow> True | Some (org', _) \<Rightarrow> org' \<noteq> org)"

lemma guardedI:
  assumes "guarded env watch members d" and "conforms env d'" and "ct_members d' = ct_members d"
    and "\<And>org. \<not> may_write watch org \<Longrightarrow> rows_of org d' = rows_of org d"
  shows "guarded env watch members d'"
  using assms by (auto simp: guarded_def may_write_def split: option.splits)

lemma guarded_conforms: "guarded env watch members d \<Longrightarrow> conforms env d"
  by (simp add: guarded_def)

lemma filter_map_same:
  "(\<And>x. x \<in> set xs \<Longrightarrow> P (g x) = P x) \<Longrightarrow> (\<And>x. x \<in> set xs \<Longrightarrow> P x \<Longrightarrow> g x = x) \<Longrightarrow> filter P (map g xs) = filter P xs"
  by (induction xs) auto

section \<open>Changes of one table\<close>

lemma owns_updates [simp]:
  "owns (d\<lparr>ct_issues := a\<rparr>) = owns d" "owns (d\<lparr>ct_events := b\<rparr>) = owns d" "owns (d\<lparr>ct_issue_persons := c\<rparr>) = owns d"
  "owns (d\<lparr>ct_releases := r\<rparr>) = owns d" "owns (d\<lparr>ct_artifacts := s\<rparr>) = owns d" "owns (d\<lparr>ct_api_keys := k\<rparr>) = owns d"
  "owns (d\<lparr>ct_channels := l\<rparr>) = owns d"
  by (simp_all add: owns_def fun_eq_iff)

lemma has_issue_updates [simp]:
  "has_issue (d\<lparr>ct_projects := p\<rparr>) = has_issue d" "has_issue (d\<lparr>ct_events := b\<rparr>) = has_issue d" "has_issue (d\<lparr>ct_issue_persons := c\<rparr>) = has_issue d"
  "has_issue (d\<lparr>ct_releases := r\<rparr>) = has_issue d" "has_issue (d\<lparr>ct_artifacts := s\<rparr>) = has_issue d" "has_issue (d\<lparr>ct_api_keys := k\<rparr>) = has_issue d"
  "has_issue (d\<lparr>ct_channels := l\<rparr>) = has_issue d"
  by (simp_all add: has_issue_def fun_eq_iff)

lemma has_issue_map:
  "(\<And>x. is_id (g x) = is_id x \<and> is_project_id (g x) = is_project_id x \<and> is_org_id (g x) = is_org_id x \<and> is_fingerprint (g x) = is_fingerprint x) \<Longrightarrow>
   has_issue (d\<lparr>ct_issues := map g (ct_issues d)\<rparr>) = has_issue d"
  by (simp add: has_issue_def fun_eq_iff)

lemma guarded_map_issues:
  assumes "guarded env watch members d"
    and keys: "\<And>x. is_id (g x) = is_id x \<and> is_project_id (g x) = is_project_id x \<and> is_org_id (g x) = is_org_id x \<and> is_fingerprint (g x) = is_fingerprint x"
    and rest: "\<And>x. x \<in> set (ct_issues d) \<Longrightarrow> \<not> may_write watch (is_org_id x) \<Longrightarrow> g x = x"
  shows "guarded env watch members (d\<lparr>ct_issues := map g (ct_issues d)\<rparr>)"
proof (rule guardedI [OF assms(1)])
  have "conforms env d" using assms(1) by (rule guarded_conforms)
  then show "conforms env (d\<lparr>ct_issues := map g (ct_issues d)\<rparr>)"
    by (simp add: conform_defs keys has_issue_map [of g, OF keys] comp_def)
  show "rows_of org (d\<lparr>ct_issues := map g (ct_issues d)\<rparr>) = rows_of org d" if "\<not> may_write watch org" for org
    using that rest by (auto simp: rows_of_def keys intro!: filter_map_same)
qed simp

lemma guarded_map_releases:
  assumes "guarded env watch members d"
    and keys: "\<And>x. rl_id (g x) = rl_id x \<and> rl_project_id (g x) = rl_project_id x \<and> rl_org_id (g x) = rl_org_id x \<and> rl_version (g x) = rl_version x"
    and rest: "\<And>x. x \<in> set (ct_releases d) \<Longrightarrow> \<not> may_write watch (rl_org_id x) \<Longrightarrow> g x = x"
  shows "guarded env watch members (d\<lparr>ct_releases := map g (ct_releases d)\<rparr>)"
proof (rule guardedI [OF assms(1)])
  have "conforms env d" using assms(1) by (rule guarded_conforms)
  then show "conforms env (d\<lparr>ct_releases := map g (ct_releases d)\<rparr>)" by (simp add: conform_defs keys comp_def)
  show "rows_of org (d\<lparr>ct_releases := map g (ct_releases d)\<rparr>) = rows_of org d" if "\<not> may_write watch org" for org
    using that rest by (auto simp: rows_of_def keys intro!: filter_map_same)
qed simp

lemma guarded_map_artifacts:
  assumes "guarded env watch members d"
    and keys: "\<And>x. sa_id (g x) = sa_id x \<and> sa_project_id (g x) = sa_project_id x \<and> sa_org_id (g x) = sa_org_id x"
    and rest: "\<And>x. x \<in> set (ct_artifacts d) \<Longrightarrow> \<not> may_write watch (sa_org_id x) \<Longrightarrow> g x = x"
  shows "guarded env watch members (d\<lparr>ct_artifacts := map g (ct_artifacts d)\<rparr>)"
proof (rule guardedI [OF assms(1)])
  have "conforms env d" using assms(1) by (rule guarded_conforms)
  then show "conforms env (d\<lparr>ct_artifacts := map g (ct_artifacts d)\<rparr>)" by (simp add: conform_defs keys comp_def)
  show "rows_of org (d\<lparr>ct_artifacts := map g (ct_artifacts d)\<rparr>) = rows_of org d" if "\<not> may_write watch org" for org
    using that rest by (auto simp: rows_of_def keys intro!: filter_map_same)
qed simp

lemma guarded_map_keys:
  assumes "guarded env watch members d"
    and keys: "\<And>x. ck_id (g x) = ck_id x \<and> ck_project_id (g x) = ck_project_id x"
    and rest: "\<And>x org. x \<in> set (ct_api_keys d) \<Longrightarrow> owns d org (ck_project_id x) \<Longrightarrow> \<not> may_write watch org \<Longrightarrow> g x = x"
  shows "guarded env watch members (d\<lparr>ct_api_keys := map g (ct_api_keys d)\<rparr>)"
proof (rule guardedI [OF assms(1)])
  have "conforms env d" using assms(1) by (rule guarded_conforms)
  then show "conforms env (d\<lparr>ct_api_keys := map g (ct_api_keys d)\<rparr>)" by (simp add: conform_defs keys comp_def)
  show "rows_of org (d\<lparr>ct_api_keys := map g (ct_api_keys d)\<rparr>) = rows_of org d" if "\<not> may_write watch org" for org
    using that rest by (auto simp: rows_of_def keys intro!: filter_map_same)
qed simp

lemma owns_map_projects:
  "(\<And>x. cp_id (g x) = cp_id x \<and> cp_org_id (g x) = cp_org_id x) \<Longrightarrow> owns (d\<lparr>ct_projects := map g (ct_projects d)\<rparr>) = owns d"
  by (simp add: owns_def fun_eq_iff)

lemma guarded_map_projects:
  assumes "guarded env watch members d"
    and keys: "\<And>x. cp_id (g x) = cp_id x \<and> cp_org_id (g x) = cp_org_id x"
    and rest: "\<And>x. x \<in> set (ct_projects d) \<Longrightarrow> \<not> may_write watch (cp_org_id x) \<Longrightarrow> g x = x"
  shows "guarded env watch members (d\<lparr>ct_projects := map g (ct_projects d)\<rparr>)"
proof (rule guardedI [OF assms(1)])
  have "conforms env d" using assms(1) by (rule guarded_conforms)
  then show "conforms env (d\<lparr>ct_projects := map g (ct_projects d)\<rparr>)"
    by (simp add: conform_defs keys owns_map_projects [of g, OF keys] comp_def)
  show "rows_of org (d\<lparr>ct_projects := map g (ct_projects d)\<rparr>) = rows_of org d" if "\<not> may_write watch org" for org
    using that rest by (auto simp: rows_of_def keys owns_map_projects [of g, OF keys] intro!: filter_map_same)
qed simp

lemma guarded_channels:
  assumes "guarded env watch members d"
    and "\<And>org. \<not> may_write watch org \<Longrightarrow> filter (\<lambda>c. owns d org (fst c)) cs = filter (\<lambda>c. owns d org (fst c)) (ct_channels d)"
  shows "guarded env watch members (d\<lparr>ct_channels := cs\<rparr>)"
proof (rule guardedI [OF assms(1)])
  show "conforms env (d\<lparr>ct_channels := cs\<rparr>)" using guarded_conforms [OF assms(1)] by (simp add: conform_defs)
qed (simp_all add: rows_of_def assms(2))

subsection \<open>Added rows\<close>

lemma owns_add: "owns (d\<lparr>ct_projects := ct_projects d @ [p]\<rparr>) org q \<longleftrightarrow> owns d org q \<or> cp_id p = q \<and> cp_org_id p = org"
  by (auto simp: owns_def)

lemma has_issue_add:
  "has_issue (d\<lparr>ct_issues := ct_issues d @ [x]\<rparr>) org p i f \<longleftrightarrow>
   has_issue d org p i f \<or> is_id x = i \<and> is_project_id x = p \<and> is_org_id x = org \<and> is_fingerprint x = f"
  by (auto simp: has_issue_def)

lemma guarded_add_project:
  assumes "guarded env watch members d" and "cp_id p \<notin> set (map cp_id (ct_projects d))" and "may_write watch (cp_org_id p)"
  shows "guarded env watch members (d\<lparr>ct_projects := ct_projects d @ [p]\<rparr>)"
proof (rule guardedI [OF assms(1)])
  show "conforms env (d\<lparr>ct_projects := ct_projects d @ [p]\<rparr>)"
    using guarded_conforms [OF assms(1)] assms(2) by (simp add: conform_defs owns_add)
  show "rows_of org (d\<lparr>ct_projects := ct_projects d @ [p]\<rparr>) = rows_of org d" if "\<not> may_write watch org" for org
    using that assms(3) by (auto simp: rows_of_def owns_add intro!: filter_cong)
qed simp

lemma guarded_add_issue:
  assumes "guarded env watch members d" and "is_id x \<notin> set (map is_id (ct_issues d))"
    and "(is_project_id x, is_fingerprint x) \<notin> set (map (\<lambda>y. (is_project_id y, is_fingerprint y)) (ct_issues d))"
    and "owns d (is_org_id x) (is_project_id x)" and "may_write watch (is_org_id x)"
  shows "guarded env watch members (d\<lparr>ct_issues := ct_issues d @ [x]\<rparr>)"
proof (rule guardedI [OF assms(1)])
  show "conforms env (d\<lparr>ct_issues := ct_issues d @ [x]\<rparr>)"
    using guarded_conforms [OF assms(1)] assms(2-4) by (auto simp: conform_defs has_issue_add)
  show "rows_of org (d\<lparr>ct_issues := ct_issues d @ [x]\<rparr>) = rows_of org d" if "\<not> may_write watch org" for org
    using that assms(5) by (auto simp: rows_of_def intro!: filter_cong)
qed simp

lemma guarded_add_event:
  assumes "guarded env watch members d" and "ce_id e \<notin> set (map ce_id (ct_events d))" and "owns d (ce_org_id e) (ce_project_id e)"
    and "\<And>i. ce_issue_id e = Some i \<Longrightarrow> has_issue d (ce_org_id e) (ce_project_id e) i (compute_fingerprint env e)"
    and "may_write watch (ce_org_id e)"
  shows "guarded env watch members (d\<lparr>ct_events := ct_events d @ [e]\<rparr>)"
proof (rule guardedI [OF assms(1)])
  show "conforms env (d\<lparr>ct_events := ct_events d @ [e]\<rparr>)" using guarded_conforms [OF assms(1)] assms(2-4) by (auto simp: conform_defs)
qed (use assms(5) in \<open>auto simp: rows_of_def\<close>)

lemma guarded_add_release:
  assumes "guarded env watch members d" and "rl_id r \<notin> set (map rl_id (ct_releases d))"
    and "(rl_project_id r, rl_version r) \<notin> set (map (\<lambda>s. (rl_project_id s, rl_version s)) (ct_releases d))"
    and "owns d (rl_org_id r) (rl_project_id r)" and "may_write watch (rl_org_id r)"
  shows "guarded env watch members (d\<lparr>ct_releases := ct_releases d @ [r]\<rparr>)"
proof (rule guardedI [OF assms(1)])
  show "conforms env (d\<lparr>ct_releases := ct_releases d @ [r]\<rparr>)" using guarded_conforms [OF assms(1)] assms(2-4) by (auto simp: conform_defs)
qed (use assms(5) in \<open>auto simp: rows_of_def\<close>)

lemma guarded_add_artifact:
  assumes "guarded env watch members d" and "sa_id a \<notin> set (map sa_id (ct_artifacts d))"
    and "owns d (sa_org_id a) (sa_project_id a)" and "may_write watch (sa_org_id a)"
  shows "guarded env watch members (d\<lparr>ct_artifacts := ct_artifacts d @ [a]\<rparr>)"
proof (rule guardedI [OF assms(1)])
  show "conforms env (d\<lparr>ct_artifacts := ct_artifacts d @ [a]\<rparr>)" using guarded_conforms [OF assms(1)] assms(2,3) by (auto simp: conform_defs)
qed (use assms(4) in \<open>auto simp: rows_of_def\<close>)

lemma guarded_add_key:
  assumes "guarded env watch members d" and "ck_id k \<notin> set (map ck_id (ct_api_keys d))"
    and "owns d org (ck_project_id k)" and "may_write watch org"
  shows "guarded env watch members (d\<lparr>ct_api_keys := ct_api_keys d @ [k]\<rparr>)"
proof (rule guardedI [OF assms(1)])
  have conf: "conforms env d" using assms(1) by (rule guarded_conforms)
  then show "conforms env (d\<lparr>ct_api_keys := ct_api_keys d @ [k]\<rparr>)" using assms(2) owns_id [OF assms(3)] by (auto simp: conform_defs)
  show "rows_of org' (d\<lparr>ct_api_keys := ct_api_keys d @ [k]\<rparr>) = rows_of org' d" if "\<not> may_write watch org'" for org'
  proof -
    have "\<not> owns d org' (ck_project_id k)" using owns_unique [OF conf assms(3), of org'] assms(4) that by auto
    then show ?thesis by (simp add: rows_of_def)
  qed
qed simp

lemma guarded_add_person:
  assumes "guarded env watch members d" and "\<not> list_ex (\<lambda>r. fst r = i \<and> fst (snd r) = person) (ct_issue_persons d)"
    and "has_issue d org p i f" and "may_write watch org"
  shows "guarded env watch members (d\<lparr>ct_issue_persons := ct_issue_persons d @ [(i, person, t)]\<rparr>)"
proof (rule guardedI [OF assms(1)])
  have conf: "conforms env d" using assms(1) by (rule guarded_conforms)
  then show "conforms env (d\<lparr>ct_issue_persons := ct_issue_persons d @ [(i, person, t)]\<rparr>)"
    using assms(2,3) by (auto simp: conform_defs has_issue_def list_ex_iff)
  have "is_org_id x = org" if "x \<in> set (ct_issues d)" "is_id x = i" for x
    using that assms(3) conf by (auto simp: has_issue_def conforms_def issues_conform_def dest: same_row [of is_id])
  then show "rows_of org' (d\<lparr>ct_issue_persons := ct_issue_persons d @ [(i, person, t)]\<rparr>) = rows_of org' d" if "\<not> may_write watch org'" for org'
    using that assms(4) by (auto simp: rows_of_def)
qed simp

subsection \<open>Deleted rows\<close>

lemma guarded_filter_events:
  assumes "guarded env watch members d" and "\<And>e. e \<in> set (ct_events d) \<Longrightarrow> \<not> Q e \<Longrightarrow> may_write watch (ce_org_id e)"
  shows "guarded env watch members (d\<lparr>ct_events := filter Q (ct_events d)\<rparr>)"
proof (rule guardedI [OF assms(1)])
  show "conforms env (d\<lparr>ct_events := filter Q (ct_events d)\<rparr>)"
    using guarded_conforms [OF assms(1)] by (auto simp: conform_defs distinct_map_filter)
qed (use assms(2) in \<open>auto simp: rows_of_def intro!: filter_cong\<close>)

lemma guarded_filter_releases:
  assumes "guarded env watch members d" and "\<And>r. r \<in> set (ct_releases d) \<Longrightarrow> \<not> Q r \<Longrightarrow> may_write watch (rl_org_id r)"
  shows "guarded env watch members (d\<lparr>ct_releases := filter Q (ct_releases d)\<rparr>)"
proof (rule guardedI [OF assms(1)])
  show "conforms env (d\<lparr>ct_releases := filter Q (ct_releases d)\<rparr>)"
    using guarded_conforms [OF assms(1)] by (auto simp: conform_defs distinct_map_filter)
qed (use assms(2) in \<open>auto simp: rows_of_def intro!: filter_cong\<close>)

lemma guarded_filter_artifacts:
  assumes "guarded env watch members d" and "\<And>a. a \<in> set (ct_artifacts d) \<Longrightarrow> \<not> Q a \<Longrightarrow> may_write watch (sa_org_id a)"
  shows "guarded env watch members (d\<lparr>ct_artifacts := filter Q (ct_artifacts d)\<rparr>)"
proof (rule guardedI [OF assms(1)])
  show "conforms env (d\<lparr>ct_artifacts := filter Q (ct_artifacts d)\<rparr>)"
    using guarded_conforms [OF assms(1)] by (auto simp: conform_defs distinct_map_filter)
qed (use assms(2) in \<open>auto simp: rows_of_def intro!: filter_cong\<close>)

lemma guarded_filter_keys:
  assumes "guarded env watch members d"
    and "\<And>k org. k \<in> set (ct_api_keys d) \<Longrightarrow> \<not> Q k \<Longrightarrow> owns d org (ck_project_id k) \<Longrightarrow> may_write watch org"
  shows "guarded env watch members (d\<lparr>ct_api_keys := filter Q (ct_api_keys d)\<rparr>)"
proof (rule guardedI [OF assms(1)])
  show "conforms env (d\<lparr>ct_api_keys := filter Q (ct_api_keys d)\<rparr>)"
    using guarded_conforms [OF assms(1)] by (auto simp: conform_defs distinct_map_filter)
qed (use assms(2) in \<open>auto simp: rows_of_def intro!: filter_cong\<close>)

lemma compute_fingerprint_issue [simp]: "compute_fingerprint env (e\<lparr>ce_issue_id := i\<rparr>) = compute_fingerprint env e"
  by (simp add: compute_fingerprint_def fingerprint_input_def)

lemma drop_issues_simps [simp]:
  "ct_projects (drop_issues gone d) = ct_projects d" "ct_members (drop_issues gone d) = ct_members d"
  "ct_releases (drop_issues gone d) = ct_releases d" "ct_artifacts (drop_issues gone d) = ct_artifacts d"
  "ct_api_keys (drop_issues gone d) = ct_api_keys d" "ct_channels (drop_issues gone d) = ct_channels d" "owns (drop_issues gone d) = owns d"
  "ct_issues (drop_issues gone d) = filter (\<lambda>x. \<not> gone x) (ct_issues d)"
  by (simp_all add: drop_issues_def Let_def)

definition cleared :: "(issue \<Rightarrow> bool) \<Rightarrow> 'j crash_tables \<Rightarrow> 'j crash_event \<Rightarrow> bool" where
  "cleared gone d e \<longleftrightarrow> (\<exists>x \<in> set (ct_issues d). gone x \<and> ce_issue_id e = Some (is_id x))"

lemma drop_issues_events:
  "ct_events (drop_issues gone d) = map (\<lambda>e. if cleared gone d e then e\<lparr>ce_issue_id := None\<rparr> else e) (ct_events d)"
  by (auto simp: drop_issues_def Let_def cleared_def split: option.splits)

lemma drop_issues_persons:
  "ct_issue_persons (drop_issues gone d) = filter (\<lambda>r. \<forall>x \<in> set (ct_issues d). gone x \<longrightarrow> is_id x \<noteq> fst r) (ct_issue_persons d)"
  by (auto simp: drop_issues_def Let_def image_iff intro!: filter_cong)

lemma conforms_drop_issues:
  assumes "conforms env d"
  shows "conforms env (drop_issues gone d)"
proof -
  have kept: "has_issue (drop_issues gone d) org p i f" if "has_issue d org p i f" and "\<forall>x \<in> set (ct_issues d). gone x \<longrightarrow> is_id x \<noteq> i" for org p i f
    using that by (auto simp: has_issue_def)
  have "events_conform env (drop_issues gone d)"
    using assms by (auto simp: conforms_def events_conform_def drop_issues_events cleared_def comp_def if_distrib cong: if_cong intro!: kept)
  moreover have "persons_conform (drop_issues gone d)"
    using assms by (fastforce simp: conforms_def persons_conform_def drop_issues_persons distinct_map_filter image_iff)
  ultimately show ?thesis using assms
    by (auto simp: conforms_def issues_conform_def releases_conform_def artifacts_conform_def keys_conform_def distinct_map_filter)
qed

lemma guarded_drop_issues:
  assumes "guarded env watch members d" and gone: "\<And>x. x \<in> set (ct_issues d) \<Longrightarrow> gone x \<Longrightarrow> may_write watch (is_org_id x)"
  shows "guarded env watch members (drop_issues gone d)"
proof (rule guardedI [OF assms(1)])
  have conf: "conforms env d" using assms(1) by (rule guarded_conforms)
  then show "conforms env (drop_issues gone d)" by (rule conforms_drop_issues)
  fix org
  assume org: "\<not> may_write watch org"
  have same: "is_org_id x = is_org_id y" if "x \<in> set (ct_issues d)" "y \<in> set (ct_issues d)" "is_id x = is_id y" for x y
    using that conf same_row [of is_id "ct_issues d" x y] by (auto simp: conforms_def issues_conform_def)
  have "\<not> cleared gone d e" if e: "e \<in> set (ct_events d)" "ce_org_id e = org" for e
  proof
    assume "cleared gone d e"
    then obtain x where x: "x \<in> set (ct_issues d)" "gone x" "ce_issue_id e = Some (is_id x)" by (auto simp: cleared_def)
    then have "has_issue d (ce_org_id e) (ce_project_id e) (is_id x) (compute_fingerprint env e)"
      using conf e(1) by (auto simp: conforms_def events_conform_def)
    then obtain y where "y \<in> set (ct_issues d)" "is_id y = is_id x" "is_org_id y = org" using e(2) by (auto simp: has_issue_def)
    with x same [of x y] gone org show False by auto
  qed
  then have "filter (\<lambda>e. ce_org_id e = org) (ct_events (drop_issues gone d)) = filter (\<lambda>e. ce_org_id e = org) (ct_events d)"
    unfolding drop_issues_events by (intro filter_map_same) auto
  moreover have "filter (\<lambda>r. \<exists>x \<in> set (filter (\<lambda>x. \<not> gone x) (ct_issues d)). is_id x = fst r \<and> is_org_id x = org) (ct_issue_persons (drop_issues gone d))
    = filter (\<lambda>r. \<exists>x \<in> set (ct_issues d). is_id x = fst r \<and> is_org_id x = org) (ct_issue_persons d)"
    unfolding drop_issues_persons filter_filter
  proof (intro filter_cong refl iffI)
    fix r :: "uuid \<times> uuid \<times> datetime"
    assume "\<exists>x \<in> set (ct_issues d). is_id x = fst r \<and> is_org_id x = org"
    then obtain x where x: "x \<in> set (ct_issues d)" "is_id x = fst r" "is_org_id x = org" by blast
    have "\<not> gone y" if "y \<in> set (ct_issues d)" "is_id y = fst r" for y
      using same [OF that(1) x(1)] that x gone [OF that(1)] org by auto
    with x show "(\<forall>x \<in> set (ct_issues d). gone x \<longrightarrow> is_id x \<noteq> fst r) \<and>
        (\<exists>x \<in> set (filter (\<lambda>x. \<not> gone x) (ct_issues d)). is_id x = fst r \<and> is_org_id x = org)" by auto
  qed auto
  ultimately show "rows_of org (drop_issues gone d) = rows_of org d"
    using gone org by (auto simp: rows_of_def intro!: filter_cong)
qed simp

lemma guarded_remove_project:
  assumes "guarded env watch members d" and "owns d org i" and "may_write watch org"
    and "\<And>x. x \<in> set (ct_issues d) \<Longrightarrow> is_project_id x \<noteq> i" and "\<And>e. e \<in> set (ct_events d) \<Longrightarrow> ce_project_id e \<noteq> i"
    and "\<And>r. r \<in> set (ct_releases d) \<Longrightarrow> rl_project_id r \<noteq> i" and "\<And>a. a \<in> set (ct_artifacts d) \<Longrightarrow> sa_project_id a \<noteq> i"
    and "\<And>k. k \<in> set (ct_api_keys d) \<Longrightarrow> ck_project_id k \<noteq> i"
  shows "guarded env watch members (d\<lparr>ct_projects := filter (\<lambda>p. cp_id p \<noteq> i) (ct_projects d)\<rparr>)"
proof (rule guardedI [OF assms(1)])
  let ?d = "d\<lparr>ct_projects := filter (\<lambda>p. cp_id p \<noteq> i) (ct_projects d)\<rparr>"
  have conf: "conforms env d" using assms(1) by (rule guarded_conforms)
  have owns: "owns ?d o' p \<longleftrightarrow> owns d o' p \<and> p \<noteq> i" for o' p by (auto simp: owns_def)
  have "ck_project_id k \<in> cp_id ` {p \<in> set (ct_projects d). cp_id p \<noteq> i}" if "k \<in> set (ct_api_keys d)" for k
    using that conf assms(8) [OF that] by (force simp: conforms_def keys_conform_def)
  then show "conforms env ?d" using conf assms(4-7) by (auto simp: conform_defs owns distinct_map_filter)
  show "rows_of o' ?d = rows_of o' d" if "\<not> may_write watch o'" for o'
  proof -
    have "\<not> owns d o' i" using owns_unique [OF conf assms(2)] assms(3) that by auto
    then show ?thesis by (auto simp: rows_of_def owns intro!: filter_cong) (auto simp: owns_def)
  qed
qed simp

section \<open>Statements\<close>

text \<open>The tables while a request works on the project \<^verbatim>\<open>p\<close> of \<^verbatim>\<open>org\<close> and knows the issues \<^verbatim>\<open>J\<close> of it.\<close>

definition working :: "'j crash_env \<Rightarrow> 'j watch \<Rightarrow> (uuid \<times> uuid) list \<Rightarrow> uuid \<Rightarrow> uuid \<Rightarrow> (uuid \<times> string) set \<Rightarrow> 'j crash_tables \<Rightarrow> bool" where
  "working env watch members org p J d \<longleftrightarrow> guarded env watch members d \<and> owns d org p \<and> (\<forall>(i, f) \<in> J. has_issue d org p i f)"

lemma working_guarded: "working env watch members org p J d \<Longrightarrow> guarded env watch members d"
  by (simp add: working_def)

lemma working_mono: "working env watch members org p J d \<Longrightarrow> J' \<subseteq> J \<Longrightarrow> working env watch members org p J' d"
  by (auto simp: working_def)

lemma has_issue_org:
  assumes "working env watch members org p J d" and "(i, f) \<in> J" and "x \<in> set (ct_issues d)" and "is_id x = i"
  shows "is_org_id x = org"
proof -
  have conf: "conforms env d" using assms(1) by (simp add: working_def guarded_def)
  obtain y where "y \<in> set (ct_issues d)" "is_id y = i" "is_org_id y = org" using assms(1,2) by (auto simp: working_def has_issue_def)
  with assms(3,4) conf same_row [of is_id "ct_issues d" x y] show ?thesis by (auto simp: conforms_def issues_conform_def)
qed

lemma project_org:
  assumes "working env watch members org p J d" and "owns d org' p"
  shows "org' = org"
  using assms owns_unique [of env d org' p org] by (simp add: working_def guarded_def)

lemma working_map_issues:
  assumes w: "working env watch members org p J d" and "may_write watch org"
    and keys: "\<And>x. is_id (g x) = is_id x \<and> is_project_id (g x) = is_project_id x \<and> is_org_id (g x) = is_org_id x \<and> is_fingerprint (g x) = is_fingerprint x"
    and hit: "\<And>x. is_id x \<noteq> i \<Longrightarrow> g x = x" and J: "(i, f) \<in> J"
  shows "working env watch members org p J (d\<lparr>ct_issues := map g (ct_issues d)\<rparr>)"
proof -
  have "g x = x" if "x \<in> set (ct_issues d)" "\<not> may_write watch (is_org_id x)" for x
    using that hit [of x] has_issue_org [OF w J that(1)] assms(2) by auto
  then have "guarded env watch members (d\<lparr>ct_issues := map g (ct_issues d)\<rparr>)"
    by (rule guarded_map_issues [OF working_guarded [OF w] keys])
  then show ?thesis using w by (simp add: working_def has_issue_map [of g, OF keys])
qed

lemma keeps_read [keeps_rules]: "keeps I (query err (\<lambda>d. Inr (f d, d)))"
  by (rule keeps_query) simp

lemmas read_defs = get_project_by_id_def get_project_by_slug_def list_projects_def get_issue_by_id_def get_issue_by_fingerprint_def list_issues_def
  get_issue_count_def issue_has_person_def get_event_by_id_def list_events_for_issue_def list_events_for_project_def
  get_release_by_version_def list_releases_def get_artifact_by_id_def get_artifact_by_sha256_def get_artifact_by_name_def list_artifacts_def
  get_api_key_by_id_def list_api_keys_def get_membership_def

lemma keeps_reads [keeps_rules]:
  "keeps I (get_project_by_id i)" "keeps I (list_projects i)" "keeps I (get_issue_by_id i)"
  "keeps I (get_issue_by_fingerprint i s)" "keeps I (list_issues i n)" "keeps I (get_issue_count i)" "keeps I (issue_has_person i j)"
  "keeps I (get_event_by_id i)" "keeps I (list_events_for_issue i n)" "keeps I (list_events_for_project i n m)"
  "keeps I (get_release_by_version i s)" "keeps I (list_releases i n)" "keeps I (get_artifact_by_id i)" "keeps I (get_artifact_by_sha256 i s)"
  "keeps I (get_artifact_by_name i s s' x)" "keeps I (list_artifacts i x n)" "keeps I (get_api_key_by_id i)" "keeps I (list_api_keys i)"
  "keeps I (get_membership i j)"
  unfolding read_defs by (rule keeps_read)+

lemma keeps_on_error [keeps_rules]: "keeps I m \<Longrightarrow> keeps I (on_error panicked f m)"
  unfolding on_error_def by (rule keeps_wrap)

lemma keeps_update_issue:
  assumes "may_write watch org" and "(is_id x, f) \<in> J"
  shows "keeps (working env watch members org p J) (update_issue x)"
  unfolding update_issue_def
proof (intro keeps_rules)
  fix t d d' and u :: unit
  assume w: "working env watch members org p J d" and "(if is_id x \<in> set (map is_id (ct_issues d)) \<and> \<not> (refers (is_resolved_by x) (ct_users d) \<and> refers (is_assigned_to x) (ct_users d))
      then Inl ''FOREIGN KEY constraint failed''
      else Inr ((), d\<lparr>ct_issues := map (\<lambda>y. if is_id y = is_id x then overwrite_issue t x y else y) (ct_issues d)\<rparr>)) = Inr (u, d')"
  then have "d' = d\<lparr>ct_issues := map (\<lambda>y. if is_id y = is_id x then overwrite_issue t x y else y) (ct_issues d)\<rparr>" by (simp split: if_splits)
  then show "working env watch members org p J d'" using assms
    by (auto simp: overwrite_issue_def intro!: working_map_issues [OF w, where i = "is_id x"])
qed

lemma keeps_add_issue_person:
  assumes "may_write watch org" and "(i, f) \<in> J"
  shows "keeps (working env watch members org p J) (add_issue_person i person)"
  unfolding add_issue_person_def
proof (intro keeps_rules)
  fix t d d' and u :: unit
  assume w: "working env watch members org p J d" and "(if list_ex (\<lambda>r. fst r = i \<and> fst (snd r) = person) (ct_issue_persons d) then Inr ((), d)
       else if i \<notin> set (map is_id (ct_issues d)) then Inl ''FOREIGN KEY constraint failed''
       else Inr ((), d\<lparr>ct_issue_persons := ct_issue_persons d @ [(i, person, t)]\<rparr>)) = Inr (u, d')"
  moreover have "has_issue d org p i f" using w assms(2) by (auto simp: working_def)
  ultimately show "working env watch members org p J d'" using assms(1) guarded_add_person [of env watch members d i person org p f t]
    by (auto simp: working_def split: if_splits)
next
  fix t d d' and u :: unit
  assume w: "working env watch members org p J d" and "Inr ((), d\<lparr>ct_issues :=
       map (\<lambda>y. if is_id y = i then y\<lparr>is_user_count := of_nat (length (persons_of d i)), is_updated_at := t\<rparr> else y) (ct_issues d)\<rparr>) = Inr (u, d')"
  then show "working env watch members org p J d'" using assms by (auto intro!: working_map_issues [OF w, where i = i])
qed

lemma safe_create_issue:
  assumes "working env watch members org p J d" and "may_write watch org" and "is_org_id x = org" and "is_project_id x = p"
  shows "safe True (create_issue x) d (\<lambda>_. working env watch members org p (insert (is_id x, is_fingerprint x) J)) (\<lambda>_. working env watch members org p J)"
  unfolding create_issue_def
  by (rule safe_query) (use assms in \<open>auto simp: working_def has_issue_add intro: guarded_add_issue split: if_splits\<close>)

lemma safe_create_event:
  assumes "working env watch members org p J d" and "may_write watch org" and "ce_org_id e = org" and "ce_project_id e = p"
    and "ce_issue_id e = Some i" and "(i, compute_fingerprint env e) \<in> J"
  shows "safe True (create_event e) d (\<lambda>_. working env watch members org p J) (\<lambda>_. working env watch members org p J)"
  unfolding create_event_def
  by (rule safe_query) (use assms in \<open>auto simp: working_def intro!: guarded_add_event split: if_splits\<close>)

lemma keeps_create_release:
  assumes "may_write watch org" and "rl_org_id r = org" and "rl_project_id r = p"
  shows "keeps (working env watch members org p J) (create_release r)"
  unfolding create_release_def
  by (rule keeps_query) (use assms in \<open>auto simp: working_def intro!: guarded_add_release split: if_splits\<close>)

lemma keeps_get_or_create_release:
  "may_write watch org \<Longrightarrow> keeps (working env watch members org p J) (get_or_create_release p org version)"
  unfolding get_or_create_release_def Let_def by (intro keeps_rules keeps_create_release) (simp_all add: fresh_release_def)

lemma keeps_increment_release:
  assumes "may_write watch org"
  shows "keeps (working env watch members org p J) (increment_release_crash_count p version a b)"
  unfolding increment_release_crash_count_def
proof (intro keeps_rules, goal_cases)
  case (1 t d u d')
  let ?g = "\<lambda>r. if rl_project_id r = p \<and> rl_version r = version
       then r\<lparr>rl_crash_count := rl_crash_count r + 1, rl_last_event := Some t,
              rl_first_event := (case rl_first_event r of None \<Rightarrow> Some t | Some s \<Rightarrow> Some s),
              rl_new_issue_count := (if a then rl_new_issue_count r + 1 else rl_new_issue_count r),
              rl_regression_count := (if b then rl_regression_count r + 1 else rl_regression_count r)\<rparr>
       else r"
  have "?g r = r" if "r \<in> set (ct_releases d)" "\<not> may_write watch (rl_org_id r)" for r
  proof -
    have "owns d (rl_org_id r) (rl_project_id r)" using 1(1) that(1) by (auto simp: working_def guarded_def conforms_def releases_conform_def)
    then show ?thesis using that(2) assms project_org [OF 1(1), of "rl_org_id r"] by auto
  qed
  then have "guarded env watch members (d\<lparr>ct_releases := map ?g (ct_releases d)\<rparr>)"
    using 1(1) by (intro guarded_map_releases) (auto simp: working_def)
  with 1 show ?case by (auto simp: working_def)
qed

lemma keeps_broadcast:
  assumes "may_write watch org"
  shows "keeps (working env watch members org p J) (broadcast p ev)"
  unfolding broadcast_def
proof (rule keeps_modify)
  fix d
  assume w: "working env watch members org p J d"
  have "\<not> owns d org' p" if "\<not> may_write watch org'" for org' using project_org [OF w, of org'] assms that by auto
  then have "guarded env watch members (d\<lparr>ct_channels := map (\<lambda>(q, sent). (q, if q = p then sent @ [ev] else sent)) (ct_channels d)\<rparr>)"
    using w by (intro guarded_channels filter_map_same) (auto simp: working_def)
  then show "working env watch members org p J (d\<lparr>ct_channels := map (\<lambda>(q, sent). (q, if q = p then sent @ [ev] else sent)) (ct_channels d)\<rparr>)"
    using w by (simp add: working_def)
qed

lemma keeps_subscribe:
  assumes "may_write watch org"
  shows "keeps (working env watch members org p J) (subscribe p)"
  unfolding subscribe_def
proof (rule keeps_modify)
  fix d
  assume w: "working env watch members org p J d"
  have "\<not> owns d org' p" if "\<not> may_write watch org'" for org' using project_org [OF w, of org'] assms that by auto
  then have "guarded env watch members (d\<lparr>ct_channels := ct_channels d @ [(p, [])]\<rparr>)"
    using w by (intro guarded_channels) (auto simp: working_def)
  then show "working env watch members org p J (case map_of (ct_channels d) p of None \<Rightarrow> d\<lparr>ct_channels := ct_channels d @ [(p, [])]\<rparr> | Some _ \<Rightarrow> d)"
    using w by (simp add: working_def split: option.split)
qed

section \<open>Capturing\<close>

lemma artifact_org:
  assumes "working env watch members org p J d" and "a \<in> set (ct_artifacts d)" and "sa_project_id a = p"
    and "b \<in> set (ct_artifacts d)" and "sa_id b = sa_id a"
  shows "sa_org_id b = org"
proof -
  have conf: "conforms env d" using assms(1) by (simp add: working_def guarded_def)
  then have "b = a" using same_row [of sa_id "ct_artifacts d" b a] assms(2,4,5) by (auto simp: conforms_def artifacts_conform_def)
  moreover have "owns d (sa_org_id a) p" using conf assms(2,3) by (auto simp: conforms_def artifacts_conform_def)
  ultimately show ?thesis using project_org [OF assms(1)] by simp
qed

lemma safe_touch_artifact:
  assumes w: "working env watch members org p J d" and "may_write watch org" and a: "a \<in> set (ct_artifacts d)" "sa_project_id a = p"
  shows "safe True (update_artifact_last_accessed (sa_id a)) d (\<lambda>_. working env watch members org p J) (\<lambda>_. working env watch members org p J)"
  unfolding update_artifact_last_accessed_def
proof (intro safe_bind safe_now safe_query)
  fix t d' and u :: unit
  let ?g = "\<lambda>b. if sa_id b = sa_id a then b\<lparr>sa_last_accessed_at := Some t\<rparr> else b"
  have "?g b = b" if "b \<in> set (ct_artifacts d)" "\<not> may_write watch (sa_org_id b)" for b
    using artifact_org [OF w a that(1)] that(2) assms(2) by auto
  then have "guarded env watch members (d\<lparr>ct_artifacts := map ?g (ct_artifacts d)\<rparr>)"
    using w by (intro guarded_map_artifacts) (auto simp: working_def)
  moreover assume "Inr ((), d\<lparr>ct_artifacts := map ?g (ct_artifacts d)\<rparr>) = Inr (u, d')"
  ultimately show "working env watch members org p J d'" using w by (auto simp: working_def)
qed (use w in simp_all)

lemma artifact_row_Some: "artifact_row d p release name dist = Some a \<Longrightarrow> a \<in> set (ct_artifacts d) \<and> sa_project_id a = p"
  by (auto simp: artifact_row_def find_Some_iff)

lemma as_source_map_Some: "as_source_map a = Some b \<Longrightarrow> b = a"
  by (simp add: as_source_map_def split: if_splits)

lemma safe_find_frame_map:
  assumes "I d"
  shows "safe True (find_frame_map p release dist filename) d (\<lambda>r d'. d' = d \<and> (\<forall>a. r = Some a \<longrightarrow> a \<in> set (ct_artifacts d) \<and> sa_project_id a = p)) (\<lambda>_. I)"
  unfolding find_frame_map_def Let_def get_artifact_by_name_def using assms
  by (intro safe_bind safe_attempt safe_read safe_sum safe_option safe_ret)
    (auto dest!: artifact_row_Some as_source_map_Some split: sum.splits option.splits)

lemma keeps_symbolicate_frame:
  assumes "may_write watch org"
  shows "keeps (working env watch members org p J) (symbolicate_stored_frame env p release dist f)"
proof (rule keeps_safe)
  fix d
  assume w: "working env watch members org p J d"
  let ?W = "working env watch members org p J"
  have look: "safe True (bind (find_frame_map p release dist filename) (\<lambda>found. case found of
        None \<Rightarrow> ret f
      | Some a \<Rightarrow> bind (attempt (update_artifact_last_accessed (sa_id a))) (\<lambda>_. k a))) d (\<lambda>_. ?W) (\<lambda>_. ?W)"
    if k: "\<And>a d. ?W d \<Longrightarrow> safe True (k a) d (\<lambda>_. ?W) (\<lambda>_. ?W)" for filename k
    by (rule safe_bind, rule safe_conseq [OF safe_find_frame_map [of ?W, OF w]])
      (auto intro!: safe_option safe_ret safe_bind safe_attempt safe_conseq [OF safe_touch_artifact [OF w assms]] k simp: w)
  show "safe True (symbolicate_stored_frame env p release dist f) d (\<lambda>_. ?W) (\<lambda>_. ?W)"
    unfolding symbolicate_stored_frame_def using w
    by (auto split: option.split sum.split intro!: look safe_ret)
qed

lemma keeps_symbolicate_stored:
  "may_write watch org \<Longrightarrow> keeps (working env watch members org p J) (symbolicate_stored env frames platform p release dist)"
  unfolding symbolicate_stored_def by (cases platform) (auto intro!: keeps_rules keeps_symbolicate_frame)

lemma safe_symbolicate_event:
  assumes "working env watch members org p J d" and "may_write watch org"
  shows "safe True (symbolicate_event env e p) d (\<lambda>e' d'. working env watch members org p J d' \<and> ce_org_id e' = ce_org_id e
     \<and> ce_project_id e' = ce_project_id e) (\<lambda>_. working env watch members org p J)"
  unfolding symbolicate_event_def
  by (intro safe_option safe_bind safe_attempt safe_ret; (rule safe_conseq [OF safe_keeps [OF keeps_symbolicate_stored [OF assms(2)] assms(1)]])?)
    (auto intro!: safe_sum safe_if safe_ret simp: assms(1))

text \<open>Reading the request leaves the tables alone.\<close>

lemma keeps_read_time [keeps_rules]: "keeps I (read_time env s)"
  unfolding read_time_def by (intro keeps_rules)

lemma keeps_convert_breadcrumb [keeps_rules]: "keeps I (convert_breadcrumb env b)"
  unfolding convert_breadcrumb_def by (intro keeps_rules)

lemma safe_convert:
  assumes "I d"
  shows "safe True (convert_capture_request env body org p) d (\<lambda>e d'. I d' \<and> ce_org_id e = org \<and> ce_project_id e = p) (\<lambda>_. I)"
  unfolding convert_capture_request_def
  by (intro safe_bind_keeps [of I] safe_ret conjI keeps_rules) (auto intro!: keeps_rules assms split: option.split)

lemma keeps_track_person:
  "may_write watch org \<Longrightarrow> (i, f) \<in> J \<Longrightarrow> keeps (working env watch members org p J) (track_person i e)"
  unfolding track_person_def by (intro keeps_rules keeps_add_issue_person)

lemma keeps_next_short_id [keeps_rules]: "keeps I (get_next_short_id env p)"
  unfolding get_next_short_id_def Let_def by (intro keeps_rules)

lemma issue_row_Some:
  assumes "working env watch members org p {} d" and "issue_row d p f = Some x"
  shows "working env watch members org p {(is_id x, f)} d"
proof -
  have x: "x \<in> set (ct_issues d)" "is_project_id x = p" "is_fingerprint x = f" using assms(2) by (auto simp: issue_row_def find_Some_iff)
  moreover have "owns d (is_org_id x) p" using assms(1) x by (auto simp: working_def guarded_def conforms_def issues_conform_def)
  ultimately show ?thesis using assms(1) project_org [OF assms(1), of "is_org_id x"] by (auto simp: working_def has_issue_def)
qed

text \<open>The issue an event belongs to is in the tables, and has its fingerprint, when it comes to storing the event.\<close>

abbreviation outcome_ok :: "'j crash_env \<Rightarrow> 'j watch \<Rightarrow> (uuid \<times> uuid) list \<Rightarrow> uuid \<Rightarrow> uuid \<Rightarrow> string \<Rightarrow> issue \<times> bool \<times> bool \<Rightarrow> 'j crash_tables \<Rightarrow> bool" where
  "outcome_ok env watch members org p f r \<equiv> working env watch members org p {(is_id (fst r), f)}"

lemma safe_new_issue:
  assumes "working env watch members org p {} d" and "may_write watch org" and "is_org_id x = org" and "is_project_id x = p"
  shows "safe True (bind (on_error pn err (create_issue x)) (\<lambda>_. bind (track_person (is_id x) e) (\<lambda>_. ret (x, True, False)))) d
    (outcome_ok env watch members org p (is_fingerprint x)) (\<lambda>_. working env watch members org p {})"
proof (rule safe_bind)
  show "safe True (on_error pn err (create_issue x)) d
    (\<lambda>_ d'. safe True (bind (track_person (is_id x) e) (\<lambda>_. ret (x, True, False))) d' (outcome_ok env watch members org p (is_fingerprint x))
       (\<lambda>_. working env watch members org p {})) (\<lambda>_. working env watch members org p {})"
    unfolding on_error_def
    by (rule safe_map_err, rule safe_conseq [OF safe_create_issue [OF assms]])
      (auto intro!: safe_bind_keeps [OF keeps_track_person [OF assms(2)]] safe_ret intro: working_mono)
qed

lemma new_issue_keys [simp]:
  "is_id (new_issue i t t' s f title culprit org p e) = i" "is_org_id (new_issue i t t' s f title culprit org p e) = org"
  "is_project_id (new_issue i t t' s f title culprit org p e) = p" "is_fingerprint (new_issue i t t' s f title culprit org p e) = f"
  by (simp_all add: new_issue_def)

lemma safe_find_or_create:
  assumes w: "working env watch members org p {} d" and m: "may_write watch org" and "ce_org_id e = org"
  shows "safe True (find_or_create_issue pn err env e p f) d (outcome_ok env watch members org p f) (\<lambda>_. working env watch members org p {})"
  unfolding find_or_create_issue_def get_issue_by_fingerprint_def on_error_def [of _ "err ''find issue''"]
proof (rule safe_bind, rule safe_map_err, rule safe_read, goal_cases)
  case 2
  show ?case
  proof (rule safe_option, goal_cases)
  case 1
  show ?case unfolding Let_def
    by (rule safe_bind_keeps [where I = "working env watch members org p {}", OF keeps_on_error [OF keeps_next_short_id]],
        simp add: w, intro safe_option safe_fail safe_bind [OF safe_draw_uuid] safe_bind [OF safe_now])
      (assumption | rule safe_conseq [OF safe_new_issue [OF _ m]] | simp add: assms(3))+
next
  case (2 x)
  let ?W = "working env watch members org p {(is_id x, f)}"
  have x: "?W d" using issue_row_Some [OF w] 2 by simp
  have E: "?W d' \<Longrightarrow> working env watch members org p {} d'" for d' by (rule working_mono) auto
  have rest: "safe True (bind (on_error pn (err ''update issue'') (update_issue y)) (\<lambda>_. bind (track_person (is_id y) e) (\<lambda>_.
      bind (if a then broadcast_regression p y else ret ()) (\<lambda>_. ret (y, False, a))))) d (outcome_ok env watch members org p f) (\<lambda>_. working env watch members org p {})"
    if "is_id y = is_id x" for y a
    using that unfolding broadcast_regression_def
    by (intro safe_bind_keeps [of ?W] keeps_on_error keeps_update_issue [OF m] keeps_track_person [OF m] keeps_cases(1) keeps_broadcast [OF m] keeps_simple safe_ret)
      (auto simp: x dest: E)
  show ?case unfolding Let_def
    by (rule safe_bind, rule safe_if, rule safe_bind, rule safe_now) (rule safe_ret, rule rest, simp)+
  qed
qed (use w in simp_all)

lemma keeps_track_release:
  "may_write watch org \<Longrightarrow> ce_org_id e = org \<Longrightarrow> keeps (working env watch members org p J) (track_release e p a b)"
  unfolding track_release_def by (intro keeps_rules keeps_increment_release) (auto intro: keeps_get_or_create_release)

lemma safe_store_event:
  assumes w: "outcome_ok env watch members org p (compute_fingerprint env e) r d" and m: "may_write watch org"
    and e: "ce_org_id e = org" "ce_project_id e = p"
  shows "safe True (store_event pn err e p r) d (\<lambda>_. working env watch members org p {}) (\<lambda>_. working env watch members org p {})"
proof -
  let ?W = "working env watch members org p {(is_id (fst r), compute_fingerprint env e)}"
  have E: "?W d' \<Longrightarrow> working env watch members org p {} d'" for d' by (rule working_mono) auto
  have "safe True (create_event (e\<lparr>ce_issue_id := Some (is_id (fst r))\<rparr>)) d (\<lambda>_. ?W) (\<lambda>_. ?W)"
    using e by (intro safe_create_event [OF w m]) simp_all
  from this have "safe True (store_event pn err e p r) d (\<lambda>_. ?W) (\<lambda>_. ?W)"
    unfolding store_event_def broadcast_new_crash_def on_error_def split_beta Let_def
    by (rule safe_bind [OF safe_map_err [OF safe_conseq]])
      (assumption | rule safe_bind_keeps [of ?W] keeps_track_release [OF m] keeps_broadcast [OF m] safe_ret | simp add: e)+
  then show ?thesis by (rule safe_conseq) (auto dest: E)
qed

text \<open>What all captures have in common.\<close>

lemma safe_capture:
  fixes env :: "'j crash_env"
  assumes w: "working env watch members org p {} d" and m: "may_write watch org"
    and find: "\<And>e d. working env watch members org p {} d \<Longrightarrow> ce_org_id e = org \<Longrightarrow> ce_project_id e = p \<Longrightarrow>
      safe True (F e) d (outcome_ok env watch members org p (compute_fingerprint env e)) (\<lambda>_. working env watch members org p {})"
    and K: "\<And>e r d. outcome_ok env watch members org p (compute_fingerprint env e) r d \<Longrightarrow> ce_org_id e = org \<Longrightarrow> ce_project_id e = p \<Longrightarrow>
      safe True (K e r) d Q E"
    and E: "\<And>err d. working env watch members org p {} d \<Longrightarrow> E err d"
  shows "safe True (bind (convert_capture_request env body org p) (\<lambda>c. bind (symbolicate_event env c p) (\<lambda>e. bind (F e) (K e)))) d Q E"
proof (rule safe_bind, rule safe_conseq [OF safe_convert [of "working env watch members org p {}", OF w]], elim conjE)
  fix c :: "'j crash_event" and d' :: "'j crash_tables"
  assume c: "working env watch members org p {} d'" "ce_org_id c = org" "ce_project_id c = p"
  show "safe True (bind (symbolicate_event env c p) (\<lambda>e. bind (F e) (K e))) d' Q E"
  proof (rule safe_bind, rule safe_conseq [OF safe_symbolicate_event [OF c(1) m]], elim conjE)
    fix e :: "'j crash_event" and d'' :: "'j crash_tables"
    assume e: "working env watch members org p {} d''" "ce_org_id e = ce_org_id c" "ce_project_id e = ce_project_id c"
    with c have e': "ce_org_id e = org" "ce_project_id e = p" by simp_all
    show "safe True (bind (F e) (K e)) d'' Q E"
      by (rule safe_bind, rule safe_conseq [OF find [OF e(1) e']]) (auto intro: K [OF _ e'] E)
  qed (rule E)
qed (rule E)

lemma safe_captured:
  assumes "working env watch members org p {} d" and "may_write watch org"
    and "\<And>e d. working env watch members org p {} d \<Longrightarrow> ce_org_id e = org \<Longrightarrow> ce_project_id e = p \<Longrightarrow>
      safe True (F e) d (outcome_ok env watch members org p (compute_fingerprint env e)) (\<lambda>_. working env watch members org p {})"
  shows "safe True (bind (convert_capture_request env body org p) (\<lambda>c. bind (symbolicate_event env c p) (\<lambda>e. bind (F e) (\<lambda>r.
      bind (store_event pn err e p r) (\<lambda>s. ret (k s)))))) d (\<lambda>_. guarded env watch members) (\<lambda>_. guarded env watch members)"
  by (rule safe_capture [OF assms(1,2,3)], assumption+, rule safe_bind, rule safe_conseq [OF safe_store_event [OF _ assms(2)]])
    (auto intro!: safe_ret dest: working_guarded)

section \<open>Authorization\<close>

text \<open>The watched organization is one the user is not a member of.\<close>

definition outsider :: "'j watch \<Rightarrow> (uuid \<times> uuid) list \<Rightarrow> current_user \<Rightarrow> bool" where
  "outsider watch members user \<longleftrightarrow> (\<forall>org. (org, cu_id user) \<in> set members \<longrightarrow> may_write watch org)"

lemma project_row_owns: "project_row d p = Some q \<Longrightarrow> cp_id q = p \<and> owns d (cp_org_id q) p"
  by (auto simp: project_row_def owns_def find_Some_iff)

lemma safe_verify_membership:
  assumes "guarded env watch members d" and "outsider watch members user"
  shows "safe True (verify_org_membership env org user) d (\<lambda>_ d'. d' = d \<and> may_write watch org) (\<lambda>_. guarded env watch members)"
  unfolding verify_org_membership_def get_membership_def on_error_def
  by (rule safe_bind, rule safe_map_err, rule safe_read, rule assms(1), rule safe_if)
    (use assms in \<open>auto intro!: safe_ret safe_fail simp: outsider_def guarded_def\<close>)

lemma safe_lookup_project:
  assumes g: "guarded env watch members d"
    and some: "\<And>q. cp_id q = p \<Longrightarrow> working env watch members (cp_org_id q) p {} d \<Longrightarrow> safe True (f q) d (\<lambda>_. guarded env watch members) (\<lambda>_. guarded env watch members)"
  shows "safe True (bind (on_error pn h (get_project_by_id p)) (\<lambda>found. case found of None \<Rightarrow> fail none | Some q \<Rightarrow> f q)) d
    (\<lambda>_. guarded env watch members) (\<lambda>_. guarded env watch members)"
  unfolding get_project_by_id_def on_error_def
  by (rule safe_bind, rule safe_map_err, rule safe_read, simp add: g, rule safe_option)
    (auto intro!: safe_fail some dest!: project_row_owns simp: working_def g)

lemma safe_authorized:
  assumes g: "guarded env watch members d" and "outsider watch members user"
    and "\<And>q d'. cp_id q = p \<Longrightarrow> may_write watch (cp_org_id q) \<Longrightarrow> working env watch members (cp_org_id q) p {} d' \<Longrightarrow>
      safe True (f q) d' (\<lambda>_. guarded env watch members) (\<lambda>_. guarded env watch members)"
  shows "safe True (bind (get_project_with_auth env p user) f) d (\<lambda>_. guarded env watch members) (\<lambda>_. guarded env watch members)"
proof (rule safe_bind)
  have "safe True (get_project_with_auth env p user) d (\<lambda>q d'. cp_id q = p \<and> may_write watch (cp_org_id q) \<and> working env watch members (cp_org_id q) p {} d')
      (\<lambda>_. guarded env watch members)"
    unfolding get_project_with_auth_def get_project_by_id_def on_error_def
    by (rule safe_bind, rule safe_map_err, rule safe_read, simp add: g, rule safe_option, rule safe_fail, rule g, rule safe_bind,
        rule safe_conseq [OF safe_verify_membership [OF g assms(2)]])
      (auto intro!: safe_ret dest!: project_row_owns simp: working_def g)
  then show "safe True (get_project_with_auth env p user) d (\<lambda>q d'. safe True (f q) d' (\<lambda>_. guarded env watch members) (\<lambda>_. guarded env watch members))
      (\<lambda>_. guarded env watch members)"
    by (rule safe_conseq) (auto intro: assms(3))
qed

lemma keeps_parse_id [keeps_rules]: "keeps I (parse_id env err msg s)"
  unfolding parse_id_def by (intro keeps_rules)

lemma keeps_parse_ids [keeps_rules]:
  "keeps I (parse_project_id env s)" "keeps I (parse_issue_id env s)" "keeps I (parse_event_id env s)" "keeps I (parse_artifact_id env s)"
  "keeps I (parse_api_key_id env s)"
  unfolding parse_project_id_def parse_issue_id_def parse_event_id_def parse_artifact_id_def parse_api_key_id_def by (rule keeps_parse_id)+

text \<open>Past the parsing of the identifiers.\<close>

lemmas safe_parsed = safe_bind_keeps [of "guarded env watch members" _ _ True _ "\<lambda>_. guarded env watch members" "\<lambda>_. guarded env watch members"]
  for env :: "'j crash_env" and watch members

lemma find_row: "List.find P xs = Some x \<Longrightarrow> x \<in> set xs \<and> P x"
  by (auto simp: find_Some_iff)

lemma known_issue:
  assumes w: "working env watch members org p {} d" and x: "x \<in> set (ct_issues d)" "is_project_id x = p"
  shows "working env watch members org p {(is_id x, is_fingerprint x)} d"
proof -
  have "owns d (is_org_id x) p" using w x by (auto simp: working_def guarded_def conforms_def issues_conform_def)
  then show ?thesis using w x project_org [OF w] by (auto simp: working_def has_issue_def)
qed

lemma safe_issue_for_project:
  assumes w: "working env watch members org p {} d"
    and f: "\<And>x d'. is_project_id x = p \<Longrightarrow> working env watch members org p {(is_id x, is_fingerprint x)} d' \<Longrightarrow>
      safe True (f x) d' (\<lambda>_. guarded env watch members) (\<lambda>_. guarded env watch members)"
  shows "safe True (bind (get_issue_for_project env p i l) f) d (\<lambda>_. guarded env watch members) (\<lambda>_. guarded env watch members)"
  unfolding get_issue_for_project_def get_issue_by_id_def on_error_def
proof (rule safe_bind, rule safe_bind, rule safe_map_err, rule safe_read, simp add: working_guarded [OF w], rule safe_option)
  fix x
  assume "List.find (\<lambda>x. is_id x = i) (ct_issues d) = Some x"
  then have x: "x \<in> set (ct_issues d)" by (simp add: find_row)
  show "safe True (if is_project_id x \<noteq> p then fail (not_found ''issue'') else ret x) d
    (\<lambda>x d'. safe True (f x) d' (\<lambda>_. guarded env watch members) (\<lambda>_. guarded env watch members)) (\<lambda>_. guarded env watch members)"
    by (rule safe_if, rule safe_fail, rule working_guarded [OF w], rule safe_ret, rule f) (simp_all add: known_issue [OF w x])
qed (rule safe_fail, rule working_guarded [OF w])

lemma safe_with_issue:
  assumes g: "guarded env watch members d" and out: "outsider watch members user"
    and f: "\<And>p org x d'. may_write watch org \<Longrightarrow> is_project_id x = p \<Longrightarrow> working env watch members org p {(is_id x, is_fingerprint x)} d' \<Longrightarrow>
      safe True (f p x) d' (\<lambda>_. guarded env watch members) (\<lambda>_. guarded env watch members)"
  shows "safe True (with_issue env user ps is f) d (\<lambda>_. guarded env watch members) (\<lambda>_. guarded env watch members)"
  unfolding with_issue_def
  by (rule safe_parsed, rule keeps_parse_ids, rule g, rule safe_parsed, rule keeps_parse_ids, assumption,
      rule safe_authorized [OF _ out], assumption, rule safe_issue_for_project, assumption, rule f)

section \<open>Capturing with an API key\<close>

lemma safe_count_person:
  assumes "working env watch members org p J d" and "may_write watch org" and "(is_id x, f) \<in> J"
  shows "safe True (count_person x e) d (\<lambda>y d'. working env watch members org p J d' \<and> is_id y = is_id x) (\<lambda>_. working env watch members org p J)"
  unfolding count_person_def issue_has_person_def
  by (rule safe_option, rule safe_ret, simp add: assms(1), rule safe_bind, rule safe_attempt, rule safe_read, intro safe_if)
    (auto intro!: safe_ret safe_bind_keeps [OF keeps_wrap(1) [OF keeps_add_issue_person [OF assms(2,3)]]] safe_if simp: assms(1))

lemma safe_sdk_find_or_create:
  assumes w: "working env watch members (cp_org_id q) (cp_id q) {} d" and m: "may_write watch (cp_org_id q)"
  shows "safe True (sdk_find_or_create_issue env e q f) d (outcome_ok env watch members (cp_org_id q) (cp_id q) f)
    (\<lambda>_. working env watch members (cp_org_id q) (cp_id q) {})"
proof -
  let ?N = "working env watch members (cp_org_id q) (cp_id q) {}" and ?G = "outcome_ok env watch members (cp_org_id q) (cp_id q) f"
  have fresh: "safe True (bind (on_error Panicked (\<lambda>_. server_error) (get_next_short_id env (cp_id q))) (\<lambda>short_id.
      bind draw_uuid (\<lambda>i. bind now (\<lambda>t. bind now (\<lambda>t'.
      let x = new_issue i t t' short_id f (ce_exception_type e @ '': '' @ ce_exception_value e) (sdk_culprit e) (cp_org_id q) (cp_id q) e in
      bind (on_error Panicked (\<lambda>_. server_error) (create_issue x)) (\<lambda>_. bind (track_person (is_id x) e) (\<lambda>_. ret (x, True, False)))))))) d ?G (\<lambda>_. ?N)"
    unfolding Let_def
    by (rule safe_bind_keeps [where I = ?N, OF keeps_on_error [OF keeps_next_short_id]], simp add: w,
        intro safe_bind [OF safe_draw_uuid] safe_bind [OF safe_now])
      (assumption | rule safe_conseq [OF safe_new_issue [OF _ m]] | simp)+
  have known: "safe True (bind now (\<lambda>t. bind (count_person (g t) e) (\<lambda>y.
      bind (on_error Panicked (\<lambda>_. server_error) (update_issue y)) (\<lambda>_. ret (y, False, a))))) d ?G (\<lambda>_. ?N)"
    if x: "issue_row d (cp_id q) f = Some x" and g: "\<And>t. is_id (g t) = is_id x" for x g a
  proof (rule safe_bind, rule safe_now, rule safe_bind)
    fix t
    let ?W = "working env watch members (cp_org_id q) (cp_id q) {(is_id x, f)}"
    have "?W d" using issue_row_Some [OF w x] .
    then have "safe True (count_person (g t) e) d (\<lambda>y d'. ?W d' \<and> is_id y = is_id x) (\<lambda>_. ?W)"
      using safe_count_person [OF _ m, of env members "cp_id q" "{(is_id x, f)}" d "g t" f e] g by simp
    then show "safe True (count_person (g t) e) d (\<lambda>y d'. safe True (bind (on_error Panicked (\<lambda>_. server_error) (update_issue y)) (\<lambda>_. ret (y, False, a))) d' ?G (\<lambda>_. ?N))
        (\<lambda>_. ?N)"
      by (rule safe_conseq)
        (auto intro!: safe_bind_keeps [of ?W] keeps_on_error keeps_update_issue [OF m] safe_ret intro: working_mono)
  qed
  show ?thesis unfolding sdk_find_or_create_issue_def get_issue_by_fingerprint_def Let_def [of "cp_id q"] Let_def [of "\<lambda>_. server_error"]
  proof (rule safe_bind, rule safe_attempt, rule safe_read, simp only: sum.case, rule fresh, simp only: sum.case, rule safe_option)
    show "safe True (bind (on_error Panicked (\<lambda>_. server_error) (get_next_short_id env (cp_id q))) (\<lambda>short_id.
      bind draw_uuid (\<lambda>i. bind now (\<lambda>t. bind now (\<lambda>t'.
      let x = new_issue i t t' short_id f (ce_exception_type e @ '': '' @ ce_exception_value e) (sdk_culprit e) (cp_org_id q) (cp_id q) e in
      bind (on_error Panicked (\<lambda>_. server_error) (create_issue x)) (\<lambda>_. bind (track_person (is_id x) e) (\<lambda>_. ret (x, True, False)))))))) d ?G (\<lambda>_. ?N)"
      by (rule fresh)
  qed (unfold Let_def, rule known, assumption, simp)
qed

end
