(* ===== verification/CrashRequests.thy ===== *)
theory CrashRequests
  imports CrashCorrect
begin

text \<open>
  Every request of the crash API keeps the tables guarded, and what follows: the tables conform after any requests and failures, events are grouped by
  fingerprint, an organization is out of reach of strangers, a capture does what it reports.
\<close>

section \<open>Every request\<close>

abbreviation contained :: "'j crash_env \<Rightarrow> 'j watch \<Rightarrow> (uuid \<times> uuid) list \<Rightarrow> ('j crash_tables, 'e, 'a) action \<Rightarrow> 'j crash_tables \<Rightarrow> bool" where
  "contained env watch members m d \<equiv> safe True m d (\<lambda>_. guarded env watch members) (\<lambda>_. guarded env watch members)"

lemma contained_working:
  "keeps (working env watch members org p J) m \<Longrightarrow> working env watch members org p J d \<Longrightarrow> contained env watch members m d"
  by (rule safe_conseq [OF safe_keeps [of "working env watch members org p J"]]) (auto dest: working_guarded)

lemma contained_keeps: "keeps (guarded env watch members) m \<Longrightarrow> guarded env watch members d \<Longrightarrow> contained env watch members m d"
  by (rule safe_keeps)

text \<open>A handler that parses the project and authorizes the user before it does \<^verbatim>\<open>f\<close>.\<close>

lemma contained_project:
  assumes g: "guarded env watch members d" and out: "outsider watch members user"
    and f: "\<And>p q d'. cp_id q = p \<Longrightarrow> may_write watch (cp_org_id q) \<Longrightarrow> working env watch members (cp_org_id q) p {} d' \<Longrightarrow>
      contained env watch members (f p q) d'"
  shows "contained env watch members (bind (parse_project_id env s) (\<lambda>p. bind (get_project_with_auth env p user) (f p))) d"
  by (rule safe_parsed, rule keeps_parse_ids, rule g, rule safe_authorized [OF _ out], assumption, rule f)

lemma contained_member:
  assumes g: "guarded env watch members d" and out: "outsider watch members user"
    and f: "may_write watch org \<Longrightarrow> contained env watch members f d"
  shows "contained env watch members (bind (verify_org_membership env org user) (\<lambda>_. f)) d"
  by (rule safe_bind, rule safe_conseq [OF safe_verify_membership [OF g out]]) (auto intro: f g)

subsection \<open>Reads\<close>

lemma contained_project_read:
  assumes "guarded env watch members d" and "outsider watch members user" and "\<And>p q. keeps (guarded env watch members) (f p q)"
  shows "contained env watch members (bind (parse_project_id env s) (\<lambda>p. bind (get_project_with_auth env p user) (f p))) d"
  using assms by (intro contained_project contained_keeps) (auto dest: working_guarded)

lemma contained_reads:
  assumes g: "guarded env watch members d" and out: "outsider watch members user"
  shows "contained env watch members (get_project_route env user s) d" "contained env watch members (list_issues_route env user s) d"
    "contained env watch members (list_events_route env user s m n) d" "contained env watch members (list_releases_route env user s) d"
    "contained env watch members (get_release_route env user s v) d" "contained env watch members (list_artifacts_route env user s r m) d"
    "contained env watch members (list_api_keys_route env user s) d"
  unfolding get_project_route_def list_issues_route_def list_events_route_def list_releases_route_def get_release_route_def
    list_artifacts_route_def list_api_keys_route_def
  by (rule contained_project_read [OF g out], intro keeps_rules)+

lemma contained_get_event:
  assumes g: "guarded env watch members d" and out: "outsider watch members user"
  shows "contained env watch members (get_event_route env user s i) d"
  unfolding get_event_route_def
  by (rule safe_parsed, rule keeps_parse_ids, rule g, rule safe_parsed, rule keeps_parse_ids, assumption, rule safe_authorized [OF _ out], assumption,
      rule contained_keeps, intro keeps_rules, erule working_guarded)

lemma contained_list_projects:
  assumes g: "guarded env watch members d" and out: "outsider watch members user"
  shows "contained env watch members (list_projects_route env user org) d"
  unfolding list_projects_route_def
  by (rule safe_parsed, rule keeps_parse_id, rule g, rule contained_member [OF _ out], assumption, rule contained_keeps, intro keeps_rules, assumption)

subsection \<open>Issues\<close>

lemma contained_issue:
  assumes g: "guarded env watch members d" and out: "outsider watch members user"
    and f: "\<And>p org x. may_write watch org \<Longrightarrow> is_project_id x = p \<Longrightarrow> keeps (working env watch members org p {(is_id x, is_fingerprint x)}) (f p x)"
  shows "contained env watch members (with_issue env user ps is f) d"
  by (rule safe_with_issue [OF g out]) (rule contained_working, rule f)

lemma contained_issue_reads:
  assumes g: "guarded env watch members d" and out: "outsider watch members user"
  shows "contained env watch members (get_issue_route env user s i) d" "contained env watch members (list_issue_events env user s i) d"
  unfolding get_issue_route_def list_issue_events_def by (rule contained_issue [OF g out], intro keeps_rules)+

lemma contained_resolve:
  assumes g: "guarded env watch members d" and out: "outsider watch members user"
  shows "contained env watch members (resolve_issue env user s i r) d"
  unfolding resolve_issue_def broadcast_resolved_def Let_def
  by (rule contained_issue [OF g out], intro keeps_rules, rule keeps_update_issue, assumption, simp, rule keeps_broadcast)

lemma contained_mark:
  assumes g: "guarded env watch members d" and out: "outsider watch members user"
  shows "contained env watch members (unresolve_issue env user s i) d" "contained env watch members (ignore_issue env user s i) d"
    "contained env watch members (assign_issue env user s i who) d"
  unfolding unresolve_issue_def ignore_issue_def assign_issue_def Let_def
  by (rule contained_issue [OF g out], intro keeps_rules, rule keeps_update_issue, assumption, simp)+

lemma working_delete_issue:
  assumes w: "working env watch members org p {(i, f)} d" and "may_write watch org"
  shows "guarded env watch members (drop_issues (\<lambda>x. is_id x = i) d)"
  by (rule guarded_drop_issues [OF working_guarded [OF w]]) (use has_issue_org [OF w] assms(2) in auto)

lemma contained_delete_issue:
  assumes g: "guarded env watch members d" and out: "outsider watch members user"
  shows "contained env watch members (delete_issue_route env user s i) d"
  unfolding delete_issue_route_def
proof (rule safe_with_issue [OF g out])
  fix p org x d'
  assume m: "may_write watch org" and w: "working env watch members org p {(is_id x, is_fingerprint x)} d'"
  then have "guarded env watch members (drop_issues (\<lambda>y. is_id y = is_id x) d')" by (rule working_delete_issue [rotated])
  then have "contained env watch members (delete_issue (is_id x)) d'"
    unfolding delete_issue_def using working_guarded [OF w] by (intro safe_query) auto
  then show "contained env watch members (bind (or_internal env (cu_locale user) (delete_issue (is_id x))) (\<lambda>deleted.
     if deleted then ret NoContentReply else fail (not_found ''issue''))) d'"
    unfolding on_error_def by (rule safe_bind [OF safe_map_err [OF safe_conseq]]) (auto intro!: safe_if safe_ret safe_fail)
qed


subsection \<open>Captures\<close>

lemma contained_captured:
  fixes env :: "'j crash_env"
  assumes w: "working env watch members org p {} d" and m: "may_write watch org"
  shows "contained env watch members (bind (convert_capture_request env body org p) (\<lambda>c. bind (symbolicate_event env c p) (\<lambda>e.
      bind (find_or_create_issue pn err env e p (compute_fingerprint env e)) (\<lambda>r. bind (store_event pn err e p r) (\<lambda>s. ret (k s)))))) d"
  by (rule safe_captured [OF w m]) (rule safe_find_or_create [OF _ m])

lemma contained_capture:
  assumes g: "guarded env watch members d" and out: "outsider watch members user"
  shows "contained env watch members (capture_crash env user body) d"
  unfolding capture_crash_def Let_def
  by (rule safe_parsed, rule keeps_parse_ids, rule g, rule safe_lookup_project, assumption, rule contained_member [OF _ out],
      erule working_guarded, rule contained_captured)

lemma contained_process_single:
  assumes g: "guarded env watch members d" and out: "outsider watch members user"
  shows "contained env watch members (process_single_capture env user body) d"
  unfolding process_single_capture_def
proof (rule safe_option, rule safe_fail, rule g, rule safe_lookup_project [OF g])
  fix p q
  assume w: "working env watch members (cp_org_id q) p {} d"
  have go: "contained env watch members (bind (convert_capture_request env body (cp_org_id q) p) (\<lambda>c. bind (symbolicate_event env c p) (\<lambda>e.
      bind (find_or_create_issue ItemPanicked item_failed env e p (compute_fingerprint env e)) (store_event ItemPanicked item_failed e p)))) d"
    if m: "may_write watch (cp_org_id q)"
    by (rule safe_capture [OF w m], rule safe_find_or_create [OF _ m], assumption, assumption, rule safe_conseq [OF safe_store_event [OF _ m]])
      (auto dest: working_guarded)
  show "contained env watch members (bind (on_error ItemPanicked (item_failed ''check org membership'') (get_membership (cp_org_id q) (cu_id user))) (\<lambda>member.
      if \<not> member then fail (ItemFailed (cv_translate env (cu_locale user) ''server.api.org.not_a_member''))
      else bind (convert_capture_request env body (cp_org_id q) p) (\<lambda>c. bind (symbolicate_event env c p) (\<lambda>e.
        bind (find_or_create_issue ItemPanicked item_failed env e p (compute_fingerprint env e)) (store_event ItemPanicked item_failed e p))))) d"
    unfolding get_membership_def on_error_def
    by (rule safe_bind, rule safe_map_err, rule safe_read, rule g, rule safe_if, rule safe_fail, rule g, rule go)
      (use g out in \<open>auto simp: outsider_def guarded_def\<close>)
qed

lemma contained_batch_item:
  assumes g: "guarded env watch members d" and out: "outsider watch members user"
  shows "contained env watch members (batch_item env user item) d"
  unfolding batch_item_def
  by (rule safe_bind, rule safe_attempt, rule safe_conseq [OF contained_process_single [OF g out]])
    (auto intro!: safe_ret safe_fail split: item_error.split)

lemma contained_batch:
  assumes g: "guarded env watch members d" and out: "outsider watch members user"
  shows "contained env watch members (batch_capture_crash env user bodies) d"
  unfolding batch_capture_crash_def
  by (intro safe_if safe_fail safe_ret g, rule safe_bind, rule safe_conseq [OF safe_for_each [of _ "guarded env watch members"]])
    (auto intro: contained_batch_item [OF _ out] g safe_ret)

subsection \<open>API keys\<close>

lemma crash_key_verified: "verified_key env raw ks = Some k \<Longrightarrow> k \<in> set ks \<and> verified_key env raw [k] = Some k"
  by (induction ks) (auto split: if_splits sum.splits bool.splits)

lemma key_project:
  assumes w: "working env watch members org p J d" and k: "k \<in> set (ct_api_keys d)" "ck_project_id k = p"
    and l: "l \<in> set (ct_api_keys d)" "ck_id l = ck_id k" "owns d org' (ck_project_id l)"
  shows "org' = org"
proof -
  have "l = k" using same_row [of ck_id "ct_api_keys d" l k] w k l by (auto simp: working_def guarded_def conforms_def keys_conform_def)
  then show ?thesis using project_org [OF w] k l by simp
qed

lemma working_map_key:
  assumes w: "working env watch members org p J d" and m: "may_write watch org" and k: "k \<in> set (ct_api_keys d)" "ck_project_id k = p"
    and g: "\<And>l. ck_id (g l) = ck_id l \<and> ck_project_id (g l) = ck_project_id l" "\<And>l. ck_id l \<noteq> ck_id k \<Longrightarrow> g l = l"
  shows "working env watch members org p J (d\<lparr>ct_api_keys := map g (ct_api_keys d)\<rparr>)"
proof -
  have "g l = l" if "l \<in> set (ct_api_keys d)" "owns d org' (ck_project_id l)" "\<not> may_write watch org'" for l org'
    using key_project [OF w k that(1) _ that(2)] g(2) [of l] m that(3) by auto
  from guarded_map_keys [OF working_guarded [OF w] g(1) this] show ?thesis using w by (auto simp: working_def)
qed

text \<open>The keys of the watched organization do not fit: its owners have to keep them secret.\<close>

definition no_key :: "'j crash_env \<Rightarrow> 'j watch \<Rightarrow> string \<Rightarrow> bool" where
  "no_key env watch raw \<longleftrightarrow> (case watch of None \<Rightarrow> True | Some (org, rows) \<Rightarrow> \<forall>k \<in> set (or_keys rows). verified_key env raw [k] = None)"

lemma safe_verify_key:
  assumes w: "working env watch members org p {} d" and no: "no_key env watch raw"
  shows "safe True (verify_project_api_key env p raw) d (\<lambda>_ d'. working env watch members org p {} d' \<and> may_write watch org) (\<lambda>_. guarded env watch members)"
  unfolding verify_project_api_key_def list_api_keys_def on_error_def
proof (rule safe_bind, rule safe_map_err, rule safe_read, rule working_guarded [OF w], rule safe_option, rule safe_fail, rule working_guarded [OF w])
  fix k
  assume "verified_key env raw (sort_key (\<lambda>k. - ck_created_at k) (filter (\<lambda>k. ck_project_id k = p) (ct_api_keys d))) = Some k"
  from crash_key_verified [OF this] have k: "k \<in> set (ct_api_keys d)" "ck_project_id k = p" "verified_key env raw [k] = Some k" by auto
  have "may_write watch org"
  proof (rule ccontr)
    assume "\<not> may_write watch org"
    then obtain rows where rows: "watch = Some (org, rows)" by (auto simp: may_write_def split: option.splits)
    with w have "k \<in> set (or_keys rows)" using k by (auto simp: working_def guarded_def rows_of_def)
    with no rows k(3) show False by (auto simp: no_key_def)
  qed
  note m = this
  have "safe True (update_api_key_last_used (ck_id k)) d (\<lambda>_. working env watch members org p {}) (\<lambda>_. working env watch members org p {})"
    unfolding update_api_key_last_used_def
    by (rule safe_bind, rule safe_now, rule safe_query) (use w working_map_key [OF w m k(1,2)] in auto)
  then show "safe True (bind (attempt (update_api_key_last_used (ck_id k))) (\<lambda>_. ret k)) d (\<lambda>_ d'. working env watch members org p {} d' \<and> may_write watch org)
     (\<lambda>_. guarded env watch members)"
    by (rule safe_bind [OF safe_attempt [OF safe_conseq]]) (auto intro!: safe_ret m)
qed

lemma contained_capture_with_key:
  fixes env :: "'j crash_env"
  assumes g: "guarded env watch members d" and no: "\<And>r. raw = Some r \<Longrightarrow> no_key env watch r"
  shows "contained env watch members (capture_crash_with_api_key env raw body) d"
  unfolding capture_crash_with_api_key_def
proof (rule safe_option, rule safe_fail, rule g, rule safe_parsed, rule keeps_parse_ids, rule g, rule safe_lookup_project, assumption)
  fix r p and d' :: "'j crash_tables" and q :: crash_project
  assume r: "raw = Some r" and q: "cp_id q = p" and w: "working env watch members (cp_org_id q) p {} d'"
  let ?next = "bind (convert_capture_request env body (cp_org_id q) p) (\<lambda>c. bind (symbolicate_event env c p) (\<lambda>e.
      bind (sdk_find_or_create_issue env e q (compute_fingerprint env e)) (\<lambda>o'. bind (store_event Panicked (\<lambda>_ _. server_error) e p o') (\<lambda>s. ret (CapturedReply s)))))"
  have go: "contained env watch members ?next d" if "working env watch members (cp_org_id q) p {} d" "may_write watch (cp_org_id q)" for d
    by (rule safe_captured [OF that]) (rule safe_sdk_find_or_create [of _ _ _ q, unfolded q, OF _ that(2)])
  show "contained env watch members (bind (verify_project_api_key env p r) (\<lambda>api_key. if ck_key_type api_key \<noteq> CaptureKey \<and> ck_key_type api_key \<noteq> AdminKey
     then fail (CrashErrorReply 403 ''forbidden'' ''API key does not have capture permission'') else ?next)) d'"
    by (rule safe_bind, rule safe_conseq [OF safe_verify_key [OF w no [OF r]]])
      (auto intro!: safe_if safe_fail go dest: working_guarded)
qed (erule working_guarded | assumption)+


lemma keeps_create_api_key:
  "may_write watch org \<Longrightarrow> ck_project_id k = p \<Longrightarrow> keeps (working env watch members org p J) (create_api_key k)"
  unfolding create_api_key_def by (rule keeps_query) (auto simp: working_def intro!: guarded_add_key split: if_splits)

lemma contained_create_key:
  assumes g: "guarded env watch members d" and out: "outsider watch members user"
  shows "contained env watch members (create_api_key_route env user s body) d"
  unfolding create_api_key_route_def Let_def
  by (rule contained_project [OF g out], rule contained_working, intro keeps_rules, rule keeps_create_api_key) (assumption | simp)+

lemma contained_revoke_key:
  fixes env :: "'j crash_env"
  assumes g: "guarded env watch members d" and out: "outsider watch members user"
  shows "contained env watch members (revoke_api_key_route env user s i) d"
proof -
  have revoke: "contained env watch members (revoke_api_key j) d'"
    if w: "working env watch members org p {} d'" and m: "may_write watch org" and k: "k \<in> set (ct_api_keys d')" "ck_project_id k = p" "ck_id k = j"
    for org p k j and d' :: "'j crash_tables"
    unfolding revoke_api_key_def Let_def
    by (rule safe_bind, rule safe_now, rule safe_query)
      (use k(3) in \<open>auto intro!: working_guarded [OF working_map_key [OF w m k(1,2)]] working_guarded [OF w]\<close>)
  have key: "contained env watch members (bind (or_internal env l (get_api_key_by_id j)) (\<lambda>found. case found of
        None \<Rightarrow> fail e
      | Some k \<Rightarrow> if ck_project_id k \<noteq> p then fail e else bind (or_internal env l (revoke_api_key j)) (\<lambda>revoked. if revoked then ret x else fail e'))) d'"
    if w: "working env watch members org p {} d'" and m: "may_write watch org" for org p j l e e' x and d' :: "'j crash_tables"
    unfolding get_api_key_by_id_def on_error_def
    by (rule safe_bind, rule safe_map_err, rule safe_read, rule working_guarded [OF w], rule safe_option, rule safe_fail, rule working_guarded [OF w],
        rule safe_if, rule safe_fail, rule working_guarded [OF w], rule safe_bind, rule safe_map_err, rule safe_conseq [OF revoke [OF w m]])
      (auto dest: find_row intro!: safe_if safe_ret safe_fail)
  show ?thesis unfolding revoke_api_key_route_def Let_def
    by (rule safe_parsed, rule keeps_parse_ids, rule g, rule safe_parsed, rule keeps_parse_ids, assumption, rule safe_authorized [OF _ out], assumption,
        rule key)
qed

subsection \<open>Projects and releases\<close>

lemma contained_create_project:
  assumes g: "guarded env watch members d" and out: "outsider watch members user"
  shows "contained env watch members (create_project_route env user body) d"
proof -
  have create: "keeps (guarded env watch members) (create_project p)" if "may_write watch (cp_org_id p)" for p
    unfolding create_project_def by (rule keeps_query) (use that in \<open>auto intro!: guarded_add_project split: if_splits\<close>)
  show ?thesis unfolding create_project_route_def Let_def
    by (rule safe_parsed, rule keeps_parse_id, rule g, rule contained_member [OF _ out], assumption, rule contained_keeps, intro keeps_rules)
      (rule create, simp)
qed

lemma contained_update_project:
  assumes g: "guarded env watch members d" and out: "outsider watch members user"
  shows "contained env watch members (update_project_route env user s name age) d"
proof -
  have update: "keeps (working env watch members org p {}) (update_project q)" if m: "may_write watch org" and q: "cp_id q = p" for org p q
    unfolding update_project_def
  proof (rule keeps_query, goal_cases)
    case (1 d u d')
    let ?g = "\<lambda>r. if cp_id r = cp_id q then r\<lparr>cp_name := cp_name q, cp_auto_resolve_age_days := cp_auto_resolve_age_days q, cp_updated_at := cp_updated_at q\<rparr> else r"
    have "?g r = r" if "r \<in> set (ct_projects d)" "\<not> may_write watch (cp_org_id r)" for r
      using that m q project_org [OF 1(1), of "cp_org_id r"] by (auto simp: owns_def)
    then have "guarded env watch members (d\<lparr>ct_projects := map ?g (ct_projects d)\<rparr>)"
      using 1(1) by (intro guarded_map_projects) (auto simp: working_def)
    then show ?case using 1 owns_map_projects [of ?g d] by (auto simp: working_def)
  qed
  show ?thesis unfolding update_project_route_def Let_def
    by (rule contained_project [OF g out], rule contained_working, intro keeps_rules, rule update) (assumption | simp)+
qed

lemma project_rows:
  assumes w: "working env watch members org p J d"
  shows "x \<in> set (ct_issues d) \<Longrightarrow> is_project_id x = p \<Longrightarrow> is_org_id x = org"
    and "e \<in> set (ct_events d) \<Longrightarrow> ce_project_id e = p \<Longrightarrow> ce_org_id e = org"
    and "r \<in> set (ct_releases d) \<Longrightarrow> rl_project_id r = p \<Longrightarrow> rl_org_id r = org"
    and "a \<in> set (ct_artifacts d) \<Longrightarrow> sa_project_id a = p \<Longrightarrow> sa_org_id a = org"
  using w by (auto simp: working_def guarded_def conform_defs intro!: project_org [OF w])

lemma guarded_delete_project:
  assumes w: "working env watch members org p {} d" and m: "may_write watch org"
  defines "d' \<equiv> drop_issues (\<lambda>x. is_project_id x = p) d"
  shows "guarded env watch members (d'\<lparr>ct_projects := filter (\<lambda>q. cp_id q \<noteq> p) (ct_projects d'),
     ct_events := filter (\<lambda>e. ce_project_id e \<noteq> p) (ct_events d'), ct_releases := filter (\<lambda>r. rl_project_id r \<noteq> p) (ct_releases d'),
     ct_artifacts := filter (\<lambda>a. sa_project_id a \<noteq> p) (ct_artifacts d'), ct_api_keys := filter (\<lambda>k. ck_project_id k \<noteq> p) (ct_api_keys d')\<rparr>)"
proof -
  have "guarded env watch members d'" unfolding d'_def
    by (rule guarded_drop_issues [OF working_guarded [OF w]]) (use project_rows(1) [OF w] m in auto)
  then have w1: "working env watch members org p {} d'" using w by (simp add: working_def d'_def)
  let ?d2 = "d'\<lparr>ct_events := filter (\<lambda>e. ce_project_id e \<noteq> p) (ct_events d')\<rparr>"
  have w2: "working env watch members org p {} ?d2"
    using w1 guarded_filter_events [OF working_guarded [OF w1], of "\<lambda>e. ce_project_id e \<noteq> p"] project_rows(2) [OF w1] m by (auto simp: working_def)
  let ?d3 = "?d2\<lparr>ct_releases := filter (\<lambda>r. rl_project_id r \<noteq> p) (ct_releases ?d2)\<rparr>"
  have w3: "working env watch members org p {} ?d3"
    using w2 guarded_filter_releases [OF working_guarded [OF w2], of "\<lambda>r. rl_project_id r \<noteq> p"] project_rows(3) [OF w2] m by (auto simp: working_def)
  let ?d4 = "?d3\<lparr>ct_artifacts := filter (\<lambda>a. sa_project_id a \<noteq> p) (ct_artifacts ?d3)\<rparr>"
  have w4: "working env watch members org p {} ?d4"
    using w3 guarded_filter_artifacts [OF working_guarded [OF w3], of "\<lambda>a. sa_project_id a \<noteq> p"] project_rows(4) [OF w3] m by (auto simp: working_def)
  let ?d5 = "?d4\<lparr>ct_api_keys := filter (\<lambda>k. ck_project_id k \<noteq> p) (ct_api_keys ?d4)\<rparr>"
  have w5: "working env watch members org p {} ?d5"
    using w4 guarded_filter_keys [OF working_guarded [OF w4], of "\<lambda>k. ck_project_id k \<noteq> p"] project_org [OF w4] m by (auto simp: working_def)
  have "guarded env watch members (?d5\<lparr>ct_projects := filter (\<lambda>q. cp_id q \<noteq> p) (ct_projects ?d5)\<rparr>)"
    by (rule guarded_remove_project [OF working_guarded [OF w5] _ m]) (use w5 in \<open>auto simp: working_def d'_def\<close>)
  then show ?thesis by (rule back_subst) simp
qed

lemma contained_delete_project:
  assumes g: "guarded env watch members d" and out: "outsider watch members user"
  shows "contained env watch members (delete_project_route env user s) d"
  unfolding delete_project_route_def
proof (rule contained_project [OF g out], rule safe_bind)
  fix p q d'
  assume m: "may_write watch (cp_org_id q)" and w: "working env watch members (cp_org_id q) p {} d'"
  have "contained env watch members (delete_project p) d'" unfolding delete_project_def Let_def
    by (rule safe_query) (use working_guarded [OF w] guarded_delete_project [OF w m] in \<open>auto split: if_splits\<close>)
  then show "safe True (or_internal env (cu_locale user) (delete_project p)) d' (\<lambda>deleted d''. contained env watch members
      (if deleted then ret NoContentReply else fail (not_found ''project'')) d'') (\<lambda>_. guarded env watch members)"
    unfolding on_error_def by (intro safe_map_err) (auto elim!: safe_conseq intro!: safe_if safe_ret safe_fail)
qed

lemma contained_create_release:
  assumes g: "guarded env watch members d" and out: "outsider watch members user"
  shows "contained env watch members (create_release_route env user s body) d"
  unfolding create_release_route_def Let_def
  by (rule safe_parsed, rule keeps_parse_ids, rule g, rule safe_if, rule safe_fail, assumption, rule safe_authorized [OF _ out], assumption,
      rule contained_working, intro keeps_rules, rule keeps_create_release)
    (assumption | simp add: fresh_release_def)+


subsection \<open>Artifacts\<close>

lemma keeps_create_artifact:
  "may_write watch org \<Longrightarrow> sa_org_id a = org \<Longrightarrow> sa_project_id a = p \<Longrightarrow> keeps (working env watch members org p J) (create_artifact a)"
  unfolding create_artifact_def by (rule keeps_query) (auto simp: working_def intro!: guarded_add_artifact split: if_splits)

lemma keeps_upload_file:
  assumes m: "may_write watch (cp_org_id q)"
  shows "keeps (working env watch members (cp_org_id q) (cp_id q) {}) (upload_file env user q release dist file)"
  unfolding upload_file_def Let_def
  by (intro keeps_rules keeps_create_artifact [OF m]) simp_all

lemma contained_upload:
  assumes g: "guarded env watch members d" and out: "outsider watch members user"
  shows "contained env watch members (upload_artifacts env user s parts) d"
proof -
  have files: "contained env watch members (bind (for_each (upload_file env user q release dist) files) f) d'"
    if "cp_id q = p" "may_write watch (cp_org_id q)" "working env watch members (cp_org_id q) p {} d'" "\<And>r. f r = ret (k r)" for q p release dist files d' f and k :: "_ \<Rightarrow> crash_reply"
    using that by (auto intro!: contained_working [of env watch members "cp_org_id q" "cp_id q" "{}"] keeps_rules keeps_upload_file)
  show ?thesis unfolding upload_artifacts_def
    by (rule contained_project [OF g out], rule safe_sum, rule safe_fail, erule working_guarded, rule safe_option, rule safe_fail, erule working_guarded,
        rule safe_if, rule safe_fail, erule working_guarded, rule files) (assumption | rule refl)+
qed

lemma safe_with_artifact:
  fixes env :: "'j crash_env"
  assumes g: "guarded env watch members d" and out: "outsider watch members user"
    and f: "\<And>p org a d'. may_write watch org \<Longrightarrow> working env watch members org p {} d' \<Longrightarrow> a \<in> set (ct_artifacts d') \<Longrightarrow> sa_project_id a = p \<Longrightarrow>
      contained env watch members (f a) d'"
  shows "contained env watch members (with_artifact env user s i f) d"
proof -
  have found: "contained env watch members (bind (or_internal env l (get_artifact_by_id j)) (\<lambda>found. case found of None \<Rightarrow> fail e
      | Some a \<Rightarrow> if sa_project_id a \<noteq> p then fail e' else f a)) d'"
    if w: "working env watch members org p {} d'" and m: "may_write watch org" for org p j l e e' and d' :: "'j crash_tables"
    unfolding get_artifact_by_id_def on_error_def
    by (rule safe_bind, rule safe_map_err, rule safe_read, rule working_guarded [OF w], rule safe_option, rule safe_fail, rule working_guarded [OF w],
        rule safe_if, rule safe_fail, rule working_guarded [OF w], rule f [OF m w])
      (auto dest: find_row)
  show ?thesis unfolding with_artifact_def
    by (rule safe_parsed, rule keeps_parse_ids, rule g, rule safe_parsed, rule keeps_parse_ids, assumption, rule safe_authorized [OF _ out], assumption,
        rule found)
qed

lemma contained_get_artifact:
  assumes g: "guarded env watch members d" and out: "outsider watch members user"
  shows "contained env watch members (get_artifact_route env user s i) d"
  unfolding get_artifact_route_def
  by (rule safe_with_artifact [OF g out], rule safe_bind, rule safe_attempt, rule safe_conseq [OF safe_touch_artifact])
    (assumption | rule safe_ret, erule working_guarded)+

lemma contained_delete_artifact:
  fixes env :: "'j crash_env"
  assumes g: "guarded env watch members d" and out: "outsider watch members user"
  shows "contained env watch members (delete_artifact_route env user s i) d"
  unfolding delete_artifact_route_def
proof (rule safe_with_artifact [OF g out], rule safe_bind)
  fix p org a and d' :: "'j crash_tables"
  assume m: "may_write watch org" and w: "working env watch members org p {} d'" and a: "a \<in> set (ct_artifacts d')" "sa_project_id a = p"
  have "contained env watch members (delete_artifact (sa_id a)) d'" unfolding delete_artifact_def
    by (rule safe_query) (use working_guarded [OF w] artifact_org [OF w a] m in \<open>auto intro!: guarded_filter_artifacts\<close>)
  then show "safe True (or_internal env (cu_locale user) (delete_artifact (sa_id a))) d' (\<lambda>deleted d''. contained env watch members
      (if deleted then ret NoContentReply else fail (not_found ''artifact'')) d'') (\<lambda>_. guarded env watch members)"
    unfolding on_error_def by (intro safe_map_err) (auto elim!: safe_conseq intro!: safe_if safe_ret safe_fail)
qed

subsection \<open>Streams and jobs\<close>

lemma contained_stream:
  assumes g: "guarded env watch members d" and out: "outsider watch members user"
  shows "contained env watch members (stream_crash env user s) d"
  unfolding stream_crash_def
  by (rule contained_project [OF g out], rule contained_working, intro keeps_rules, rule keeps_subscribe)

lemma may_write_None [simp]: "may_write None org"
  by (simp add: may_write_def)

lemma keeps_delete_old [keeps_rules]:
  "keeps (guarded env None members) (delete_old_events t)" "keeps (guarded env None members) (delete_old_artifacts t)"
  unfolding delete_old_events_def delete_old_artifacts_def
  by (rule keeps_query, auto intro: guarded_filter_events) (rule keeps_query, auto intro: guarded_filter_artifacts)

lemma contained_jobs:
  assumes g: "guarded env watch members d" and none: "watch = None"
  shows "contained env watch members (crash_event_cleanup c n) d" "contained env watch members (symbol_artifact_cleanup c n) d"
  using g unfolding crash_event_cleanup_def symbol_artifact_cleanup_def none by (intro contained_keeps keeps_rules; assumption)+

subsection \<open>Any request\<close>

fun call_user :: "'j crash_call \<Rightarrow> current_user option" where
  "call_user (CaptureCrash u _) = Some u"
| "call_user (CaptureWithKey _ _) = None"
| "call_user (CaptureBatch u _) = Some u"
| "call_user (ListProjects u _) = Some u"
| "call_user (CreateProject u _) = Some u"
| "call_user (GetProject u _) = Some u"
| "call_user (UpdateProject u _ _ _) = Some u"
| "call_user (DeleteProject u _) = Some u"
| "call_user (ListIssues u _) = Some u"
| "call_user (GetIssue u _ _) = Some u"
| "call_user (ResolveIssue u _ _ _) = Some u"
| "call_user (UnresolveIssue u _ _) = Some u"
| "call_user (IgnoreIssue u _ _) = Some u"
| "call_user (AssignIssue u _ _ _) = Some u"
| "call_user (DeleteIssue u _ _) = Some u"
| "call_user (ListEvents u _ _ _) = Some u"
| "call_user (GetEvent u _ _) = Some u"
| "call_user (ListIssueEvents u _ _) = Some u"
| "call_user (ListReleases u _) = Some u"
| "call_user (CreateRelease u _ _) = Some u"
| "call_user (GetRelease u _ _) = Some u"
| "call_user (UploadArtifacts u _ _) = Some u"
| "call_user (ListArtifacts u _ _ _) = Some u"
| "call_user (GetArtifact u _ _) = Some u"
| "call_user (DeleteArtifact u _ _) = Some u"
| "call_user (CreateApiKey u _ _) = Some u"
| "call_user (ListApiKeys u _) = Some u"
| "call_user (RevokeApiKey u _ _) = Some u"
| "call_user (StreamCrash u _) = Some u"
| "call_user (CleanupEvents _ _) = None"
| "call_user (CleanupArtifacts _ _) = None"

text \<open>
  A request that has no business with the watched organization: its user is not a member, its key is none of the organization's. The retention
  jobs work on all organizations.
\<close>

definition outside :: "'j crash_env \<Rightarrow> 'j watch \<Rightarrow> (uuid \<times> uuid) list \<Rightarrow> 'j crash_call \<Rightarrow> bool" where
  "outside env watch members call \<longleftrightarrow> (case call_user call of
     Some u \<Rightarrow> outsider watch members u
   | None \<Rightarrow> (case call of CaptureWithKey (Some raw) _ \<Rightarrow> no_key env watch raw | CaptureWithKey None _ \<Rightarrow> True | _ \<Rightarrow> watch = None))"

lemmas contained_calls = contained_reads contained_get_event contained_list_projects contained_issue_reads contained_resolve contained_mark
  contained_delete_issue contained_capture contained_batch contained_create_key contained_revoke_key contained_create_project
  contained_update_project contained_delete_project contained_create_release contained_upload contained_get_artifact contained_delete_artifact
  contained_stream

lemma contained_call:
  assumes g: "guarded env watch members d" and out: "outside env watch members call"
  shows "contained env watch members (handle_crash env call) d"
  using g out
  by (cases call) (auto simp: outside_def intro: contained_calls contained_capture_with_key contained_jobs split: option.splits)


lemma serve_guarded:
  assumes "guarded env watch members (wd_tables w)" and "outside env watch members call"
  shows "guarded env watch members (wd_tables (crash_world env w call))"
  using safe_run [OF contained_call [OF assms] refl] by (auto simp: crash_world_def serve_crash_def split: prod.splits sum.splits)

lemma run_guarded:
  "guarded env watch members (wd_tables w) \<Longrightarrow> list_all (outside env watch members) calls \<Longrightarrow>
   guarded env watch members (wd_tables (foldl (crash_world env) w calls))"
  by (induction calls arbitrary: w) (auto intro: serve_guarded)

lemma outside_None [simp]: "outside env None members call"
  by (auto simp: outside_def outsider_def no_key_def split: option.split crash_call.split)

interpretation crash_calls: event_driven "crash_world env" "\<lambda>w. conforms env (wd_tables w)" for env :: "'j crash_env"
proof
  fix w :: "'j crash_tables world" and call
  assume "conforms env (wd_tables w)"
  then have "guarded env None (ct_members (wd_tables w)) (wd_tables w)" by (simp add: guarded_def)
  from serve_guarded [OF this outside_None] show "conforms env (wd_tables (crash_world env w call))" by (rule guarded_conforms)
qed

definition fresh_crash :: "'j crash_tables \<Rightarrow> bool" where
  "fresh_crash d \<longleftrightarrow> ct_projects d = [] \<and> ct_issues d = [] \<and> ct_events d = [] \<and> ct_issue_persons d = [] \<and> ct_releases d = []
     \<and> ct_artifacts d = [] \<and> ct_api_keys d = []"

lemma fresh_conforms: "fresh_crash d \<Longrightarrow> conforms env d"
  by (simp add: fresh_crash_def conform_defs)

section \<open>What a capture does\<close>

text \<open>The row of an issue shows the state \<^verbatim>\<open>x\<close>.\<close>

definition shows_issue :: "string \<Rightarrow> issue \<Rightarrow> issue \<Rightarrow> bool" where
  "shows_issue f x y \<longleftrightarrow> is_id y = is_id x \<and> is_fingerprint y = f \<and> is_event_count y = is_event_count x \<and> is_status y = is_status x
     \<and> is_times_regressed y = is_times_regressed x"

text \<open>
  The issue of an event, and whether it is new or has regressed, given the issues before: \<^verbatim>\<open>after\<close> is the status of an issue that
  regressed.
\<close>

definition counted :: "issue_status \<Rightarrow> issue list \<Rightarrow> uuid \<Rightarrow> string \<Rightarrow> issue \<times> bool \<times> bool \<Rightarrow> bool" where
  "counted after issues p f r \<longleftrightarrow> (case r of (x, new, regression) \<Rightarrow>
     case List.find (\<lambda>y. is_project_id y = p \<and> is_fingerprint y = f) issues of
       None \<Rightarrow> new \<and> \<not> regression \<and> is_event_count x = 1 \<and> is_status x = Unresolved \<and> is_times_regressed x = 0
     | Some y \<Rightarrow> \<not> new \<and> (regression \<longleftrightarrow> is_status y = Resolved) \<and> is_id x = is_id y \<and> is_event_count x = is_event_count y + 1
         \<and> is_status x = (if regression then after else is_status y) \<and> is_times_regressed x = is_times_regressed y + (if regression then 1 else 0))"

definition captured :: "issue_status \<Rightarrow> 'j crash_env \<Rightarrow> 'j crash_tables \<Rightarrow> crash_reply \<Rightarrow> 'j crash_tables \<Rightarrow> bool" where
  "captured after env d reply d' \<longleftrightarrow> (\<exists>e \<in> set (ct_events d'). \<exists>y \<in> set (ct_issues d'). \<exists>x new regression.
     reply = CapturedReply \<lparr>cs_event_id = ce_id e, cs_issue_id = is_id x, cs_short_id = is_short_id x, cs_is_new_issue = new, cs_is_regression = regression\<rparr>
     \<and> ce_issue_id e = Some (is_id x) \<and> shows_issue (compute_fingerprint env e) x y
     \<and> counted after (ct_issues d) (ce_project_id e) (compute_fingerprint env e) (x, new, regression))"

abbreviation some_issue :: "(issue \<Rightarrow> bool) \<Rightarrow> 'j crash_tables \<Rightarrow> bool" where
  "some_issue R d \<equiv> \<exists>y \<in> set (ct_issues d). R y"

abbreviation lasting :: "(issue \<Rightarrow> bool) \<Rightarrow> bool" where
  "lasting R \<equiv> \<forall>y n t. R y \<longrightarrow> R (y\<lparr>is_user_count := n, is_updated_at := t\<rparr>)"

lemma some_map: "y \<in> set (ct_issues d) \<Longrightarrow> R (g y) \<Longrightarrow> some_issue R (d\<lparr>ct_issues := map g (ct_issues d)\<rparr>)"
  by auto

lemma keeps_some_person:
  assumes "lasting R"
  shows "keeps (some_issue R) (add_issue_person i person)"
  unfolding add_issue_person_def
proof (intro keeps_rules)
  fix t d d' and u :: unit
  assume "some_issue R d" and "Inr ((), d\<lparr>ct_issues := map (\<lambda>y. if is_id y = i
      then y\<lparr>is_user_count := of_nat (length (persons_of d i)), is_updated_at := t\<rparr> else y) (ct_issues d)\<rparr>) = Inr (u, d')"
  then show "some_issue R d'" using assms by (auto simp del: set_map intro!: some_map)
qed (auto split: if_splits)

lemma keeps_some_track: "lasting R \<Longrightarrow> keeps (some_issue R) (track_person i e)"
  unfolding track_person_def by (intro keeps_rules keeps_some_person)

lemma keeps_apart:
  assumes "\<And>d. I d \<Longrightarrow> \<forall>r. I (d\<lparr>ct_releases := r\<rparr>)" and "\<And>d. I d \<Longrightarrow> \<forall>c. I (d\<lparr>ct_channels := c\<rparr>)"
  shows "keeps I (track_release e p a b)" "keeps I (broadcast p ev)"
  unfolding track_release_def get_or_create_release_def increment_release_crash_count_def create_release_def broadcast_def Let_def
  by (intro keeps_rules; use assms in \<open>auto split: if_splits\<close>)+

lemma safe_some_update:
  assumes "some_issue (\<lambda>y. is_id y = is_id x \<and> is_fingerprint y = f) d"
  shows "safe True (update_issue x) d (\<lambda>_. some_issue (shows_issue f x)) (\<lambda>_ _. True)"
  unfolding update_issue_def
  by (rule safe_bind, rule safe_now, rule safe_query)
    (use assms in \<open>auto simp: shows_issue_def overwrite_issue_def simp del: set_map intro!: some_map split: if_splits\<close>)

lemma lasting_shows [simp]: "shows_issue f x (y\<lparr>is_user_count := n, is_updated_at := t\<rparr>) = shows_issue f x y"
  by (simp add: shows_issue_def)

lemma safe_create_counted:
  assumes "is_fingerprint x = f" "is_project_id x = p" "is_event_count x = 1" "is_status x = Unresolved" "is_times_regressed x = 0"
  shows "safe True (bind (on_error pn err (create_issue x)) (\<lambda>_. bind (track_person (is_id x) e) (\<lambda>_. ret (x, True, False)))) d
    (\<lambda>r d'. some_issue (shows_issue f (fst r)) d' \<and> counted after (ct_issues d) p f r) (\<lambda>_ _. True)"
proof -
  have "safe True (create_issue x) d (\<lambda>_ d'. some_issue (shows_issue f x) d' \<and> counted after (ct_issues d) p f (x, True, False)) (\<lambda>_ _. True)"
    unfolding create_issue_def
    by (rule safe_query) (use assms in \<open>auto simp: shows_issue_def counted_def find_None_iff image_iff split: if_splits option.split dest!: find_row\<close>)
  then show ?thesis unfolding on_error_def
    by (rule safe_bind [OF safe_map_err [OF safe_conseq]])
      (auto intro!: safe_bind_keeps [OF keeps_some_track [of "shows_issue f x"]] safe_ret)
qed


lemma found_issue: "issue_row d p f = Some x \<Longrightarrow> some_issue (\<lambda>y. is_id y = is_id x \<and> is_fingerprint y = f) d"
  using find_row [of _ "ct_issues d" x] by (fastforce simp: issue_row_def)

lemma counted_existing:
  "issue_row d p f = Some y \<Longrightarrow> counted after (ct_issues d) p f (x, False, regression) \<longleftrightarrow>
     (regression \<longleftrightarrow> is_status y = Resolved) \<and> is_id x = is_id y \<and> is_event_count x = is_event_count y + 1
     \<and> is_status x = (if regression then after else is_status y) \<and> is_times_regressed x = is_times_regressed y + (if regression then 1 else 0)"
  by (simp add: counted_def issue_row_def)

lemma safe_find_counted:
  "safe True (find_or_create_issue pn err env e p f) d (\<lambda>r d'. some_issue (shows_issue f (fst r)) d' \<and> counted Regressed (ct_issues d) p f r) (\<lambda>_ _. True)"
  unfolding find_or_create_issue_def get_issue_by_fingerprint_def on_error_def [of _ "err ''find issue''"]
proof (rule safe_bind, rule safe_map_err, rule safe_read, simp, rule safe_option, goal_cases)
  case 1
  show ?case unfolding Let_def
    by (rule safe_bind_keeps [where I = "\<lambda>d'. d' = d", OF keeps_on_error [OF keeps_next_short_id]], simp, hypsubst,
        rule safe_option, rule safe_fail, simp, rule safe_bind, rule safe_draw_uuid, rule safe_bind, rule safe_now, rule safe_bind, rule safe_now,
        rule safe_create_counted)
      (simp_all add: new_issue_def)
next
  case (2 x)
  have rest: "safe True (bind (on_error pn (err ''update issue'') (update_issue y)) (\<lambda>_. bind (track_person (is_id y) e) (\<lambda>_.
      bind (if a then broadcast_regression p y else ret ()) (\<lambda>_. ret (y, False, a))))) d
      (\<lambda>r d'. some_issue (shows_issue f (fst r)) d' \<and> counted Regressed (ct_issues d) p f r) (\<lambda>_ _. True)"
    if "is_id y = is_id x" "counted Regressed (ct_issues d) p f (y, False, a)" for y a
    unfolding broadcast_regression_def on_error_def
    by (rule safe_bind, rule safe_map_err, rule safe_conseq [OF safe_some_update [where x = y and f = f]])
      (use that found_issue [OF 2] in \<open>auto intro!: safe_bind_keeps [where I = "some_issue (shows_issue f y)"] keeps_some_track keeps_cases(1) keeps_apart keeps_simple safe_ret\<close>)
  show ?case unfolding Let_def
    by (rule safe_bind, rule safe_if, rule safe_bind, rule safe_now)
      (rule safe_ret, rule rest, simp, simp add: counted_existing [OF 2])+
qed

lemma safe_sdk_counted:
  "safe True (sdk_find_or_create_issue env e q f) d (\<lambda>r d'. some_issue (shows_issue f (fst r)) d' \<and> counted Unresolved (ct_issues d) (cp_id q) f r) (\<lambda>_ _. True)"
proof -
  let ?Q = "\<lambda>r d'. some_issue (shows_issue f (fst r)) d' \<and> counted Unresolved (ct_issues d) (cp_id q) f r"
  have fresh: "safe True (bind (on_error Panicked (\<lambda>_. server_error) (get_next_short_id env (cp_id q))) (\<lambda>short_id.
      bind draw_uuid (\<lambda>i. bind now (\<lambda>t. bind now (\<lambda>t'.
      let x = new_issue i t t' short_id f (ce_exception_type e @ '': '' @ ce_exception_value e) (sdk_culprit e) (cp_org_id q) (cp_id q) e in
      bind (on_error Panicked (\<lambda>_. server_error) (create_issue x)) (\<lambda>_. bind (track_person (is_id x) e) (\<lambda>_. ret (x, True, False)))))))) d ?Q (\<lambda>_ _. True)"
    unfolding Let_def
    by (rule safe_bind_keeps [where I = "\<lambda>d'. d' = d", OF keeps_on_error [OF keeps_next_short_id]], simp, hypsubst,
        rule safe_bind, rule safe_draw_uuid, rule safe_bind, rule safe_now, rule safe_bind, rule safe_now, rule safe_create_counted)
      (simp_all add: new_issue_def)
  have known: "safe True (bind now (\<lambda>t. bind (count_person (g t) e) (\<lambda>y.
      bind (on_error Panicked (\<lambda>_. server_error) (update_issue y)) (\<lambda>_. ret (y, False, a))))) d ?Q (\<lambda>_ _. True)"
    if x: "issue_row d (cp_id q) f = Some x" and g: "\<And>t n. counted Unresolved (ct_issues d) (cp_id q) f (g t\<lparr>is_user_count := n\<rparr>, False, a)" for x g a
  proof (rule safe_bind, rule safe_now, rule safe_bind)
    fix t
    let ?I = "some_issue (\<lambda>y. is_id y = is_id x \<and> is_fingerprint y = f)"
    have "is_id (g t) = is_id x" using g x by (simp add: counted_existing)
    then have "safe True (count_person (g t) e) d (\<lambda>y d'. ?I d' \<and> (\<exists>n. y = g t\<lparr>is_user_count := n\<rparr>)) (\<lambda>_ _. True)"
      unfolding count_person_def using found_issue [OF x]
      by (intro safe_option safe_ret safe_bind_keeps [where I = ?I] safe_if keeps_wrap keeps_reads keeps_some_person)
        (auto intro: exI [of _ "is_user_count (g t)"])
    then show "safe True (count_person (g t) e) d (\<lambda>y d'. safe True (bind (on_error Panicked (\<lambda>_. server_error) (update_issue y)) (\<lambda>_. ret (y, False, a))) d' ?Q (\<lambda>_ _. True))
        (\<lambda>_ _. True)"
    proof (rule safe_conseq)
      fix y d'
      assume y: "?I d' \<and> (\<exists>n. y = g t\<lparr>is_user_count := n\<rparr>)"
      then have "some_issue (\<lambda>z. is_id z = is_id y \<and> is_fingerprint z = f) d'" "counted Unresolved (ct_issues d) (cp_id q) f (y, False, a)"
        using g \<open>is_id (g t) = is_id x\<close> by auto
      then show "safe True (bind (on_error Panicked (\<lambda>_. server_error) (update_issue y)) (\<lambda>_. ret (y, False, a))) d' ?Q (\<lambda>_ _. True)"
        unfolding on_error_def by (intro safe_bind safe_map_err) (rule safe_conseq [OF safe_some_update], auto intro!: safe_ret)
    qed simp
  qed
  show ?thesis unfolding sdk_find_or_create_issue_def get_issue_by_fingerprint_def Let_def [of "cp_id q"] Let_def [of "\<lambda>_. server_error"]
  proof (rule safe_bind, rule safe_attempt, rule safe_read, simp only: sum.case, rule fresh, simp only: sum.case, rule safe_option, goal_cases)
    case 1
    show ?case by (rule fresh)
  next
    case (2 x)
    show ?case unfolding Let_def by (rule known [OF 2]) (simp add: counted_existing [OF 2])
  qed
qed

lemma keeps_issues_stored: "keeps (\<lambda>d. ct_issues d = L) (symbolicate_stored env fs pl p r dist)"
proof -
  have frame: "keeps (\<lambda>d. ct_issues d = L) (symbolicate_stored_frame env p r dist f)" for r dist f
    unfolding symbolicate_stored_frame_def find_frame_map_def update_artifact_last_accessed_def Let_def
    by (auto split: option.split intro!: keeps_rules split: sum.split)
  then show ?thesis unfolding symbolicate_stored_def by (cases pl) (auto intro!: keeps_rules)
qed


lemma safe_issues_symbolicate:
  assumes "ct_issues d = L"
  shows "safe True (symbolicate_event env e p) d (\<lambda>e' d'. ct_issues d' = L \<and> ce_project_id e' = ce_project_id e) (\<lambda>_ _. True)"
  unfolding symbolicate_event_def
  by (rule safe_option, rule safe_ret, simp add: assms, rule safe_bind, rule safe_attempt,
      rule safe_conseq [OF safe_keeps [OF keeps_issues_stored, OF assms]])
    (auto intro!: safe_sum safe_if safe_ret)

lemma safe_store_captured:
  assumes "some_issue R d"
  shows "safe True (store_event pn err e p (x, new, regression)) d (\<lambda>s d'. some_issue R d' \<and> e\<lparr>ce_issue_id := Some (is_id x)\<rparr> \<in> set (ct_events d')
     \<and> s = \<lparr>cs_event_id = ce_id e, cs_issue_id = is_id x, cs_short_id = is_short_id x, cs_is_new_issue = new, cs_is_regression = regression\<rparr>) (\<lambda>_ _. True)"
proof -
  let ?I = "\<lambda>d'. some_issue R d' \<and> e\<lparr>ce_issue_id := Some (is_id x)\<rparr> \<in> set (ct_events d')"
  have "safe True (create_event (e\<lparr>ce_issue_id := Some (is_id x)\<rparr>)) d (\<lambda>_. ?I) (\<lambda>_ _. True)"
    unfolding create_event_def by (rule safe_query) (use assms in \<open>auto split: if_splits\<close>)
  then show ?thesis unfolding store_event_def on_error_def broadcast_new_crash_def Let_def prod.case
    by (rule safe_bind [OF safe_map_err [OF safe_conseq]])
      (auto intro!: safe_bind_keeps [where I = ?I] keeps_apart safe_ret)
qed

lemma safe_captured_as:
  fixes env :: "'j crash_env"
  assumes issues: "ct_issues d = ct_issues d0"
    and find: "\<And>e d. ct_issues d = ct_issues d0 \<Longrightarrow> safe True (F e) d (\<lambda>r d'. some_issue (shows_issue (compute_fingerprint env e) (fst r)) d'
      \<and> counted after (ct_issues d0) p (compute_fingerprint env e) r) (\<lambda>_ _. True)"
  shows "safe True (bind (convert_capture_request env body org p) (\<lambda>c. bind (symbolicate_event env c p) (\<lambda>e. bind (F e) (\<lambda>r.
      bind (store_event pn err e p r) (\<lambda>s. ret (CapturedReply s)))))) d (captured after env d0) (\<lambda>_ _. True)"
proof (rule safe_bind, rule safe_conseq [OF safe_convert [of "\<lambda>d. ct_issues d = ct_issues d0", OF issues]], elim conjE)
  fix c :: "'j crash_event" and d1 :: "'j crash_tables"
  assume c: "ct_issues d1 = ct_issues d0" "ce_project_id c = p"
  show "safe True (bind (symbolicate_event env c p) (\<lambda>e. bind (F e) (\<lambda>r. bind (store_event pn err e p r) (\<lambda>s. ret (CapturedReply s))))) d1
     (captured after env d0) (\<lambda>_ _. True)"
  proof (rule safe_bind, rule safe_conseq [OF safe_issues_symbolicate [OF c(1)]], elim conjE)
    fix e :: "'j crash_event" and d2 :: "'j crash_tables"
    assume e: "ct_issues d2 = ct_issues d0" "ce_project_id e = ce_project_id c"
    show "safe True (bind (F e) (\<lambda>r. bind (store_event pn err e p r) (\<lambda>s. ret (CapturedReply s)))) d2 (captured after env d0) (\<lambda>_ _. True)"
    proof (rule safe_bind, rule safe_conseq [OF find [OF e(1)]], elim conjE)
      fix r :: "issue \<times> bool \<times> bool" and d3 :: "'j crash_tables"
      assume r: "some_issue (shows_issue (compute_fingerprint env e) (fst r)) d3" "counted after (ct_issues d0) p (compute_fingerprint env e) r"
      obtain x new regression where x: "r = (x, new, regression)" by (cases r) auto
      from r(1) have stored: "some_issue (shows_issue (compute_fingerprint env e) x) d3" by (simp add: x)
      show "safe True (bind (store_event pn err e p r) (\<lambda>s. ret (CapturedReply s))) d3 (captured after env d0) (\<lambda>_ _. True)" unfolding x
      proof (rule safe_bind, rule safe_conseq [OF safe_store_captured [OF stored]], rule safe_ret, unfold captured_def, elim conjE)
        fix s :: capture_response and d4 :: "'j crash_tables"
        assume s: "some_issue (shows_issue (compute_fingerprint env e) x) d4" "e\<lparr>ce_issue_id := Some (is_id x)\<rparr> \<in> set (ct_events d4)"
          "s = \<lparr>cs_event_id = ce_id e, cs_issue_id = is_id x, cs_short_id = is_short_id x, cs_is_new_issue = new, cs_is_regression = regression\<rparr>"
        from s(1) obtain y where "y \<in> set (ct_issues d4)" "shows_issue (compute_fingerprint env e) x y" by blast
        with s(2,3) r(2) e c show "\<exists>e\<in>set (ct_events d4). \<exists>y\<in>set (ct_issues d4). \<exists>x new regression.
           CapturedReply s = CapturedReply \<lparr>cs_event_id = ce_id e, cs_issue_id = is_id x, cs_short_id = is_short_id x, cs_is_new_issue = new, cs_is_regression = regression\<rparr>
           \<and> ce_issue_id e = Some (is_id x) \<and> shows_issue (compute_fingerprint env e) x y
           \<and> counted after (ct_issues d0) (ce_project_id e) (compute_fingerprint env e) (x, new, regression)"
          by (intro bexI [of _ "e\<lparr>ce_issue_id := Some (is_id x)\<rparr>"] bexI [of _ y] exI [of _ x] exI [of _ new] exI [of _ regression]) (simp_all add: x)
      qed simp
    qed simp
  qed simp
qed simp

lemma capture_does:
  fixes env :: "'j crash_env"
  shows "safe True (capture_crash env user body) d (captured Regressed env d) (\<lambda>_ _. True)"
  unfolding capture_crash_def Let_def verify_org_membership_def
  by (rule safe_bind_keeps [where I = "\<lambda>d'. d' = d"], rule keeps_parse_ids, simp, hypsubst,
      rule safe_bind_keeps [where I = "\<lambda>d'. d' = d"], rule keeps_on_error, rule keeps_reads, simp, hypsubst, rule safe_option, rule safe_fail, simp,
      rule safe_bind_keeps [where I = "\<lambda>d'. d' = d"], intro keeps_rules, simp, hypsubst,
      rule safe_captured_as, simp)
    (auto intro: safe_conseq [OF safe_find_counted])

lemma keeps_issues_verify: "keeps (\<lambda>d. ct_issues d = L) (verify_project_api_key env p raw)"
  unfolding verify_project_api_key_def update_api_key_last_used_def by (intro keeps_rules) auto

lemma sdk_capture_does:
  fixes env :: "'j crash_env"
  shows "safe True (capture_crash_with_api_key env raw body) d (captured Unresolved env d) (\<lambda>_ _. True)"
proof -
  have found: "safe True (bind (on_error Panicked h (get_project_by_id p)) (\<lambda>found. case found of None \<Rightarrow> fail e' | Some q \<Rightarrow>
      bind (verify_project_api_key env p r) (\<lambda>k. if ck_key_type k \<noteq> CaptureKey \<and> ck_key_type k \<noteq> AdminKey then fail e''
        else bind (convert_capture_request env body (cp_org_id q) p) (\<lambda>c. bind (symbolicate_event env c p) (\<lambda>e.
        bind (sdk_find_or_create_issue env e q (compute_fingerprint env e)) (\<lambda>o'. bind (store_event Panicked (\<lambda>_ _. server_error) e p o') (\<lambda>s. ret (CapturedReply s)))))))) d
      (captured Unresolved env d) (\<lambda>_ _. True)" for h p r e' e''
    unfolding get_project_by_id_def on_error_def
  proof (rule safe_bind, rule safe_map_err, rule safe_read, simp, rule safe_option, rule safe_fail, simp)
    fix q
    assume "project_row d p = Some q"
    then have q: "cp_id q = p" by (simp add: project_row_owns)
    have sdk: "safe True (sdk_find_or_create_issue env e q f) d1 (\<lambda>r d'. some_issue (shows_issue f (fst r)) d' \<and> counted Unresolved (ct_issues d) p f r) (\<lambda>_ _. True)"
      if "ct_issues d1 = ct_issues d" for e f d1
      using safe_sdk_counted [of env e q f d1] that q by simp
    show "safe True (bind (verify_project_api_key env p r) (\<lambda>k. if ck_key_type k \<noteq> CaptureKey \<and> ck_key_type k \<noteq> AdminKey then fail e''
        else bind (convert_capture_request env body (cp_org_id q) p) (\<lambda>c. bind (symbolicate_event env c p) (\<lambda>e.
        bind (sdk_find_or_create_issue env e q (compute_fingerprint env e)) (\<lambda>o'. bind (store_event Panicked (\<lambda>_ _. server_error) e p o') (\<lambda>s. ret (CapturedReply s))))))) d
      (captured Unresolved env d) (\<lambda>_ _. True)"
      by (rule safe_bind_keeps [OF keeps_issues_verify [of "ct_issues d"]], simp, rule safe_if, rule safe_fail, simp, rule safe_captured_as, simp)
        (erule sdk, simp)
  qed
  show ?thesis unfolding capture_crash_with_api_key_def
    by (rule safe_option, rule safe_fail, simp, rule safe_bind_keeps [where I = "\<lambda>d'. d' = d"], rule keeps_parse_ids, simp, hypsubst, rule found, simp)
qed


section \<open>Properties\<close>

text \<open>
  C23: Whatever requests, captures and retention jobs ran, and whatever statements of the database failed on the way, the crash tables conform: keys are
  unique, every row belongs to a project of its own organization, and every event with an issue has the fingerprint of an issue of its project.
\<close>

theorem crash_tables_conform:
  assumes "fresh_crash (wd_tables w)"
  shows "conforms env (wd_tables (foldl (crash_world env) w calls))"
  by (rule crash_calls.run_inv [where s = w]) (rule fresh_conforms [OF assms])

definition demo_crash_env :: "unit crash_env" where
  "demo_crash_env = \<lparr>cv_sha256 = (\<lambda>bs. if length bs \<le> 2 then ''a'' else ''b''), cv_to_uppercase = (\<lambda>s. s), cv_parse_uuid = (\<lambda>_. Some 1),
     cv_show_uuid = (\<lambda>_. ''1''), cv_parse_rfc3339 = (\<lambda>_. None), cv_read_json = (\<lambda>_. Inl []), cv_demangle = (\<lambda>s. s),
     cv_argon2_hash = (\<lambda>_ _. None), cv_argon2_verify = (\<lambda>_ _. None), cv_translate = (\<lambda>_ _. []), cv_null = ()\<rparr>"

definition demo_crash_world :: "unit crash_tables world" where
  "demo_crash_world = \<lparr>wd_tables = \<lparr>ct_orgs = [1, 2], ct_users = [5, 6], ct_members = [(1, 5), (2, 6)], ct_projects = [], ct_issues = [], ct_events = [],
     ct_issue_persons = [], ct_releases = [], ct_artifacts = [], ct_api_keys = [], ct_channels = []\<rparr>,
     wd_queries = 0, wd_fault = (\<lambda>_. None), wd_reads = 0, wd_clock = int, wd_drawn = 1, wd_random = of_nat\<rparr>"

definition demo_crash :: "string \<Rightarrow> unit crash_capture_request" where
  "demo_crash ty = \<lparr>cq_project_id = [], cq_exception_type = ty, cq_exception_value = [], cq_stacktrace = None, cq_environment = None, cq_platform = None,
     cq_release = None, cq_dist = None, cq_distinct_id = Some [], cq_person_id = None, cq_server_name = None, cq_tags = [], cq_extra = (),
     cq_active_flags = [], cq_breadcrumbs = [], cq_timestamp = None\<rparr>"

definition demo_crash_calls :: "unit crash_call list" where
  "demo_crash_calls = (let u = \<lparr>cu_id = 5, cu_locale = []\<rparr> in
     [CreateProject u \<lparr>pq_org_id = [], pq_name = ''p'', pq_slug = ''abc'', pq_platform = ''rust''\<rparr>,
      CaptureCrash u (demo_crash ''E''), CaptureCrash u (demo_crash ''long''), CaptureCrash u (demo_crash ''F'')])"

lemma demo_crash_run:
  "let d = wd_tables (foldl (crash_world demo_crash_env) demo_crash_world demo_crash_calls)
   in map (\<lambda>e. (ce_project_id e, ce_issue_id e, compute_fingerprint demo_crash_env e)) (ct_events d)
        = [(1, Some 3, ''a''), (1, Some 5, ''b''), (1, Some 3, ''a'')]
    \<and> map (\<lambda>x. (is_id x, is_event_count x)) (ct_issues d) = [(3, 2), (5, 1)]"
  by code_simp


lemma demo_crash_fresh: "fresh_crash (wd_tables demo_crash_world)"
  by (simp add: fresh_crash_def demo_crash_world_def)

theorem crash_tables_conform_witness:
  "let d = wd_tables (foldl (crash_world demo_crash_env) demo_crash_world demo_crash_calls)
   in conforms demo_crash_env d \<and> length (ct_events d) = 3 \<and> length (ct_issues d) = 2"
  using crash_tables_conform [OF demo_crash_fresh] demo_crash_run by (auto simp: Let_def dest!: map_eq_imp_length_eq)

text \<open>
  C22: Events are grouped by fingerprint: after any requests and failures, two events of a project that belong to issues belong to the same issue
  exactly if their fingerprints are equal.
\<close>

theorem crash_events_grouped:
  assumes "fresh_crash (wd_tables w)" and "d = wd_tables (foldl (crash_world env) w calls)"
    and "e \<in> set (ct_events d)" and "e' \<in> set (ct_events d)" and "ce_project_id e = ce_project_id e'"
    and "ce_issue_id e = Some i" and "ce_issue_id e' = Some j"
  shows "i = j \<longleftrightarrow> compute_fingerprint env e = compute_fingerprint env e'"
proof -
  have conf: "conforms env d" unfolding assms(2) by (rule crash_calls.run_inv [where s = w]) (rule fresh_conforms [OF assms(1)])
  then have "has_issue d (ce_org_id e) (ce_project_id e) i (compute_fingerprint env e)" "has_issue d (ce_org_id e') (ce_project_id e') j (compute_fingerprint env e')"
    using assms(3-7) by (auto simp: conforms_def events_conform_def)
  then obtain x y where x: "x \<in> set (ct_issues d)" "is_id x = i" "is_project_id x = ce_project_id e" "is_fingerprint x = compute_fingerprint env e"
    and y: "y \<in> set (ct_issues d)" "is_id y = j" "is_project_id y = ce_project_id e" "is_fingerprint y = compute_fingerprint env e'"
    using assms(5) by (auto simp: has_issue_def)
  from conf have "distinct (map is_id (ct_issues d))" "distinct (map (\<lambda>x. (is_project_id x, is_fingerprint x)) (ct_issues d))"
    by (simp_all add: conforms_def issues_conform_def)
  from same_row [OF this(1) x(1) y(1)] same_row [OF this(2) x(1) y(1)] x y show ?thesis by auto
qed

theorem crash_events_grouped_witness:
  "let es = ct_events (wd_tables (foldl (crash_world demo_crash_env) demo_crash_world demo_crash_calls))
   in ce_issue_id (es ! 0) = ce_issue_id (es ! 2) \<and> ce_issue_id (es ! 0) \<noteq> ce_issue_id (es ! 1)"
proof -
  let ?d = "wd_tables (foldl (crash_world demo_crash_env) demo_crash_world demo_crash_calls)"
  obtain e0 e1 e2 where es: "ct_events ?d = [e0, e1, e2]" and rows: "ce_project_id e0 = 1" "ce_project_id e1 = 1" "ce_project_id e2 = 1"
    "ce_issue_id e0 = Some 3" "ce_issue_id e1 = Some 5" "ce_issue_id e2 = Some 3"
    and fp: "compute_fingerprint demo_crash_env e0 = ''a''" "compute_fingerprint demo_crash_env e1 = ''b''" "compute_fingerprint demo_crash_env e2 = ''a''"
    using demo_crash_run by (auto simp: Let_def map_eq_Cons_conv)
  have "(3 :: uuid) = 3 \<longleftrightarrow> compute_fingerprint demo_crash_env e0 = compute_fingerprint demo_crash_env e2"
    by (rule crash_events_grouped [OF demo_crash_fresh refl, where calls = demo_crash_calls]) (simp_all add: es rows)
  moreover have "(3 :: uuid) = 5 \<longleftrightarrow> compute_fingerprint demo_crash_env e0 = compute_fingerprint demo_crash_env e1"
    by (rule crash_events_grouped [OF demo_crash_fresh refl, where calls = demo_crash_calls]) (simp_all add: es rows)
  ultimately show ?thesis using es rows by (simp add: Let_def)
qed

text \<open>
  A request from outside an organization: its user is not a member, or it carries a key that is none of the organization's. The retention jobs are
  no such requests.
\<close>

definition stranger :: "'j crash_env \<Rightarrow> uuid \<Rightarrow> 'j crash_tables \<Rightarrow> 'j crash_call \<Rightarrow> bool" where
  "stranger env org d call \<longleftrightarrow> (case call_user call of
     Some u \<Rightarrow> (org, cu_id u) \<notin> set (ct_members d)
   | None \<Rightarrow> (case call of
       CaptureWithKey (Some raw) _ \<Rightarrow> list_all (\<lambda>k. verified_key env raw [k] = None) (filter (\<lambda>k. owns d org (ck_project_id k)) (ct_api_keys d))
     | CaptureWithKey None _ \<Rightarrow> True
     | _ \<Rightarrow> False))"

lemma stranger_outside: "stranger env org d call \<Longrightarrow> outside env (Some (org, rows_of org d)) (ct_members d) call"
  unfolding stranger_def outside_def outsider_def no_key_def may_write_def
  by (auto simp: rows_of_def list_all_iff split: option.splits crash_call.splits)

text \<open>
  C21: Organizations are isolated: after any requests and failures, requests of users who are not members of an organization, and captures whose key
  is none of its keys, leave all its projects, issues, events, persons, releases, artifacts, keys and streams exactly as they are, whatever
  identifiers they name.
\<close>

theorem crash_calls_within_orgs:
  assumes "fresh_crash (wd_tables w)" and "w' = foldl (crash_world env) w before" and "list_all (stranger env org (wd_tables w')) calls"
  shows "rows_of org (wd_tables (foldl (crash_world env) w' calls)) = rows_of org (wd_tables w')"
proof -
  let ?watch = "Some (org, rows_of org (wd_tables w'))" and ?members = "ct_members (wd_tables w')"
  have "conforms env (wd_tables w')" unfolding assms(2) by (rule crash_calls.run_inv [where s = w]) (rule fresh_conforms [OF assms(1)])
  then have "guarded env ?watch ?members (wd_tables w')" by (simp add: guarded_def)
  moreover have "list_all (outside env ?watch ?members) calls" using assms(3) by (auto simp: list_all_iff intro: stranger_outside)
  ultimately have "guarded env ?watch ?members (wd_tables (foldl (crash_world env) w' calls))" by (rule run_guarded)
  then show ?thesis by (simp add: guarded_def)
qed

theorem crash_calls_within_orgs_witness:
  "let w = foldl (crash_world demo_crash_env) demo_crash_world demo_crash_calls; u = \<lparr>cu_id = 6, cu_locale = []\<rparr>
   in rows_of 1 (wd_tables (foldl (crash_world demo_crash_env) w [CaptureCrash u (demo_crash ''E''), DeleteProject u ''1'', StreamCrash u ''1'']))
      = rows_of 1 (wd_tables w)"
proof -
  let ?w = "foldl (crash_world demo_crash_env) demo_crash_world demo_crash_calls" and ?u = "\<lparr>cu_id = 6, cu_locale = []\<rparr>"
  have "ct_members (wd_tables ?w) = [(1, 5), (2, 6)]" by code_simp
  then have "list_all (stranger demo_crash_env 1 (wd_tables ?w)) [CaptureCrash ?u (demo_crash ''E''), DeleteProject ?u ''1'', StreamCrash ?u ''1'']"
    by (simp add: stranger_def)
  from crash_calls_within_orgs [OF demo_crash_fresh refl this] show ?thesis by (simp only: Let_def)
qed

text \<open>
  C24: A capture that is answered did what it reports: the event is stored with the issue of its fingerprint; a new issue counts one
  event; a known one counts one more and keeps its status, except that a resolved issue is now regressed and counts one regression more. A capture
  with an API key differs in one point: it reports and counts the regression, but the issue becomes unresolved, never regressed.
\<close>

theorem captures_counted:
  "safe True (capture_crash env user body) d (captured Regressed env d) (\<lambda>_ _. True)
   \<and> safe True (capture_crash_with_api_key env raw body) d (captured Unresolved env d) (\<lambda>_ _. True)"
  using capture_does sdk_capture_does by blast

end
