(* ===== verification/Pool.thy ===== *)
theory Pool
  imports Agent
begin

text \<open>
  The pool of Anthropic OAuth accounts of \<^verbatim>\<open>loom-server-llm-anthropic/src/pool.rs\<close>, with the message
  classifiers of \<^verbatim>\<open>client.rs\<close>.

  \<^verbatim>\<open>accounts\<close> and \<^verbatim>\<open>state\<close> are under two locks. Every definition below is what one call does when no
  other call runs in between; the halves of \<^verbatim>\<open>add_account\<close> and \<^verbatim>\<open>remove_account\<close>, which take the locks one
  after the other, are definitions of their own, so that an interleaving can be written as a sequence
  of them. An index out of bounds panics: that is the value \<open>Inl IndexOutOfBounds\<close>. An account is its
  identifier; the client call is the parameter \<open>call\<close>, the outcome it has for the account at an index.
  Saving and deleting credentials in the store and building a client may fail: whether they
  succeed is an argument.
\<close>

section \<open>State\<close>

datatype account_status = Available | CoolingDown instant | Disabled

datatype account_selection_strategy = RoundRobin | FirstAvailable

record pool_config =
  pc_cooldown :: nat
  pc_strategy :: account_selection_strategy

definition pool_config_default :: pool_config where
  "pool_config_default = \<lparr>pc_cooldown = 2 * 60 * 60 * 1000000000, pc_strategy = RoundRobin\<rparr>"

record account_runtime =
  rt_status :: account_status
  rt_last_error :: "string option"

definition account_runtime_default :: account_runtime where
  "account_runtime_default = \<lparr>rt_status = Available, rt_last_error = None\<rparr>"

record pool =
  pl_accounts :: "string list"
  pl_runtimes :: "account_runtime list"
  pl_next_index :: nat
  pl_config :: pool_config

datatype fault = IndexOutOfBounds

definition pool_empty :: "pool_config \<Rightarrow> pool" where
  "pool_empty cfg = \<lparr>pl_accounts = [], pl_runtimes = [], pl_next_index = 0, pl_config = cfg\<rparr>"

text \<open>\<open>loaded\<close>: the providers whose credentials were found and gave a client.\<close>

definition pool_new :: "string list \<Rightarrow> pool_config \<Rightarrow> llm_error + pool" where
  "pool_new loaded cfg =
     (if loaded = [] then Inl (LlmApi ''No valid OAuth accounts could be loaded for the pool'')
      else Inr \<lparr>pl_accounts = loaded, pl_runtimes = map (\<lambda>_. account_runtime_default) loaded,
                pl_next_index = 0, pl_config = cfg\<rparr>)"

section \<open>Error messages\<close>

definition is_quota_message :: "string \<Rightarrow> bool" where
  "is_quota_message msg =
     (let lower = to_ascii_lowercase msg
      in str_contains lower ''5-hour'' \<or> str_contains lower ''5 hour'' \<or> str_contains lower ''rolling window''
         \<or> str_contains lower ''usage limit for your plan'' \<or> str_contains lower ''subscription usage limit'')"

definition is_permanent_auth_message :: "string \<Rightarrow> bool" where
  "is_permanent_auth_message msg =
     (let lower = to_ascii_lowercase msg
      in str_contains lower ''401'' \<or> str_contains lower ''403'' \<or> str_contains lower ''unauthorized''
         \<or> str_contains lower ''forbidden'' \<or> str_contains lower ''invalid api key''
         \<or> str_contains lower ''invalid authentication'' \<or> str_contains lower ''authentication failed''
         \<or> str_contains lower ''invalid token'' \<or> str_contains lower ''expired token'')"

section \<open>Membership\<close>

definition add_push_account :: "string \<Rightarrow> pool \<Rightarrow> pool" where
  "add_push_account i p = p\<lparr>pl_accounts := pl_accounts p @ [i]\<rparr>"

definition add_push_runtime :: "pool \<Rightarrow> pool" where
  "add_push_runtime p = p\<lparr>pl_runtimes := pl_runtimes p @ [account_runtime_default]\<rparr>"

definition add_account :: "llm_error + unit \<Rightarrow> string \<Rightarrow> pool \<Rightarrow> pool \<times> (llm_error + unit)" where
  "add_account prepared i p = (case prepared of
     Inl e \<Rightarrow> (p, Inl e)
   | Inr _ \<Rightarrow> (add_push_runtime (add_push_account i p), Inr ()))"

definition remove_account_at :: "nat \<Rightarrow> pool \<Rightarrow> pool" where
  "remove_account_at index p = p\<lparr>pl_accounts := remove_at index (pl_accounts p)\<rparr>"

definition remove_runtime_at :: "nat \<Rightarrow> pool \<Rightarrow> pool" where
  "remove_runtime_at index p =
     (let rts = (if index < length (pl_runtimes p) then remove_at index (pl_runtimes p) else pl_runtimes p)
      in p\<lparr>pl_runtimes := rts,
           pl_next_index := (if pl_next_index p \<ge> length rts \<and> rts \<noteq> [] then 0 else pl_next_index p)\<rparr>)"

definition remove_account :: "llm_error + unit \<Rightarrow> string \<Rightarrow> pool \<Rightarrow> pool \<times> (llm_error + unit)" where
  "remove_account deleted i p = (case position (\<lambda>a. a = i) (pl_accounts p) of
     None \<Rightarrow> (p, Inl (LlmApi (''Account not found: '' @ i)))
   | Some index \<Rightarrow> (remove_runtime_at index (remove_account_at index p), deleted))"

section \<open>Selection\<close>

definition expire_cooldown :: "instant \<Rightarrow> account_runtime \<Rightarrow> account_runtime" where
  "expire_cooldown now rt = (case rt_status rt of
     CoolingDown until \<Rightarrow> (if now \<ge> until then rt\<lparr>rt_status := Available, rt_last_error := None\<rparr> else rt)
   | _ \<Rightarrow> rt)"

text \<open>The round-robin loop over the offsets \<open>is\<close>.\<close>

fun rr_find :: "account_runtime list \<Rightarrow> nat \<Rightarrow> nat \<Rightarrow> nat list \<Rightarrow> fault + nat option" where
  "rr_find rts n start [] = Inr None"
| "rr_find rts n start (i # is) =
     (let idx = (start + i) mod n
      in if idx \<ge> length rts then Inl IndexOutOfBounds
         else if rt_status (rts ! idx) = Available then Inr (Some idx)
         else rr_find rts n start is)"

definition select_account_index :: "instant \<Rightarrow> pool \<Rightarrow> fault + (nat option \<times> pool)" where
  "select_account_index now p =
     (let n = length (pl_accounts p);
          rts = map (expire_cooldown now) (pl_runtimes p);
          p' = p\<lparr>pl_runtimes := rts\<rparr>
      in case pc_strategy (pl_config p) of
        RoundRobin \<Rightarrow> (case rr_find rts n (pl_next_index p) [0..<n] of
            Inl e \<Rightarrow> Inl e
          | Inr None \<Rightarrow> Inr (None, p')
          | Inr (Some idx) \<Rightarrow> Inr (Some idx, p'\<lparr>pl_next_index := (idx + 1) mod n\<rparr>))
      | FirstAvailable \<Rightarrow> Inr (position (\<lambda>rt. rt_status rt = Available) rts, p'))"

section \<open>Failover\<close>

definition mark_cooling :: "instant \<Rightarrow> nat \<Rightarrow> string \<Rightarrow> pool \<Rightarrow> fault + pool" where
  "mark_cooling now index msg p =
     (if index \<ge> length (pl_runtimes p) then Inl IndexOutOfBounds
      else Inr (p\<lparr>pl_runtimes := (pl_runtimes p)[index :=
        \<lparr>rt_status = CoolingDown (now + pc_cooldown (pl_config p)), rt_last_error = Some msg\<rparr>]\<rparr>))"

definition mark_disabled :: "nat \<Rightarrow> string \<Rightarrow> pool \<Rightarrow> fault + pool" where
  "mark_disabled index msg p =
     (if index \<ge> length (pl_runtimes p) then Inl IndexOutOfBounds
      else Inr (p\<lparr>pl_runtimes := (pl_runtimes p)[index :=
        \<lparr>rt_status = Disabled, rt_last_error = Some msg\<rparr>]\<rparr>))"

text \<open>\<^verbatim>\<open>complete\<close> and \<^verbatim>\<open>complete_streaming\<close> differ only in the client call they make.\<close>

definition note_failure :: "instant \<Rightarrow> nat \<Rightarrow> llm_error \<Rightarrow> pool \<Rightarrow> fault + pool" where
  "note_failure now index e p =
     (let msg = show_llm_error e
      in if is_quota_message msg then mark_cooling now index msg p
         else if is_permanent_auth_message msg then mark_disabled index msg p
         else Inr p)"

definition pool_complete ::
  "instant \<Rightarrow> instant \<Rightarrow> (nat \<Rightarrow> llm_error + 'r) \<Rightarrow> pool \<Rightarrow> fault + ((llm_error + 'r) \<times> pool)" where
  "pool_complete now now' call p = (case select_account_index now p of
     Inl e \<Rightarrow> Inl e
   | Inr (None, p') \<Rightarrow> Inr (Inl (LlmRateLimited None), p')
   | Inr (Some index, p') \<Rightarrow>
       if index \<ge> length (pl_accounts p') then Inr (Inl (LlmApi ''Account index out of bounds''), p')
       else case call index of
         Inr response \<Rightarrow> Inr (Inr response, p')
       | Inl e \<Rightarrow> (case note_failure now' index e p' of
           Inl f \<Rightarrow> Inl f
         | Inr p'' \<Rightarrow> Inr (Inl e, p'')))"

text \<open>The refresh task disables an account whose token could not be refreshed.\<close>

definition refresh_failed :: "string \<Rightarrow> string \<Rightarrow> pool \<Rightarrow> pool" where
  "refresh_failed i err p = (case position (\<lambda>a. a = i) (pl_accounts p) of
     Some index \<Rightarrow> (if index < length (pl_runtimes p)
        then p\<lparr>pl_runtimes := (pl_runtimes p)[index :=
               \<lparr>rt_status = Disabled, rt_last_error = Some (''Token refresh failed: '' @ err)\<rparr>]\<rparr>
        else p)
   | None \<Rightarrow> p)"

section \<open>Health\<close>

datatype account_health_status = HealthAvailable | HealthCoolingDown | HealthDisabled

record account_health_info =
  hi_id :: string
  hi_status :: account_health_status
  hi_cooldown_remaining_secs :: "nat option"
  hi_last_error :: "string option"

record pool_status_info =
  ps_total :: nat
  ps_available :: nat
  ps_cooling :: nat
  ps_disabled :: nat
  ps_accounts :: "account_health_info list"

definition health_of :: "instant \<Rightarrow> string \<times> account_runtime \<Rightarrow> account_health_info" where
  "health_of now er = (case er of (i, rt) \<Rightarrow> (case rt_status rt of
     Available \<Rightarrow> \<lparr>hi_id = i, hi_status = HealthAvailable, hi_cooldown_remaining_secs = None,
                    hi_last_error = rt_last_error rt\<rparr>
   | CoolingDown until \<Rightarrow> \<lparr>hi_id = i, hi_status = HealthCoolingDown,
         hi_cooldown_remaining_secs = Some (if until > now then (until - now) div 1000000000 else 0),
         hi_last_error = rt_last_error rt\<rparr>
   | Disabled \<Rightarrow> \<lparr>hi_id = i, hi_status = HealthDisabled, hi_cooldown_remaining_secs = None,
                   hi_last_error = rt_last_error rt\<rparr>))"

definition pool_status :: "instant \<Rightarrow> pool \<Rightarrow> pool_status_info" where
  "pool_status now p =
     (let infos = map (health_of now) (zip (pl_accounts p) (pl_runtimes p))
      in \<lparr>ps_total = length (pl_accounts p),
          ps_available = length (filter (\<lambda>i. hi_status i = HealthAvailable) infos),
          ps_cooling = length (filter (\<lambda>i. hi_status i = HealthCoolingDown) infos),
          ps_disabled = length (filter (\<lambda>i. hi_status i = HealthDisabled) infos),
          ps_accounts = infos\<rparr>)"

section \<open>Sequences of calls\<close>

datatype 'r pool_call =
  CallAdd "llm_error + unit" string
| CallRemove "llm_error + unit" string
| CallComplete instant instant "nat \<Rightarrow> llm_error + 'r"
| CallRefreshFailed string string

definition pool_step :: "fault + pool \<Rightarrow> 'r pool_call \<Rightarrow> fault + pool" where
  "pool_step st call = (case st of
     Inl e \<Rightarrow> Inl e
   | Inr p \<Rightarrow> (case call of
       CallAdd prepared i \<Rightarrow> Inr (fst (add_account prepared i p))
     | CallRemove deleted i \<Rightarrow> Inr (fst (remove_account deleted i p))
     | CallComplete now now' f \<Rightarrow> map_sum id snd (pool_complete now now' f p)
     | CallRefreshFailed i err \<Rightarrow> Inr (refresh_failed i err p)))"

text \<open>The two lists are kept in step, one runtime per account.\<close>

definition pool_inv :: "fault + pool \<Rightarrow> bool" where
  "pool_inv st = (case st of Inl e \<Rightarrow> False | Inr p \<Rightarrow> length (pl_runtimes p) = length (pl_accounts p))"

definition available_at :: "instant \<Rightarrow> pool \<Rightarrow> nat \<Rightarrow> bool" where
  "available_at now p i \<longleftrightarrow> i < length (pl_runtimes p)
     \<and> rt_status (expire_cooldown now (pl_runtimes p ! i)) = Available"

section \<open>Round robin\<close>

lemma rr_find_ok:
  assumes "length rts = n" and "0 < n"
  shows "rr_find rts n start is = Inr (map_option (\<lambda>k. (start + is ! k) mod n)
           (position (\<lambda>i. rt_status (rts ! ((start + i) mod n)) = Available) is))"
proof (induction "is")
  case (Cons i "is")
  have "(start + i) mod n < n" using assms(2) by simp
  with Cons assms show ?case by (simp add: Let_def not_le option.map_comp comp_def)
qed simp

lemma select_round_robin:
  assumes inv: "length (pl_runtimes p) = length (pl_accounts p)" and rr: "pc_strategy (pl_config p) = RoundRobin"
  shows "select_account_index now p =
    (let n = length (pl_accounts p); p' = p\<lparr>pl_runtimes := map (expire_cooldown now) (pl_runtimes p)\<rparr>
     in case position (\<lambda>i. available_at now p ((pl_next_index p + i) mod n)) [0..<n] of
          None \<Rightarrow> Inr (None, p')
        | Some k \<Rightarrow> Inr (Some ((pl_next_index p + k) mod n), p'\<lparr>pl_next_index := (pl_next_index p + k + 1) mod n\<rparr>))"
proof (cases "length (pl_accounts p) = 0")
  case True
  then show ?thesis by (simp add: select_account_index_def rr)
next
  case False
  let ?n = "length (pl_accounts p)" and ?rts = "map (expire_cooldown now) (pl_runtimes p)"
  have eq: "rt_status (?rts ! ((pl_next_index p + i) mod ?n)) = Available \<longleftrightarrow>
      available_at now p ((pl_next_index p + i) mod ?n)" for i
    using False inv by (simp add: available_at_def)
  let ?pos = "position (\<lambda>i. available_at now p ((pl_next_index p + i) mod ?n)) [0..<?n]"
  have "rr_find ?rts ?n (pl_next_index p) [0..<?n] =
      Inr (map_option (\<lambda>k. (pl_next_index p + [0..<?n] ! k) mod ?n) ?pos)"
    unfolding eq [symmetric] by (rule rr_find_ok) (use False inv in simp_all)
  also have "map_option (\<lambda>k. (pl_next_index p + [0..<?n] ! k) mod ?n) ?pos
      = map_option (\<lambda>k. (pl_next_index p + k) mod ?n) ?pos"
    by (intro option.map_cong refl) (auto simp: position_Some elem_set)
  finally show ?thesis
    by (cases ?pos) (simp_all add: select_account_index_def rr Let_def mod_Suc_eq)
qed

lemma expire_available: "rt_status rt = Available \<Longrightarrow> expire_cooldown now rt = rt"
  by (simp add: expire_cooldown_def)

lemma select_keeps_inv:
  assumes "length (pl_runtimes p) = length (pl_accounts p)"
  shows "\<exists>r p'. select_account_index now p = Inr (r, p') \<and> pl_accounts p' = pl_accounts p
    \<and> pl_config p' = pl_config p \<and> pl_runtimes p' = map (expire_cooldown now) (pl_runtimes p)
    \<and> (\<forall>i. r = Some i \<longrightarrow> available_at now p i)"
proof (cases "pc_strategy (pl_config p)")
  case RoundRobin
  show ?thesis
    unfolding select_round_robin [OF assms RoundRobin] Let_def
    by (auto simp: position_Some split: option.split)
next
  case FirstAvailable
  then show ?thesis by (auto simp: select_account_index_def Let_def position_Some available_at_def)
qed

lemma mark_cooling_ok:
  "index < length (pl_runtimes p) \<Longrightarrow> \<exists>p'. mark_cooling now index msg p = Inr p' \<and> pl_accounts p' = pl_accounts p
     \<and> length (pl_runtimes p') = length (pl_runtimes p)"
  by (simp add: mark_cooling_def)

lemma note_failure_ok:
  "index < length (pl_runtimes p) \<Longrightarrow> \<exists>p'. note_failure now index e p = Inr p' \<and> pl_accounts p' = pl_accounts p
     \<and> length (pl_runtimes p') = length (pl_runtimes p)"
  by (simp add: note_failure_def Let_def mark_cooling_def mark_disabled_def)

lemma complete_keeps_inv [step_keeps]:
  assumes "length (pl_runtimes p) = length (pl_accounts p)"
  shows "pool_inv (map_sum id snd (pool_complete now now' call p))"
proof -
  obtain r p' where sel: "select_account_index now p = Inr (r, p')" and acc: "pl_accounts p' = pl_accounts p"
    and rts: "length (pl_runtimes p') = length (pl_runtimes p)"
    and avail: "\<And>i. r = Some i \<Longrightarrow> available_at now p i"
    using select_keeps_inv [OF assms, of now] by fastforce
  show ?thesis
  proof (cases r)
    case None
    then show ?thesis using sel acc rts assms by (simp add: pool_complete_def pool_inv_def)
  next
    case (Some i)
    then have "i < length (pl_runtimes p')" using avail rts by (auto simp: available_at_def)
    then obtain p'' where "\<And>e. call i = Inl e \<Longrightarrow> note_failure now' i e p' = Inr p''
        \<and> length (pl_runtimes p'') = length (pl_accounts p'')"
      using note_failure_ok [of i p' now'] acc rts assms by (cases "call i") fastforce+
    then show ?thesis using sel acc rts assms Some by (simp add: pool_complete_def pool_inv_def split: sum.split)
  qed
qed

lemma add_keeps_inv [step_keeps]:
  "length (pl_runtimes p) = length (pl_accounts p) \<Longrightarrow> pool_inv (Inr (fst (add_account prepared i p)))"
  by (simp add: pool_inv_def add_account_def add_push_account_def add_push_runtime_def split: sum.split)

lemma remove_keeps_inv [step_keeps]:
  assumes "length (pl_runtimes p) = length (pl_accounts p)"
  shows "pool_inv (Inr (fst (remove_account deleted i p)))"
  using assms
  by (auto simp: pool_inv_def remove_account_def remove_runtime_at_def remove_account_at_def Let_def position_Some
      split: option.split)

lemma refresh_keeps_inv [step_keeps]:
  "length (pl_runtimes p) = length (pl_accounts p) \<Longrightarrow> pool_inv (Inr (refresh_failed i err p))"
  by (simp add: pool_inv_def refresh_failed_def split: option.split)

lemmas pool_keeps = complete_keeps_inv add_keeps_inv remove_keeps_inv refresh_keeps_inv

interpretation pool_calls: event_driven pool_step pool_inv
proof
  fix st :: "fault + pool" and call :: "'r pool_call"
  assume "pool_inv st"
  then obtain p where p: "st = Inr p" "length (pl_runtimes p) = length (pl_accounts p)"
    by (auto simp: pool_inv_def split: sum.splits)
  show "pool_inv (pool_step st call)"
    unfolding pool_step_def p(1) using pool_keeps [OF p(2)] by (cases call) simp_all
qed

section \<open>Turns\<close>

text \<open>The accounts a series of selections at the times \<open>ts\<close> returns.\<close>

fun picks :: "instant list \<Rightarrow> pool \<Rightarrow> nat list" where
  "picks [] p = []"
| "picks (t # ts) p = (case select_account_index t p of
     Inr (Some i, p') \<Rightarrow> i # picks ts p' | _ \<Rightarrow> [])"

lemma picks_reach:
  assumes "length (pl_runtimes p) = length (pl_accounts p)" and "pc_strategy (pl_config p) = RoundRobin"
    and "j < length (pl_accounts p)" and "rt_status (pl_runtimes p ! j) = Available"
    and "(pl_next_index p + d) mod length (pl_accounts p) = j" and "d < length (pl_accounts p)"
    and "d < length ts"
  shows "j \<in> set (picks ts p)"
  using assms
proof (induction ts arbitrary: p d)
  case (Cons t ts)
  let ?n = "length (pl_accounts p)"
  have "available_at t p j" using Cons.prems by (simp add: available_at_def expire_available)
  then have "position (\<lambda>i. available_at t p ((pl_next_index p + i) mod ?n)) [0..<?n] \<noteq> None"
    using Cons.prems by (auto simp: position_None)
  then obtain k where pos: "position (\<lambda>i. available_at t p ((pl_next_index p + i) mod ?n)) [0..<?n] = Some k"
    by blast
  then have k: "k < ?n" "\<And>i. i < k \<Longrightarrow> \<not> available_at t p ((pl_next_index p + i) mod ?n)"
    by (auto simp: position_Some)
  have "k \<le> d" using k(2) [of d] \<open>available_at t p j\<close> Cons.prems(5) by force
  define p' where "p' = p\<lparr>pl_runtimes := map (expire_cooldown t) (pl_runtimes p),
      pl_next_index := (pl_next_index p + k + 1) mod ?n\<rparr>"
  have sel: "select_account_index t p = Inr (Some ((pl_next_index p + k) mod ?n), p')"
    using select_round_robin [OF Cons.prems(1,2), of t] pos by (simp add: p'_def Let_def)
  show ?case
  proof (cases "k = d")
    case True
    then show ?thesis using sel Cons.prems(5) by simp
  next
    case False
    with \<open>k \<le> d\<close> have "k < d" by simp
    then have "pl_next_index p + k + 1 + (d - k - 1) = pl_next_index p + d" by simp
    moreover have "pl_next_index p' = (pl_next_index p + k + 1) mod ?n" by (simp add: p'_def)
    ultimately have "(pl_next_index p' + (d - k - 1)) mod ?n = j"
      using Cons.prems(5) by (simp only: mod_add_left_eq)
    moreover have "rt_status (pl_runtimes p' ! j) = Available"
      using Cons.prems by (simp add: p'_def expire_available)
    ultimately have "j \<in> set (picks ts p')"
      using Cons.prems \<open>k < d\<close> by (intro Cons.IH [of p' "d - k - 1"]) (simp_all add: p'_def)
    then show ?thesis using sel by simp
  qed
qed simp

lemma offset_exists:
  assumes "j < n"
  shows "\<exists>d < n. (s + d) mod n = (j :: nat)"
proof (intro exI conjI)
  let ?d = "(j + (n - s mod n)) mod n"
  show "?d < n" using assms by simp
  have "s mod n < n" using assms by simp
  then have "s mod n + (j + (n - s mod n)) = j + n" by simp
  then have "(s mod n + (j + (n - s mod n))) mod n = j" using assms by simp
  then show "(s + ?d) mod n = j" by (simp add: mod_add_left_eq mod_add_right_eq)
qed

section \<open>Properties\<close>

text \<open>
  C28: no account starves. In a round-robin pool with one runtime per account, an account that is
  available is among the accounts the next \<open>n\<close> selections return, where \<open>n\<close> is the number of
  accounts, whenever they take place and whatever the other accounts' states are.
\<close>

theorem round_robin_no_starvation:
  assumes "pool_inv (Inr p)" and "pc_strategy (pl_config p) = RoundRobin"
    and "j < length (pl_accounts p)" and "rt_status (pl_runtimes p ! j) = Available"
    and "length ts = length (pl_accounts p)"
  shows "j \<in> set (picks ts p)"
proof -
  obtain d where "d < length (pl_accounts p)" "(pl_next_index p + d) mod length (pl_accounts p) = j"
    using offset_exists [OF assms(3)] by blast
  then show ?thesis using assms by (intro picks_reach [of p j d]) (simp_all add: pool_inv_def)
qed

definition sample_pool :: pool where
  "sample_pool = \<lparr>pl_accounts = [''a'', ''b'', ''c''],
     pl_runtimes = [account_runtime_default, \<lparr>rt_status = Disabled, rt_last_error = None\<rparr>, account_runtime_default],
     pl_next_index = 1, pl_config = \<lparr>pc_cooldown = 10, pc_strategy = RoundRobin\<rparr>\<rparr>"

theorem round_robin_no_starvation_witness: "0 \<in> set (picks [5, 6, 7] sample_pool)"
  by (rule round_robin_no_starvation)
     (simp_all add: sample_pool_def pool_inv_def account_runtime_default_def)

text \<open>
  Calls that do not overlap keep the accounts and their runtimes in step and never index out of
  bounds: from an empty pool, or one with an account per loaded credential, after any sequence of
  additions, removals, completions and failed refreshes there is no panic and one runtime per account.
\<close>

theorem pool_calls_never_fault:
  "pool_inv (foldl pool_step (Inr (pool_empty cfg)) (calls :: 'r pool_call list))
    \<and> (case pool_new loaded cfg of Inl e \<Rightarrow> loaded = []
       | Inr p \<Rightarrow> pool_inv (foldl pool_step (Inr p) calls))"
proof -
  have "pool_inv (Inr (pool_empty cfg))" by (simp add: pool_inv_def pool_empty_def)
  moreover have "pool_inv (Inr p)" if "pool_new loaded cfg = Inr p" for p
    using that by (auto simp: pool_new_def pool_inv_def split: if_splits)
  ultimately show ?thesis
    by (auto intro: pool_calls.run_inv simp: pool_new_def split: sum.split if_splits)
qed

text \<open>
  Failover. When the selected account's call fails with a quota message, the error is returned to
  the caller and no selection made before the cooldown has passed returns that account; one made later
  finds it available again.
\<close>

theorem quota_failure_cools_down:
  assumes "pool_inv (Inr p)" and "select_account_index now p = Inr (Some i, p')"
    and "call i = Inl e" and "is_quota_message (show_llm_error e)"
  shows "\<exists>q. pool_complete now now' call p = Inr (Inl e, q)
    \<and> (\<forall>t. available_at t q i \<longleftrightarrow> now' + pc_cooldown (pl_config p) \<le> t)
    \<and> (\<forall>t r q'. select_account_index t q = Inr (r, q') \<and> t < now' + pc_cooldown (pl_config p) \<longrightarrow> r \<noteq> Some i)"
proof -
  have inv: "length (pl_runtimes p) = length (pl_accounts p)" using assms(1) by (simp add: pool_inv_def)
  have p': "pl_accounts p' = pl_accounts p" "pl_config p' = pl_config p"
    "length (pl_runtimes p') = length (pl_runtimes p)" "available_at now p i"
    using select_keeps_inv [OF inv, of now] assms(2) by auto
  then have i: "i < length (pl_runtimes p')" by (simp add: available_at_def)
  define q where "q = p'\<lparr>pl_runtimes := (pl_runtimes p')[i :=
      \<lparr>rt_status = CoolingDown (now' + pc_cooldown (pl_config p)), rt_last_error = Some (show_llm_error e)\<rparr>]\<rparr>"
  have "pool_complete now now' call p = Inr (Inl e, q)"
    using assms i inv p' by (simp add: pool_complete_def note_failure_def mark_cooling_def q_def)
  moreover have avail: "available_at t q i \<longleftrightarrow> now' + pc_cooldown (pl_config p) \<le> t" for t
    using i by (simp add: available_at_def q_def expire_cooldown_def)
  moreover have "r \<noteq> Some i"
    if "select_account_index t q = Inr (r, q')" "t < now' + pc_cooldown (pl_config p)" for t r q'
  proof
    assume "r = Some i"
    have "length (pl_runtimes q) = length (pl_accounts q)" using inv p' by (simp add: q_def)
    then have "available_at t q i" using select_keeps_inv [of q t] that(1) \<open>r = Some i\<close> by auto
    then show False using avail that(2) by simp
  qed
  ultimately show ?thesis by blast
qed

theorem quota_failure_cools_down_witness:
  "\<exists>q. pool_complete 5 6 (\<lambda>i. Inl (LlmApi ''5-hour limit'') :: llm_error + unit) sample_pool
        = Inr (Inl (LlmApi ''5-hour limit''), q)
     \<and> \<not> available_at 15 q 2 \<and> available_at 16 q 2"
proof -
  have sel: "\<exists>p'. select_account_index 5 sample_pool = Inr (Some 2, p')"
    by (simp add: select_account_index_def sample_pool_def account_runtime_default_def expire_cooldown_def
        Let_def upt_rec)
  have "is_quota_message (show_llm_error (LlmApi ''5-hour limit''))" by code_simp
  moreover have "pool_inv (Inr sample_pool)" by (simp add: sample_pool_def pool_inv_def)
  ultimately show ?thesis
    using sel quota_failure_cools_down [of sample_pool 5 2 _ "\<lambda>i. Inl (LlmApi ''5-hour limit'') :: llm_error + unit"
        "LlmApi ''5-hour limit''" 6]
    by (fastforce simp: sample_pool_def)
qed

text \<open>
  An addition overlapping a selection can panic. Between the two halves of \<^verbatim>\<open>add_account\<close> the new
  account has no runtime; a round-robin selection made there indexes out of bounds whenever no older
  account is available, in particular in an empty pool.
\<close>

theorem add_account_race:
  assumes "pool_inv (Inr p)" and "pc_strategy (pl_config p) = RoundRobin"
    and "\<And>i. \<not> available_at now p i"
  shows "select_account_index now (add_push_account i p) = Inl IndexOutOfBounds"
proof -
  let ?n = "length (pl_accounts p)" and ?rts = "map (expire_cooldown now) (pl_runtimes p)"
  have len: "length ?rts = ?n" using assms(1) by (simp add: pool_inv_def)
  have none: "rt_status (?rts ! k) \<noteq> Available" if "k < ?n" for k
    using assms(3) [of k] that len by (simp add: available_at_def)
  have "rr_find ?rts (Suc ?n) s is = Inl IndexOutOfBounds \<or> (\<forall>i \<in> set is. (s + i) mod Suc ?n \<noteq> ?n)" for s "is"
  proof (induction "is")
    case (Cons i "is")
    have "(s + i) mod Suc ?n \<le> ?n" using less_Suc_eq_le mod_less_divisor by blast
    then show ?case using Cons none len by (auto simp: Let_def)
  qed simp
  moreover obtain d where "d < Suc ?n" "(pl_next_index p + d) mod Suc ?n = ?n"
    using offset_exists [of ?n "Suc ?n" "pl_next_index p"] by auto
  ultimately have "rr_find ?rts (Suc ?n) (pl_next_index p) [0..<Suc ?n] = Inl IndexOutOfBounds"
    by (metis atLeastLessThan_iff set_upt zero_le)
  then show ?thesis using assms(2) by (simp add: select_account_index_def add_push_account_def Let_def del: upt_Suc)
qed

theorem add_account_race_witness:
  "select_account_index 0 (add_push_account ''a'' (pool_empty pool_config_default)) = Inl IndexOutOfBounds"
  by (rule add_account_race) (simp_all add: pool_inv_def pool_empty_def pool_config_default_def available_at_def)

end
