(* ===== verification/Abac.thy ===== *)
theory Abac
  imports Prelude "HOL-Library.Option_ord"
begin

text \<open>
  The authorization engine of \<^verbatim>\<open>loom-server-auth\<close>: the roles of \<^verbatim>\<open>types.rs\<close>, the attributes of
  \<^verbatim>\<open>abac/types.rs\<close>, one function per policy module of \<^verbatim>\<open>abac/policies\<close>, and \<^verbatim>\<open>is_allowed\<close> of
  \<^verbatim>\<open>abac/engine.rs\<close>. Roles are ordered by \<^verbatim>\<open>has_permission_of\<close>; the specification \<open>entitled\<close>
  lists the grants one by one, and the engine is shown to allow exactly those.
\<close>

section \<open>Roles\<close>

type_synonym user_id = uuid
type_synonym org_id = uuid
type_synonym team_id = uuid

datatype global_role = SystemAdmin | Support | Auditor

datatype org_role = OrgOwner | OrgAdmin | OrgMember

datatype team_role = Maintainer | TeamMember

datatype visibility = Private | VisTeam | VisOrganization | Public

fun show_global_role :: "global_role \<Rightarrow> string" where
  "show_global_role SystemAdmin = ''system_admin''"
| "show_global_role Support = ''support''"
| "show_global_role Auditor = ''auditor''"

fun org_has_permission_of :: "org_role \<Rightarrow> org_role \<Rightarrow> bool" where
  "org_has_permission_of OrgOwner _ = True"
| "org_has_permission_of OrgAdmin r = (r = OrgAdmin \<or> r = OrgMember)"
| "org_has_permission_of OrgMember r = (r = OrgMember)"

fun team_has_permission_of :: "team_role \<Rightarrow> team_role \<Rightarrow> bool" where
  "team_has_permission_of Maintainer _ = True"
| "team_has_permission_of TeamMember r = (r = TeamMember)"

text \<open>The two permission orders are linear orders, owner and maintainer on top.\<close>

instantiation org_role :: linorder
begin

definition less_eq_org_role :: "org_role \<Rightarrow> org_role \<Rightarrow> bool" where
  "less_eq_org_role a b = org_has_permission_of b a"

definition less_org_role :: "org_role \<Rightarrow> org_role \<Rightarrow> bool" where
  "less_org_role a b = (org_has_permission_of b a \<and> \<not> org_has_permission_of a b)"

instance
proof
  fix x y z :: org_role
  show "x < y \<longleftrightarrow> x \<le> y \<and> \<not> y \<le> x" by (simp add: less_eq_org_role_def less_org_role_def)
  show "x \<le> x" by (cases x) (simp_all add: less_eq_org_role_def)
  show "x \<le> y \<Longrightarrow> y \<le> z \<Longrightarrow> x \<le> z" by (cases x; cases y; cases z) (simp_all add: less_eq_org_role_def)
  show "x \<le> y \<Longrightarrow> y \<le> x \<Longrightarrow> x = y" by (cases x; cases y) (simp_all add: less_eq_org_role_def)
  show "x \<le> y \<or> y \<le> x" by (cases x; cases y) (simp_all add: less_eq_org_role_def)
qed

end

instantiation team_role :: linorder
begin

definition less_eq_team_role :: "team_role \<Rightarrow> team_role \<Rightarrow> bool" where
  "less_eq_team_role a b = team_has_permission_of b a"

definition less_team_role :: "team_role \<Rightarrow> team_role \<Rightarrow> bool" where
  "less_team_role a b = (team_has_permission_of b a \<and> \<not> team_has_permission_of a b)"

instance
proof
  fix x y z :: team_role
  show "x < y \<longleftrightarrow> x \<le> y \<and> \<not> y \<le> x" by (simp add: less_eq_team_role_def less_team_role_def)
  show "x \<le> x" by (cases x) (simp_all add: less_eq_team_role_def)
  show "x \<le> y \<Longrightarrow> y \<le> z \<Longrightarrow> x \<le> z" by (cases x; cases y; cases z) (simp_all add: less_eq_team_role_def)
  show "x \<le> y \<Longrightarrow> y \<le> x \<Longrightarrow> x = y" by (cases x; cases y) (simp_all add: less_eq_team_role_def)
  show "x \<le> y \<or> y \<le> x" by (cases x; cases y) (simp_all add: less_eq_team_role_def)
qed

end

section \<open>Attributes\<close>

record org_membership_attr =
  om_org_id :: org_id
  om_role :: org_role

record team_membership_attr =
  tm_team_id :: team_id
  tm_org_id :: org_id
  tm_role :: team_role

record subject_attrs =
  sa_user_id :: user_id
  sa_org_memberships :: "org_membership_attr list"
  sa_team_memberships :: "team_membership_attr list"
  sa_global_roles :: "global_role list"

definition subject_new :: "user_id \<Rightarrow> subject_attrs" where
  "subject_new u = \<lparr>sa_user_id = u, sa_org_memberships = [], sa_team_memberships = [], sa_global_roles = []\<rparr>"

definition has_global_role :: "subject_attrs \<Rightarrow> global_role \<Rightarrow> bool" where
  "has_global_role s r \<longleftrightarrow> r \<in> set (sa_global_roles s)"

definition is_system_admin :: "subject_attrs \<Rightarrow> bool" where
  "is_system_admin s \<longleftrightarrow> has_global_role s SystemAdmin"

definition is_support :: "subject_attrs \<Rightarrow> bool" where
  "is_support s \<longleftrightarrow> has_global_role s Support"

definition is_auditor :: "subject_attrs \<Rightarrow> bool" where
  "is_auditor s \<longleftrightarrow> has_global_role s Auditor"

definition org_role_of :: "subject_attrs \<Rightarrow> org_id \<Rightarrow> org_role option" where
  "org_role_of s o_id = map_option om_role (List.find (\<lambda>m. om_org_id m = o_id) (sa_org_memberships s))"

definition is_org_member :: "subject_attrs \<Rightarrow> org_id \<Rightarrow> bool" where
  "is_org_member s o_id \<longleftrightarrow> is_some (org_role_of s o_id)"

definition is_org_admin :: "subject_attrs \<Rightarrow> org_id \<Rightarrow> bool" where
  "is_org_admin s o_id \<longleftrightarrow> org_role_of s o_id = Some OrgOwner \<or> org_role_of s o_id = Some OrgAdmin"

definition is_org_owner :: "subject_attrs \<Rightarrow> org_id \<Rightarrow> bool" where
  "is_org_owner s o_id \<longleftrightarrow> org_role_of s o_id = Some OrgOwner"

definition team_role_of :: "subject_attrs \<Rightarrow> team_id \<Rightarrow> team_role option" where
  "team_role_of s t = map_option tm_role (List.find (\<lambda>m. tm_team_id m = t) (sa_team_memberships s))"

definition is_team_member :: "subject_attrs \<Rightarrow> team_id \<Rightarrow> bool" where
  "is_team_member s t \<longleftrightarrow> is_some (team_role_of s t)"

definition is_team_maintainer :: "subject_attrs \<Rightarrow> team_id \<Rightarrow> bool" where
  "is_team_maintainer s t \<longleftrightarrow> team_role_of s t = Some Maintainer"

definition team_org_id :: "subject_attrs \<Rightarrow> team_id \<Rightarrow> org_id option" where
  "team_org_id s t = map_option tm_org_id (List.find (\<lambda>m. tm_team_id m = t) (sa_team_memberships s))"

datatype resource_type =
  RtThread | RtWorkspace | RtTool | RtOrganization | RtTeam | RtUser | RtApiKey | RtLlm | RtWeaver

datatype action =
  Read | Write | Delete | Share | UseTool | UseLlm | ManageOrg | ManageApiKeys | ManageTeam | Impersonate

record resource_attrs =
  ra_type :: resource_type
  ra_owner_user_id :: "user_id option"
  ra_org_id :: "org_id option"
  ra_team_id :: "team_id option"
  ra_visibility :: visibility
  ra_shared_with_support :: bool

definition resource_thread :: "user_id \<Rightarrow> resource_attrs" where
  "resource_thread u = \<lparr>ra_type = RtThread, ra_owner_user_id = Some u, ra_org_id = None,
     ra_team_id = None, ra_visibility = Private, ra_shared_with_support = False\<rparr>"

definition resource_organization :: "org_id \<Rightarrow> resource_attrs" where
  "resource_organization o_id = \<lparr>ra_type = RtOrganization, ra_owner_user_id = None, ra_org_id = Some o_id,
     ra_team_id = None, ra_visibility = Private, ra_shared_with_support = False\<rparr>"

definition resource_team :: "team_id \<Rightarrow> org_id \<Rightarrow> resource_attrs" where
  "resource_team t o_id = \<lparr>ra_type = RtTeam, ra_owner_user_id = None, ra_org_id = Some o_id,
     ra_team_id = Some t, ra_visibility = Private, ra_shared_with_support = False\<rparr>"

definition resource_llm :: "org_id \<Rightarrow> resource_attrs" where
  "resource_llm o_id = \<lparr>ra_type = RtLlm, ra_owner_user_id = None, ra_org_id = Some o_id,
     ra_team_id = None, ra_visibility = Private, ra_shared_with_support = False\<rparr>"

definition resource_tool :: "org_id \<Rightarrow> resource_attrs" where
  "resource_tool o_id = \<lparr>ra_type = RtTool, ra_owner_user_id = None, ra_org_id = Some o_id,
     ra_team_id = None, ra_visibility = Private, ra_shared_with_support = False\<rparr>"

definition resource_weaver :: "user_id \<Rightarrow> resource_attrs" where
  "resource_weaver u = \<lparr>ra_type = RtWeaver, ra_owner_user_id = Some u, ra_org_id = None,
     ra_team_id = None, ra_visibility = Private, ra_shared_with_support = False\<rparr>"

definition with_org :: "resource_attrs \<Rightarrow> org_id \<Rightarrow> resource_attrs" where
  "with_org r o_id = r\<lparr>ra_org_id := Some o_id\<rparr>"

definition with_team :: "resource_attrs \<Rightarrow> team_id \<Rightarrow> resource_attrs" where
  "with_team r t = r\<lparr>ra_team_id := Some t\<rparr>"

definition with_visibility :: "resource_attrs \<Rightarrow> visibility \<Rightarrow> resource_attrs" where
  "with_visibility r v = r\<lparr>ra_visibility := v\<rparr>"

definition with_support_access :: "resource_attrs \<Rightarrow> bool \<Rightarrow> resource_attrs" where
  "with_support_access r b = r\<lparr>ra_shared_with_support := b\<rparr>"

section \<open>Policies\<close>

definition is_owner :: "subject_attrs \<Rightarrow> resource_attrs \<Rightarrow> bool" where
  "is_owner s r \<longleftrightarrow> unwrap_or (map_option (\<lambda>i. i = sa_user_id s) (ra_owner_user_id r)) False"

definition thread_can_read :: "subject_attrs \<Rightarrow> resource_attrs \<Rightarrow> bool" where
  "thread_can_read s r =
     (if ra_shared_with_support r \<and> is_support s then True
      else case ra_visibility r of
        Public \<Rightarrow> True
      | VisOrganization \<Rightarrow> (case ra_org_id r of Some i \<Rightarrow> is_org_member s i | None \<Rightarrow> False)
      | VisTeam \<Rightarrow> (case ra_team_id r of Some t \<Rightarrow> is_team_member s t | None \<Rightarrow> False)
      | Private \<Rightarrow> False)"

definition thread_can_write :: "subject_attrs \<Rightarrow> resource_attrs \<Rightarrow> bool" where
  "thread_can_write s r = (case ra_org_id r of Some i \<Rightarrow> is_org_admin s i | None \<Rightarrow> False)"

definition thread_evaluate :: "subject_attrs \<Rightarrow> action \<Rightarrow> resource_attrs \<Rightarrow> bool" where
  "thread_evaluate s a r =
     (if is_owner s r then True
      else case a of
        Read \<Rightarrow> thread_can_read s r
      | Write \<Rightarrow> thread_can_write s r
      | Delete \<Rightarrow> thread_can_write s r
      | Share \<Rightarrow> False
      | _ \<Rightarrow> False)"

definition evaluate_org :: "subject_attrs \<Rightarrow> action \<Rightarrow> resource_attrs \<Rightarrow> bool" where
  "evaluate_org s a r = (case ra_org_id r of
     None \<Rightarrow> False
   | Some i \<Rightarrow> (case a of
        Read \<Rightarrow> is_org_member s i
      | Delete \<Rightarrow> is_org_owner s i
      | ManageOrg \<Rightarrow> is_org_admin s i
      | ManageApiKeys \<Rightarrow> is_org_admin s i
      | Write \<Rightarrow> is_org_admin s i
      | _ \<Rightarrow> False))"

definition evaluate_api_key :: "subject_attrs \<Rightarrow> action \<Rightarrow> resource_attrs \<Rightarrow> bool" where
  "evaluate_api_key s a r = (case ra_org_id r of
     None \<Rightarrow> False
   | Some i \<Rightarrow> (if a \<in> {Read, ManageApiKeys, Write, Delete} then is_org_admin s i else False))"

definition evaluate_team :: "subject_attrs \<Rightarrow> action \<Rightarrow> resource_attrs \<Rightarrow> bool" where
  "evaluate_team s a r = (case ra_org_id r of
     None \<Rightarrow> False
   | Some i \<Rightarrow>
       if a = Read then
         (if is_org_member s i then True
          else case ra_team_id r of Some t \<Rightarrow> is_team_member s t | None \<Rightarrow> False)
       else if a \<in> {ManageTeam, Write, Delete} then
         (if is_org_admin s i then True
          else case ra_team_id r of Some t \<Rightarrow> is_team_maintainer s t | None \<Rightarrow> False)
       else False)"

definition evaluate_llm :: "subject_attrs \<Rightarrow> action \<Rightarrow> resource_attrs \<Rightarrow> bool" where
  "evaluate_llm s a r = (case ra_org_id r of
     None \<Rightarrow> False
   | Some i \<Rightarrow> (if a = UseLlm \<or> a = Read then is_org_member s i else False))"

definition evaluate_tool :: "subject_attrs \<Rightarrow> action \<Rightarrow> resource_attrs \<Rightarrow> bool" where
  "evaluate_tool s a r = (case ra_org_id r of
     None \<Rightarrow> False
   | Some i \<Rightarrow> (if a = UseTool \<or> a = Read then is_org_member s i else False))"

definition weaver_evaluate :: "subject_attrs \<Rightarrow> action \<Rightarrow> resource_attrs \<Rightarrow> bool" where
  "weaver_evaluate s a r =
     (if is_system_admin s then True
      else if (case ra_owner_user_id r of Some i \<Rightarrow> sa_user_id s = i | None \<Rightarrow> False) then True
      else if is_support s \<and> a = Read then True
      else False)"

section \<open>The engine\<close>

definition check_global_roles :: "subject_attrs \<Rightarrow> action \<Rightarrow> resource_attrs \<Rightarrow> bool" where
  "check_global_roles s a r =
     (if is_system_admin s then True else if is_auditor s then a = Read else False)"

definition evaluate_workspace :: "subject_attrs \<Rightarrow> action \<Rightarrow> resource_attrs \<Rightarrow> bool" where
  "evaluate_workspace s a r =
     (if is_owner s r then True
      else case a of
        Read \<Rightarrow> (case ra_org_id r of Some i \<Rightarrow> is_org_member s i | None \<Rightarrow> False)
      | Write \<Rightarrow> (case ra_org_id r of Some i \<Rightarrow> is_org_admin s i | None \<Rightarrow> False)
      | Delete \<Rightarrow> (case ra_org_id r of Some i \<Rightarrow> is_org_admin s i | None \<Rightarrow> False)
      | _ \<Rightarrow> False)"

definition evaluate_user :: "subject_attrs \<Rightarrow> action \<Rightarrow> resource_attrs \<Rightarrow> bool" where
  "evaluate_user s a r = (case a of
     Read \<Rightarrow> True
   | Write \<Rightarrow> is_owner s r
   | Delete \<Rightarrow> is_owner s r
   | Impersonate \<Rightarrow> is_system_admin s
   | _ \<Rightarrow> False)"

definition policy_of :: "resource_type \<Rightarrow> subject_attrs \<Rightarrow> action \<Rightarrow> resource_attrs \<Rightarrow> bool" where
  "policy_of t = (case t of
     RtThread \<Rightarrow> thread_evaluate
   | RtOrganization \<Rightarrow> evaluate_org
   | RtTeam \<Rightarrow> evaluate_team
   | RtApiKey \<Rightarrow> evaluate_api_key
   | RtLlm \<Rightarrow> evaluate_llm
   | RtTool \<Rightarrow> evaluate_tool
   | RtWorkspace \<Rightarrow> evaluate_workspace
   | RtUser \<Rightarrow> evaluate_user
   | RtWeaver \<Rightarrow> weaver_evaluate)"

definition is_allowed :: "subject_attrs \<Rightarrow> action \<Rightarrow> resource_attrs \<Rightarrow> bool" where
  "is_allowed s a r =
     (if check_global_roles s a r then True else policy_of (ra_type r) s a r)"

section \<open>Specification: the grants\<close>

text \<open>
  What access each relationship grants, one rule per relationship, with no order between them
  and no default: an access is granted exactly when some rule grants it.
\<close>

inductive entitled :: "subject_attrs \<Rightarrow> action \<Rightarrow> resource_attrs \<Rightarrow> bool" where
  admin: "is_system_admin s \<Longrightarrow> entitled s a r"
| auditor: "is_auditor s \<Longrightarrow> entitled s Read r"
| owner: "ra_owner_user_id r = Some (sa_user_id s) \<Longrightarrow>
    ra_type r \<in> {RtThread, RtWorkspace, RtWeaver} \<Longrightarrow> entitled s a r"
| support_thread: "is_support s \<Longrightarrow> ra_type r = RtThread \<Longrightarrow> ra_shared_with_support r \<Longrightarrow> entitled s Read r"
| support_weaver: "is_support s \<Longrightarrow> ra_type r = RtWeaver \<Longrightarrow> entitled s Read r"
| public_thread: "ra_type r = RtThread \<Longrightarrow> ra_visibility r = Public \<Longrightarrow> entitled s Read r"
| org_thread: "ra_type r = RtThread \<Longrightarrow> ra_visibility r = VisOrganization \<Longrightarrow> ra_org_id r = Some i \<Longrightarrow>
    Some OrgMember \<le> org_role_of s i \<Longrightarrow> entitled s Read r"
| team_thread: "ra_type r = RtThread \<Longrightarrow> ra_visibility r = VisTeam \<Longrightarrow> ra_team_id r = Some t \<Longrightarrow>
    Some TeamMember \<le> team_role_of s t \<Longrightarrow> entitled s Read r"
| org_member: "ra_org_id r = Some i \<Longrightarrow> Some OrgMember \<le> org_role_of s i \<Longrightarrow>
    (ra_type r, a) \<in> {(RtOrganization, Read), (RtTeam, Read), (RtWorkspace, Read),
      (RtLlm, Read), (RtLlm, UseLlm), (RtTool, Read), (RtTool, UseTool)} \<Longrightarrow> entitled s a r"
| org_admin: "ra_org_id r = Some i \<Longrightarrow> Some OrgAdmin \<le> org_role_of s i \<Longrightarrow>
    (ra_type r, a) \<in> {RtThread, RtWorkspace} \<times> {Write, Delete}
      \<union> {RtOrganization} \<times> {ManageOrg, ManageApiKeys, Write}
      \<union> {RtApiKey} \<times> {Read, ManageApiKeys, Write, Delete}
      \<union> {RtTeam} \<times> {ManageTeam, Write, Delete} \<Longrightarrow> entitled s a r"
| org_owner: "ra_org_id r = Some i \<Longrightarrow> Some OrgOwner \<le> org_role_of s i \<Longrightarrow>
    ra_type r = RtOrganization \<Longrightarrow> entitled s Delete r"
| team_member: "ra_org_id r = Some i \<Longrightarrow> ra_team_id r = Some t \<Longrightarrow> Some TeamMember \<le> team_role_of s t \<Longrightarrow>
    ra_type r = RtTeam \<Longrightarrow> entitled s Read r"
| team_maintainer: "ra_org_id r = Some i \<Longrightarrow> ra_team_id r = Some t \<Longrightarrow>
    Some Maintainer \<le> team_role_of s t \<Longrightarrow>
    ra_type r = RtTeam \<Longrightarrow> a \<in> {ManageTeam, Write, Delete} \<Longrightarrow> entitled s a r"
| any_user: "ra_type r = RtUser \<Longrightarrow> entitled s Read r"
| self: "ra_type r = RtUser \<Longrightarrow> ra_owner_user_id r = Some (sa_user_id s) \<Longrightarrow>
    a \<in> {Write, Delete} \<Longrightarrow> entitled s a r"

inductive_simps entitled_simp: "entitled s a r"


section \<open>Role thresholds\<close>

text \<open>Each membership test of the sources asks for a least role.\<close>

lemma member_threshold: "is_org_member s i \<longleftrightarrow> Some OrgMember \<le> org_role_of s i"
proof -
  have "OrgMember \<le> x" for x by (cases x) (simp_all add: less_eq_org_role_def)
  then show ?thesis by (cases "org_role_of s i") (simp_all add: is_org_member_def is_some_def)
qed

lemma admin_threshold: "is_org_admin s i \<longleftrightarrow> Some OrgAdmin \<le> org_role_of s i"
proof -
  have "OrgAdmin \<le> x \<longleftrightarrow> x = OrgOwner \<or> x = OrgAdmin" for x
    by (cases x) (simp_all add: less_eq_org_role_def)
  then show ?thesis by (cases "org_role_of s i") (simp_all add: is_org_admin_def)
qed

lemma owner_threshold: "is_org_owner s i \<longleftrightarrow> Some OrgOwner \<le> org_role_of s i"
proof -
  have "OrgOwner \<le> x \<longleftrightarrow> x = OrgOwner" for x by (cases x) (simp_all add: less_eq_org_role_def)
  then show ?thesis by (cases "org_role_of s i") (simp_all add: is_org_owner_def)
qed

lemma team_member_threshold: "is_team_member s t \<longleftrightarrow> Some TeamMember \<le> team_role_of s t"
proof -
  have "TeamMember \<le> x" for x by (cases x) (simp_all add: less_eq_team_role_def)
  then show ?thesis by (cases "team_role_of s t") (simp_all add: is_team_member_def is_some_def)
qed

lemma maintainer_threshold: "is_team_maintainer s t \<longleftrightarrow> Some Maintainer \<le> team_role_of s t"
proof -
  have "Maintainer \<le> x \<longleftrightarrow> x = Maintainer" for x by (cases x) (simp_all add: less_eq_team_role_def)
  then show ?thesis by (cases "team_role_of s t") (simp_all add: is_team_maintainer_def)
qed

lemma is_owner_iff: "is_owner s r \<longleftrightarrow> ra_owner_user_id r = Some (sa_user_id s)"
  by (cases "ra_owner_user_id r") (auto simp: is_owner_def unwrap_or_def)

lemmas thresholds = member_threshold admin_threshold owner_threshold team_member_threshold
  maintainer_threshold is_owner_iff

lemmas policy_defs = policy_of_def thread_evaluate_def thread_can_read_def thread_can_write_def
  evaluate_org_def evaluate_api_key_def evaluate_team_def evaluate_llm_def evaluate_tool_def
  evaluate_workspace_def evaluate_user_def weaver_evaluate_def

section \<open>Interface: a policy that only ever grows with privileges\<close>

text \<open>
  \<open>privileges_le s s'\<close>: the same user, with at least the global roles and, in every organization
  and team, at least the role. The laws hold of any policy whose decisions grow along it.
\<close>

definition privileges_le :: "subject_attrs \<Rightarrow> subject_attrs \<Rightarrow> bool" where
  "privileges_le s s' \<longleftrightarrow> sa_user_id s = sa_user_id s' \<and> set (sa_global_roles s) \<subseteq> set (sa_global_roles s')
     \<and> (\<forall>i. org_role_of s i \<le> org_role_of s' i) \<and> (\<forall>t. team_role_of s t \<le> team_role_of s' t)"

lemma privileges_le_refl: "privileges_le s s"
  by (simp add: privileges_le_def)

lemma privileges_le_trans: "privileges_le s t \<Longrightarrow> privileges_le t u \<Longrightarrow> privileges_le s u"
  unfolding privileges_le_def by (metis order_trans)

lemma org_role_of_append:
  "org_role_of (s\<lparr>sa_org_memberships := sa_org_memberships s @ ms\<rparr>) i =
     (case org_role_of s i of Some r \<Rightarrow> Some r | None \<Rightarrow> org_role_of (s\<lparr>sa_org_memberships := ms\<rparr>) i)"
proof -
  have "map_option om_role (List.find p (xs @ ys)) =
      (case map_option om_role (List.find p xs) of Some r \<Rightarrow> Some r
       | None \<Rightarrow> map_option om_role (List.find p ys))" for p xs ys
    by (induction xs) auto
  from this [of "\<lambda>m. om_org_id m = i" "sa_org_memberships s" ms] show ?thesis
    by (auto simp: org_role_of_def split: option.splits)
qed

lemma join_org_grows:
  "privileges_le s (s\<lparr>sa_org_memberships := sa_org_memberships s @ [m]\<rparr>)"
  by (auto simp: privileges_le_def org_role_of_append team_role_of_def split: option.splits)

lemma grant_role_grows: "privileges_le s (s\<lparr>sa_global_roles := g # sa_global_roles s\<rparr>)"
  by (auto simp: privileges_le_def org_role_of_def team_role_of_def)

locale growing_policy =
  fixes evaluate :: "subject_attrs \<Rightarrow> action \<Rightarrow> resource_attrs \<Rightarrow> bool"
  assumes grows: "privileges_le s s' \<Longrightarrow> evaluate s a r \<Longrightarrow> evaluate s' a r"
begin

lemma denied_below: "privileges_le s s' \<Longrightarrow> \<not> evaluate s' a r \<Longrightarrow> \<not> evaluate s a r"
  using grows by blast

lemma joining_keeps_access:
  "evaluate s a r \<Longrightarrow> evaluate (s\<lparr>sa_org_memberships := sa_org_memberships s @ [m]\<rparr>) a r"
  by (rule grows [OF join_org_grows])

lemma granting_keeps_access:
  "evaluate s a r \<Longrightarrow> evaluate (s\<lparr>sa_global_roles := g # sa_global_roles s\<rparr>) a r"
  by (rule grows [OF grant_role_grows])

end

lemma privileges_leD:
  assumes "privileges_le s s'"
  shows "sa_user_id s' = sa_user_id s"
    and "is_system_admin s \<Longrightarrow> is_system_admin s'"
    and "is_support s \<Longrightarrow> is_support s'"
    and "is_auditor s \<Longrightarrow> is_auditor s'"
    and "x \<le> org_role_of s i \<Longrightarrow> x \<le> org_role_of s' i"
    and "y \<le> team_role_of s t \<Longrightarrow> y \<le> team_role_of s' t"
  using assms unfolding privileges_le_def is_system_admin_def is_support_def is_auditor_def has_global_role_def
  by (auto intro: order_trans)

lemma entitled_grows:
  assumes "privileges_le s s'" and "entitled s a r"
  shows "entitled s' a r"
  using assms(2,1)
proof (induction rule: entitled.induct)
  case (admin s a r) then show ?case by (blast intro: entitled.admin privileges_leD(2-6))
next
  case (auditor s r) then show ?case by (blast intro: entitled.auditor privileges_leD(2-6))
next
  case (owner r s a)
  then have "sa_user_id s' = sa_user_id s" by (blast dest: privileges_leD(1))
  with owner show ?case by (intro entitled.owner) simp_all
next
  case (support_thread s r) then show ?case by (blast intro: entitled.support_thread privileges_leD(2-6))
next
  case (support_weaver s r) then show ?case by (blast intro: entitled.support_weaver privileges_leD(2-6))
next
  case (public_thread r s) then show ?case by (blast intro: entitled.public_thread privileges_leD(2-6))
next
  case (org_thread r i s) then show ?case by (blast intro: entitled.org_thread privileges_leD(2-6))
next
  case (team_thread r t s) then show ?case by (blast intro: entitled.team_thread privileges_leD(2-6))
next
  case (org_member r i s a) then show ?case by (blast intro: entitled.org_member privileges_leD(2-6))
next
  case (org_admin r i s a) then show ?case by (blast intro: entitled.org_admin privileges_leD(2-6))
next
  case (org_owner r i s) then show ?case by (blast intro: entitled.org_owner privileges_leD(2-6))
next
  case (team_member r i t s) then show ?case by (blast intro: entitled.team_member privileges_leD(2-6))
next
  case (team_maintainer r i t s a) then show ?case by (blast intro: entitled.team_maintainer privileges_leD(2-6))
next
  case (any_user r s) then show ?case by (blast intro: entitled.any_user privileges_leD(2-6))
next
  case (self r s a)
  then have "sa_user_id s' = sa_user_id s" by (blast dest: privileges_leD(1))
  with self show ?case by (intro entitled.self) simp_all
qed

lemma entitled_imp_allowed: "entitled s a r \<Longrightarrow> is_allowed s a r"
  unfolding is_allowed_def check_global_roles_def
  by (induction rule: entitled.induct) (auto simp: policy_defs thresholds)

lemma thread_entitled: "ra_type r = RtThread \<Longrightarrow> thread_evaluate s a r \<Longrightarrow> entitled s a r"
  by (cases a) (auto simp: thread_evaluate_def thread_can_read_def thread_can_write_def thresholds
      intro: entitled.intros split: if_splits option.splits visibility.splits)

lemma org_entitled: "ra_type r = RtOrganization \<Longrightarrow> evaluate_org s a r \<Longrightarrow> entitled s a r"
  by (cases a) (auto simp: evaluate_org_def thresholds
      intro: entitled.org_member entitled.org_admin entitled.org_owner split: option.splits)

lemma api_key_entitled: "ra_type r = RtApiKey \<Longrightarrow> evaluate_api_key s a r \<Longrightarrow> entitled s a r"
  by (auto simp: evaluate_api_key_def thresholds intro!: entitled.org_admin split: if_splits option.splits)

lemma team_entitled: "ra_type r = RtTeam \<Longrightarrow> evaluate_team s a r \<Longrightarrow> entitled s a r"
  by (cases a) (auto simp: evaluate_team_def thresholds split: if_splits option.splits
      intro: entitled.org_member entitled.org_admin entitled.team_member entitled.team_maintainer)

lemma llm_entitled: "ra_type r = RtLlm \<Longrightarrow> evaluate_llm s a r \<Longrightarrow> entitled s a r"
  by (auto simp: evaluate_llm_def thresholds intro: entitled.org_member split: if_splits option.splits)

lemma tool_entitled: "ra_type r = RtTool \<Longrightarrow> evaluate_tool s a r \<Longrightarrow> entitled s a r"
  by (auto simp: evaluate_tool_def thresholds intro: entitled.org_member split: if_splits option.splits)

lemma workspace_entitled: "ra_type r = RtWorkspace \<Longrightarrow> evaluate_workspace s a r \<Longrightarrow> entitled s a r"
  by (cases a) (auto simp: evaluate_workspace_def thresholds split: if_splits option.splits
      intro: entitled.owner entitled.org_member entitled.org_admin)

lemma user_entitled: "ra_type r = RtUser \<Longrightarrow> evaluate_user s a r \<Longrightarrow> entitled s a r"
  by (cases a) (auto simp: evaluate_user_def thresholds
      intro: entitled.any_user entitled.self entitled.admin)

lemma weaver_entitled: "ra_type r = RtWeaver \<Longrightarrow> weaver_evaluate s a r \<Longrightarrow> entitled s a r"
  by (auto simp: weaver_evaluate_def split: if_splits option.splits
      intro: entitled.admin entitled.owner entitled.support_weaver)

lemmas policies_entitled = thread_entitled org_entitled api_key_entitled team_entitled llm_entitled
  tool_entitled workspace_entitled user_entitled weaver_entitled

lemma allowed_imp_entitled: "is_allowed s a r \<Longrightarrow> entitled s a r"
  unfolding is_allowed_def check_global_roles_def policy_of_def
  by (cases "ra_type r")
     (auto intro: entitled.admin entitled.auditor policies_entitled split: if_splits)

lemma is_allowed_entitled: "is_allowed s a r \<longleftrightarrow> entitled s a r"
  using allowed_imp_entitled entitled_imp_allowed by blast

interpretation engine: growing_policy is_allowed
  by unfold_locales (auto simp: is_allowed_entitled intro: entitled_grows)

section \<open>Properties\<close>


text \<open>
  More privileges never take an access away: a subject with at least the global roles, and in
  every organization and team at least the role (in the sense of \<^verbatim>\<open>has_permission_of\<close>), is allowed
  everything the lesser subject is allowed, whatever policy decides.
\<close>

theorem is_allowed_grows:
  assumes "privileges_le s s'" and "is_allowed s a r"
  shows "is_allowed s' a r"
  using assms by (rule engine.grows)

definition sample_subject :: subject_attrs where
  "sample_subject = (subject_new 1)\<lparr>sa_org_memberships := [\<lparr>om_org_id = 7, om_role = OrgAdmin\<rparr>]\<rparr>"

theorem is_allowed_grows_witness:
  "is_allowed (sample_subject\<lparr>sa_global_roles := [Auditor]\<rparr>) Write (with_org (resource_thread 2) 7)"
proof (rule is_allowed_grows)
  show "privileges_le sample_subject (sample_subject\<lparr>sa_global_roles := [Auditor]\<rparr>)"
    using grant_role_grows [of sample_subject Auditor] by (simp add: sample_subject_def subject_new_def)
  show "is_allowed sample_subject Write (with_org (resource_thread 2) 7)"
    by code_simp
qed

text \<open>
  C13: tenant isolation. A subject with no global role who neither owns the resource nor belongs to
  its organization nor its team may do exactly two things: read a user's profile and read a public
  thread; every other access to another tenant's resources is denied.
\<close>

theorem outsider_isolated:
  assumes "sa_global_roles s = []"
    and "ra_owner_user_id r \<noteq> Some (sa_user_id s)"
    and "\<And>i. ra_org_id r = Some i \<Longrightarrow> \<not> is_org_member s i"
    and "\<And>t. ra_team_id r = Some t \<Longrightarrow> \<not> is_team_member s t"
  shows "is_allowed s a r \<longleftrightarrow>
    a = Read \<and> (ra_type r = RtUser \<or> ra_type r = RtThread \<and> ra_visibility r = Public)"
proof -
  have no_role: "\<not> is_system_admin s" "\<not> is_auditor s" "\<not> is_support s"
    using assms(1) by (simp_all add: is_system_admin_def is_auditor_def is_support_def has_global_role_def)
  have no_org: "org_role_of s i = None" if "ra_org_id r = Some i" for i
    using assms(3) [OF that] by (simp add: is_org_member_def is_some_def)
  have no_team: "team_role_of s t = None" if "ra_team_id r = Some t" for t
    using assms(4) [OF that] by (simp add: is_team_member_def is_some_def)
  have "a = Read \<and> (ra_type r = RtUser \<or> ra_type r = RtThread \<and> ra_visibility r = Public)"
    if "entitled s a r"
    using that by cases (use no_role no_org no_team assms(2) in auto)
  then show ?thesis unfolding is_allowed_entitled by (auto intro: entitled.intros)
qed

theorem outsider_isolated_witness:
  "\<not> is_allowed sample_subject Read (with_visibility (with_org (resource_thread 2) 8) VisOrganization)"
  using outsider_isolated [of sample_subject "with_visibility (with_org (resource_thread 2) 8) VisOrganization" Read]
  by (simp add: sample_subject_def subject_new_def with_org_def with_visibility_def resource_thread_def
      is_org_member_def org_role_of_def is_some_def)

text \<open>
  On a private thread of an organization, an administrator of that organization who is not the
  owner and has no global role may write and delete the thread, but may not read it.
\<close>

theorem private_thread_org_admin:
  assumes "sa_global_roles s = []" and "is_org_admin s i"
    and "ra_type r = RtThread" and "ra_visibility r = Private" and "ra_org_id r = Some i"
    and "ra_owner_user_id r \<noteq> Some (sa_user_id s)"
  shows "is_allowed s Write r \<and> is_allowed s Delete r \<and> \<not> is_allowed s Read r"
  using assms
  by (simp add: is_allowed_def check_global_roles_def is_system_admin_def is_auditor_def is_support_def
      has_global_role_def policy_of_def thread_evaluate_def thread_can_read_def thread_can_write_def is_owner_iff)

theorem private_thread_org_admin_witness:
  "is_allowed sample_subject Delete (with_org (resource_thread 2) 7)
    \<and> \<not> is_allowed sample_subject Read (with_org (resource_thread 2) 7)"
  using private_thread_org_admin [of sample_subject 7 "with_org (resource_thread 2) 7"]
  by (simp add: sample_subject_def subject_new_def with_org_def resource_thread_def is_org_admin_def
      org_role_of_def)

end
