(* ===== verification/Users.thy ===== *)
theory Users
  imports Abac
begin

text \<open>
  Users of \<^verbatim>\<open>loom-server-auth/src/user.rs\<close>: the record, its global roles, the public profile, and the
  two routines on usernames, the validation of a chosen one and the proposal made from a display
  name or e-mail address.

  \<^verbatim>\<open>to_lowercase\<close> is modelled on ASCII; \<^verbatim>\<open>validate_username\<close> calls it only on names it has already
  found to be ASCII. \<^verbatim>\<open>generate_username_base\<close> replaces a non-ASCII character by one underscore where
  the byte-wise model writes one per byte; runs of underscores are collapsed right after, so the
  result is the same.
\<close>

section \<open>Users\<close>

record user =
  us_id :: user_id
  us_display_name :: string
  us_username :: "string option"
  us_primary_email :: "string option"
  us_avatar_url :: "string option"
  us_email_visible :: bool
  us_is_system_admin :: bool
  us_is_support :: bool
  us_is_auditor :: bool
  us_created_at :: datetime
  us_updated_at :: datetime
  us_deleted_at :: "datetime option"
  us_locale :: "string option"

record user_profile =
  up_id :: user_id
  up_display_name :: string
  up_email :: "string option"
  up_avatar_url :: "string option"

definition user_is_deleted :: "user \<Rightarrow> bool" where
  "user_is_deleted u \<longleftrightarrow> is_some (us_deleted_at u)"

definition user_has_global_role :: "user \<Rightarrow> global_role \<Rightarrow> bool" where
  "user_has_global_role u r = (case r of
     SystemAdmin \<Rightarrow> us_is_system_admin u | Support \<Rightarrow> us_is_support u | Auditor \<Rightarrow> us_is_auditor u)"

definition user_global_roles :: "user \<Rightarrow> global_role list" where
  "user_global_roles u = (if us_is_system_admin u then [SystemAdmin] else [])
     @ (if us_is_support u then [Support] else []) @ (if us_is_auditor u then [Auditor] else [])"

definition to_profile :: "user \<Rightarrow> user_profile" where
  "to_profile u = \<lparr>up_id = us_id u, up_display_name = us_display_name u,
     up_email = (if us_email_visible u then us_primary_email u else None), up_avatar_url = us_avatar_url u\<rparr>"

section \<open>Usernames\<close>

definition RESERVED_USERNAMES :: "string list" where
  "RESERVED_USERNAMES = [
    ''root'', ''admin'', ''administrator'', ''sudo'', ''system'', ''sysadmin'', ''postmaster'',
    ''webmaster'', ''hostmaster'', ''abuse'', ''security'', ''support'', ''help'', ''info'',
    ''contact'', ''noreply'', ''no-reply'', ''git'', ''jj'', ''svn'', ''hg'', ''mercurial'',
    ''cvs'', ''github'', ''gitlab'', ''bitbucket'', ''gitea'', ''forgejo'', ''sourcehut'',
    ''loom'', ''weaver'', ''weavers'', ''thread'', ''threads'', ''cannon'', ''mirrors'',
    ''mirror'', ''api'', ''oauth'', ''auth'', ''login'', ''logout'', ''signup'', ''register'',
    ''settings'', ''profile'', ''account'', ''static'', ''assets'', ''images'', ''img'', ''css'',
    ''js'', ''fonts'', ''public'', ''private'', ''uploads'', ''downloads'', ''files'',
    ''favicon'', ''robots'', ''sitemap'', ''manifest'', ''discord'', ''slack'', ''twitter'',
    ''x'', ''instagram'', ''facebook'', ''linkedin'', ''youtube'', ''tiktok'', ''reddit'',
    ''chat'', ''status'', ''www'', ''web'', ''app'', ''apps'', ''home'', ''index'', ''default'',
    ''new'', ''edit'', ''delete'', ''create'', ''update'', ''search'', ''explore'', ''discover'',
    ''trending'', ''popular'', ''featured'', ''org'', ''orgs'', ''organization'',
    ''organizations'', ''team'', ''teams'', ''group'', ''groups'', ''enterprise'', ''null'',
    ''undefined'', ''none'', ''anonymous'', ''guest'', ''user'', ''users'', ''test'',
    ''testing'', ''demo'', ''example'', ''sample'', ''blog'', ''news'', ''docs'',
    ''documentation'', ''wiki'', ''forum'', ''pricing'', ''about'', ''terms'', ''privacy'',
    ''legal'', ''dmca'']"

definition is_username_reserved :: "string \<Rightarrow> bool" where
  "is_username_reserved username = list_ex (\<lambda>r. r = to_ascii_lowercase username) RESERVED_USERNAMES"

definition validate_username :: "string \<Rightarrow> string + unit" where
  "validate_username name =
     (if length name < 3 then Inl ''Username must be at least 3 characters''
      else if length name > 39 then Inl ''Username must be at most 39 characters''
      else if \<not> list_all (\<lambda>c. is_ascii_alphanumeric c \<or> c = CHR ''_'') name
        then Inl ''Username can only contain letters, numbers, and underscores''
      else if starts_with name ''_'' then Inl ''Username cannot start with underscore''
      else if list_all is_ascii_digit name then Inl ''Username cannot be all numbers''
      else if is_username_reserved name then Inl ''This username is reserved''
      else Inr ())"

definition before_at :: "string \<Rightarrow> string" where
  "before_at source = (case position (\<lambda>c. c = CHR ''@'') source of Some i \<Rightarrow> take i source | None \<Rightarrow> source)"

definition sanitize_char :: "char \<Rightarrow> char" where
  "sanitize_char c = (if is_ascii_alphanumeric c then to_ascii_lowercase_char c else CHR ''_'')"

definition collapse_underscores :: "string \<Rightarrow> string" where
  "collapse_underscores s =
     str_join ''_'' (filter (\<lambda>w. w \<noteq> []) (str_split CHR ''_'' (dropWhile (\<lambda>c. c = CHR ''_'') s)))"

definition generate_username_base :: "string \<Rightarrow> string" where
  "generate_username_base source =
     (let collapsed = collapse_underscores (map sanitize_char (before_at source))
      in if length collapsed < 3 then ''user_'' @ collapsed
         else if length collapsed > 39 then take 39 collapsed
         else collapsed)"

section \<open>Facts\<close>

lemma user_roles_agree: "has_global_role (s\<lparr>sa_global_roles := user_global_roles u\<rparr>) r = user_has_global_role u r"
  by (cases r) (auto simp: has_global_role_def user_global_roles_def user_has_global_role_def)

abbreviation name_char :: "char \<Rightarrow> bool" where
  "name_char c \<equiv> is_ascii_alphanumeric c \<or> c = CHR ''_''"

lemma sanitize_char_ok: "name_char (sanitize_char c)"
proof -
  have "is_ascii_lowercase (char_of ((of_char c :: nat) + 32))" if "is_ascii_uppercase c"
    using that by (simp add: is_ascii_uppercase_def is_ascii_lowercase_def of_char_of take_bit_nat_eq_self)
  then show ?thesis
    by (auto simp: sanitize_char_def to_ascii_lowercase_char_def is_ascii_alphanumeric_def)
qed

lemma set_str_split: "w \<in> set (str_split d s) \<Longrightarrow> set w \<subseteq> set s"
proof (induction s arbitrary: w)
  case (Cons c s)
  obtain v vs where v: "str_split d s = v # vs" by (cases "str_split d s") auto
  have "set v \<subseteq> set s" and "w \<in> set vs \<Longrightarrow> set w \<subseteq> set s" using Cons.IH by (simp_all add: v)
  with Cons.prems v show ?case by (fastforce split: if_splits)
qed simp

lemma set_str_join: "set (str_join d ws) \<subseteq> set d \<union> (\<Union> (set ` set ws))"
proof (induction d ws rule: str_join.induct)
  case (3 d w v ws)
  then show ?case by auto
qed auto

lemma str_join_hd:
  assumes "list_all (\<lambda>w. w \<noteq> []) ws" and "ws \<noteq> []"
  shows "str_join d ws \<noteq> [] \<and> hd (str_join d ws) = hd (hd ws)"
  using assms by (induction d ws rule: str_join.induct) auto

lemma collapse_chars:
  "list_all name_char s \<Longrightarrow> list_all name_char (collapse_underscores s)"
proof -
  assume s: "list_all name_char s"
  have "set (collapse_underscores s) \<subseteq> {CHR ''_''} \<union> set (dropWhile (\<lambda>c. c = CHR ''_'') s)"
    using set_str_join [of "''_''"] set_str_split by (fastforce simp: collapse_underscores_def)
  then show ?thesis using s set_dropWhileD by (fastforce simp: list_all_iff)
qed

lemma collapse_hd: "collapse_underscores s = [] \<or> hd (collapse_underscores s) \<noteq> CHR ''_''"
proof -
  let ?ws = "filter (\<lambda>w. w \<noteq> []) (str_split CHR ''_'' (dropWhile (\<lambda>c. c = CHR ''_'') s))"
  show ?thesis
  proof (cases "?ws = []")
    case False
    then have "hd ?ws \<in> set ?ws" by (rule hd_in_set)
    then have "hd ?ws \<noteq> []" and "CHR ''_'' \<notin> set (hd ?ws)" by (auto dest: str_split_words)
    then have "hd (hd ?ws) \<noteq> CHR ''_''" by (metis hd_in_set)
    moreover have "hd (collapse_underscores s) = hd (hd ?ws)"
      using str_join_hd [of ?ws "''_''"] False by (simp add: collapse_underscores_def list_all_iff)
    ultimately show ?thesis by simp
  qed (simp add: collapse_underscores_def)
qed

section \<open>Properties\<close>

text \<open>
  Every proposal is a username in form. Whatever display name or e-mail address it is given,
  \<^verbatim>\<open>generate_username_base\<close> returns a name that \<^verbatim>\<open>validate_username\<close> accepts or rejects for one of two
  reasons only: it consists of digits, or it is reserved.
\<close>

theorem generated_username_in_form:
  "validate_username (generate_username_base source)
     \<in> {Inr (), Inl ''Username cannot be all numbers'', Inl ''This username is reserved''}"
proof -
  define c where "c = collapse_underscores (map sanitize_char (before_at source))"
  define g where "g = generate_username_base source"
  have chars: "list_all name_char c"
    unfolding c_def by (rule collapse_chars) (simp add: list_all_iff sanitize_char_ok)
  have hd: "c = [] \<or> hd c \<noteq> CHR ''_''" unfolding c_def by (rule collapse_hd)
  have g: "g = (if length c < 3 then ''user_'' @ c else if length c > 39 then take 39 c else c)"
    by (simp add: g_def generate_username_base_def c_def Let_def)
  have "list_all name_char ''user_''" by code_simp
  then have "list_all name_char g"
    using chars by (auto simp: g list_all_iff dest: in_set_takeD)
  moreover have "3 \<le> length g" "length g \<le> 39" by (auto simp: g)
  moreover have "\<not> starts_with g ''_''"
    using hd by (cases c) (auto simp: g starts_with_def)
  ultimately show ?thesis unfolding g_def [symmetric] by (simp add: validate_username_def)
qed

end
