(* ===== verification/Credentials.thy ===== *)
theory Credentials
  imports Users
begin

text \<open>
  The time-limited and revocable credentials of \<^verbatim>\<open>loom-server-auth\<close> (\<^verbatim>\<open>session.rs\<close>,
  \<^verbatim>\<open>access_token.rs\<close>, \<^verbatim>\<open>api_key.rs\<close>, \<^verbatim>\<open>ws_token.rs\<close>, \<^verbatim>\<open>share_link.rs\<close>, \<^verbatim>\<open>support_access.rs\<close>,
  \<^verbatim>\<open>account_deletion.rs\<close>, the invitations of \<^verbatim>\<open>org.rs\<close>, the impersonation sessions and checks of
  \<^verbatim>\<open>admin.rs\<close>, the token routing of \<^verbatim>\<open>middleware.rs\<close>) and the device code flow of
  \<^verbatim>\<open>loom-server-auth-devicecode\<close>. A call that reads the clock takes the time as an argument, and a
  call that draws a random identifier or token takes what was drawn. The hash and hex encoders are
  third-party code and parameters.

  The locales state what the server relies on of any credential: it only ever gets older, closing it
  (revoking, using up) is final, and renewing it opens exactly one more window.
\<close>

section \<open>Sessions\<close>

datatype session_type = Web | Cli | VsCode

record session =
  se_id :: uuid
  se_user_id :: user_id
  se_session_type :: session_type
  se_created_at :: datetime
  se_last_used_at :: datetime
  se_expires_at :: datetime
  se_ip_address :: "string option"
  se_user_agent :: "string option"
  se_geo_city :: "string option"
  se_geo_country :: "string option"

definition SESSION_EXPIRY_DAYS :: int where
  "SESSION_EXPIRY_DAYS = 60"

definition session_new :: "datetime \<Rightarrow> uuid \<Rightarrow> user_id \<Rightarrow> session_type \<Rightarrow> session" where
  "session_new now i u ty = \<lparr>se_id = i, se_user_id = u, se_session_type = ty, se_created_at = now,
     se_last_used_at = now, se_expires_at = now + days SESSION_EXPIRY_DAYS, se_ip_address = None,
     se_user_agent = None, se_geo_city = None, se_geo_country = None\<rparr>"

definition session_is_expired :: "datetime \<Rightarrow> session \<Rightarrow> bool" where
  "session_is_expired now s \<longleftrightarrow> now > se_expires_at s"

definition session_extend :: "datetime \<Rightarrow> session \<Rightarrow> session" where
  "session_extend now s = s\<lparr>se_last_used_at := now, se_expires_at := now + days SESSION_EXPIRY_DAYS\<rparr>"

section \<open>Access tokens\<close>

record access_token =
  at_id :: uuid
  at_user_id :: user_id
  at_token_hash :: string
  at_label :: string
  at_session_type :: session_type
  at_created_at :: datetime
  at_last_used_at :: "datetime option"
  at_expires_at :: datetime
  at_ip_address :: "string option"
  at_user_agent :: "string option"
  at_geo_city :: "string option"
  at_geo_country :: "string option"
  at_revoked_at :: "datetime option"

definition ACCESS_TOKEN_EXPIRY_DAYS :: int where
  "ACCESS_TOKEN_EXPIRY_DAYS = 60"

definition ACCESS_TOKEN_BYTES :: nat where
  "ACCESS_TOKEN_BYTES = 32"

definition ACCESS_TOKEN_PREFIX :: string where
  "ACCESS_TOKEN_PREFIX = ''lt_''"

text \<open>
  \<open>hx\<close> is \<^verbatim>\<open>hex::encode\<close>, \<open>sha\<close> the hex digest \<^verbatim>\<open>Sha256\<close> gives of a string, \<open>bs\<close> the random bytes.
\<close>

definition generate_access_token :: "(bytes \<Rightarrow> string) \<Rightarrow> (string \<Rightarrow> string) \<Rightarrow> bytes \<Rightarrow> string \<times> string" where
  "generate_access_token hx sha bs = (let token = ACCESS_TOKEN_PREFIX @ hx bs in (token, sha token))"

definition verify_access_token :: "(string \<Rightarrow> string) \<Rightarrow> string \<Rightarrow> string \<Rightarrow> bool" where
  "verify_access_token sha token hash \<longleftrightarrow> sha token = hash"

definition is_valid_access_token_format :: "string \<Rightarrow> bool" where
  "is_valid_access_token_format token = (case strip_prefix token ACCESS_TOKEN_PREFIX of
     Some h \<Rightarrow> length h = ACCESS_TOKEN_BYTES * 2 \<and> list_all is_ascii_hexdigit h
   | None \<Rightarrow> False)"

definition access_token_new ::
  "(bytes \<Rightarrow> string) \<Rightarrow> (string \<Rightarrow> string) \<Rightarrow> bytes \<Rightarrow> datetime \<Rightarrow> uuid \<Rightarrow> user_id \<Rightarrow> string
    \<Rightarrow> session_type \<Rightarrow> access_token \<times> string" where
  "access_token_new hx sha bs now i u label ty =
     (let (plain, hash) = generate_access_token hx sha bs
      in (\<lparr>at_id = i, at_user_id = u, at_token_hash = hash, at_label = label, at_session_type = ty,
           at_created_at = now, at_last_used_at = None,
           at_expires_at = now + days ACCESS_TOKEN_EXPIRY_DAYS, at_ip_address = None,
           at_user_agent = None, at_geo_city = None, at_geo_country = None, at_revoked_at = None\<rparr>, plain))"

definition access_token_is_expired :: "datetime \<Rightarrow> access_token \<Rightarrow> bool" where
  "access_token_is_expired now t \<longleftrightarrow> now > at_expires_at t"

definition access_token_is_revoked :: "access_token \<Rightarrow> bool" where
  "access_token_is_revoked t \<longleftrightarrow> is_some (at_revoked_at t)"

definition access_token_is_valid :: "datetime \<Rightarrow> access_token \<Rightarrow> bool" where
  "access_token_is_valid now t \<longleftrightarrow> \<not> access_token_is_expired now t \<and> \<not> access_token_is_revoked t"

definition access_token_extend :: "datetime \<Rightarrow> access_token \<Rightarrow> access_token" where
  "access_token_extend now t =
     t\<lparr>at_last_used_at := Some now, at_expires_at := now + days ACCESS_TOKEN_EXPIRY_DAYS\<rparr>"

definition access_token_revoke :: "datetime \<Rightarrow> access_token \<Rightarrow> access_token" where
  "access_token_revoke now t = t\<lparr>at_revoked_at := Some now\<rparr>"

definition access_token_verify :: "(string \<Rightarrow> string) \<Rightarrow> access_token \<Rightarrow> string \<Rightarrow> bool" where
  "access_token_verify sha t plain = verify_access_token sha plain (at_token_hash t)"

definition access_token_update_metadata ::
  "access_token \<Rightarrow> string option \<Rightarrow> string option \<Rightarrow> string option \<Rightarrow> string option \<Rightarrow> access_token" where
  "access_token_update_metadata t ip ua city country =
     t\<lparr>at_ip_address := ip, at_user_agent := ua, at_geo_city := city, at_geo_country := country\<rparr>"

section \<open>WebSocket tokens\<close>

record ws_token =
  ws_id :: uuid
  ws_user_id :: user_id
  ws_token_hash :: string
  ws_created_at :: datetime
  ws_expires_at :: datetime
  ws_used_at :: "datetime option"

definition WS_TOKEN_EXPIRY_SECONDS :: int where
  "WS_TOKEN_EXPIRY_SECONDS = 30"

definition WS_TOKEN_BYTES :: nat where
  "WS_TOKEN_BYTES = 16"

definition WS_TOKEN_PREFIX :: string where
  "WS_TOKEN_PREFIX = ''ws_''"

definition generate_ws_token :: "(bytes \<Rightarrow> string) \<Rightarrow> (string \<Rightarrow> string) \<Rightarrow> bytes \<Rightarrow> string \<times> string" where
  "generate_ws_token hx sha bs = (let token = WS_TOKEN_PREFIX @ hx bs in (token, sha token))"

definition ws_token_new ::
  "(bytes \<Rightarrow> string) \<Rightarrow> (string \<Rightarrow> string) \<Rightarrow> bytes \<Rightarrow> datetime \<Rightarrow> uuid \<Rightarrow> user_id \<Rightarrow> ws_token \<times> string" where
  "ws_token_new hx sha bs now i u =
     (let (plain, hash) = generate_ws_token hx sha bs
      in (\<lparr>ws_id = i, ws_user_id = u, ws_token_hash = hash, ws_created_at = now,
           ws_expires_at = now + seconds WS_TOKEN_EXPIRY_SECONDS, ws_used_at = None\<rparr>, plain))"

definition ws_token_is_expired :: "datetime \<Rightarrow> ws_token \<Rightarrow> bool" where
  "ws_token_is_expired now t \<longleftrightarrow> now > ws_expires_at t"

definition ws_token_is_used :: "ws_token \<Rightarrow> bool" where
  "ws_token_is_used t \<longleftrightarrow> is_some (ws_used_at t)"

definition ws_token_is_valid :: "datetime \<Rightarrow> ws_token \<Rightarrow> bool" where
  "ws_token_is_valid now t \<longleftrightarrow> \<not> ws_token_is_expired now t \<and> \<not> ws_token_is_used t"

definition verify_ws_token :: "(string \<Rightarrow> string) \<Rightarrow> string \<Rightarrow> string \<Rightarrow> bool" where
  "verify_ws_token sha token hash \<longleftrightarrow> sha token = hash"

definition is_valid_ws_token_format :: "string \<Rightarrow> bool" where
  "is_valid_ws_token_format token = (case strip_prefix token WS_TOKEN_PREFIX of
     Some h \<Rightarrow> length h = WS_TOKEN_BYTES * 2 \<and> list_all is_ascii_hexdigit h
   | None \<Rightarrow> False)"

section \<open>API keys\<close>

datatype api_key_scope = ThreadsRead | ThreadsWrite | ThreadsDelete | LlmUse | ToolsUse

record api_key =
  ak_id :: uuid
  ak_org_id :: org_id
  ak_name :: string
  ak_token_hash :: string
  ak_scopes :: "api_key_scope list"
  ak_created_by :: user_id
  ak_created_at :: datetime
  ak_last_used_at :: "datetime option"
  ak_revoked_at :: "datetime option"
  ak_revoked_by :: "user_id option"

definition API_KEY_PREFIX :: string where
  "API_KEY_PREFIX = ''lk_''"

definition API_KEY_BYTES :: nat where
  "API_KEY_BYTES = 32"

text \<open>\<open>argon\<close> hashes a key with the salt drawn for it.\<close>

definition generate_api_key :: "(bytes \<Rightarrow> string) \<Rightarrow> (string \<Rightarrow> string) \<Rightarrow> bytes \<Rightarrow> string \<times> string" where
  "generate_api_key hx argon bs = (let key = API_KEY_PREFIX @ hx bs in (key, argon key))"

definition api_key_new ::
  "(bytes \<Rightarrow> string) \<Rightarrow> (string \<Rightarrow> string) \<Rightarrow> bytes \<Rightarrow> datetime \<Rightarrow> uuid \<Rightarrow> org_id \<Rightarrow> string
    \<Rightarrow> api_key_scope list \<Rightarrow> user_id \<Rightarrow> api_key \<times> string" where
  "api_key_new hx argon bs now i o_id name scopes u =
     (let (plain, hash) = generate_api_key hx argon bs
      in (\<lparr>ak_id = i, ak_org_id = o_id, ak_name = name, ak_token_hash = hash, ak_scopes = scopes,
           ak_created_by = u, ak_created_at = now, ak_last_used_at = None, ak_revoked_at = None,
           ak_revoked_by = None\<rparr>, plain))"

definition api_key_is_active :: "api_key \<Rightarrow> bool" where
  "api_key_is_active k \<longleftrightarrow> \<not> is_some (ak_revoked_at k)"

definition api_key_revoke :: "user_id \<Rightarrow> datetime \<Rightarrow> api_key \<Rightarrow> api_key" where
  "api_key_revoke u now k = k\<lparr>ak_revoked_at := Some now, ak_revoked_by := Some u\<rparr>"

definition api_key_mark_used :: "datetime \<Rightarrow> api_key \<Rightarrow> api_key" where
  "api_key_mark_used now k = k\<lparr>ak_last_used_at := Some now\<rparr>"

definition api_key_has_scope :: "api_key \<Rightarrow> api_key_scope \<Rightarrow> bool" where
  "api_key_has_scope k sc \<longleftrightarrow> sc \<in> set (ak_scopes k)"

definition parse_api_key_prefix :: "string \<Rightarrow> string option" where
  "parse_api_key_prefix key = strip_prefix key API_KEY_PREFIX"

definition is_valid_api_key_format :: "string \<Rightarrow> bool" where
  "is_valid_api_key_format key = (case strip_prefix key API_KEY_PREFIX of
     Some h \<Rightarrow> length h = API_KEY_BYTES * 2 \<and> list_all is_ascii_hexdigit h
   | None \<Rightarrow> False)"

section \<open>Share links\<close>

record share_link =
  sl_id :: uuid
  sl_thread_id :: string
  sl_token_hash :: string
  sl_created_by :: user_id
  sl_created_at :: datetime
  sl_expires_at :: "datetime option"
  sl_revoked_at :: "datetime option"

definition share_link_new ::
  "string \<times> string \<Rightarrow> datetime \<Rightarrow> uuid \<Rightarrow> string \<Rightarrow> user_id \<Rightarrow> datetime option \<Rightarrow> share_link \<times> string" where
  "share_link_new tok now i thr u ex =
     (let (plain, hash) = tok
      in (\<lparr>sl_id = i, sl_thread_id = thr, sl_token_hash = hash, sl_created_by = u, sl_created_at = now,
           sl_expires_at = ex, sl_revoked_at = None\<rparr>, plain))"

definition share_link_is_valid :: "datetime \<Rightarrow> share_link \<Rightarrow> bool" where
  "share_link_is_valid now l =
     (if is_some (sl_revoked_at l) then False
      else case sl_expires_at l of
        Some ex \<Rightarrow> (if now \<ge> ex then False else True)
      | None \<Rightarrow> True)"

definition share_link_revoke :: "datetime \<Rightarrow> share_link \<Rightarrow> share_link" where
  "share_link_revoke now l = l\<lparr>sl_revoked_at := Some now\<rparr>"

section \<open>Support access\<close>

record support_access =
  su_id :: uuid
  su_thread_id :: string
  su_requested_by :: user_id
  su_approved_by :: "user_id option"
  su_requested_at :: datetime
  su_approved_at :: "datetime option"
  su_expires_at :: "datetime option"
  su_revoked_at :: "datetime option"

definition SUPPORT_ACCESS_DAYS :: int where
  "SUPPORT_ACCESS_DAYS = 31"

definition support_access_new :: "datetime \<Rightarrow> uuid \<Rightarrow> string \<Rightarrow> user_id \<Rightarrow> support_access" where
  "support_access_new now i thr u = \<lparr>su_id = i, su_thread_id = thr, su_requested_by = u,
     su_approved_by = None, su_requested_at = now, su_approved_at = None, su_expires_at = None,
     su_revoked_at = None\<rparr>"

definition support_access_is_pending :: "support_access \<Rightarrow> bool" where
  "support_access_is_pending a \<longleftrightarrow> \<not> is_some (su_approved_at a) \<and> \<not> is_some (su_revoked_at a)"

definition support_access_is_approved :: "support_access \<Rightarrow> bool" where
  "support_access_is_approved a \<longleftrightarrow> is_some (su_approved_at a)"

definition support_access_is_active :: "datetime \<Rightarrow> support_access \<Rightarrow> bool" where
  "support_access_is_active now a =
     (if \<not> is_some (su_approved_at a) then False
      else if is_some (su_revoked_at a) then False
      else case su_expires_at a of
        Some ex \<Rightarrow> (if now \<ge> ex then False else True)
      | None \<Rightarrow> True)"

definition support_access_approve :: "user_id \<Rightarrow> datetime \<Rightarrow> support_access \<Rightarrow> support_access" where
  "support_access_approve by_user now a = a\<lparr>su_approved_by := Some by_user, su_approved_at := Some now,
     su_expires_at := Some (now + days SUPPORT_ACCESS_DAYS)\<rparr>"

definition support_access_revoke :: "datetime \<Rightarrow> support_access \<Rightarrow> support_access" where
  "support_access_revoke now a = a\<lparr>su_revoked_at := Some now\<rparr>"

section \<open>Invitations\<close>

record org_invitation =
  inv_id :: uuid
  inv_org_id :: org_id
  inv_email :: string
  inv_role :: org_role
  inv_invited_by :: user_id
  inv_token_hash :: string
  inv_created_at :: datetime
  inv_expires_at :: datetime
  inv_accepted_at :: "datetime option"

definition org_invitation_new ::
  "datetime \<Rightarrow> uuid \<Rightarrow> org_id \<Rightarrow> string \<Rightarrow> org_role \<Rightarrow> user_id \<Rightarrow> string \<Rightarrow> org_invitation" where
  "org_invitation_new now i o_id email r u hash = \<lparr>inv_id = i, inv_org_id = o_id, inv_email = email,
     inv_role = r, inv_invited_by = u, inv_token_hash = hash, inv_created_at = now,
     inv_expires_at = now + days 30, inv_accepted_at = None\<rparr>"

definition invitation_is_expired :: "datetime \<Rightarrow> org_invitation \<Rightarrow> bool" where
  "invitation_is_expired now v \<longleftrightarrow> now > inv_expires_at v"

definition invitation_is_accepted :: "org_invitation \<Rightarrow> bool" where
  "invitation_is_accepted v \<longleftrightarrow> is_some (inv_accepted_at v)"

definition invitation_is_valid :: "datetime \<Rightarrow> org_invitation \<Rightarrow> bool" where
  "invitation_is_valid now v \<longleftrightarrow> \<not> invitation_is_expired now v \<and> \<not> invitation_is_accepted v"

section \<open>Account deletion\<close>

record deletion_request =
  dr_id :: uuid
  dr_user_id :: user_id
  dr_requested_at :: datetime
  dr_hard_delete_at :: datetime
  dr_restored_at :: "datetime option"

definition ACCOUNT_DELETION_GRACE_DAYS :: int where
  "ACCOUNT_DELETION_GRACE_DAYS = 90"

definition deletion_request_new :: "datetime \<Rightarrow> uuid \<Rightarrow> user_id \<Rightarrow> deletion_request" where
  "deletion_request_new now i u = \<lparr>dr_id = i, dr_user_id = u, dr_requested_at = now,
     dr_hard_delete_at = now + days ACCOUNT_DELETION_GRACE_DAYS, dr_restored_at = None\<rparr>"

definition deletion_restore :: "datetime \<Rightarrow> deletion_request \<Rightarrow> deletion_request" where
  "deletion_restore now r = r\<lparr>dr_restored_at := Some now\<rparr>"

definition is_restored :: "deletion_request \<Rightarrow> bool" where
  "is_restored r \<longleftrightarrow> is_some (dr_restored_at r)"

definition is_past_grace_period :: "datetime \<Rightarrow> deletion_request \<Rightarrow> bool" where
  "is_past_grace_period now r \<longleftrightarrow> now \<ge> dr_hard_delete_at r"

definition should_purge :: "datetime \<Rightarrow> deletion_request \<Rightarrow> bool" where
  "should_purge now r \<longleftrightarrow> \<not> is_restored r \<and> is_past_grace_period now r"

definition can_restore :: "datetime \<Rightarrow> deletion_request \<Rightarrow> bool" where
  "can_restore now r \<longleftrightarrow> \<not> is_restored r \<and> \<not> is_past_grace_period now r"

text \<open>\<^verbatim>\<open>num_days\<close> truncates; the difference it is given here is positive.\<close>

definition days_until_purge :: "datetime \<Rightarrow> deletion_request \<Rightarrow> int option" where
  "days_until_purge now r =
     (if is_restored r then None
      else if now \<ge> dr_hard_delete_at r then None
      else Some ((dr_hard_delete_at r - now) div days 1))"

section \<open>Administration\<close>

datatype auth_error = Forbidden string

definition check_can_promote :: "user \<Rightarrow> auth_error + unit" where
  "check_can_promote actor =
     (if \<not> us_is_system_admin actor then Inl (Forbidden ''Only system admins can promote users'')
      else Inr ())"

definition check_can_demote :: "user \<Rightarrow> user \<Rightarrow> nat \<Rightarrow> auth_error + unit" where
  "check_can_demote actor target remaining_admins =
     (if \<not> us_is_system_admin actor then Inl (Forbidden ''Only system admins can demote users'')
      else if us_id actor = us_id target then Inl (Forbidden ''Cannot demote yourself'')
      else if remaining_admins \<le> 1 then Inl (Forbidden ''Must have at least one system admin'')
      else Inr ())"

definition check_can_impersonate :: "user \<Rightarrow> auth_error + unit" where
  "check_can_impersonate actor =
     (if \<not> us_is_system_admin actor then Inl (Forbidden ''Only system admins can impersonate users'')
      else Inr ())"

record impersonation_session =
  im_id :: uuid
  im_admin_user_id :: user_id
  im_target_user_id :: user_id
  im_started_at :: datetime
  im_ended_at :: "datetime option"
  im_reason :: "string option"

definition impersonation_new ::
  "datetime \<Rightarrow> uuid \<Rightarrow> user_id \<Rightarrow> user_id \<Rightarrow> string option \<Rightarrow> impersonation_session" where
  "impersonation_new now i admin target reason = \<lparr>im_id = i, im_admin_user_id = admin,
     im_target_user_id = target, im_started_at = now, im_ended_at = None, im_reason = reason\<rparr>"

definition impersonation_end :: "datetime \<Rightarrow> impersonation_session \<Rightarrow> impersonation_session" where
  "impersonation_end now s = s\<lparr>im_ended_at := Some now\<rparr>"

definition impersonation_is_active :: "impersonation_session \<Rightarrow> bool" where
  "impersonation_is_active s \<longleftrightarrow> \<not> is_some (im_ended_at s)"

definition impersonation_duration :: "datetime \<Rightarrow> impersonation_session \<Rightarrow> int" where
  "impersonation_duration now s = unwrap_or (im_ended_at s) now - im_started_at s"

section \<open>Bearer tokens\<close>

datatype bearer_token_type = BtApiKey | BtAccessToken | BtWsToken | BtUnknown

definition is_api_key_token :: "string \<Rightarrow> bool" where
  "is_api_key_token token = starts_with token API_KEY_PREFIX"

definition is_access_token :: "string \<Rightarrow> bool" where
  "is_access_token token = starts_with token ACCESS_TOKEN_PREFIX"

definition is_ws_token :: "string \<Rightarrow> bool" where
  "is_ws_token token = starts_with token WS_TOKEN_PREFIX"

definition identify_bearer_token :: "string \<Rightarrow> bearer_token_type" where
  "identify_bearer_token token =
     (if is_api_key_token token then BtApiKey
      else if is_access_token token then BtAccessToken
      else if is_ws_token token then BtWsToken
      else BtUnknown)"

text \<open>\<open>auth\<close> is the \<^verbatim>\<open>Authorization\<close> header, when it is present and visible ASCII.\<close>

definition extract_bearer_token :: "string option \<Rightarrow> string option" where
  "extract_bearer_token auth = Option.bind auth (\<lambda>h. strip_prefix h ''Bearer '')"

section \<open>Device codes\<close>

datatype device_code_status = DcPending | DcCompleted user_id | DcExpired

record device_code =
  dc_device_code :: string
  dc_user_code :: string
  dc_user_id :: "user_id option"
  dc_created_at :: datetime
  dc_expires_at :: datetime
  dc_completed_at :: "datetime option"

definition DEVICE_CODE_EXPIRY_MINUTES :: int where
  "DEVICE_CODE_EXPIRY_MINUTES = 10"

text \<open>A three-digit decimal with leading zeros, \<^verbatim>\<open>{:03}\<close> of a number below 1000.\<close>

definition show_03 :: "nat \<Rightarrow> string" where
  "show_03 n = (let s = show_nat n in replicate (3 - length s) CHR ''0'' @ s)"

definition generate_user_code :: "nat \<Rightarrow> nat \<Rightarrow> nat \<Rightarrow> string" where
  "generate_user_code a b c = show_03 a @ ''-'' @ show_03 b @ ''-'' @ show_03 c"

definition is_valid_user_code_format :: "string \<Rightarrow> bool" where
  "is_valid_user_code_format code =
     (if length code \<noteq> 11 then False
      else let parts = str_split CHR ''-'' code
           in if length parts \<noteq> 3 then False
              else list_all (\<lambda>part. length part = 3 \<and> list_all is_ascii_digit part) parts)"

definition device_code_new :: "datetime \<Rightarrow> string \<Rightarrow> string \<Rightarrow> device_code" where
  "device_code_new now dc uc = \<lparr>dc_device_code = dc, dc_user_code = uc, dc_user_id = None,
     dc_created_at = now, dc_expires_at = now + minutes DEVICE_CODE_EXPIRY_MINUTES,
     dc_completed_at = None\<rparr>"

definition dc_is_expired :: "datetime \<Rightarrow> device_code \<Rightarrow> bool" where
  "dc_is_expired now d \<longleftrightarrow> now > dc_expires_at d"

definition dc_is_completed :: "device_code \<Rightarrow> bool" where
  "dc_is_completed d \<longleftrightarrow> is_some (dc_completed_at d) \<and> is_some (dc_user_id d)"

definition dc_is_pending :: "datetime \<Rightarrow> device_code \<Rightarrow> bool" where
  "dc_is_pending now d \<longleftrightarrow> \<not> dc_is_expired now d \<and> \<not> dc_is_completed d"

definition dc_status :: "datetime \<Rightarrow> device_code \<Rightarrow> device_code_status" where
  "dc_status now d = (case dc_user_id d of
     Some u \<Rightarrow> (if is_some (dc_completed_at d) then DcCompleted u
                else if dc_is_expired now d then DcExpired else DcPending)
   | None \<Rightarrow> (if dc_is_expired now d then DcExpired else DcPending))"

definition dc_complete :: "user_id \<Rightarrow> datetime \<Rightarrow> device_code \<Rightarrow> device_code" where
  "dc_complete u now d = d\<lparr>dc_user_id := Some u, dc_completed_at := Some now\<rparr>"

section \<open>Interface: credentials that expire, close and renew\<close>

text \<open>\<open>live now c\<close>: the credential can be used at \<open>now\<close>. A credential not live stays so.\<close>

locale expiring =
  fixes live :: "datetime \<Rightarrow> 'c \<Rightarrow> bool"
  assumes ages: "now \<le> later \<Longrightarrow> live later c \<Longrightarrow> live now c"
begin

lemma stays_dead: "\<not> live now c \<Longrightarrow> now \<le> later \<Longrightarrow> \<not> live later c"
  using ages by blast

lemma live_between: "live t2 c \<Longrightarrow> t1 \<le> t2 \<Longrightarrow> live t1 c"
  by (rule ages)

end

text \<open>A closed credential (revoked, used up, restored) is not live at any time.\<close>

locale closable = expiring +
  fixes closed :: "'c \<Rightarrow> bool"
  assumes closed_dead: "closed c \<Longrightarrow> \<not> live now c"

locale revocable = closable +
  fixes close :: "datetime \<Rightarrow> 'c \<Rightarrow> 'c"
  assumes close_closes: "closed (close t c)"
begin

lemma dead_after_close: "\<not> live now (close t c)"
  by (rule closed_dead [OF close_closes])

end

text \<open>
  \<open>renew\<close> opens a window of fixed length from the moment of the call, unless the credential is
  closed; \<open>within\<close> says whether the end of the window belongs to it.
\<close>

datatype credential_call = Renew datetime | Close datetime

definition credential_run ::
  "(datetime \<Rightarrow> 'c \<Rightarrow> 'c) \<Rightarrow> (datetime \<Rightarrow> 'c \<Rightarrow> 'c) \<Rightarrow> 'c \<Rightarrow> credential_call list \<Rightarrow> 'c" where
  "credential_run renew close = foldl (\<lambda>c call. case call of Renew t \<Rightarrow> renew t c | Close t \<Rightarrow> close t c)"

definition last_renewal :: "credential_call list \<Rightarrow> datetime option" where
  "last_renewal = foldl (\<lambda>r call. case call of Renew t \<Rightarrow> Some t | Close t \<Rightarrow> r) None"

definition has_close :: "credential_call list \<Rightarrow> bool" where
  "has_close = list_ex (\<lambda>call. case call of Renew t \<Rightarrow> False | Close t \<Rightarrow> True)"

locale renewable = revocable +
  fixes renew :: "datetime \<Rightarrow> 'c \<Rightarrow> 'c"
    and within :: "datetime \<Rightarrow> datetime \<Rightarrow> bool"
    and window :: int
  assumes renew_closed: "closed (renew t c) = closed c"
    and renew_live: "live now (renew t c) \<longleftrightarrow> \<not> closed c \<and> within now (t + window)"
begin

lemma run_closed: "closed (credential_run renew close c cs) \<longleftrightarrow> closed c \<or> has_close cs"
  by (induction cs rule: rev_induct)
     (auto simp: credential_run_def has_close_def renew_closed close_closes split: credential_call.splits)

lemma run_live:
  "live now (credential_run renew close c cs) \<longleftrightarrow> \<not> closed c \<and> \<not> has_close cs
     \<and> (case last_renewal cs of None \<Rightarrow> live now c | Some t \<Rightarrow> within now (t + window))"
proof (induction cs rule: rev_induct)
  case Nil
  then show ?case using closed_dead by (auto simp: credential_run_def has_close_def last_renewal_def)
next
  case (snoc x cs)
  show ?case
  proof (cases x)
    case (Renew t)
    then show ?thesis
      using run_closed [of c cs] by (simp add: credential_run_def has_close_def last_renewal_def renew_live)
  next
    case (Close t)
    then show ?thesis by (simp add: credential_run_def has_close_def dead_after_close)
  qed
qed

end

section \<open>The credentials of the server as instances\<close>

lemma days_pos: "0 < n \<Longrightarrow> 0 < days n"
  by (simp add: days_def seconds_def)

interpretation sess: expiring "\<lambda>now s. \<not> session_is_expired now s"
  by unfold_locales (simp add: session_is_expired_def)

interpretation token: renewable access_token_is_valid access_token_is_revoked access_token_revoke
  access_token_extend "(\<le>)" "days ACCESS_TOKEN_EXPIRY_DAYS"
  by unfold_locales
     (auto simp: access_token_is_valid_def access_token_is_expired_def access_token_is_revoked_def
       access_token_revoke_def access_token_extend_def is_some_def)

interpretation ws: closable ws_token_is_valid ws_token_is_used
  by unfold_locales (auto simp: ws_token_is_valid_def ws_token_is_expired_def)

interpretation apikey: revocable "\<lambda>now. api_key_is_active" "\<lambda>k. \<not> api_key_is_active k" "api_key_revoke u"
  by unfold_locales (auto simp: api_key_is_active_def api_key_revoke_def is_some_def)

interpretation link: revocable share_link_is_valid "\<lambda>l. is_some (sl_revoked_at l)" share_link_revoke
  by unfold_locales
     (auto simp: share_link_is_valid_def share_link_revoke_def is_some_def split: option.splits if_splits)

interpretation support: renewable support_access_is_active "\<lambda>a. is_some (su_revoked_at a)"
  support_access_revoke "support_access_approve u" "(<)" "days SUPPORT_ACCESS_DAYS"
  by unfold_locales
     (auto simp: support_access_is_active_def support_access_revoke_def support_access_approve_def
       is_some_def split: option.splits if_splits)

interpretation invite: closable invitation_is_valid invitation_is_accepted
  by unfold_locales (auto simp: invitation_is_valid_def invitation_is_expired_def)

interpretation deletion: revocable can_restore is_restored deletion_restore
  by unfold_locales
     (auto simp: can_restore_def is_restored_def is_past_grace_period_def deletion_restore_def is_some_def)

interpretation imp: revocable "\<lambda>now. impersonation_is_active" "\<lambda>s. \<not> impersonation_is_active s" impersonation_end
  by unfold_locales (auto simp: impersonation_is_active_def impersonation_end_def is_some_def)

interpretation device: revocable dc_is_pending dc_is_completed "dc_complete u"
  by unfold_locales
     (auto simp: dc_is_pending_def dc_is_expired_def dc_is_completed_def dc_complete_def is_some_def)

section \<open>User codes\<close>

definition digit :: "nat \<Rightarrow> char" where
  "digit n = char_of (48 + n)"

lemma digit_is_digit: "n < 10 \<Longrightarrow> is_ascii_digit (digit n)"
  by (simp add: digit_def is_ascii_digit_def of_char_of)

lemma digit_inj: "m < 10 \<Longrightarrow> n < 10 \<Longrightarrow> digit m = digit n \<longleftrightarrow> m = n"
proof -
  have "(of_char (digit k) :: nat) = 48 + k" if "k < 10" for k
    using that by (simp add: digit_def of_char_of take_bit_nat_eq_self)
  then show "m < 10 \<Longrightarrow> n < 10 \<Longrightarrow> ?thesis" by (metis add_left_cancel)
qed

lemma is_digitE:
  assumes "is_ascii_digit c"
  obtains n where "n < 10" and "c = digit n"
proof -
  have "c = digit (of_char c - 48)" and "of_char c - 48 < (10 :: nat)"
    using assms by (auto simp: is_ascii_digit_def digit_def)
  then show thesis using that by blast
qed

lemma show_03_digits:
  assumes "n < 1000"
  shows "show_03 n = [digit (n div 100), digit (n div 10 mod 10), digit (n mod 10)]"
proof -
  have z: "CHR ''0'' = digit 0" by code_simp
  consider "n < 10" | "10 \<le> n" "n < 100" | "100 \<le> n" by linarith
  then show ?thesis
  proof cases
    case 1 then show ?thesis by (simp add: show_03_def show_nat.simps [of n] z digit_def numeral_3_eq_3)
  next
    case 2
    then have "n div 10 < 10" by linarith
    with 2 show ?thesis
      by (simp add: show_03_def show_nat.simps [of n] show_nat.simps [of "n div 10"] z digit_def)
  next
    case 3
    with assms have "n div 10 div 10 < 10" "10 \<le> n div 10" by linarith+
    with 3 show ?thesis
      by (simp add: show_03_def show_nat.simps [of n] show_nat.simps [of "n div 10"]
          show_nat.simps [of "n div 100"] digit_def div_mult2_eq [symmetric])
  qed
qed

definition user_code_triples :: "(nat \<times> nat \<times> nat) set" where
  "user_code_triples = {..<1000} \<times> {..<1000} \<times> {..<1000}"

lemma show_03_props:
  assumes "n < 1000"
  shows "length (show_03 n) = 3" "list_all is_ascii_digit (show_03 n)" "CHR ''-'' \<notin> set (show_03 n)"
proof -
  have lt: "n div 100 < 10" "n div 10 mod 10 < 10" "n mod 10 < 10" using assms by linarith+
  show "length (show_03 n) = 3" using assms by (simp add: show_03_digits)
  show d: "list_all is_ascii_digit (show_03 n)" using assms lt by (simp add: show_03_digits digit_is_digit)
  have "\<not> is_ascii_digit CHR ''-''" by code_simp
  then show "CHR ''-'' \<notin> set (show_03 n)" using d by (auto simp: list_all_iff)
qed

lemma decimal_digits: "(k :: nat) = 100 * (k div 100) + 10 * (k div 10 mod 10) + k mod 10"
proof -
  have "k = 10 * (k div 10) + k mod 10" and "k div 10 = 10 * (k div 10 div 10) + k div 10 mod 10"
    by simp_all
  moreover have "k div 10 div 10 = k div 100" by (simp add: div_mult2_eq [symmetric])
  ultimately show ?thesis by linarith
qed

lemma show_03_inj: "m < 1000 \<Longrightarrow> n < 1000 \<Longrightarrow> show_03 m = show_03 n \<longleftrightarrow> m = n"
proof
  assume mn: "m < 1000" "n < 1000" and "show_03 m = show_03 n"
  moreover have "k div 100 < 10" "k div 10 mod 10 < 10" "k mod 10 < 10" if "k < 1000" for k :: nat
    using that by linarith+
  ultimately have "m div 100 = n div 100" "m div 10 mod 10 = n div 10 mod 10" "m mod 10 = n mod 10"
    by (simp_all add: show_03_digits digit_inj)
  then show "m = n" using decimal_digits [of m] decimal_digits [of n] by simp
qed simp

lemma show_03_surj:
  assumes "length w = 3" and "list_all is_ascii_digit w"
  obtains n where "n < 1000" and "w = show_03 n"
proof -
  from assms(1) obtain x y z where w: "w = [x, y, z]"
    by (metis length_0_conv length_Suc_conv numeral_3_eq_3)
  with assms(2) have "is_ascii_digit x" "is_ascii_digit y" "is_ascii_digit z" by simp_all
  then obtain a b c where abc: "a < 10" "b < 10" "c < 10" "x = digit a" "y = digit b" "z = digit c"
    by (metis is_digitE)
  let ?n = "100 * a + 10 * b + c"
  have "?n = c + (10 * a + b) * 10" by simp
  then have tens: "?n div 10 = 10 * a + b" and c: "?n mod 10 = c" using abc
    by (simp_all only: div_mult_self1 mod_mult_self1) simp_all
  have "?n div 100 = ?n div 10 div 10" by (simp add: div_mult2_eq [symmetric])
  then have "?n < 1000" "?n div 100 = a" "?n div 10 mod 10 = b" "?n mod 10 = c"
    using abc tens c by simp_all
  then show thesis using that [of ?n] w abc by (simp add: show_03_digits)
qed

lemma user_code_join: "generate_user_code a b c = str_join ''-'' [show_03 a, show_03 b, show_03 c]"
  by (simp add: generate_user_code_def)

lemma user_code_parts:
  "a < 1000 \<Longrightarrow> b < 1000 \<Longrightarrow> c < 1000 \<Longrightarrow>
     str_split CHR ''-'' (generate_user_code a b c) = [show_03 a, show_03 b, show_03 c]"
  unfolding user_code_join by (rule str_split_join) (auto dest: show_03_props(3))

lemma user_code_inj:
  assumes "a < 1000" "b < 1000" "c < 1000" "a' < 1000" "b' < 1000" "c' < 1000"
    and "generate_user_code a b c = generate_user_code a' b' c'"
  shows "a = a' \<and> b = b' \<and> c = c'"
proof -
  have "[show_03 a, show_03 b, show_03 c] = [show_03 a', show_03 b', show_03 c']"
    unfolding user_code_parts [OF assms(1-3), symmetric] user_code_parts [OF assms(4-6), symmetric]
    by (simp only: assms(7))
  then show ?thesis using assms(1-6) by (simp add: show_03_inj)
qed

lemma length_user_code: "a < 1000 \<Longrightarrow> b < 1000 \<Longrightarrow> c < 1000 \<Longrightarrow> length (generate_user_code a b c) = 11"
  by (simp add: generate_user_code_def show_03_props(1))

lemma whole_days:
  assumes "now < e" and "e - days 90 \<le> now"
  shows "0 \<le> (e - now) div days 1" and "(e - now) div days 1 \<le> 90"
    and "now + days ((e - now) div days 1) \<le> e" and "e < now + days ((e - now) div days 1 + 1)"
proof -
  define d where "d = days 1"
  define q where "q = (e - now) div d"
  have d: "0 < d" unfolding d_def by (rule days_pos) simp
  have scale: "days n = n * d" for n by (simp add: d_def days_def seconds_def)
  have split: "e - now = q * d + (e - now) mod d" by (simp add: q_def)
  have m: "0 \<le> (e - now) mod d" "(e - now) mod d < d" using d by simp_all
  have "0 \<le> q" using d assms(1) by (simp add: q_def pos_imp_zdiv_nonneg_iff)
  moreover have "q \<le> 90"
  proof (rule ccontr)
    assume "\<not> q \<le> 90"
    then have "91 * d \<le> q * d" using d by (simp add: mult_right_mono)
    then show False using split m assms(2) d unfolding scale by linarith
  qed
  moreover have "now + q * d \<le> e" "e < now + (q + 1) * d" using split m by (simp_all add: distrib_right)
  ultimately show "0 \<le> (e - now) div days 1" "(e - now) div days 1 \<le> 90"
    "now + days ((e - now) div days 1) \<le> e" "e < now + days ((e - now) div days 1 + 1)"
    by (simp_all add: scale q_def)
qed

section \<open>Properties\<close>

text \<open>
  The lifetime of an access token. After any sequence of uses (\<^verbatim>\<open>extend\<close>) and revocations of a
  newly created token, it is valid at a given time exactly when it was never revoked and the last use,
  or the creation when it was never used, lies at most sixty days back.
\<close>

theorem access_token_lifetime:
  "access_token_is_valid now (credential_run access_token_extend access_token_revoke
       (fst (access_token_new hx sha bs t0 i u label ty)) cs)
     \<longleftrightarrow> \<not> has_close cs \<and> now \<le> unwrap_or (last_renewal cs) t0 + days 60"
  unfolding token.run_live
  by (auto simp: access_token_new_def generate_access_token_def access_token_is_revoked_def is_some_def
      access_token_is_valid_def access_token_is_expired_def ACCESS_TOKEN_EXPIRY_DAYS_def unwrap_or_def Let_def
      split: option.splits)

text \<open>
  Support staff reach a thread only with consent. After any sequence of approvals and revocations
  of a request, the access is active exactly when it was approved, never revoked, and less than
  thirty-one days have passed since the last approval; a revocation cannot be undone by approving
  again.
\<close>

theorem support_access_lifetime:
  "support_access_is_active now (credential_run (support_access_approve by_user) support_access_revoke
       (support_access_new t0 i thr u) cs)
     \<longleftrightarrow> \<not> has_close cs \<and> (\<exists>t. last_renewal cs = Some t \<and> now < t + days 31)"
  unfolding support.run_live
  by (auto simp: support_access_new_def support_access_is_active_def is_some_def SUPPORT_ACCESS_DAYS_def
      split: option.splits)

text \<open>
  User codes. Formatting is a bijection between the triples of numbers below one thousand and the
  strings \<^verbatim>\<open>is_valid_user_code_format\<close> accepts: every generated code is accepted, no two triples
  give the same code, and nothing else is accepted.
\<close>

theorem user_code_bijection:
  "bij_betw (\<lambda>(a, b, c). generate_user_code a b c) user_code_triples {code. is_valid_user_code_format code}"
proof (rule bij_betwI')
  fix x y assume "x \<in> user_code_triples" "y \<in> user_code_triples"
  moreover obtain a b c a' b' c' where "x = (a, b, c)" "y = (a', b', c')" by (metis prod_cases3)
  ultimately show "((case x of (a, b, c) \<Rightarrow> generate_user_code a b c)
      = (case y of (a, b, c) \<Rightarrow> generate_user_code a b c)) = (x = y)"
    using user_code_inj [of a b c a' b' c'] by (auto simp: user_code_triples_def)
next
  fix x assume "x \<in> user_code_triples"
  then show "(case x of (a, b, c) \<Rightarrow> generate_user_code a b c) \<in> {code. is_valid_user_code_format code}"
    by (auto simp: user_code_triples_def is_valid_user_code_format_def user_code_parts show_03_props
        length_user_code)
next
  fix y assume "y \<in> {code. is_valid_user_code_format code}"
  then obtain p q r where pqr: "str_split CHR ''-'' y = [p, q, r]"
    and ok: "list_all (\<lambda>w. length w = 3 \<and> list_all is_ascii_digit w) [p, q, r]"
    by (auto simp: is_valid_user_code_format_def Let_def length_Suc_conv numeral_3_eq_3 split: if_splits)
  obtain a where a: "a < 1000" "p = show_03 a" by (rule show_03_surj [of p]) (use ok in simp_all)
  obtain b where b: "b < 1000" "q = show_03 b" by (rule show_03_surj [of q]) (use ok in simp_all)
  obtain c where c: "c < 1000" "r = show_03 c" by (rule show_03_surj [of r]) (use ok in simp_all)
  note abc = a b c
  have "y = str_join ''-'' [p, q, r]" using join_str_split [of "CHR ''-''" y] pqr by simp
  then have "y = generate_user_code a b c" by (simp add: user_code_join abc)
  then show "\<exists>x \<in> user_code_triples. y = (case x of (a, b, c) \<Rightarrow> generate_user_code a b c)"
    using abc by (intro bexI [of _ "(a, b, c)"]) (simp_all add: user_code_triples_def)
qed

text \<open>
  The three states of a device code. At every moment exactly one holds: completed by the recorded
  user, pending (the code is neither completed nor past its expiry) or expired. Completion decides
  for good: whatever the state before, after \<^verbatim>\<open>complete\<close> the status is completed by that user at
  every later moment. So an expired code can still become completed.
\<close>

theorem device_code_status_cases:
  "(dc_status now d = DcPending \<longleftrightarrow> dc_is_pending now d)
    \<and> (dc_status now d = DcExpired \<longleftrightarrow> dc_is_expired now d \<and> \<not> dc_is_completed d)
    \<and> (dc_status now d = DcCompleted u \<longleftrightarrow> dc_is_completed d \<and> dc_user_id d = Some u)
    \<and> dc_status later (dc_complete u now d) = DcCompleted u"
  by (auto simp: dc_status_def dc_is_pending_def dc_is_completed_def dc_complete_def is_some_def
      split: option.splits)

text \<open>
  The grace period of an account deletion. At every moment exactly one of the following holds of
  a request: it was restored, it can still be restored, it is due for purging; a fresh request is
  due exactly from ninety days on, restoring it cancels the purge for good, and while it can be
  restored, and only then, the remaining whole days are reported, at most ninety of them.
\<close>

theorem deletion_grace_period:
  fixes r :: deletion_request
  assumes "dr_requested_at r \<le> now" and "r = deletion_request_new t0 i u"
  shows "(should_purge now r \<longleftrightarrow> t0 + days 90 \<le> now) \<and> (can_restore now r \<longleftrightarrow> \<not> should_purge now r)
    \<and> \<not> should_purge later (deletion_restore t r) \<and> \<not> can_restore later (deletion_restore t r)
    \<and> (case days_until_purge now r of None \<Rightarrow> should_purge now r
       | Some n \<Rightarrow> can_restore now r \<and> 0 \<le> n \<and> n \<le> 90 \<and> now + days n \<le> t0 + days 90
           \<and> t0 + days 90 < now + days (n + 1))"
proof -
  have r: "dr_hard_delete_at r = t0 + days 90" "dr_restored_at r = None" "dr_requested_at r = t0"
    by (simp_all add: assms(2) deletion_request_new_def ACCOUNT_DELETION_GRACE_DAYS_def)
  have "t0 \<le> now" using assms(1) r by simp
  then show ?thesis using whole_days [of now "t0 + days 90"]
    by (simp add: should_purge_def can_restore_def is_restored_def is_past_grace_period_def is_some_def
        deletion_restore_def days_until_purge_def r)
qed

theorem deletion_grace_period_witness:
  "can_restore (days 89) (deletion_request_new 0 1 2) \<and> should_purge (days 90) (deletion_request_new 0 1 2)"
  using deletion_grace_period [of "deletion_request_new 0 1 2" "days 89" 0 1 2]
    deletion_grace_period [of "deletion_request_new 0 1 2" "days 90" 0 1 2]
  by (simp add: deletion_request_new_def days_def seconds_def)

text \<open>
  Tokens are recognised for what they are. With a hex encoder that writes two hex digits per byte,
  every generated access token, API key and WebSocket token has the format its kind demands, is
  routed to its kind by \<^verbatim>\<open>identify_bearer_token\<close>, and verifies against the hash stored for it.
\<close>

theorem generated_tokens_recognised:
  assumes hex: "\<And>bs. length (hx bs) = 2 * length bs \<and> list_all is_ascii_hexdigit (hx bs)"
    and at: "length (bs :: bytes) = ACCESS_TOKEN_BYTES" and ws: "length (bs' :: bytes) = WS_TOKEN_BYTES"
  shows "(case access_token_new hx sha bs now i u label ty of (t, plain) \<Rightarrow>
      is_valid_access_token_format plain \<and> identify_bearer_token plain = BtAccessToken
      \<and> access_token_verify sha t plain)
    \<and> (case api_key_new hx argon bs now i o_id label scopes u of (k, plain) \<Rightarrow>
      is_valid_api_key_format plain \<and> identify_bearer_token plain = BtApiKey)
    \<and> (case ws_token_new hx sha bs' now i u of (t, plain) \<Rightarrow>
      is_valid_ws_token_format plain \<and> identify_bearer_token plain = BtWsToken
      \<and> verify_ws_token sha plain (ws_token_hash t))"
  using hex [of bs] hex [of bs'] at ws
  by (simp add: access_token_new_def api_key_new_def ws_token_new_def generate_access_token_def
      generate_api_key_def generate_ws_token_def is_valid_access_token_format_def
      is_valid_api_key_format_def is_valid_ws_token_format_def identify_bearer_token_def
      is_api_key_token_def is_access_token_def is_ws_token_def access_token_verify_def
      verify_access_token_def verify_ws_token_def strip_prefix_def starts_with_def
      ACCESS_TOKEN_PREFIX_def API_KEY_PREFIX_def WS_TOKEN_PREFIX_def ACCESS_TOKEN_BYTES_def
      API_KEY_BYTES_def WS_TOKEN_BYTES_def Let_def)

definition hex_digit :: "nat \<Rightarrow> char" where
  "hex_digit n = (if n < 10 then char_of (48 + n) else char_of (87 + n))"

definition hex_encode :: "bytes \<Rightarrow> string" where
  "hex_encode bs = concat (map (\<lambda>b. [hex_digit (unat b div 16), hex_digit (unat b mod 16)]) bs)"

lemma hex_digit_ok: "n < 16 \<Longrightarrow> is_ascii_hexdigit (hex_digit n)"
  by (simp add: hex_digit_def is_ascii_hexdigit_def is_ascii_digit_def of_char_of take_bit_nat_eq_self)

lemma hex_encode_ok: "length (hex_encode bs) = 2 * length bs \<and> list_all is_ascii_hexdigit (hex_encode bs)"
proof (induction bs)
  case (Cons b bs)
  have "unat b < 256" using unsigned_less [of b, where 'a = nat] by simp
  with Cons show ?case by (simp add: hex_encode_def hex_digit_ok)
qed (simp add: hex_encode_def)

theorem generated_tokens_recognised_witness:
  "is_valid_access_token_format (snd (access_token_new hex_encode rev (replicate 32 7) 0 1 2 ''cli'' Cli))
    \<and> identify_bearer_token (snd (ws_token_new hex_encode rev (replicate 16 255) 0 1 2)) = BtWsToken"
  using generated_tokens_recognised [of hex_encode "replicate 32 7" "replicate 16 255" rev 0 1 2 "''cli''" Cli,
      OF hex_encode_ok]
  by (simp add: ACCESS_TOKEN_BYTES_def WS_TOKEN_BYTES_def split_beta)

text \<open>
  The two gates to impersonation agree: for a subject carrying the global roles of a user, the
  engine allows \<^verbatim>\<open>Impersonate\<close> on a user resource exactly when \<^verbatim>\<open>check_can_impersonate\<close> passes.
\<close>

lemma impersonation_gates_agree:
  assumes "sa_global_roles s = user_global_roles u" and "ra_type r = RtUser"
  shows "is_allowed s Impersonate r \<longleftrightarrow> check_can_impersonate u = Inr ()"
  using assms
  by (simp add: is_allowed_def check_global_roles_def policy_of_def evaluate_user_def is_system_admin_def
      is_auditor_def has_global_role_def user_global_roles_def check_can_impersonate_def)

definition sample_user :: user where
  "sample_user = \<lparr>us_id = 1, us_display_name = ''Ada'', us_username = None, us_primary_email = None,
     us_avatar_url = None, us_email_visible = False, us_is_system_admin = False, us_is_support = True,
     us_is_auditor = False, us_created_at = 0, us_updated_at = 0, us_deleted_at = None, us_locale = None\<rparr>"

lemma impersonation_gates_agree_example:
  "\<not> is_allowed ((subject_new 1)\<lparr>sa_global_roles := [Support]\<rparr>) Impersonate ((resource_thread 2)\<lparr>ra_type := RtUser\<rparr>)"
  using impersonation_gates_agree [of "(subject_new 1)\<lparr>sa_global_roles := [Support]\<rparr>" sample_user
      "(resource_thread 2)\<lparr>ra_type := RtUser\<rparr>"]
  by (simp add: user_global_roles_def check_can_impersonate_def sample_user_def)

end
