(* ===== verification/Flags.thy ===== *)
theory Flags
  imports Prelude Complex_Main
begin

text \<open>
  Feature flags: the data of \<^verbatim>\<open>loom-flags-core\<close> (\<^verbatim>\<open>flag.rs\<close>, \<^verbatim>\<open>strategy.rs\<close>, \<^verbatim>\<open>kill_switch.rs\<close>,
  \<^verbatim>\<open>evaluation.rs\<close>, \<^verbatim>\<open>environment.rs\<close>, \<^verbatim>\<open>sdk_key.rs\<close>) and the evaluator of
  \<^verbatim>\<open>loom-server-flags/src/evaluation.rs\<close>.

  A JSON value is an abstract type \<open>'j\<close> with the accessors of \<^verbatim>\<open>serde_json::Value\<close> the code calls in a
  record; equality of values is equality of \<open>'j\<close>. A JSON number is finite, so \<^verbatim>\<open>as_f64\<close> is modelled
  with \<^typ>\<open>real\<close> and the comparisons of \<^verbatim>\<open>f64\<close> are those of reals; so is the length of a string
  converted to \<^verbatim>\<open>f64\<close>, exact for every length below \<open>2^53\<close>. The murmur3 hash with seed 0 is the parameter
  \<open>h\<close>; the clock is the argument \<open>now\<close>. \<^verbatim>\<open>u32\<close> sums wrap, as in a release build.
\<close>

record 'j json_api =
  js_as_str :: "'j \<Rightarrow> string option"
  js_as_array :: "'j \<Rightarrow> 'j list option"
  js_as_f64 :: "'j \<Rightarrow> real option"

section \<open>Strategies\<close>

datatype attribute_operator =
  Equals | NotEquals | Contains | StartsWith | EndsWith | GreaterThan | LessThan
| GreaterThanOrEquals | LessThanOrEquals | In | NotIn

definition compare_values :: "'j json_api \<Rightarrow> 'j \<Rightarrow> 'j \<Rightarrow> (real \<Rightarrow> real \<Rightarrow> bool) \<Rightarrow> bool" where
  "compare_values js actual expected cmp =
     (case (js_as_f64 js actual, js_as_f64 js expected) of
        (Some a, Some b) \<Rightarrow> cmp a b
      | _ \<Rightarrow> (case (js_as_str js actual, js_as_str js expected) of
          (Some a, Some b) \<Rightarrow> cmp (real (length a)) (real (length b)) \<or> str_less b a
        | _ \<Rightarrow> False))"

definition attribute_evaluate :: "'j json_api \<Rightarrow> attribute_operator \<Rightarrow> 'j \<Rightarrow> 'j \<Rightarrow> bool" where
  "attribute_evaluate js oper actual expected = (case oper of
     Equals \<Rightarrow> actual = expected
   | NotEquals \<Rightarrow> actual \<noteq> expected
   | Contains \<Rightarrow> (case (js_as_str js actual, js_as_str js expected) of
        (Some a, Some e) \<Rightarrow> str_contains a e
      | _ \<Rightarrow> (case js_as_array js actual of Some xs \<Rightarrow> expected \<in> set xs | None \<Rightarrow> False))
   | StartsWith \<Rightarrow> (case (js_as_str js actual, js_as_str js expected) of
        (Some a, Some e) \<Rightarrow> starts_with a e | _ \<Rightarrow> False)
   | EndsWith \<Rightarrow> (case (js_as_str js actual, js_as_str js expected) of
        (Some a, Some e) \<Rightarrow> ends_with a e | _ \<Rightarrow> False)
   | GreaterThan \<Rightarrow> compare_values js actual expected (\<lambda>a b. a > b)
   | LessThan \<Rightarrow> compare_values js actual expected (\<lambda>a b. a < b)
   | GreaterThanOrEquals \<Rightarrow> compare_values js actual expected (\<lambda>a b. a \<ge> b)
   | LessThanOrEquals \<Rightarrow> compare_values js actual expected (\<lambda>a b. a \<le> b)
   | In \<Rightarrow> (case js_as_array js expected of Some xs \<Rightarrow> actual \<in> set xs | None \<Rightarrow> False)
   | NotIn \<Rightarrow> (case js_as_array js expected of Some xs \<Rightarrow> actual \<notin> set xs | None \<Rightarrow> True))"

datatype geo_field = Country | Region | City

datatype geo_operator = GeoIn | GeoNotIn

definition geo_evaluate :: "geo_operator \<Rightarrow> string \<Rightarrow> string list \<Rightarrow> bool" where
  "geo_evaluate oper actual vals =
     (let is_in = list_ex (\<lambda>v. eq_ignore_ascii_case v actual) vals
      in case oper of GeoIn \<Rightarrow> is_in | GeoNotIn \<Rightarrow> \<not> is_in)"

datatype 'j condition =
  Attribute string attribute_operator 'j
| Geographic geo_field geo_operator "string list"
| Environment "string list"

datatype percentage_key = KeyUserId | KeyOrgId | KeySessionId | KeyCustom string

definition get_key_value ::
  "'j json_api \<Rightarrow> percentage_key \<Rightarrow> string option \<Rightarrow> string option \<Rightarrow> string option
    \<Rightarrow> (string \<rightharpoonup> 'j) \<Rightarrow> string option" where
  "get_key_value js k user_i org_i session_i attrs = (case k of
     KeyUserId \<Rightarrow> user_i
   | KeyOrgId \<Rightarrow> org_i
   | KeySessionId \<Rightarrow> session_i
   | KeyCustom key \<Rightarrow> Option.bind (attrs key) (js_as_str js))"

record schedule_step =
  ss_percentage :: u32
  ss_start_at :: datetime

type_synonym schedule = "schedule_step list"

definition schedule_evaluate :: "schedule \<Rightarrow> datetime \<Rightarrow> u32" where
  "schedule_evaluate steps now =
     foldl (\<lambda>current step. if now \<ge> ss_start_at step then ss_percentage step else current) 0 steps"

record 'j strategy =
  st_id :: uuid
  st_org_id :: "uuid option"
  st_name :: string
  st_description :: "string option"
  st_conditions :: "'j condition list"
  st_percentage :: "u32 option"
  st_percentage_key :: percentage_key
  st_schedule :: "schedule option"
  st_created_at :: datetime
  st_updated_at :: datetime

section \<open>Flags\<close>

datatype 'j variant_value = VBoolean bool | VString string | VJson 'j

fun as_bool :: "'j variant_value \<Rightarrow> bool option" where
  "as_bool (VBoolean b) = Some b"
| "as_bool _ = None"

fun as_str :: "'j variant_value \<Rightarrow> string option" where
  "as_str (VString s) = Some s"
| "as_str _ = None"

record 'j variant =
  va_name :: string
  va_value :: "'j variant_value"
  va_weight :: u32

record flag_prerequisite =
  fp_flag_key :: string
  fp_required_variant :: string

record 'j flag =
  fl_id :: uuid
  fl_org_id :: "uuid option"
  fl_key :: string
  fl_name :: string
  fl_description :: "string option"
  fl_tags :: "string list"
  fl_maintainer_user_id :: "uuid option"
  fl_variants :: "'j variant list"
  fl_default_variant :: string
  fl_prerequisites :: "flag_prerequisite list"
  fl_exposure_tracking_enabled :: bool
  fl_created_at :: datetime
  fl_updated_at :: datetime
  fl_archived_at :: "datetime option"

record flag_config =
  fc_id :: uuid
  fc_flag_id :: uuid
  fc_environment_id :: uuid
  fc_enabled :: bool
  fc_strategy_id :: "uuid option"
  fc_created_at :: datetime
  fc_updated_at :: datetime

text \<open>The loop of \<^verbatim>\<open>Flag::validate_key\<close> over the characters after the first.\<close>

fun key_chars_ok :: "bool \<Rightarrow> string \<Rightarrow> bool" where
  "key_chars_ok prev_was_dot [] = (\<not> prev_was_dot)"
| "key_chars_ok prev_was_dot (c # cs) =
     (if c = CHR ''.'' then (if prev_was_dot then False else key_chars_ok True cs)
      else if is_ascii_lowercase c \<or> is_ascii_digit c \<or> c = CHR ''_'' then key_chars_ok False cs
      else False)"

definition validate_key :: "string \<Rightarrow> bool" where
  "validate_key key =
     (if length key < 3 \<or> length key > 100 then False
      else if starts_with key ''.'' \<or> ends_with key ''.'' then False
      else case key of
        [] \<Rightarrow> False
      | c # cs \<Rightarrow> (if is_ascii_lowercase c then key_chars_ok False cs else False))"

definition is_archived :: "'j flag \<Rightarrow> bool" where
  "is_archived f \<longleftrightarrow> is_some (fl_archived_at f)"

definition get_variant :: "'j flag \<Rightarrow> string \<Rightarrow> 'j variant option" where
  "get_variant f name = List.find (\<lambda>v. va_name v = name) (fl_variants f)"

definition get_default_variant :: "'j flag \<Rightarrow> 'j variant option" where
  "get_default_variant f = get_variant f (fl_default_variant f)"

section \<open>Kill switches\<close>

record kill_switch =
  ks_id :: uuid
  ks_org_id :: "uuid option"
  ks_key :: string
  ks_name :: string
  ks_description :: "string option"
  ks_linked_flag_keys :: "string list"
  ks_is_active :: bool
  ks_activated_at :: "datetime option"
  ks_activated_by :: "uuid option"
  ks_activation_reason :: "string option"
  ks_created_at :: datetime
  ks_updated_at :: datetime

definition plain_name_chars :: "string \<Rightarrow> bool" where
  "plain_name_chars name = (case name of
     [] \<Rightarrow> False
   | c # cs \<Rightarrow> (if is_ascii_lowercase c
        then list_all (\<lambda>c. is_ascii_lowercase c \<or> is_ascii_digit c \<or> c = CHR ''_'') cs else False))"

definition ks_validate_key :: "string \<Rightarrow> bool" where
  "ks_validate_key key = (if length key < 3 \<or> length key > 100 then False else plain_name_chars key)"

definition affects_flag :: "kill_switch \<Rightarrow> string \<Rightarrow> bool" where
  "affects_flag k key \<longleftrightarrow> ks_is_active k \<and> list_ex (\<lambda>l. l = key) (ks_linked_flag_keys k)"

text \<open>\<^verbatim>\<open>activate\<close> reads the clock twice, \<open>now\<close> and \<open>now'\<close>.\<close>

definition ks_activate :: "datetime \<Rightarrow> datetime \<Rightarrow> uuid \<Rightarrow> string \<Rightarrow> kill_switch \<Rightarrow> kill_switch" where
  "ks_activate now now' u reason k = k\<lparr>ks_is_active := True, ks_activated_at := Some now,
     ks_activated_by := Some u, ks_activation_reason := Some reason, ks_updated_at := now'\<rparr>"

definition ks_deactivate :: "datetime \<Rightarrow> kill_switch \<Rightarrow> kill_switch" where
  "ks_deactivate now k = k\<lparr>ks_is_active := False, ks_activated_at := None, ks_activated_by := None,
     ks_activation_reason := None, ks_updated_at := now\<rparr>"

section \<open>Evaluation\<close>

record geo_context =
  geo_country :: "string option"
  geo_region :: "string option"
  geo_city :: "string option"

record 'j evaluation_context =
  ec_user_id :: "string option"
  ec_org_id :: "string option"
  ec_session_id :: "string option"
  ec_environment :: string
  ec_attributes :: "string \<rightharpoonup> 'j"
  ec_geo :: "geo_context option"

definition evaluation_context_new :: "string \<Rightarrow> 'j evaluation_context" where
  "evaluation_context_new env = \<lparr>ec_user_id = None, ec_org_id = None, ec_session_id = None,
     ec_environment = env, ec_attributes = Map.empty, ec_geo = None\<rparr>"

datatype evaluation_reason =
  ReasonDefault | ReasonStrategy uuid | ReasonKillSwitch uuid | ReasonPrerequisite string
| ReasonDisabled | ReasonError string

record 'j evaluation_result =
  er_flag_key :: string
  er_variant :: string
  er_value :: "'j variant_value"
  er_reason :: evaluation_reason

definition result_new :: "string \<Rightarrow> string \<Rightarrow> 'j variant_value \<Rightarrow> evaluation_reason \<Rightarrow> 'j evaluation_result" where
  "result_new key var val reason = \<lparr>er_flag_key = key, er_variant = var, er_value = val, er_reason = reason\<rparr>"

definition result_not_found :: "string \<Rightarrow> 'j evaluation_result" where
  "result_not_found key = \<lparr>er_flag_key = key, er_variant = [], er_value = VBoolean False,
     er_reason = ReasonError ''Flag not found''\<rparr>"

definition bulk_get :: "'j evaluation_result list \<Rightarrow> string \<Rightarrow> 'j evaluation_result option" where
  "bulk_get rs key = List.find (\<lambda>r. er_flag_key r = key) rs"

definition bulk_get_bool :: "'j evaluation_result list \<Rightarrow> string \<Rightarrow> bool \<Rightarrow> bool" where
  "bulk_get_bool rs key d = unwrap_or (Option.bind (bulk_get rs key) (\<lambda>r. as_bool (er_value r))) d"

definition evaluate_condition :: "'j json_api \<Rightarrow> 'j condition \<Rightarrow> 'j evaluation_context \<Rightarrow> bool" where
  "evaluate_condition js cond ctx = (case cond of
     Attribute attr oper val \<Rightarrow> (case ec_attributes ctx attr of
        Some actual \<Rightarrow> attribute_evaluate js oper actual val
      | None \<Rightarrow> False)
   | Geographic field oper vals \<Rightarrow> (case ec_geo ctx of
        None \<Rightarrow> False
      | Some geo \<Rightarrow>
          let actual = (case field of Country \<Rightarrow> geo_country geo | Region \<Rightarrow> geo_region geo | City \<Rightarrow> geo_city geo)
          in case actual of Some a \<Rightarrow> geo_evaluate oper a vals | None \<Rightarrow> False)
   | Environment envs \<Rightarrow> list_ex (\<lambda>e. e = ec_environment ctx) envs)"

definition evaluate_conditions :: "'j json_api \<Rightarrow> 'j condition list \<Rightarrow> 'j evaluation_context \<Rightarrow> bool" where
  "evaluate_conditions js conds ctx = list_all (\<lambda>c. evaluate_condition js c ctx) conds"

definition evaluate_percentage :: "(string \<Rightarrow> u32) \<Rightarrow> string \<Rightarrow> string \<Rightarrow> u32 \<Rightarrow> bool" where
  "evaluate_percentage h key flag_key percentage =
     (let bucket = h (flag_key @ ''.'' @ key) mod 100 in bucket < percentage)"

text \<open>The loop of \<^verbatim>\<open>select_variant\<close> over the cumulative weights.\<close>

fun pick_variant :: "u32 \<Rightarrow> u32 \<Rightarrow> 'j variant list \<Rightarrow> 'j variant option" where
  "pick_variant bucket cumulative [] = None"
| "pick_variant bucket cumulative (v # vs) =
     (let c = cumulative + va_weight v
      in if bucket < c then Some v else pick_variant bucket c vs)"

definition total_weight :: "'j variant list \<Rightarrow> u32" where
  "total_weight vs = sum_list (map va_weight vs)"

definition select_variant :: "(string \<Rightarrow> u32) \<Rightarrow> 'j flag \<Rightarrow> 'j evaluation_context \<Rightarrow> 'j variant option" where
  "select_variant h f ctx =
     (let non_default = filter (\<lambda>v. va_name v \<noteq> fl_default_variant f) (fl_variants f)
      in if length non_default = 1 then Some (non_default ! 0)
         else case (case ec_user_id ctx of Some k \<Rightarrow> Some k
                    | None \<Rightarrow> (case ec_org_id ctx of Some k \<Rightarrow> Some k | None \<Rightarrow> ec_session_id ctx)) of
           None \<Rightarrow> None
         | Some key \<Rightarrow>
             let hash = h (fl_key f @ ''.'' @ key @ ''.variant''); total = total_weight (fl_variants f)
             in if total = 0 then get_default_variant f
                else case pick_variant (hash mod total) 0 (fl_variants f) of
                  Some v \<Rightarrow> Some v
                | None \<Rightarrow> get_default_variant f)"

definition get_default_value :: "'j flag \<Rightarrow> 'j variant_value" where
  "get_default_value f = unwrap_or (map_option va_value (get_default_variant f)) (VBoolean False)"

definition default_result :: "'j flag \<Rightarrow> evaluation_reason \<Rightarrow> 'j evaluation_result" where
  "default_result f reason = result_new (fl_key f) (fl_default_variant f) (get_default_value f) reason"

text \<open>The first prerequisite the results do not meet.\<close>

fun missing_prerequisite :: "(string \<times> string) list \<Rightarrow> flag_prerequisite list \<Rightarrow> string option" where
  "missing_prerequisite res [] = None"
| "missing_prerequisite res (p # ps) =
     (case List.find (\<lambda>(key, _). key = fp_flag_key p) res of
        Some (_, var) \<Rightarrow> (if var = fp_required_variant p then missing_prerequisite res ps
                          else Some (fp_flag_key p))
      | None \<Rightarrow> Some (fp_flag_key p))"

definition effective_percentage :: "datetime \<Rightarrow> 'j strategy \<Rightarrow> u32" where
  "effective_percentage now s = (case st_schedule s of
     Some steps \<Rightarrow> schedule_evaluate steps now
   | None \<Rightarrow> unwrap_or (st_percentage s) 100)"

definition strategy_passes ::
  "'j json_api \<Rightarrow> (string \<Rightarrow> u32) \<Rightarrow> datetime \<Rightarrow> 'j flag \<Rightarrow> 'j strategy \<Rightarrow> 'j evaluation_context \<Rightarrow> bool" where
  "strategy_passes js h now f s ctx =
     (if \<not> evaluate_conditions js (st_conditions s) ctx then False
      else let percentage = effective_percentage now s
           in if percentage < 100 then
                (case get_key_value js (st_percentage_key s) (ec_user_id ctx) (ec_org_id ctx)
                        (ec_session_id ctx) (ec_attributes ctx) of
                   Some key \<Rightarrow> evaluate_percentage h key (fl_key f) percentage
                 | None \<Rightarrow> True)
              else True)"

definition evaluate_flag ::
  "'j json_api \<Rightarrow> (string \<Rightarrow> u32) \<Rightarrow> datetime \<Rightarrow> 'j flag \<Rightarrow> flag_config option \<Rightarrow> 'j strategy option
    \<Rightarrow> kill_switch list \<Rightarrow> (string \<times> string) list \<Rightarrow> 'j evaluation_context \<Rightarrow> 'j evaluation_result" where
  "evaluate_flag js h now f config strat switches prereqs ctx =
     (if is_archived f then default_result f (ReasonError ''Flag is archived'')
      else case config of
        None \<Rightarrow> default_result f (ReasonError ''No configuration for this environment'')
      | Some c \<Rightarrow>
          if \<not> fc_enabled c then default_result f ReasonDisabled
          else case List.find (\<lambda>k. affects_flag k (fl_key f)) switches of
            Some k \<Rightarrow> default_result f (ReasonKillSwitch (ks_id k))
          | None \<Rightarrow> (case missing_prerequisite prereqs (fl_prerequisites f) of
              Some key \<Rightarrow> default_result f (ReasonPrerequisite key)
            | None \<Rightarrow> (case strat of
                Some s \<Rightarrow>
                  if \<not> strategy_passes js h now f s ctx then default_result f ReasonDefault
                  else (case select_variant h f ctx of
                    Some v \<Rightarrow> result_new (fl_key f) (va_name v) (va_value v) (ReasonStrategy (st_id s))
                  | None \<Rightarrow> default_result f ReasonDefault)
              | None \<Rightarrow> default_result f ReasonDefault)))"

section \<open>Environments and SDK keys\<close>

definition env_validate_name :: "string \<Rightarrow> bool" where
  "env_validate_name name = (if length name < 2 \<or> length name > 50 then False else plain_name_chars name)"

definition env_validate_color :: "string \<Rightarrow> bool" where
  "env_validate_color color =
     (if length color \<noteq> 7 then False
      else case color of
        [] \<Rightarrow> False
      | c # cs \<Rightarrow> (if c \<noteq> CHR ''#'' then False else list_all is_ascii_hexdigit cs))"

definition DEFAULT_ENVIRONMENTS :: "(string \<times> string) list" where
  "DEFAULT_ENVIRONMENTS = [(''dev'', ''#10b981''), (''prod'', ''#ef4444'')]"

datatype sdk_key_type = ClientSide | ServerSide

fun show_sdk_key_type :: "sdk_key_type \<Rightarrow> string" where
  "show_sdk_key_type ClientSide = ''client_side''"
| "show_sdk_key_type ServerSide = ''server_side''"

definition read_sdk_key_type :: "string \<Rightarrow> sdk_key_type option" where
  "read_sdk_key_type s =
     (if s = ''client_side'' then Some ClientSide
      else if s = ''server_side'' then Some ServerSide
      else None)"

record sdk_key =
  sk_id :: uuid
  sk_environment_id :: uuid
  sk_key_type :: sdk_key_type
  sk_name :: string
  sk_key_hash :: string
  sk_created_by :: uuid
  sk_created_at :: datetime
  sk_last_used_at :: "datetime option"
  sk_revoked_at :: "datetime option"

definition sdk_key_is_revoked :: "sdk_key \<Rightarrow> bool" where
  "sdk_key_is_revoked k \<longleftrightarrow> is_some (sk_revoked_at k)"

definition sdk_key_revoke :: "datetime \<Rightarrow> sdk_key \<Rightarrow> sdk_key" where
  "sdk_key_revoke now k = k\<lparr>sk_revoked_at := Some now\<rparr>"

definition sdk_key_touch :: "datetime \<Rightarrow> sdk_key \<Rightarrow> sdk_key" where
  "sdk_key_touch now k = k\<lparr>sk_last_used_at := Some now\<rparr>"

definition CLIENT_PREFIX :: string where
  "CLIENT_PREFIX = ''loom_sdk_client_''"

definition SERVER_PREFIX :: string where
  "SERVER_PREFIX = ''loom_sdk_server_''"

text \<open>The part of \<^verbatim>\<open>parse_key\<close> after the prefix, then the whole.\<close>

definition parse_key_rest :: "sdk_key_type \<Rightarrow> string \<Rightarrow> (sdk_key_type \<times> string \<times> string) option" where
  "parse_key_rest ty rest =
     (if length rest < 34 then None
      else let random_start = length rest - 32
           in if \<not> is_char_boundary rest random_start \<or> \<not> is_char_boundary rest (random_start - 1) then None
              else let separator = random_start - 1
                   in if rest ! separator \<noteq> CHR ''_'' then None
                      else let env_name = take separator rest; random = drop random_start rest
                           in if length random \<noteq> 32 \<or> \<not> list_all is_ascii_hexdigit random then None
                              else if env_name = [] then None
                              else Some (ty, env_name, random))"

definition parse_key :: "string \<Rightarrow> (sdk_key_type \<times> string \<times> string) option" where
  "parse_key key = (case strip_prefix key CLIENT_PREFIX of
     Some rest \<Rightarrow> parse_key_rest ClientSide rest
   | None \<Rightarrow> (case strip_prefix key SERVER_PREFIX of
       Some rest \<Rightarrow> parse_key_rest ServerSide rest
     | None \<Rightarrow> None))"

text \<open>\<open>random\<close> is the drawn identifier with its dashes removed.\<close>

definition generate_key :: "sdk_key_type \<Rightarrow> string \<Rightarrow> string \<Rightarrow> string" where
  "generate_key ty env random =
     (case ty of ClientSide \<Rightarrow> CLIENT_PREFIX | ServerSide \<Rightarrow> SERVER_PREFIX) @ env @ ''_'' @ random"

interpretation key_type: text_codec show_sdk_key_type read_sdk_key_type
proof
  show "read_sdk_key_type (show_sdk_key_type x) = Some x" for x
    by (cases x) (simp_all add: read_sdk_key_type_def)
  show "read_sdk_key_type s = Some x \<Longrightarrow> s = show_sdk_key_type x" for s x
    by (auto simp: read_sdk_key_type_def split: if_splits)
qed

section \<open>Weighted selection\<close>

text \<open>The loop over unbounded numbers; without overflow the two agree.\<close>

fun pick_nat :: "nat \<Rightarrow> nat \<Rightarrow> 'j variant list \<Rightarrow> 'j variant option" where
  "pick_nat b c [] = None"
| "pick_nat b c (v # vs) =
     (if b < c + unat (va_weight v) then Some v else pick_nat b (c + unat (va_weight v)) vs)"

abbreviation weights :: "'j variant list \<Rightarrow> nat" where
  "weights vs \<equiv> sum_list (map (\<lambda>v. unat (va_weight v)) vs)"

lemma pick_variant_nat:
  assumes "b < 2 ^ 32" and "c + weights vs < 2 ^ 32"
  shows "pick_variant (of_nat b) (of_nat c) vs = pick_nat b c vs"
  using assms(2)
proof (induction vs arbitrary: c)
  case (Cons v vs)
  let ?c = "c + unat (va_weight v)"
  have c: "of_nat c + va_weight v = (of_nat ?c :: u32)" by simp
  have "?c < 2 ^ 32" using Cons.prems by simp
  then have "(of_nat b :: u32) < of_nat ?c \<longleftrightarrow> b < ?c"
    unfolding word_less_nat_alt using assms(1) by (simp only: unat_of_nat_u32)
  then show ?case using Cons.IH [of ?c] Cons.prems by (simp only: pick_variant.simps pick_nat.simps Let_def c) simp
qed simp

lemma total_weight_nat: "weights vs < 2 ^ 32 \<Longrightarrow> unat (total_weight vs) = weights vs"
proof -
  have "total_weight vs = of_nat (weights vs)" by (induction vs) (simp_all add: total_weight_def)
  then show "weights vs < 2 ^ 32 \<Longrightarrow> ?thesis" by (simp only: unat_of_nat_u32)
qed

lemma pick_nat_set: "pick_nat b c vs = Some v \<Longrightarrow> v \<in> set vs"
  by (induction vs arbitrary: c) (auto split: if_splits)

lemma pick_nat_total: "c \<le> b \<Longrightarrow> b < c + weights vs \<Longrightarrow> pick_nat b c vs \<noteq> None"
  by (induction vs arbitrary: c) auto

lemma pick_nat_share:
  assumes "distinct vs" and "v \<in> set vs"
  shows "card {b. c \<le> b \<and> b < c + weights vs \<and> pick_nat b c vs = Some v} = unat (va_weight v)"
  using assms
proof (induction vs arbitrary: c)
  case (Cons x vs)
  let ?c = "c + unat (va_weight x)"
  show ?case
  proof (cases "v = x")
    case True
    then have "{b. c \<le> b \<and> b < c + weights (x # vs) \<and> pick_nat b c (x # vs) = Some v} = {c..<?c}"
      using Cons.prems by (auto dest: pick_nat_set split: if_splits)
    then show ?thesis using True by simp
  next
    case False
    then have "{b. c \<le> b \<and> b < c + weights (x # vs) \<and> pick_nat b c (x # vs) = Some v}
        = {b. ?c \<le> b \<and> b < ?c + weights vs \<and> pick_nat b ?c vs = Some v}"
      by auto
    then show ?thesis using Cons False by simp
  qed
qed simp

section \<open>Gates of the evaluator\<close>

lemma missing_prerequisite_None:
  "missing_prerequisite res ps = None \<longleftrightarrow>
     (\<forall>p \<in> set ps. map_option snd (List.find (\<lambda>(key, _). key = fp_flag_key p) res) = Some (fp_required_variant p))"
  by (induction ps) (auto split: option.splits)

lemma default_result_simps [simp]:
  "er_variant (default_result f r) = fl_default_variant f"
  "er_value (default_result f r) = get_default_value f"
  "er_flag_key (default_result f r) = fl_key f"
  "er_reason (default_result f r) = r"
  by (simp_all add: default_result_def result_new_def)

lemma result_new_simps [simp]:
  "er_variant (result_new k v x r) = v" "er_value (result_new k v x r) = x"
  "er_flag_key (result_new k v x r) = k" "er_reason (result_new k v x r) = r"
  by (simp_all add: result_new_def)

lemma pick_variant_set: "pick_variant b c vs = Some v \<Longrightarrow> v \<in> set vs"
  by (induction vs arbitrary: c) (auto simp: Let_def split: if_splits)

lemma select_variant_set: "select_variant h f ctx = Some v \<Longrightarrow> v \<in> set (fl_variants f)"
proof -
  assume sel: "select_variant h f ctx = Some v"
  have default: "get_default_variant f = Some v \<Longrightarrow> v \<in> set (fl_variants f)"
    by (auto simp: get_default_variant_def get_variant_def dest: find_Some_set)
  let ?nd = "filter (\<lambda>v. va_name v \<noteq> fl_default_variant f) (fl_variants f)"
  have "length ?nd = 1 \<Longrightarrow> ?nd ! 0 \<in> set ?nd" by (rule nth_mem) simp
  then show ?thesis using sel default
    by (auto simp: select_variant_def Let_def pick_variant_set split: if_splits option.splits)
qed

section \<open>Keys\<close>

abbreviation segment_char :: "char \<Rightarrow> bool" where
  "segment_char c \<equiv> is_ascii_lowercase c \<or> is_ascii_digit c \<or> c = CHR ''_''"

lemma not_segment_dot: "\<not> segment_char CHR ''.''"
  by code_simp

lemma key_chars_ok_split:
  "key_chars_ok dot cs \<longleftrightarrow> (dot \<longrightarrow> hd (str_split CHR ''.'' cs) \<noteq> [])
     \<and> list_all (list_all segment_char) (str_split CHR ''.'' cs)
     \<and> list_all (\<lambda>w. w \<noteq> []) (tl (str_split CHR ''.'' cs))"
proof (induction cs arbitrary: dot)
  case (Cons c cs)
  obtain w ws where w: "str_split CHR ''.'' cs = w # ws" by (cases "str_split CHR ''.'' cs") auto
  show ?case using Cons [of True] Cons [of False] not_segment_dot by (auto simp: w)
qed simp

lemma parse_key_rest_Some:
  "parse_key_rest ty rest = Some (ty', env, random) \<longleftrightarrow>
     ty' = ty \<and> rest = env @ ''_'' @ random \<and> env \<noteq> [] \<and> length random = 32 \<and> list_all is_ascii_hexdigit random"
  (is "_ = ?rhs")
proof
  assume "parse_key_rest ty rest = Some (ty', env, random)"
  then have len: "34 \<le> length rest" and sep: "rest ! (length rest - 32 - 1) = CHR ''_''"
    and env: "env = take (length rest - 32 - 1) rest" "env \<noteq> []"
    and rnd: "random = drop (length rest - 32) rest" "length random = 32" "list_all is_ascii_hexdigit random"
    and ty: "ty' = ty"
    by (auto simp: parse_key_rest_def Let_def split: if_splits)
  let ?k = "length rest - 32 - 1"
  have "?k < length rest" using len by simp
  then have "rest = take ?k rest @ rest ! ?k # drop (Suc ?k) rest" by (rule id_take_nth_drop)
  moreover have "Suc ?k = length rest - 32" using len by simp
  ultimately have "rest = env @ CHR ''_'' # random" using env rnd sep by simp
  then show ?rhs using env rnd ty by simp
next
  assume r: ?rhs
  then have [simp]: "ty' = ty" "rest = env @ ''_'' @ random" "length random = 32" by simp_all
  have pos: "length env > 0" using r by simp
  have hex: "of_char (random ! 0) < (128 :: nat)"
  proof -
    have "is_ascii_hexdigit (random ! 0)" using r by (simp add: list_all_length)
    then show ?thesis by (auto simp: is_ascii_hexdigit_def is_ascii_digit_def)
  qed
  have idx: "length rest - 32 = Suc (length env)" using r by simp
  have "is_char_boundary rest (Suc (length env))" "is_char_boundary rest (length env)"
    using hex by (auto simp: is_char_boundary_def nth_append)
  then show "parse_key_rest ty rest = Some (ty', env, random)"
    using r pos by (simp add: parse_key_rest_def Let_def idx nth_append)
qed

lemma parse_generate_iff:
  "parse_key key = Some (ty, env, random) \<longleftrightarrow>
     key = generate_key ty env random \<and> env \<noteq> [] \<and> length random = 32 \<and> list_all is_ascii_hexdigit random"
proof -
  have disj: "strip_prefix (CLIENT_PREFIX @ r) SERVER_PREFIX = None"
    "strip_prefix (SERVER_PREFIX @ r) CLIENT_PREFIX = None" for r
    by (simp_all add: strip_prefix_def starts_with_def CLIENT_PREFIX_def SERVER_PREFIX_def)
  have same: "strip_prefix (CLIENT_PREFIX @ r) CLIENT_PREFIX = Some r"
    "strip_prefix (SERVER_PREFIX @ r) SERVER_PREFIX = Some r" for r
    by (simp_all add: strip_prefix_Some)
  show ?thesis
  proof
    assume p: "parse_key key = Some (ty, env, random)"
    then consider r where "key = CLIENT_PREFIX @ r" | r where "key = SERVER_PREFIX @ r"
      by (auto simp: parse_key_def strip_prefix_Some split: option.splits)
    then show "key = generate_key ty env random \<and> env \<noteq> [] \<and> length random = 32 \<and> list_all is_ascii_hexdigit random"
      using p by cases (auto simp: parse_key_def same disj parse_key_rest_Some generate_key_def)
  next
    assume "key = generate_key ty env random \<and> env \<noteq> [] \<and> length random = 32 \<and> list_all is_ascii_hexdigit random"
    then show "parse_key key = Some (ty, env, random)"
      by (cases ty) (simp_all add: generate_key_def parse_key_def same disj parse_key_rest_Some)
  qed
qed

section \<open>Rollouts\<close>

lemma schedule_evaluate_snoc:
  "schedule_evaluate (steps @ [x]) now = (if now \<ge> ss_start_at x then ss_percentage x else schedule_evaluate steps now)"
  by (simp add: schedule_evaluate_def)

lemma schedule_evaluate_bound:
  "(\<And>x. x \<in> set steps \<Longrightarrow> ss_percentage x \<le> p) \<Longrightarrow> schedule_evaluate steps now \<le> p"
proof (induction steps rule: rev_induct)
  case (snoc x steps)
  then show ?case by (simp add: schedule_evaluate_snoc)
qed (simp add: schedule_evaluate_def)

lemma evaluate_percentage_mono: "evaluate_percentage h key fk p \<Longrightarrow> p \<le> q \<Longrightarrow> evaluate_percentage h key fk q"
  by (auto simp: evaluate_percentage_def Let_def)

section \<open>Properties\<close>

text \<open>
  C36: a flag is switched only through every gate. Whatever the inputs, the result of
  \<^verbatim>\<open>evaluate_flag\<close> names the flag, and either it carries the default variant and its value, or its
  reason is a strategy; in that case the flag is not archived, its configuration exists and is enabled, no active kill
  switch is linked to it, every prerequisite was evaluated to the required variant, the strategy's
  conditions all hold, and the variant is one of the flag's own.
\<close>

theorem evaluate_flag_gates:
  "let r = evaluate_flag js h now f config strat switches prereqs ctx
    in er_flag_key r = fl_key f \<and> (case er_reason r of
      ReasonStrategy sid \<Rightarrow>
        \<not> is_archived f \<and> (\<exists>c. config = Some c \<and> fc_enabled c)
        \<and> (\<forall>k \<in> set switches. \<not> affects_flag k (fl_key f))
        \<and> (\<forall>p \<in> set (fl_prerequisites f).
            map_option snd (List.find (\<lambda>(key, _). key = fp_flag_key p) prereqs) = Some (fp_required_variant p))
        \<and> (\<exists>s v. strat = Some s \<and> st_id s = sid \<and> list_all (\<lambda>c. evaluate_condition js c ctx) (st_conditions s)
            \<and> v \<in> set (fl_variants f) \<and> er_variant r = va_name v \<and> er_value r = va_value v)
    | _ \<Rightarrow> er_variant r = fl_default_variant f \<and> er_value r = get_default_value f)"
  unfolding missing_prerequisite_None [symmetric]
  by (auto simp: evaluate_flag_def strategy_passes_def evaluate_conditions_def Let_def find_None_iff
      dest: select_variant_set split: option.splits if_splits)

definition sample_flag :: "nat flag" where
  "sample_flag = \<lparr>fl_id = 1, fl_org_id = None, fl_key = ''checkout.new_flow'', fl_name = ''New flow'',
     fl_description = None, fl_tags = [], fl_maintainer_user_id = None,
     fl_variants = [\<lparr>va_name = ''off'', va_value = VBoolean False, va_weight = 1\<rparr>,
                    \<lparr>va_name = ''on'', va_value = VBoolean True, va_weight = 3\<rparr>],
     fl_default_variant = ''off'',
     fl_prerequisites = [\<lparr>fp_flag_key = ''base'', fp_required_variant = ''on''\<rparr>],
     fl_exposure_tracking_enabled = False, fl_created_at = 0, fl_updated_at = 0, fl_archived_at = None\<rparr>"

definition sample_config :: flag_config where
  "sample_config = \<lparr>fc_id = 1, fc_flag_id = 1, fc_environment_id = 1, fc_enabled = True,
     fc_strategy_id = Some 5, fc_created_at = 0, fc_updated_at = 0\<rparr>"

definition sample_strategy :: "nat strategy" where
  "sample_strategy = \<lparr>st_id = 5, st_org_id = None, st_name = ''all'', st_description = None,
     st_conditions = [Environment [''prod'']], st_percentage = Some 0, st_percentage_key = KeyUserId,
     st_schedule = None, st_created_at = 0, st_updated_at = 0\<rparr>"

definition sample_json :: "nat json_api" where
  "sample_json = \<lparr>js_as_str = (\<lambda>j. Some (replicate j CHR ''x'')), js_as_array = (\<lambda>j. None), js_as_f64 = (\<lambda>j. None)\<rparr>"

theorem evaluate_flag_gates_witness:
  "er_reason (evaluate_flag sample_json (\<lambda>s. 7) 0 sample_flag (Some sample_config) (Some sample_strategy) []
       [(''base'', ''on'')] (evaluation_context_new ''prod'')) = ReasonStrategy 5
   \<and> (\<exists>v. v \<in> set (fl_variants sample_flag) \<and> va_name v = er_variant (evaluate_flag sample_json (\<lambda>s. 7) 0 sample_flag
         (Some sample_config) (Some sample_strategy) [] [(''base'', ''on'')] (evaluation_context_new ''prod'')))"
proof -
  let ?r = "evaluate_flag sample_json (\<lambda>s. 7) 0 sample_flag (Some sample_config) (Some sample_strategy) []
       [(''base'', ''on'')] (evaluation_context_new ''prod'' :: nat evaluation_context)"
  have "er_reason ?r = ReasonStrategy 5" by code_simp
  then show ?thesis
    using evaluate_flag_gates [of sample_json "\<lambda>s. 7" 0 sample_flag "Some sample_config" "Some sample_strategy" "[]"
        "[(''base'', ''on'')]" "evaluation_context_new ''prod''"]
    by (auto simp: Let_def)
qed

text \<open>
  Weighted selection is fair. For distinct variants whose weights sum to less than \<open>2^32\<close>, exactly
  as many of the buckets a hash can fall into lead to a variant as its weight says.
\<close>

theorem weighted_selection_fair:
  assumes "distinct vs" and "weights vs < 2 ^ 32" and "v \<in> set vs"
  shows "card {b. b < unat (total_weight vs) \<and> pick_variant (of_nat b) 0 vs = Some v} = unat (va_weight v)"
proof -
  have "pick_variant (of_nat b) 0 vs = pick_nat b 0 vs" if "b < weights vs" for b
    using pick_variant_nat [of b 0 vs] that assms(2) by simp
  then have "{b. b < unat (total_weight vs) \<and> pick_variant (of_nat b) 0 vs = Some v}
      = {b. 0 \<le> b \<and> b < 0 + weights vs \<and> pick_nat b 0 vs = Some v}"
    using assms(2) by (auto simp: total_weight_nat)
  then show ?thesis using pick_nat_share [OF assms(1,3), of 0] by simp
qed

theorem weighted_selection_fair_witness:
  "card {b. b < unat (total_weight (fl_variants sample_flag))
      \<and> pick_variant (of_nat b) 0 (fl_variants sample_flag) = Some (fl_variants sample_flag ! 1)} = 3"
  using weighted_selection_fair [of "fl_variants sample_flag" "fl_variants sample_flag ! 1"]
  by (simp add: sample_flag_def)

text \<open>
  A rollout only grows. Raising the percentage of a strategy without schedule keeps every context
  it applied to before.
\<close>

theorem rollout_only_grows:
  assumes "st_schedule s = None" and "p \<le> q"
    and "strategy_passes js h now f (s\<lparr>st_percentage := Some p\<rparr>) ctx"
  shows "strategy_passes js h now f (s\<lparr>st_percentage := Some q\<rparr>) ctx"
  using assms
  by (auto simp: strategy_passes_def effective_percentage_def unwrap_or_def Let_def
      intro: evaluate_percentage_mono split: if_splits option.splits)

theorem rollout_only_grows_witness:
  "strategy_passes sample_json (\<lambda>s. 7) 0 sample_flag (sample_strategy\<lparr>st_percentage := Some 50\<rparr>)
     ((evaluation_context_new ''prod'')\<lparr>ec_user_id := Some ''u''\<rparr>)"
proof (rule rollout_only_grows)
  show "strategy_passes sample_json (\<lambda>s. 7) 0 sample_flag (sample_strategy\<lparr>st_percentage := Some 8\<rparr>)
      ((evaluation_context_new ''prod'')\<lparr>ec_user_id := Some ''u''\<rparr>)"
    by code_simp
qed (simp_all add: sample_strategy_def)

text \<open>
  A schedule whose steps are in the order of their start times and do not lower the percentage
  never lowers it as time passes.
\<close>

theorem schedule_only_grows:
  assumes "sorted_wrt (\<lambda>a b. ss_start_at a \<le> ss_start_at b \<and> ss_percentage a \<le> ss_percentage b) steps"
    and "now \<le> later"
  shows "schedule_evaluate steps now \<le> schedule_evaluate steps later"
  using assms(1)
proof (induction steps rule: rev_induct)
  case (snoc x steps)
  then have "schedule_evaluate steps now \<le> ss_percentage x"
    by (intro schedule_evaluate_bound) (simp add: sorted_wrt_append)
  with snoc assms(2) show ?case by (auto simp: schedule_evaluate_snoc sorted_wrt_append)
qed (simp add: schedule_evaluate_def)

theorem schedule_only_grows_witness:
  "schedule_evaluate [\<lparr>ss_percentage = 10, ss_start_at = 5\<rparr>, \<lparr>ss_percentage = 50, ss_start_at = 9\<rparr>] 6
    \<le> schedule_evaluate [\<lparr>ss_percentage = 10, ss_start_at = 5\<rparr>, \<lparr>ss_percentage = 50, ss_start_at = 9\<rparr>] 9"
  by (rule schedule_only_grows) simp_all

text \<open>
  SDK keys round trip. \<^verbatim>\<open>parse_key\<close> returns a type, an environment name and a random part exactly
  for the string \<^verbatim>\<open>generate_key\<close> builds from them, when the name is not empty and the random part
  is thirty-two hex digits, whatever underscores the name contains; it accepts nothing else.
\<close>

theorem sdk_key_roundtrip:
  "parse_key key = Some (ty, env, random) \<longleftrightarrow>
     key = generate_key ty env random \<and> env \<noteq> [] \<and> length random = 32 \<and> list_all is_ascii_hexdigit random"
  by (rule parse_generate_iff)

text \<open>
  The language of flag keys. \<^verbatim>\<open>validate_key\<close> accepts exactly the strings of three to a hundred
  bytes that start with a lowercase letter and whose dot-separated segments are non-empty and made of
  lowercase letters, digits and underscores. A segment after a dot may start with a digit or an
  underscore.
\<close>

theorem validate_key_language:
  "validate_key key \<longleftrightarrow> 3 \<le> length key \<and> length key \<le> 100 \<and> is_ascii_lowercase (hd key)
     \<and> list_all (\<lambda>w. w \<noteq> [] \<and> list_all segment_char w) (str_split CHR ''.'' key)"
proof (cases key)
  case (Cons c cs)
  obtain w ws where w: "str_split CHR ''.'' cs = w # ws" by (cases "str_split CHR ''.'' cs") auto
  have all: "list_all (\<lambda>w. w \<noteq> [] \<and> P w) xs \<longleftrightarrow> list_all (\<lambda>w. w \<noteq> []) xs \<and> list_all P xs" for P and xs :: "string list"
    by (induction xs) auto
  have key: "key = str_join ''.'' (str_split CHR ''.'' key)" by (simp add: join_str_split)
  have noend: "\<not> ends_with key ''.''" if ok: "list_all (\<lambda>w. w \<noteq> []) (str_split CHR ''.'' key)"
  proof
    assume "ends_with key ''.''"
    then obtain r where "key = r @ ''.''" by (auto simp: ends_with_iff_suffix suffix_def)
    then show False using ok by (simp add: str_split_snoc)
  qed
  show ?thesis
  proof (cases "is_ascii_lowercase c")
    case True
    then have "c \<noteq> CHR ''.''" using not_segment_dot by auto
    then have "str_split CHR ''.'' key = (c # w) # ws" "\<not> starts_with key ''.''"
      by (simp_all add: Cons w starts_with_def)
    then show ?thesis using True noend key_chars_ok_split [of False cs]
      by (auto simp: validate_key_def Cons w all)
  qed (simp add: validate_key_def Cons)
qed (simp add: validate_key_def)

text \<open>
  A percentage is not applied to a context that lacks the key it is keyed on: a strategy at zero
  per cent whose conditions hold applies to every such context.
\<close>

lemma rollout_ignored_without_key:
  assumes "evaluate_conditions js (st_conditions s) ctx"
    and "get_key_value js (st_percentage_key s) (ec_user_id ctx) (ec_org_id ctx) (ec_session_id ctx)
           (ec_attributes ctx) = None"
  shows "strategy_passes js h now f (s\<lparr>st_percentage := Some 0\<rparr>) ctx"
  using assms by (simp add: strategy_passes_def Let_def)

lemma rollout_ignored_without_key_example:
  "strategy_passes sample_json (\<lambda>s. 7) 0 sample_flag (sample_strategy\<lparr>st_percentage := Some 0\<rparr>)
     (evaluation_context_new ''prod'')"
  by (rule rollout_ignored_without_key)
     (simp_all add: sample_strategy_def evaluation_context_new_def get_key_value_def evaluate_conditions_def
       evaluate_condition_def)

text \<open>
  Ordering operators on strings. On two strings of equal length (dates, versions) that are not
  numbers, \<^verbatim>\<open>LessThan\<close> and \<^verbatim>\<open>GreaterThan\<close> give the same answer: whether the actual value is the
  greater one.
\<close>

lemma string_less_than_is_greater_than:
  assumes "js_as_f64 js x = None" and "js_as_str js x = Some a" and "js_as_str js y = Some b"
    and "length a = length b"
  shows "attribute_evaluate js LessThan x y = str_less b a \<and> attribute_evaluate js GreaterThan x y = str_less b a"
  using assms by (simp add: attribute_evaluate_def compare_values_def)

definition string_json :: "string json_api" where
  "string_json = \<lparr>js_as_str = Some, js_as_array = (\<lambda>j. None), js_as_f64 = (\<lambda>j. None)\<rparr>"

lemma string_less_than_is_greater_than_example:
  "attribute_evaluate string_json LessThan ''2025-06-01'' ''2025-01-01'' = str_less ''2025-01-01'' ''2025-06-01''
    \<and> str_less ''2025-01-01'' ''2025-06-01''"
  using string_less_than_is_greater_than [of string_json "''2025-06-01''" "''2025-06-01''" "''2025-01-01''" "''2025-01-01''"]
  by (simp add: string_json_def)

end
