(* ===== verification/Tunnel.thy ===== *)
theory Tunnel
  imports Prelude
begin

text \<open>
  The WireGuard tunnel: the DERP relay frames of \<^verbatim>\<open>loom-wgtunnel-derp/src/protocol.rs\<close>, the address
  allocator of \<^verbatim>\<open>loom-wgtunnel-common/src/ip.rs\<close> and the routing table of
  \<^verbatim>\<open>loom-wgtunnel-engine/src/router.rs\<close>.

  A \<^verbatim>\<open>[u8; 32]\<close> key is a byte list of length 32 (\<open>key_ok\<close>). The JSON codec of the two info payloads is
  third-party code: \<open>enc\<close> and \<open>dec\<close> are \<^verbatim>\<open>to_vec\<close> and \<^verbatim>\<open>from_slice\<close> at \<^verbatim>\<open>ServerInfoPayload\<close>, and
  \<open>client_json\<close> is the serialized default \<^verbatim>\<open>ClientInfoPayload\<close>. \<^verbatim>\<open>usize\<close> is 64 bits wide.
\<close>

unbundle bit_operations_syntax

section \<open>Frames\<close>

record server_info_payload =
  si_version :: "i32 option"

datatype derp_frame =
  ServerKey bytes
| ServerInfo server_info_payload
| SendPacket bytes bytes
| RecvPacket bytes bytes
| KeepAlive
| NotePreferred bool
| PeerGone bytes
| PeerPresent bytes
| WatchConns
| ClosePeer bytes
| ClientInfo bytes

datatype derp_error =
  InvalidFrameType u8 | FrameTooLarge nat nat | PayloadTooShort u8 | DerpJson

definition MAX_FRAME_SIZE :: nat where
  "MAX_FRAME_SIZE = 2 ^ 20"

definition FRAME_TYPE_SERVER_KEY :: u8 where "FRAME_TYPE_SERVER_KEY = 0x01"

definition FRAME_TYPE_SERVER_INFO :: u8 where "FRAME_TYPE_SERVER_INFO = 0x02"

definition FRAME_TYPE_SEND_PACKET :: u8 where "FRAME_TYPE_SEND_PACKET = 0x03"

definition FRAME_TYPE_RECV_PACKET :: u8 where "FRAME_TYPE_RECV_PACKET = 0x04"

definition FRAME_TYPE_KEEP_ALIVE :: u8 where "FRAME_TYPE_KEEP_ALIVE = 0x05"

definition FRAME_TYPE_NOTE_PREFERRED :: u8 where "FRAME_TYPE_NOTE_PREFERRED = 0x06"

definition FRAME_TYPE_PEER_GONE :: u8 where "FRAME_TYPE_PEER_GONE = 0x07"

definition FRAME_TYPE_PEER_PRESENT :: u8 where "FRAME_TYPE_PEER_PRESENT = 0x08"

definition FRAME_TYPE_WATCH_CONNS :: u8 where "FRAME_TYPE_WATCH_CONNS = 0x09"

definition FRAME_TYPE_CLOSE_PEER :: u8 where "FRAME_TYPE_CLOSE_PEER = 0x0a"

definition FRAME_TYPE_CLIENT_INFO :: u8 where "FRAME_TYPE_CLIENT_INFO = 0x0b"

lemmas frame_types = FRAME_TYPE_SERVER_KEY_def FRAME_TYPE_SERVER_INFO_def FRAME_TYPE_SEND_PACKET_def
  FRAME_TYPE_RECV_PACKET_def FRAME_TYPE_KEEP_ALIVE_def FRAME_TYPE_NOTE_PREFERRED_def
  FRAME_TYPE_PEER_GONE_def FRAME_TYPE_PEER_PRESENT_def FRAME_TYPE_WATCH_CONNS_def
  FRAME_TYPE_CLOSE_PEER_def FRAME_TYPE_CLIENT_INFO_def

fun frame_type :: "derp_frame \<Rightarrow> u8" where
  "frame_type (ServerKey k) = FRAME_TYPE_SERVER_KEY"
| "frame_type (ServerInfo i) = FRAME_TYPE_SERVER_INFO"
| "frame_type (SendPacket k d) = FRAME_TYPE_SEND_PACKET"
| "frame_type (RecvPacket k d) = FRAME_TYPE_RECV_PACKET"
| "frame_type KeepAlive = FRAME_TYPE_KEEP_ALIVE"
| "frame_type (NotePreferred b) = FRAME_TYPE_NOTE_PREFERRED"
| "frame_type (PeerGone k) = FRAME_TYPE_PEER_GONE"
| "frame_type (PeerPresent k) = FRAME_TYPE_PEER_PRESENT"
| "frame_type WatchConns = FRAME_TYPE_WATCH_CONNS"
| "frame_type (ClosePeer k) = FRAME_TYPE_CLOSE_PEER"
| "frame_type (ClientInfo k) = FRAME_TYPE_CLIENT_INFO"

fun encode_payload :: "(server_info_payload \<Rightarrow> bytes) \<Rightarrow> bytes \<Rightarrow> derp_frame \<Rightarrow> bytes" where
  "encode_payload enc client_json (ServerKey k) = k"
| "encode_payload enc client_json (ServerInfo i) = enc i"
| "encode_payload enc client_json (SendPacket k d) = k @ d"
| "encode_payload enc client_json (RecvPacket k d) = k @ d"
| "encode_payload enc client_json KeepAlive = []"
| "encode_payload enc client_json (NotePreferred b) = [if b then 1 else 0]"
| "encode_payload enc client_json (PeerGone k) = k"
| "encode_payload enc client_json (PeerPresent k) = k"
| "encode_payload enc client_json WatchConns = []"
| "encode_payload enc client_json (ClosePeer k) = k"
| "encode_payload enc client_json (ClientInfo k) = k @ client_json"

definition encode_frame_header :: "u8 \<Rightarrow> nat \<Rightarrow> bytes" where
  "encode_frame_header ty payload_len =
     (let len = (of_nat payload_len :: u32)
      in [ty, ucast (drop_bit 16 len AND 0xff), ucast (drop_bit 8 len AND 0xff), ucast (len AND 0xff)])"

definition decode_frame_header :: "bytes \<Rightarrow> u8 \<times> nat" where
  "decode_frame_header header =
     (header ! 0, unat (push_bit 16 (ucast (header ! 1) :: u64) OR push_bit 8 (ucast (header ! 2)) OR ucast (header ! 3)))"

definition derp_encode :: "(server_info_payload \<Rightarrow> bytes) \<Rightarrow> bytes \<Rightarrow> derp_frame \<Rightarrow> bytes" where
  "derp_encode enc client_json f =
     (let payload = encode_payload enc client_json f
      in encode_frame_header (frame_type f) (length payload) @ payload)"

text \<open>The arms that copy a key off the front of the payload.\<close>

definition take_key :: "u8 \<Rightarrow> bytes \<Rightarrow> (bytes \<Rightarrow> derp_frame) \<Rightarrow> derp_error + derp_frame" where
  "take_key ty payload mk = (if length payload < 32 then Inl (PayloadTooShort ty) else Inr (mk (take 32 payload)))"

definition decode_payload ::
  "(bytes \<Rightarrow> server_info_payload option) \<Rightarrow> u8 \<Rightarrow> bytes \<Rightarrow> derp_error + derp_frame" where
  "decode_payload dec ty payload =
     (if ty = FRAME_TYPE_SERVER_KEY then take_key ty payload ServerKey
      else if ty = FRAME_TYPE_SERVER_INFO then
        (case dec payload of Some info \<Rightarrow> Inr (ServerInfo info) | None \<Rightarrow> Inl DerpJson)
      else if ty = FRAME_TYPE_SEND_PACKET then take_key ty payload (\<lambda>k. SendPacket k (drop 32 payload))
      else if ty = FRAME_TYPE_RECV_PACKET then take_key ty payload (\<lambda>k. RecvPacket k (drop 32 payload))
      else if ty = FRAME_TYPE_KEEP_ALIVE then Inr KeepAlive
      else if ty = FRAME_TYPE_NOTE_PREFERRED then
        (case payload of [] \<Rightarrow> Inl (PayloadTooShort ty) | b # bs \<Rightarrow> Inr (NotePreferred (b \<noteq> 0)))
      else if ty = FRAME_TYPE_PEER_GONE then take_key ty payload PeerGone
      else if ty = FRAME_TYPE_PEER_PRESENT then take_key ty payload PeerPresent
      else if ty = FRAME_TYPE_WATCH_CONNS then Inr WatchConns
      else if ty = FRAME_TYPE_CLOSE_PEER then take_key ty payload ClosePeer
      else if ty = FRAME_TYPE_CLIENT_INFO then take_key ty payload ClientInfo
      else Inl (InvalidFrameType ty))"

definition derp_decode ::
  "(bytes \<Rightarrow> server_info_payload option) \<Rightarrow> bytes \<Rightarrow> derp_error + derp_frame" where
  "derp_decode dec data =
     (if length data < 4 then Inl (PayloadTooShort 0)
      else let (ty, payload_len) = decode_frame_header (take 4 data)
           in if payload_len > MAX_FRAME_SIZE then Inl (FrameTooLarge payload_len MAX_FRAME_SIZE)
              else if length data < 4 + payload_len then Inl (PayloadTooShort ty)
              else decode_payload dec ty (take payload_len (drop 4 data)))"

section \<open>Addresses\<close>

type_synonym ipv6 = u128

definition WEAVER_SUBNET_BASE :: u128 where
  "WEAVER_SUBNET_BASE = 0xfd7a115ca1e000010000000000000000"

definition CLIENT_SUBNET_BASE :: u128 where
  "CLIENT_SUBNET_BASE = 0xfd7a115ca1e000020000000000000000"

definition SUBNET_HOST_MASK :: u128 where
  "SUBNET_HOST_MASK = 0x0000000000000000FFFFFFFFFFFFFFFF"

definition SUBNET_PREFIX_MASK :: u128 where
  "SUBNET_PREFIX_MASK = 0xFFFFFFFFFFFFFFFF0000000000000000"

datatype ip_error = PoolExhausted | InvalidAddress string | NotInSubnet string

record ip_allocator =
  weaver_counter :: u64
  client_counter :: u64

definition ip_allocator_new :: ip_allocator where
  "ip_allocator_new = \<lparr>weaver_counter = 1, client_counter = 1\<rparr>"

definition allocate_weaver_ip :: "ip_allocator \<Rightarrow> (ip_error + ipv6) \<times> ip_allocator" where
  "allocate_weaver_ip a =
     (let host = weaver_counter a; a' = a\<lparr>weaver_counter := host + 1\<rparr>
      in if (ucast host :: u128) > SUBNET_HOST_MASK then (Inl PoolExhausted, a')
         else (Inr (WEAVER_SUBNET_BASE OR ucast host), a'))"

definition allocate_client_ip :: "ip_allocator \<Rightarrow> (ip_error + ipv6) \<times> ip_allocator" where
  "allocate_client_ip a =
     (let host = client_counter a; a' = a\<lparr>client_counter := host + 1\<rparr>
      in if (ucast host :: u128) > SUBNET_HOST_MASK then (Inl PoolExhausted, a')
         else (Inr (CLIENT_SUBNET_BASE OR ucast host), a'))"

definition server_ip :: ipv6 where
  "server_ip = 0xfd7a115ca1e000000000000000000001"

definition is_weaver_ip :: "ipv6 \<Rightarrow> bool" where
  "is_weaver_ip addr \<longleftrightarrow> addr AND SUBNET_PREFIX_MASK = WEAVER_SUBNET_BASE"

definition is_client_ip :: "ipv6 \<Rightarrow> bool" where
  "is_client_ip addr \<longleftrightarrow> addr AND SUBNET_PREFIX_MASK = CLIENT_SUBNET_BASE"

section \<open>Routes\<close>

type_synonym wg_public_key = bytes

record router =
  routes :: "ipv6 \<rightharpoonup> wg_public_key"

definition router_new :: router where
  "router_new = \<lparr>routes = Map.empty\<rparr>"

definition add_route :: "ipv6 \<Rightarrow> wg_public_key \<Rightarrow> router \<Rightarrow> router" where
  "add_route ip peer r =
     (if routes r ip = Some peer then r else r\<lparr>routes := (routes r)(ip \<mapsto> peer)\<rparr>)"

definition remove_peer :: "wg_public_key \<Rightarrow> router \<Rightarrow> router" where
  "remove_peer peer r = r\<lparr>routes := (\<lambda>ip. if routes r ip = Some peer then None else routes r ip)\<rparr>"

definition route :: "ipv6 \<Rightarrow> router \<Rightarrow> wg_public_key option" where
  "route dst r = routes r dst"

section \<open>Headers\<close>

lemma header_bits:
  "push_bit 16 (ucast (ucast (drop_bit 16 len AND 0xff :: u32) :: u8) :: u64)
     OR push_bit 8 (ucast (ucast (drop_bit 8 len AND 0xff) :: u8)) OR ucast (ucast (len AND 0xff) :: u8)
   = take_bit 24 (ucast len)"
proof (rule bit_eqI)
  fix k :: nat
  have ff: "(0xff :: u32) = mask 8" by (simp add: mask_eq_exp_minus_1)
  consider "k < 8" | "8 \<le> k" "k < 16" | "16 \<le> k" "k < 24" | "24 \<le> k" by linarith
  then show "bit (push_bit 16 (ucast (ucast (drop_bit 16 len AND 0xff :: u32) :: u8) :: u64)
      OR push_bit 8 (ucast (ucast (drop_bit 8 len AND 0xff) :: u8)) OR ucast (ucast (len AND 0xff) :: u8)) k
    = bit (take_bit 24 (ucast len :: u64)) k"
    unfolding ff by cases (auto simp: bit_simps)
qed

lemma header_length [codec]:
  "decode_frame_header (encode_frame_header ty n) = (ty, n mod 2 ^ 24)"
proof -
  have "unat (take_bit 24 (ucast (of_nat n :: u32) :: u64)) = n mod 2 ^ 24"
    unfolding unsigned_take_bit_eq unsigned_ucast_eq unsigned_of_nat take_bit_take_bit
    by (simp add: take_bit_eq_mod mod_mod_cancel)
  then show ?thesis by (simp add: decode_frame_header_def encode_frame_header_def Let_def header_bits)
qed

lemma length_header [simp]: "length (encode_frame_header ty n) = 4"
  by (simp add: encode_frame_header_def Let_def)

section \<open>Well-formed frames\<close>

definition key_ok :: "bytes \<Rightarrow> bool" where
  "key_ok k \<longleftrightarrow> length k = 32"

fun frame_ok :: "derp_frame \<Rightarrow> bool" where
  "frame_ok (ServerKey k) = key_ok k"
| "frame_ok (SendPacket k d) = key_ok k"
| "frame_ok (RecvPacket k d) = key_ok k"
| "frame_ok (PeerGone k) = key_ok k"
| "frame_ok (PeerPresent k) = key_ok k"
| "frame_ok (ClosePeer k) = key_ok k"
| "frame_ok (ClientInfo k) = key_ok k"
| "frame_ok _ = True"

lemma decode_encode_payload [codec]:
  assumes "frame_ok f" and "\<And>i. dec (enc i) = Some i"
  shows "decode_payload dec (frame_type f) (encode_payload enc client_json f) = Inr f"
  using assms by (cases f) (simp_all add: decode_payload_def take_key_def key_ok_def frame_types)

lemma take_key_result: "take_key ty payload mk = Inr f \<Longrightarrow> 32 \<le> length payload \<and> f = mk (take 32 payload)"
  by (auto simp: take_key_def split: if_splits)

lemma decode_payload_ok:
  "decode_payload dec ty payload = Inr f \<Longrightarrow> frame_type f = ty \<and> frame_ok f"
  by (auto simp: decode_payload_def key_ok_def dest!: take_key_result split: if_splits option.splits list.splits)

section \<open>Subnets\<close>

lemma subnet_consts:
  "WEAVER_SUBNET_BASE = push_bit 64 0xfd7a115ca1e00001" "CLIENT_SUBNET_BASE = push_bit 64 0xfd7a115ca1e00002"
  "SUBNET_HOST_MASK = mask 64" "SUBNET_PREFIX_MASK = push_bit 64 (mask 64)"
  unfolding WEAVER_SUBNET_BASE_def CLIENT_SUBNET_BASE_def SUBNET_HOST_MASK_def SUBNET_PREFIX_MASK_def
  by (simp_all add: push_bit_eq_mult mask_eq_exp_minus_1)

lemma host_fits: "\<not> (ucast (host :: u64) :: u128) > SUBNET_HOST_MASK"
proof -
  have h: "unat host < 2 ^ 64" using unsigned_less [of host, where 'a = nat] by simp
  then have "unat host < 2 ^ 128" by (rule less_le_trans) simp
  then have "unat (ucast host :: u128) = unat host" by (simp add: unsigned_ucast_eq take_bit_nat_eq_self)
  moreover have "unat (mask 64 :: u128) = 2 ^ 64 - 1" by (simp add: mask_eq_exp_minus_1)
  ultimately show ?thesis unfolding subnet_consts word_less_nat_alt using h by simp
qed

lemma prefix_of_host:
  "(push_bit 64 (c :: u128) OR ucast (host :: u64)) AND push_bit 64 (mask 64) = push_bit 64 c"
  by (rule bit_eqI) (auto simp: bit_simps dest: bit_imp_le_length)

lemma host_of_address:
  "ucast (push_bit 64 (c :: u128) OR ucast (host :: u64)) = host"
  by (rule bit_eqI) (auto simp: bit_simps)

section \<open>Allocation\<close>

definition weaver_ip :: "u64 \<Rightarrow> ipv6" where
  "weaver_ip host = WEAVER_SUBNET_BASE OR ucast host"

definition client_ip :: "u64 \<Rightarrow> ipv6" where
  "client_ip host = CLIENT_SUBNET_BASE OR ucast host"

lemma allocate_weaver_eq:
  "allocate_weaver_ip a = (Inr (weaver_ip (weaver_counter a)), a\<lparr>weaver_counter := weaver_counter a + 1\<rparr>)"
  using host_fits [of "weaver_counter a"] by (simp add: allocate_weaver_ip_def weaver_ip_def Let_def)

lemma allocate_client_eq:
  "allocate_client_ip a = (Inr (client_ip (client_counter a)), a\<lparr>client_counter := client_counter a + 1\<rparr>)"
  using host_fits [of "client_counter a"] by (simp add: allocate_client_ip_def client_ip_def Let_def)

lemma weaver_ip_subnet: "is_weaver_ip (weaver_ip host) \<and> \<not> is_client_ip (weaver_ip host)"
  unfolding is_weaver_ip_def is_client_ip_def weaver_ip_def subnet_consts prefix_of_host
  by (simp add: push_bit_eq_mult)

lemma client_ip_subnet: "is_client_ip (client_ip host) \<and> \<not> is_weaver_ip (client_ip host)"
  unfolding is_weaver_ip_def is_client_ip_def client_ip_def subnet_consts prefix_of_host
  by (simp add: push_bit_eq_mult)

lemma weaver_ip_inj: "weaver_ip h = weaver_ip h' \<longleftrightarrow> h = h'"
  unfolding weaver_ip_def subnet_consts by (metis host_of_address)

lemma client_ip_inj: "client_ip h = client_ip h' \<longleftrightarrow> h = h'"
  unfolding client_ip_def subnet_consts by (metis host_of_address)

datatype alloc_call = AllocWeaver | AllocClient

definition allocate :: "alloc_call \<Rightarrow> ip_allocator \<Rightarrow> (ip_error + ipv6) \<times> ip_allocator" where
  "allocate call = (case call of AllocWeaver \<Rightarrow> allocate_weaver_ip | AllocClient \<Rightarrow> allocate_client_ip)"

fun allocations :: "ip_allocator \<Rightarrow> alloc_call list \<Rightarrow> (ip_error + ipv6) list" where
  "allocations a [] = []"
| "allocations a (call # calls) = (let (r, a') = allocate call a in r # allocations a' calls)"

definition count_calls :: "alloc_call \<Rightarrow> alloc_call list \<Rightarrow> nat" where
  "count_calls call calls = length (filter (\<lambda>c. c = call) calls)"

lemma allocations_nth:
  "i < length calls \<Longrightarrow> allocations a calls ! i = Inr (case calls ! i of
     AllocWeaver \<Rightarrow> weaver_ip (weaver_counter a + of_nat (count_calls AllocWeaver (take i calls)))
   | AllocClient \<Rightarrow> client_ip (client_counter a + of_nat (count_calls AllocClient (take i calls))))"
proof (induction calls arbitrary: a i)
  case (Cons c calls)
  show ?case
  proof (cases i)
    case 0
    then show ?thesis
      by (cases c) (simp_all add: allocate_def allocate_weaver_eq allocate_client_eq count_calls_def)
  next
    case (Suc j)
    then show ?thesis using Cons
      by (cases c) (simp_all add: allocate_def allocate_weaver_eq allocate_client_eq count_calls_def
          add.assoc split: alloc_call.splits)
  qed
qed simp

lemma length_allocations [simp]: "length (allocations a calls) = length calls"
  by (induction calls arbitrary: a) (auto simp: split_beta Let_def)

lemma count_calls_less:
  assumes "i < j" and "j \<le> length calls" and "calls ! i = call"
  shows "count_calls call (take i calls) < count_calls call (take j calls)"
proof -
  have "take j calls = take i calls @ calls ! i # drop (Suc i) (take j calls)"
    using assms id_take_nth_drop [of i "take j calls"] by simp
  then have "filter (\<lambda>c. c = call) (take j calls)
      = filter (\<lambda>c. c = call) (take i calls) @ call # filter (\<lambda>c. c = call) (drop (Suc i) (take j calls))"
    using assms(3) by (metis (mono_tags, lifting) filter.simps(2) filter_append)
  then show ?thesis by (simp add: count_calls_def)
qed

lemma word_offset_neq:
  assumes "m < n" and "n < 2 ^ 64"
  shows "(x :: u64) + of_nat m \<noteq> x + of_nat n"
proof
  assume "x + of_nat m = x + of_nat n"
  then have "unat (of_nat m :: u64) = unat (of_nat n :: u64)" by simp
  then show False using assms by (simp add: unsigned_of_nat take_bit_nat_eq_self)
qed

section \<open>Routing histories\<close>

datatype route_call = AddRoute ipv6 wg_public_key | RemovePeer wg_public_key

definition router_step :: "router \<Rightarrow> route_call \<Rightarrow> router" where
  "router_step r call = (case call of AddRoute ip peer \<Rightarrow> add_route ip peer r | RemovePeer peer \<Rightarrow> remove_peer peer r)"

text \<open>What a history says of one address, latest call first: its last assignment, unless undone.\<close>

fun latest_owner :: "ipv6 \<Rightarrow> wg_public_key set \<Rightarrow> route_call list \<Rightarrow> wg_public_key option" where
  "latest_owner ip gone [] = None"
| "latest_owner ip gone (AddRoute ip' peer # calls) =
     (if ip' = ip then (if peer \<in> gone then None else Some peer) else latest_owner ip gone calls)"
| "latest_owner ip gone (RemovePeer peer # calls) = latest_owner ip (insert peer gone) calls"

lemma route_add: "route ip (add_route ip' peer r) = (if ip = ip' then Some peer else route ip r)"
  by (simp add: route_def add_route_def)

lemma route_remove: "route ip (remove_peer peer r) = (if route ip r = Some peer then None else route ip r)"
  by (simp add: route_def remove_peer_def)

lemma latest_owner_gone:
  "latest_owner ip (insert peer gone) calls = (if latest_owner ip gone calls = Some peer then None
     else latest_owner ip gone calls)"
proof (induction calls arbitrary: gone)
  case (Cons call calls)
  show ?case
  proof (cases call)
    case (RemovePeer q)
    then show ?thesis using Cons.IH [of "insert q gone"] by (simp add: insert_commute [of q peer])
  qed (simp add: Cons.IH)
qed simp

lemma route_history: "route ip (foldl router_step router_new calls) = latest_owner ip {} (rev calls)"
proof (induction calls rule: rev_induct)
  case (snoc call calls)
  then show ?case
    by (cases call) (simp_all add: router_step_def route_add route_remove latest_owner_gone)
qed (simp add: router_new_def route_def)

section \<open>Properties\<close>

text \<open>
  C30: a DERP frame survives the wire. For every well-formed frame whose payload fits the maximum
  frame size, and a JSON codec that reads back what it wrote, decoding the encoded frame followed by
  any further bytes of the stream gives the frame back.
\<close>

theorem derp_roundtrip:
  assumes "frame_ok f" and "\<And>i. dec (enc i) = Some i"
    and "length (encode_payload enc client_json f) \<le> MAX_FRAME_SIZE"
  shows "derp_decode dec (derp_encode enc client_json f @ rest) = Inr f"
proof -
  let ?p = "encode_payload enc client_json f"
  have "length ?p mod 2 ^ 24 = length ?p" using assms(3) by (simp add: MAX_FRAME_SIZE_def)
  then have "decode_frame_header (encode_frame_header (frame_type f) (length ?p)) = (frame_type f, length ?p)"
    by (simp only: header_length)
  then show ?thesis using assms(3) decode_encode_payload [OF assms(1,2)]
    by (simp add: derp_decode_def derp_encode_def Let_def)
qed

definition sample_enc :: "server_info_payload \<Rightarrow> bytes" where
  "sample_enc i = (case si_version i of None \<Rightarrow> [] | Some v \<Rightarrow> replicate (unat v + 1) 0)"

definition sample_dec :: "bytes \<Rightarrow> server_info_payload option" where
  "sample_dec bs = Some \<lparr>si_version = (if bs = [] then None else Some (of_nat (length bs - 1)))\<rparr>"

theorem derp_roundtrip_witness:
  "derp_decode sample_dec (derp_encode sample_enc [] (SendPacket (replicate 32 7) [1, 2, 3]) @ [9])
     = Inr (SendPacket (replicate 32 7) [1, 2, 3])"
proof (rule derp_roundtrip)
  show "sample_dec (sample_enc i) = Some i" for i
    by (cases i) (auto simp: sample_dec_def sample_enc_def split: option.split)
qed (simp_all add: key_ok_def MAX_FRAME_SIZE_def)

text \<open>
  The length field has 24 bits. Whatever the payload, the header read back gives the frame type
  and the payload length modulo \<open>2^24\<close>: a longer payload is announced too short.
\<close>

theorem derp_header_length:
  "decode_frame_header (encode_frame_header ty n) = (ty, n mod 2 ^ 24)"
  by (rule header_length)

text \<open>
  C31: tunnel addresses are unique. In any sequence of fewer than \<open>2^64\<close> allocations, every one
  succeeds, no two return the same address, and weavers and clients get addresses of their own
  subnets, which \<^verbatim>\<open>is_weaver_ip\<close> and \<^verbatim>\<open>is_client_ip\<close> tell apart.
\<close>

theorem allocated_addresses_unique:
  assumes "length calls < 2 ^ 64" and "i < j" and "j < length calls"
  shows "\<exists>x y. allocations ip_allocator_new calls ! i = Inr x \<and> allocations ip_allocator_new calls ! j = Inr y
    \<and> x \<noteq> y \<and> is_weaver_ip x = (calls ! i = AllocWeaver) \<and> is_client_ip x = (calls ! i = AllocClient)
    \<and> is_weaver_ip y = (calls ! j = AllocWeaver) \<and> is_client_ip y = (calls ! j = AllocClient)"
proof -
  have count: "count_calls c (take i calls) < count_calls c (take j calls)" "count_calls c (take j calls) < 2 ^ 64"
    if "calls ! i = c" for c
  proof -
    show "count_calls c (take i calls) < count_calls c (take j calls)"
      using assms that by (intro count_calls_less) simp_all
    have "count_calls c (take j calls) \<le> length calls"
      unfolding count_calls_def by (rule order_trans [OF length_filter_le]) simp
    then show "count_calls c (take j calls) < 2 ^ 64" using assms(1) by linarith
  qed
  have i: "i < length calls" using assms by simp
  have disj: "weaver_ip h \<noteq> client_ip h'" for h h'
    using weaver_ip_subnet client_ip_subnet by metis
  show ?thesis
    using allocations_nth [OF i, of ip_allocator_new] allocations_nth [OF assms(3), of ip_allocator_new]
      weaver_ip_subnet client_ip_subnet disj disj [symmetric] count
    by (cases "calls ! i"; cases "calls ! j")
       (auto simp: weaver_ip_inj client_ip_inj word_offset_neq simp del: add_left_cancel)
qed

theorem allocated_addresses_unique_witness:
  "\<exists>x y. allocations ip_allocator_new [AllocWeaver, AllocClient, AllocWeaver] ! 0 = Inr x
     \<and> allocations ip_allocator_new [AllocWeaver, AllocClient, AllocWeaver] ! 2 = Inr y \<and> x \<noteq> y"
  using allocated_addresses_unique [of "[AllocWeaver, AllocClient, AllocWeaver]" 0 2] by auto

text \<open>
  Routing follows the history. After any sequence of \<^verbatim>\<open>add_route\<close> and \<^verbatim>\<open>remove_peer\<close> calls on a new
  router, a packet for an address goes to the peer the address was last assigned to, unless that peer
  has been removed since; then, and when it was never assigned, there is no route.
\<close>

theorem router_follows_history:
  "route ip (foldl router_step router_new calls) = latest_owner ip {} (rev calls)"
  by (rule route_history)

end
