(* ===== verification/Tracker.thy ===== *)
theory Tracker
  imports Prelude "HOL-Library.AList"
begin

text \<open>
  The connection tracker of \<^verbatim>\<open>loom-weaver-audit-sidecar/src/connection_tracker.rs\<close>: which socket a
  process's file descriptor refers to, kept up to date from the traced system calls.

  A hash map is an association list with distinct keys (an invariant proved below); no definition
  depends on its order. \<^verbatim>\<open>next_socket_id\<close> wraps, as in a release build.
\<close>

section \<open>State\<close>

datatype ip_addr = V4 u32 | V6 u128

record fd_key =
  fk_pid :: u32
  fk_fd :: i32

type_synonym socket_id = u64

record fd_state =
  fs_socket_id :: "socket_id option"
  fs_created_at_ns :: u64

record socket_state =
  so_domain :: u16
  so_socket_type :: u16
  so_protocol :: u16
  so_local_addr :: "(ip_addr \<times> u16) option"
  so_remote_addr :: "(ip_addr \<times> u16) option"
  so_hostname :: "string option"
  so_created_at_ns :: u64

record connection_tracker =
  ct_fd_table :: "(fd_key \<times> fd_state) list"
  ct_socket_table :: "(socket_id \<times> socket_state) list"
  ct_next_socket_id :: u64

abbreviation fd_key_of :: "u32 \<Rightarrow> i32 \<Rightarrow> fd_key" where
  "fd_key_of pid fd \<equiv> \<lparr>fk_pid = pid, fk_fd = fd\<rparr>"

definition tracker_new :: connection_tracker where
  "tracker_new = \<lparr>ct_fd_table = [], ct_socket_table = [], ct_next_socket_id = 1\<rparr>"

section \<open>Operations\<close>

definition refcount :: "socket_id \<Rightarrow> (fd_key \<times> fd_state) list \<Rightarrow> nat" where
  "refcount i fds = length (filter (\<lambda>(k, s). fs_socket_id s = Some i) fds)"

text \<open>Taking an entry out of the table, and its socket with it when nothing else refers to it.\<close>

definition release_fd :: "fd_key \<Rightarrow> connection_tracker \<Rightarrow> connection_tracker" where
  "release_fd key t = (case map_of (ct_fd_table t) key of
     None \<Rightarrow> t
   | Some old \<Rightarrow>
       let fds = AList.delete key (ct_fd_table t)
       in (case fs_socket_id old of
             None \<Rightarrow> t\<lparr>ct_fd_table := fds\<rparr>
           | Some i \<Rightarrow>
               if refcount i fds = 0
               then t\<lparr>ct_fd_table := fds, ct_socket_table := AList.delete i (ct_socket_table t)\<rparr>
               else t\<lparr>ct_fd_table := fds\<rparr>))"

definition on_socket ::
  "u32 \<Rightarrow> i32 \<Rightarrow> u16 \<Rightarrow> u16 \<Rightarrow> u16 \<Rightarrow> u64 \<Rightarrow> connection_tracker \<Rightarrow> socket_id \<times> connection_tracker" where
  "on_socket pid fd domain ty protocol ts t0 =
     (let key = fd_key_of pid fd;
          t = release_fd key t0;
          i = ct_next_socket_id t
      in (i, t\<lparr>ct_next_socket_id := i + 1,
               ct_fd_table := AList.update key \<lparr>fs_socket_id = Some i, fs_created_at_ns = ts\<rparr> (ct_fd_table t),
               ct_socket_table := AList.update i \<lparr>so_domain = domain, so_socket_type = ty, so_protocol = protocol,
                 so_local_addr = None, so_remote_addr = None, so_hostname = None, so_created_at_ns = ts\<rparr>
                 (ct_socket_table t)\<rparr>))"

definition on_connect ::
  "u32 \<Rightarrow> i32 \<Rightarrow> ip_addr \<Rightarrow> u16 \<Rightarrow> string option \<Rightarrow> connection_tracker \<Rightarrow> connection_tracker" where
  "on_connect pid fd addr port hostname t =
     (case Option.bind (map_of (ct_fd_table t) (fd_key_of pid fd)) fs_socket_id of
        None \<Rightarrow> t
      | Some i \<Rightarrow> (case map_of (ct_socket_table t) i of
          None \<Rightarrow> t
        | Some s \<Rightarrow> t\<lparr>ct_socket_table := AList.update i
            (s\<lparr>so_remote_addr := Some (addr, port), so_hostname := hostname\<rparr>) (ct_socket_table t)\<rparr>))"

definition on_close :: "u32 \<Rightarrow> i32 \<Rightarrow> connection_tracker \<Rightarrow> connection_tracker" where
  "on_close pid fd t = release_fd (fd_key_of pid fd) t"

definition on_dup :: "u32 \<Rightarrow> i32 \<Rightarrow> i32 \<Rightarrow> u64 \<Rightarrow> connection_tracker \<Rightarrow> connection_tracker" where
  "on_dup pid old_fd new_fd ts t = (case map_of (ct_fd_table t) (fd_key_of pid old_fd) of
     None \<Rightarrow> t
   | Some old \<Rightarrow> t\<lparr>ct_fd_table := AList.update (fd_key_of pid new_fd)
       \<lparr>fs_socket_id = fs_socket_id old, fs_created_at_ns = ts\<rparr> (ct_fd_table t)\<rparr>)"

definition on_fork :: "u32 \<Rightarrow> u32 \<Rightarrow> u64 \<Rightarrow> connection_tracker \<Rightarrow> connection_tracker" where
  "on_fork parent child ts t =
     (let parent_fds = map (\<lambda>(k, v). (fk_fd k, v)) (filter (\<lambda>(k, v). fk_pid k = parent) (ct_fd_table t))
      in t\<lparr>ct_fd_table := foldl (\<lambda>fds (fd, s). AList.update (fd_key_of child fd)
           \<lparr>fs_socket_id = fs_socket_id s, fs_created_at_ns = ts\<rparr> fds) (ct_fd_table t) parent_fds\<rparr>)"

definition on_exit :: "u32 \<Rightarrow> connection_tracker \<Rightarrow> connection_tracker" where
  "on_exit pid t =
     foldl (\<lambda>t k. on_close (fk_pid k) (fk_fd k) t) t (filter (\<lambda>k. fk_pid k = pid) (map fst (ct_fd_table t)))"

definition get_socket :: "u32 \<Rightarrow> i32 \<Rightarrow> connection_tracker \<Rightarrow> socket_state option" where
  "get_socket pid fd t =
     Option.bind (Option.bind (map_of (ct_fd_table t) (fd_key_of pid fd)) fs_socket_id) (map_of (ct_socket_table t))"

definition fd_count :: "connection_tracker \<Rightarrow> nat" where
  "fd_count t = length (ct_fd_table t)"

definition socket_count :: "connection_tracker \<Rightarrow> nat" where
  "socket_count t = length (ct_socket_table t)"

section \<open>Events\<close>

datatype tracker_event =
  EvSocket u32 i32 u16 u16 u16 u64
| EvConnect u32 i32 ip_addr u16 "string option"
| EvClose u32 i32
| EvDup u32 i32 i32 u64
| EvFork u32 u32 u64
| EvExit u32

definition tracker_step :: "connection_tracker \<Rightarrow> tracker_event \<Rightarrow> connection_tracker" where
  "tracker_step t ev = (case ev of
     EvSocket pid fd d ty p ts \<Rightarrow> snd (on_socket pid fd d ty p ts t)
   | EvConnect pid fd a port h \<Rightarrow> on_connect pid fd a port h t
   | EvClose pid fd \<Rightarrow> on_close pid fd t
   | EvDup pid old_fd new_fd ts \<Rightarrow> on_dup pid old_fd new_fd ts t
   | EvFork parent child ts \<Rightarrow> on_fork parent child ts t
   | EvExit pid \<Rightarrow> on_exit pid t)"

section \<open>Invariants\<close>

definition refs :: "connection_tracker \<Rightarrow> socket_id set" where
  "refs t = {i. \<exists>k s. (k, s) \<in> set (ct_fd_table t) \<and> fs_socket_id s = Some i}"

definition sockets :: "connection_tracker \<Rightarrow> socket_id set" where
  "sockets t = fst ` set (ct_socket_table t)"

text \<open>Distinct keys, and no descriptor refers to a socket the table does not have.\<close>

definition tracker_inv :: "connection_tracker \<Rightarrow> bool" where
  "tracker_inv t \<longleftrightarrow> distinct (map fst (ct_fd_table t)) \<and> distinct (map fst (ct_socket_table t))
     \<and> refs t \<subseteq> sockets t"

lemma refcount_0: "refcount i fds = 0 \<longleftrightarrow> (\<forall>(k, s) \<in> set fds. fs_socket_id s \<noteq> Some i)"
  by (auto simp: refcount_def filter_empty_conv)

lemma set_delete: "set (AList.delete k al) = {p \<in> set al. fst p \<noteq> k}"
  by (auto simp: AList.delete_eq)

lemma set_update:
  "distinct (map fst al) \<Longrightarrow> set (AList.update k v al) = insert (k, v) {p \<in> set al. fst p \<noteq> k}"
  by (induction al) (auto simp: image_iff)

lemma refs_update:
  "distinct (map fst (ct_fd_table t)) \<Longrightarrow> refs (t\<lparr>ct_fd_table := AList.update k s (ct_fd_table t)\<rparr>)
     \<subseteq> set_option (fs_socket_id s) \<union> refs t"
  by (auto simp: refs_def set_update)

lemma release_cases:
  obtains (absent) "release_fd key t = t" "map_of (ct_fd_table t) key = None"
  | (plain) "release_fd key t = t\<lparr>ct_fd_table := AList.delete key (ct_fd_table t)\<rparr>"
      "sockets (release_fd key t) = sockets t"
      "\<And>i. (\<exists>s. map_of (ct_fd_table t) key = Some s \<and> fs_socket_id s = Some i) \<Longrightarrow> i \<in> refs (release_fd key t)"
  | (last) i where "release_fd key t = t\<lparr>ct_fd_table := AList.delete key (ct_fd_table t),
        ct_socket_table := AList.delete i (ct_socket_table t)\<rparr>"
      "i \<notin> refs (release_fd key t)" "\<exists>s. map_of (ct_fd_table t) key = Some s \<and> fs_socket_id s = Some i"
proof (cases "map_of (ct_fd_table t) key")
  case None
  then show ?thesis using absent by (simp add: release_fd_def)
next
  case (Some old)
  let ?fds = "AList.delete key (ct_fd_table t)"
  show ?thesis
  proof (cases "fs_socket_id old")
    case None
    then show ?thesis using Some plain by (simp add: release_fd_def Let_def sockets_def)
  next
    case sid: (Some i)
    show ?thesis
    proof (cases "refcount i ?fds = 0")
      case True
      then show ?thesis using Some sid last [of i]
        by (fastforce simp: release_fd_def Let_def refs_def refcount_0)
    next
      case False
      then have "i \<in> refs (t\<lparr>ct_fd_table := ?fds\<rparr>)" by (auto simp: refs_def refcount_0)
      then show ?thesis using Some sid False plain by (simp add: release_fd_def Let_def sockets_def)
    qed
  qed
qed

lemma release_keys:
  assumes "distinct (map fst (ct_fd_table t))" and "distinct (map fst (ct_socket_table t))"
  shows "distinct (map fst (ct_fd_table (release_fd key t)))" "distinct (map fst (ct_socket_table (release_fd key t)))"
    and "key \<notin> fst ` set (ct_fd_table (release_fd key t))"
    and "set (ct_fd_table (release_fd key t)) = {p \<in> set (ct_fd_table t). fst p \<noteq> key}"
proof -
  show sub: "set (ct_fd_table (release_fd key t)) = {p \<in> set (ct_fd_table t). fst p \<noteq> key}"
    by (cases rule: release_cases [of key t]) (force simp: set_delete map_of_eq_None_iff)+
  then show "key \<notin> fst ` set (ct_fd_table (release_fd key t))" by auto
  show "distinct (map fst (ct_fd_table (release_fd key t)))" "distinct (map fst (ct_socket_table (release_fd key t)))"
    by (cases rule: release_cases [of key t]; use assms in \<open>simp add: distinct_delete\<close>)+
qed

lemma release_refs_subset: "refs (release_fd key t) \<subseteq> refs t"
  by (cases rule: release_cases [of key t]) (auto simp: refs_def set_delete)

lemma release_inv:
  assumes "tracker_inv t"
  shows "tracker_inv (release_fd key t)"
proof -
  have d: "distinct (map fst (ct_fd_table t))" "distinct (map fst (ct_socket_table t))" and sub: "refs t \<subseteq> sockets t"
    using assms by (auto simp: tracker_inv_def)
  have "refs (release_fd key t) \<subseteq> sockets (release_fd key t)"
  proof (cases rule: release_cases [of key t])
    case (last i)
    then have "sockets (release_fd key t) = sockets t - {i}" by (auto simp: sockets_def set_delete)
    then show ?thesis using last(2) release_refs_subset [of key t] sub by blast
  next
    case plain
    then show ?thesis using release_refs_subset [of key t] sub by (simp only: plain(2))
  qed (use sub in simp)
  then show ?thesis using release_keys(1,2) [OF d] by (simp add: tracker_inv_def)
qed

text \<open>Nothing leaks: the table has exactly the sockets some descriptor refers to.\<close>

definition tracker_exact :: "connection_tracker \<Rightarrow> bool" where
  "tracker_exact t \<longleftrightarrow> tracker_inv t \<and> sockets t \<subseteq> refs t"

lemma refs_release_other:
  assumes "distinct (map fst (ct_fd_table t))" "distinct (map fst (ct_socket_table t))" and "i \<in> refs t"
    and "\<And>s. map_of (ct_fd_table t) key = Some s \<Longrightarrow> fs_socket_id s = Some i \<Longrightarrow> i \<in> refs (release_fd key t)"
  shows "i \<in> refs (release_fd key t)"
proof -
  obtain k s where ks: "(k, s) \<in> set (ct_fd_table t)" "fs_socket_id s = Some i"
    using assms(3) by (auto simp: refs_def)
  show ?thesis
  proof (cases "k = key")
    case True
    then show ?thesis using ks assms(1,4) by (simp add: map_of_is_SomeI)
  next
    case False
    then show ?thesis using ks release_keys(4) [OF assms(1,2)] by (auto simp: refs_def)
  qed
qed

lemma release_exact:
  assumes "tracker_exact t"
  shows "tracker_exact (release_fd key t)"
proof -
  have inv: "tracker_inv t" and sub: "sockets t \<subseteq> refs t" using assms by (auto simp: tracker_exact_def)
  have d: "distinct (map fst (ct_fd_table t))" "distinct (map fst (ct_socket_table t))"
    using inv by (auto simp: tracker_inv_def)
  have "sockets (release_fd key t) \<subseteq> refs (release_fd key t)"
  proof (cases rule: release_cases [of key t])
    case plain
    have "i \<in> refs (release_fd key t)" if "i \<in> refs t" for i
      by (rule refs_release_other [OF d that]) (rule plain(3), blast)
    then show ?thesis using sub unfolding plain(2) by blast
  next
    case (last i)
    have "sockets (release_fd key t) = sockets t - {i}" by (auto simp: last(1) sockets_def set_delete)
    moreover have "j \<in> refs (release_fd key t)" if "j \<in> refs t" "j \<noteq> i" for j
    proof (rule refs_release_other [OF d that(1)])
      fix s assume "map_of (ct_fd_table t) key = Some s" "fs_socket_id s = Some j"
      with last(3) that(2) show "j \<in> refs (release_fd key t)" by simp
    qed
    ultimately show ?thesis using sub by blast
  qed (use sub in simp)
  then show ?thesis using release_inv [OF inv] by (simp add: tracker_exact_def)
qed

section \<open>Preservation\<close>

lemma on_socket_tables:
  assumes "tracker_inv t"
  shows "refs (snd (on_socket pid fd d ty p ts t))
      = insert (ct_next_socket_id (release_fd (fd_key_of pid fd) t)) (refs (release_fd (fd_key_of pid fd) t))"
    and "sockets (snd (on_socket pid fd d ty p ts t))
      = insert (ct_next_socket_id (release_fd (fd_key_of pid fd) t)) (sockets (release_fd (fd_key_of pid fd) t))"
    and "distinct (map fst (ct_fd_table (snd (on_socket pid fd d ty p ts t))))"
    and "distinct (map fst (ct_socket_table (snd (on_socket pid fd d ty p ts t))))"
proof -
  let ?key = "fd_key_of pid fd"
  have "distinct (map fst (ct_fd_table t))" "distinct (map fst (ct_socket_table t))"
    using assms by (auto simp: tracker_inv_def)
  note d = release_keys [OF this, of ?key]
  have "{p \<in> set (ct_fd_table (release_fd ?key t)). fst p \<noteq> ?key} = set (ct_fd_table (release_fd ?key t))"
    using d(3) by force
  then have "set (ct_fd_table (snd (on_socket pid fd d ty p ts t)))
      = insert (?key, \<lparr>fs_socket_id = Some (ct_next_socket_id (release_fd ?key t)), fs_created_at_ns = ts\<rparr>)
          (set (ct_fd_table (release_fd ?key t)))"
    using d(1) by (simp add: on_socket_def Let_def set_update)
  then show "refs (snd (on_socket pid fd d ty p ts t)) = insert (ct_next_socket_id (release_fd ?key t)) (refs (release_fd ?key t))"
    unfolding refs_def by auto (metis fd_state.select_convs(1))
  show "sockets (snd (on_socket pid fd d ty p ts t)) = insert (ct_next_socket_id (release_fd ?key t)) (sockets (release_fd ?key t))"
    using d(2) by (force simp: on_socket_def Let_def sockets_def set_update)
  show "distinct (map fst (ct_fd_table (snd (on_socket pid fd d ty p ts t))))"
    "distinct (map fst (ct_socket_table (snd (on_socket pid fd d ty p ts t))))"
    using d(1,2) by (simp_all add: on_socket_def Let_def distinct_update)
qed

lemma on_connect_tables:
  assumes "tracker_inv t"
  shows "refs (on_connect pid fd a port h t) = refs t" "sockets (on_connect pid fd a port h t) = sockets t"
    and "distinct (map fst (ct_socket_table (on_connect pid fd a port h t)))"
    and "ct_fd_table (on_connect pid fd a port h t) = ct_fd_table t"
proof -
  have d: "distinct (map fst (ct_socket_table t))" using assms by (simp add: tracker_inv_def)
  show "refs (on_connect pid fd a port h t) = refs t" "ct_fd_table (on_connect pid fd a port h t) = ct_fd_table t"
    by (auto simp: on_connect_def refs_def split: option.split)
  show "sockets (on_connect pid fd a port h t) = sockets t"
    using d by (force simp: on_connect_def sockets_def set_update split: option.split dest!: map_of_SomeD)
  show "distinct (map fst (ct_socket_table (on_connect pid fd a port h t)))"
    using d by (auto simp: on_connect_def distinct_update split: option.split)
qed

text \<open>Copies of entries for one process: \<^verbatim>\<open>dup\<close> adds one, \<^verbatim>\<open>fork\<close> one per descriptor of the parent.\<close>

definition copy_fds :: "u32 \<Rightarrow> u64 \<Rightarrow> (fd_key \<times> fd_state) list \<Rightarrow> (i32 \<times> fd_state) list \<Rightarrow> (fd_key \<times> fd_state) list" where
  "copy_fds pid ts = foldl (\<lambda>fds (fd, s). AList.update (fd_key_of pid fd)
     \<lparr>fs_socket_id = fs_socket_id s, fs_created_at_ns = ts\<rparr> fds)"

lemma copy_fds_Cons:
  "copy_fds pid ts fds (x # xs) = copy_fds pid ts (AList.update (fd_key_of pid (fst x))
     \<lparr>fs_socket_id = fs_socket_id (snd x), fs_created_at_ns = ts\<rparr> fds) xs"
  by (simp add: copy_fds_def split_beta)

lemma copy_fds_distinct: "distinct (map fst fds) \<Longrightarrow> distinct (map fst (copy_fds pid ts fds xs))"
proof (induction xs arbitrary: fds)
  case (Cons x xs)
  then show ?case unfolding copy_fds_Cons by (intro Cons.IH) (simp add: distinct_update)
qed (simp add: copy_fds_def)

lemma copy_fds_origin:
  "distinct (map fst fds) \<Longrightarrow> (k, s) \<in> set (copy_fds pid ts fds xs) \<Longrightarrow>
     (k, s) \<in> set fds \<or> (\<exists>x \<in> set xs. fs_socket_id (snd x) = fs_socket_id s)"
proof (induction xs arbitrary: fds)
  case (Cons x xs)
  from Cons.IH [OF distinct_update [OF Cons.prems(1)] Cons.prems(2) [unfolded copy_fds_Cons]]
  show ?case using Cons.prems(1) by (auto simp: set_update)
qed (simp add: copy_fds_def)

lemma copy_fds_keeps:
  "distinct (map fst fds) \<Longrightarrow> (k, s) \<in> set fds \<Longrightarrow> fk_pid k \<noteq> pid \<Longrightarrow> (k, s) \<in> set (copy_fds pid ts fds xs)"
proof (induction xs arbitrary: fds)
  case (Cons x xs)
  then show ?case unfolding copy_fds_Cons by (intro Cons.IH) (auto simp: distinct_update set_update)
qed (simp add: copy_fds_def)

lemma on_fork_copies:
  "on_fork parent child ts t = t\<lparr>ct_fd_table := copy_fds child ts (ct_fd_table t)
     (map (\<lambda>(k, v). (fk_fd k, v)) (filter (\<lambda>(k, v). fk_pid k = parent) (ct_fd_table t)))\<rparr>"
  by (simp add: on_fork_def copy_fds_def)

lemma on_dup_copies:
  "on_dup pid old_fd new_fd ts t = (case map_of (ct_fd_table t) (fd_key_of pid old_fd) of
     None \<Rightarrow> t
   | Some old \<Rightarrow> t\<lparr>ct_fd_table := copy_fds pid ts (ct_fd_table t) [(new_fd, old)]\<rparr>)"
  by (simp add: on_dup_def copy_fds_def split: option.split)

lemma copy_inv:
  assumes "tracker_inv t" and "snd ` set xs \<subseteq> snd ` set (ct_fd_table t)"
  shows "tracker_inv (t\<lparr>ct_fd_table := copy_fds pid ts (ct_fd_table t) xs\<rparr>)"
proof -
  have d: "distinct (map fst (ct_fd_table t))" "refs t \<subseteq> sockets t" using assms(1) by (auto simp: tracker_inv_def)
  have "refs (t\<lparr>ct_fd_table := copy_fds pid ts (ct_fd_table t) xs\<rparr>) \<subseteq> refs t"
  proof
    fix i assume "i \<in> refs (t\<lparr>ct_fd_table := copy_fds pid ts (ct_fd_table t) xs\<rparr>)"
    then obtain k s where "(k, s) \<in> set (copy_fds pid ts (ct_fd_table t) xs)" and s: "fs_socket_id s = Some i"
      by (auto simp: refs_def)
    from copy_fds_origin [OF d(1) this(1)] show "i \<in> refs t"
    proof
      assume "\<exists>x \<in> set xs. fs_socket_id (snd x) = fs_socket_id s"
      then obtain k' v where "(k', v) \<in> set (ct_fd_table t)" "fs_socket_id v = Some i"
        using assms(2) s by (smt (verit, ccfv_threshold) image_iff subsetD prod.collapse)
      then show ?thesis by (auto simp: refs_def)
    qed (use s in \<open>auto simp: refs_def\<close>)
  qed
  then show ?thesis using assms(1) copy_fds_distinct [OF d(1)] by (auto simp: tracker_inv_def sockets_def)
qed

lemma on_close_inv: "tracker_inv t \<Longrightarrow> tracker_inv (on_close pid fd t)"
  by (simp add: on_close_def release_inv)

lemma on_exit_inv: "tracker_inv t \<Longrightarrow> tracker_inv (on_exit pid t)"
proof -
  have "tracker_inv t \<Longrightarrow> tracker_inv (foldl (\<lambda>t k. on_close (fk_pid k) (fk_fd k) t) t ks)" for ks
    by (induction ks arbitrary: t) (auto intro: on_close_inv)
  then show "tracker_inv t \<Longrightarrow> ?thesis" by (simp add: on_exit_def)
qed

lemma on_socket_inv: "tracker_inv t \<Longrightarrow> tracker_inv (snd (on_socket pid fd d ty p ts t))"
  using on_socket_tables [of t pid fd d ty p ts] release_inv [of t "fd_key_of pid fd"]
  unfolding tracker_inv_def by blast

lemma on_connect_inv: "tracker_inv t \<Longrightarrow> tracker_inv (on_connect pid fd a port h t)"
  using on_connect_tables [of t pid fd a port h] unfolding tracker_inv_def by simp

lemma on_dup_inv: "tracker_inv t \<Longrightarrow> tracker_inv (on_dup pid old_fd new_fd ts t)"
  unfolding on_dup_copies by (force intro!: copy_inv dest: map_of_SomeD split: option.split)

lemma on_fork_inv: "tracker_inv t \<Longrightarrow> tracker_inv (on_fork parent child ts t)"
  unfolding on_fork_copies by (rule copy_inv) (auto intro: rev_image_eqI)

lemmas tracker_keeps = on_socket_inv on_connect_inv on_close_inv on_dup_inv on_fork_inv on_exit_inv

interpretation tracker_events: event_driven tracker_step tracker_inv
  by unfold_locales (simp add: tracker_step_def tracker_keeps split: tracker_event.split)

section \<open>Leaks\<close>

text \<open>Copies that do not overwrite an entry: a \<^verbatim>\<open>dup\<close> to a free descriptor, a \<^verbatim>\<open>fork\<close> to a new process.\<close>

definition tidy :: "connection_tracker \<Rightarrow> tracker_event \<Rightarrow> bool" where
  "tidy t ev = (case ev of
     EvDup pid old_fd new_fd ts \<Rightarrow> list_all (\<lambda>(k, s). k \<noteq> fd_key_of pid new_fd) (ct_fd_table t)
   | EvFork parent child ts \<Rightarrow> list_all (\<lambda>(k, s). fk_pid k \<noteq> child) (ct_fd_table t)
   | _ \<Rightarrow> True)"

fun tidy_run :: "connection_tracker \<Rightarrow> tracker_event list \<Rightarrow> bool" where
  "tidy_run t [] = True"
| "tidy_run t (ev # evs) = (tidy t ev \<and> tidy_run (tracker_step t ev) evs)"

lemma exact_refs: "tracker_exact t \<Longrightarrow> refs t = sockets t"
  by (auto simp: tracker_exact_def tracker_inv_def)

lemma exact_more_refs:
  "tracker_exact t \<Longrightarrow> tracker_inv t' \<Longrightarrow> refs t \<subseteq> refs t' \<Longrightarrow> sockets t' = sockets t \<Longrightarrow> tracker_exact t'"
  by (auto simp: tracker_exact_def)

lemma on_exit_exact: "tracker_exact t \<Longrightarrow> tracker_exact (on_exit pid t)"
proof -
  have "tracker_exact t \<Longrightarrow> tracker_exact (foldl (\<lambda>t k. on_close (fk_pid k) (fk_fd k) t) t ks)" for ks
    by (induction ks arbitrary: t) (auto simp: on_close_def intro: release_exact)
  then show "tracker_exact t \<Longrightarrow> ?thesis" by (simp add: on_exit_def)
qed

lemma on_socket_exact: "tracker_exact t \<Longrightarrow> tracker_exact (snd (on_socket pid fd d ty p ts t))"
proof -
  assume ex: "tracker_exact t"
  then have inv: "tracker_inv t" by (simp add: tracker_exact_def)
  have "sockets (release_fd (fd_key_of pid fd) t) \<subseteq> refs (release_fd (fd_key_of pid fd) t)"
    using release_exact [OF ex] by (simp add: tracker_exact_def)
  then show ?thesis using on_socket_tables(1,2) [OF inv, of pid fd d ty p ts] on_socket_inv [OF inv]
    unfolding tracker_exact_def by blast
qed

lemma on_dup_exact:
  assumes "tracker_exact t" and "tidy t (EvDup pid old_fd new_fd ts)"
  shows "tracker_exact (on_dup pid old_fd new_fd ts t)"
proof (rule exact_more_refs [OF assms(1)])
  have inv: "tracker_inv t" using assms(1) by (simp add: tracker_exact_def)
  then show "tracker_inv (on_dup pid old_fd new_fd ts t)" by (rule on_dup_inv)
  have "distinct (map fst (ct_fd_table t))" using inv by (simp add: tracker_inv_def)
  then show "refs t \<subseteq> refs (on_dup pid old_fd new_fd ts t)"
    using assms(2) by (fastforce simp: on_dup_def refs_def set_update tidy_def list_all_iff split: option.split)
  show "sockets (on_dup pid old_fd new_fd ts t) = sockets t"
    by (simp add: on_dup_def sockets_def split: option.split)
qed

lemma on_fork_exact:
  assumes "tracker_exact t" and "tidy t (EvFork parent child ts)"
  shows "tracker_exact (on_fork parent child ts t)"
proof (rule exact_more_refs [OF assms(1)])
  have inv: "tracker_inv t" using assms(1) by (simp add: tracker_exact_def)
  then show "tracker_inv (on_fork parent child ts t)" by (rule on_fork_inv)
  have d: "distinct (map fst (ct_fd_table t))" using inv by (simp add: tracker_inv_def)
  show "refs t \<subseteq> refs (on_fork parent child ts t)"
  proof
    fix i assume "i \<in> refs t"
    then obtain k s where ks: "(k, s) \<in> set (ct_fd_table t)" "fs_socket_id s = Some i" by (auto simp: refs_def)
    then have "fk_pid k \<noteq> child" using assms(2) by (auto simp: tidy_def list_all_iff)
    with ks show "i \<in> refs (on_fork parent child ts t)"
      using copy_fds_keeps [OF d ks(1)] unfolding on_fork_copies refs_def by fastforce
  qed
  show "sockets (on_fork parent child ts t) = sockets t" by (simp add: on_fork_def sockets_def Let_def)
qed

lemma step_exact: "tracker_exact t \<Longrightarrow> tidy t ev \<Longrightarrow> tracker_exact (tracker_step t ev)"
proof (cases ev)
  case (EvConnect pid fd a port h)
  assume ex: "tracker_exact t"
  then have inv: "tracker_inv t" by (simp add: tracker_exact_def)
  show ?thesis
    using exact_more_refs [OF ex on_connect_inv [OF inv]] on_connect_tables(1,2) [OF inv]
    by (simp add: tracker_step_def EvConnect)
qed (simp_all add: tracker_step_def on_socket_exact on_dup_exact on_fork_exact on_exit_exact on_close_def release_exact)

lemma run_exact: "tracker_exact t \<Longrightarrow> tidy_run t evs \<Longrightarrow> tracker_exact (foldl tracker_step t evs)"
  by (induction evs arbitrary: t) (auto intro: step_exact)

lemma new_exact: "tracker_exact tracker_new"
  by (simp add: tracker_exact_def tracker_inv_def tracker_new_def refs_def sockets_def)

text \<open>
  Overwriting an entry does leak: after duplicating one open descriptor over another and closing both,
  no descriptor is left but one socket is.
\<close>

lemma dup_over_open_fd_leaks:
  "let t = foldl tracker_step tracker_new
       [EvSocket 1 3 2 1 0 10, EvSocket 1 4 2 1 0 11, EvDup 1 3 4 12, EvClose 1 3, EvClose 1 4]
   in fd_count t = 0 \<and> socket_count t = 1"
  by code_simp

section \<open>Properties\<close>

text \<open>
  C29: descriptors never dangle. After any sequence of traced system calls, looking up a descriptor
  finds a socket exactly when the descriptor is tracked with one: the socket a tracked descriptor
  refers to has not been dropped.
\<close>

theorem tracker_no_dangling:
  "get_socket pid fd (foldl tracker_step tracker_new evs) = None \<longleftrightarrow>
     Option.bind (map_of (ct_fd_table (foldl tracker_step tracker_new evs)) (fd_key_of pid fd)) fs_socket_id = None"
proof -
  define t where "t = foldl tracker_step tracker_new evs"
  have "tracker_inv tracker_new" using new_exact by (simp add: tracker_exact_def)
  then have "tracker_inv t" unfolding t_def by (rule tracker_events.run_inv)
  then have "map_of (ct_socket_table t) i \<noteq> None"
    if "map_of (ct_fd_table t) (fd_key_of pid fd) = Some s" "fs_socket_id s = Some i" for s i
    using that by (force simp: tracker_inv_def refs_def sockets_def map_of_eq_None_iff dest: map_of_SomeD)
  then show ?thesis unfolding t_def [symmetric]
    by (cases "map_of (ct_fd_table t) (fd_key_of pid fd)"; cases "fs_socket_id (the (map_of (ct_fd_table t) (fd_key_of pid fd)))")
       (auto simp: get_socket_def)
qed

text \<open>
  No leak without overwriting. When no \<^verbatim>\<open>dup\<close> lands on an open descriptor and no \<^verbatim>\<open>fork\<close> on a known
  process, the socket table holds exactly the sockets that some descriptor refers to, and is empty
  once every descriptor is closed.
\<close>

theorem tracker_no_leak:
  assumes "tidy_run tracker_new evs"
  shows "sockets (foldl tracker_step tracker_new evs) = refs (foldl tracker_step tracker_new evs)
    \<and> (fd_count (foldl tracker_step tracker_new evs) = 0 \<longrightarrow> socket_count (foldl tracker_step tracker_new evs) = 0)"
  using exact_refs [OF run_exact [OF new_exact assms]]
  by (auto simp: fd_count_def socket_count_def refs_def sockets_def)

theorem tracker_no_leak_witness:
  "socket_count (foldl tracker_step tracker_new
     [EvSocket 1 3 2 1 0 10, EvFork 1 2 11, EvDup 2 3 4 12, EvClose 1 3, EvExit 2]) = 0"
proof -
  have "tidy_run tracker_new [EvSocket 1 3 2 1 0 10, EvFork 1 2 11, EvDup 2 3 4 12, EvClose 1 3, EvExit 2]"
    by code_simp
  moreover have "fd_count (foldl tracker_step tracker_new
      [EvSocket 1 3 2 1 0 10, EvFork 1 2 11, EvDup 2 3 4 12, EvClose 1 3, EvExit 2]) = 0"
    by code_simp
  ultimately show ?thesis using tracker_no_leak by blast
qed

end
