(* ===== verification/Buffers.thy ===== *)
theory Buffers
  imports Prelude "HOL-Library.AList"
begin

text \<open>
  The bounded stores: the log ring buffer of \<^verbatim>\<open>loom-server-logs\<close> (\<^verbatim>\<open>buffer.rs\<close>, \<^verbatim>\<open>entry.rs\<close>), and the
  event buffer file and DNS cache of \<^verbatim>\<open>loom-weaver-audit-sidecar\<close> (\<^verbatim>\<open>buffer.rs\<close>, \<^verbatim>\<open>dns_cache.rs\<close>).

  \<^verbatim>\<open>LogBuffer::push\<close> takes an identifier under one lock and stores the entry under another: the two
  halves are definitions of their own, \<open>push\<close> is their composition, what a push does when no other
  overlaps it. The broadcast to subscribers is not modelled. The event buffer's file is the list of its lines, its
  reads and writes succeed, and a serialized event is a line. The DNS cache's hash map is
  an association list whose order is the map's iteration order.
\<close>

section \<open>Log entries\<close>

datatype log_level = Trace | Debug | Info | Warn | Error

fun show_log_level :: "log_level \<Rightarrow> string" where
  "show_log_level Trace = ''trace''"
| "show_log_level Debug = ''debug''"
| "show_log_level Info = ''info''"
| "show_log_level Warn = ''warn''"
| "show_log_level Error = ''error''"

text \<open>The derived \<^verbatim>\<open>Ord\<close>: the order of the declaration.\<close>

fun level_rank :: "log_level \<Rightarrow> nat" where
  "level_rank Trace = 0"
| "level_rank Debug = 1"
| "level_rank Info = 2"
| "level_rank Warn = 3"
| "level_rank Error = 4"

lemma level_rank_inj: "level_rank a = level_rank b \<Longrightarrow> a = b"
  by (cases a; cases b) simp_all

instantiation log_level :: linorder
begin

definition less_eq_log_level :: "log_level \<Rightarrow> log_level \<Rightarrow> bool" where
  "less_eq_log_level a b \<longleftrightarrow> level_rank a \<le> level_rank b"

definition less_log_level :: "log_level \<Rightarrow> log_level \<Rightarrow> bool" where
  "less_log_level a b \<longleftrightarrow> level_rank a < level_rank b"

instance
  by standard (auto simp: less_eq_log_level_def less_log_level_def level_rank_inj)

end

record log_entry =
  le_id :: u64
  le_timestamp :: datetime
  le_level :: log_level
  le_target :: string
  le_message :: string
  le_fields :: "(string \<times> string) list"

definition log_entry_new ::
  "datetime \<Rightarrow> u64 \<Rightarrow> log_level \<Rightarrow> string \<Rightarrow> string \<Rightarrow> (string \<times> string) list \<Rightarrow> log_entry" where
  "log_entry_new now i level target msg fs = \<lparr>le_id = i, le_timestamp = now, le_level = level,
     le_target = target, le_message = msg, le_fields = fs\<rparr>"

section \<open>The log ring buffer\<close>

record log_buffer =
  lb_entries :: "log_entry list"
  lb_capacity :: nat
  lb_next_id :: u64

definition DEFAULT_CAPACITY :: nat where
  "DEFAULT_CAPACITY = 10000"

definition log_buffer_new :: "nat \<Rightarrow> log_buffer" where
  "log_buffer_new cap = \<lparr>lb_entries = [], lb_capacity = cap, lb_next_id = 1\<rparr>"

definition take_id :: "log_buffer \<Rightarrow> u64 \<times> log_buffer" where
  "take_id b = (lb_next_id b, b\<lparr>lb_next_id := lb_next_id b + 1\<rparr>)"

definition store_entry :: "log_entry \<Rightarrow> log_buffer \<Rightarrow> log_buffer" where
  "store_entry e b =
     (let es = (if length (lb_entries b) \<ge> lb_capacity b then drop 1 (lb_entries b) else lb_entries b)
      in b\<lparr>lb_entries := es @ [e]\<rparr>)"

record push_args =
  pa_now :: datetime
  pa_level :: log_level
  pa_target :: string
  pa_message :: string
  pa_fields :: "(string \<times> string) list"

definition entry_of :: "u64 \<Rightarrow> push_args \<Rightarrow> log_entry" where
  "entry_of i a = log_entry_new (pa_now a) i (pa_level a) (pa_target a) (pa_message a) (pa_fields a)"

definition push :: "log_buffer \<Rightarrow> push_args \<Rightarrow> log_buffer" where
  "push b a = (let (i, b') = take_id b in store_entry (entry_of i a) b')"

definition entry_matches ::
  "log_level option \<Rightarrow> string option \<Rightarrow> u64 option \<Rightarrow> log_entry \<Rightarrow> bool" where
  "entry_matches min_level target_prefix after e =
     (if (case min_level of Some m \<Rightarrow> le_level e < m | None \<Rightarrow> False) then False
      else if (case target_prefix of Some p \<Rightarrow> \<not> starts_with (le_target e) p | None \<Rightarrow> False) then False
      else if (case after of Some a \<Rightarrow> le_id e \<le> a | None \<Rightarrow> False) then False
      else True)"

definition get_entries ::
  "nat \<Rightarrow> log_level option \<Rightarrow> string option \<Rightarrow> u64 option \<Rightarrow> log_buffer \<Rightarrow> log_entry list" where
  "get_entries limit min_level target_prefix after b =
     rev (take limit (filter (entry_matches min_level target_prefix after) (rev (lb_entries b))))"

definition log_clear :: "log_buffer \<Rightarrow> log_buffer" where
  "log_clear b = b\<lparr>lb_entries := []\<rparr>"

section \<open>The event buffer\<close>

record event_buffer =
  eb_lines :: "string list option"
  eb_max_bytes :: nat
  eb_current_bytes :: nat

definition file_bytes :: "string list \<Rightarrow> nat" where
  "file_bytes ls = sum_list (map (\<lambda>l. length l + 1) ls)"

definition event_buffer_new :: "string list option \<Rightarrow> nat \<Rightarrow> event_buffer" where
  "event_buffer_new file max_bytes = \<lparr>eb_lines = file, eb_max_bytes = max_bytes,
     eb_current_bytes = (case file of Some ls \<Rightarrow> file_bytes ls | None \<Rightarrow> 0)\<rparr>"

text \<open>The loop of \<^verbatim>\<open>truncate_oldest\<close>: the lines left and the bytes freed.\<close>

fun drop_oldest :: "nat \<Rightarrow> nat \<Rightarrow> string list \<Rightarrow> string list \<times> nat" where
  "drop_oldest freed needed [] = ([], freed)"
| "drop_oldest freed needed (l # ls) =
     (if freed < needed then drop_oldest (freed + (length l + 1)) needed ls else (l # ls, freed))"

definition truncate_oldest :: "nat \<Rightarrow> event_buffer \<Rightarrow> event_buffer" where
  "truncate_oldest needed b = (case eb_lines b of
     None \<Rightarrow> b
   | Some ls \<Rightarrow> (let (ls', freed) = drop_oldest 0 needed ls
       in b\<lparr>eb_lines := Some ls', eb_current_bytes := saturating_sub (eb_current_bytes b) freed\<rparr>))"

definition event_append :: "string \<Rightarrow> event_buffer \<Rightarrow> event_buffer" where
  "event_append line b0 =
     (let line_bytes = length line + 1;
          b = (if eb_current_bytes b0 + line_bytes > eb_max_bytes b0 then truncate_oldest line_bytes b0 else b0)
      in b\<lparr>eb_lines := Some ((case eb_lines b of Some ls \<Rightarrow> ls | None \<Rightarrow> []) @ [line]),
           eb_current_bytes := eb_current_bytes b + line_bytes\<rparr>)"

definition event_clear :: "event_buffer \<Rightarrow> event_buffer" where
  "event_clear b = b\<lparr>eb_lines := None, eb_current_bytes := 0\<rparr>"

section \<open>The DNS cache\<close>

record dns_entry =
  de_hostname :: string
  de_expires_at :: instant
  de_last_used :: instant

record 'ip dns_cache =
  dn_entries :: "('ip \<times> dns_entry) list"
  dn_max_entries :: nat

abbreviation nanos :: "nat \<Rightarrow> nat" where
  "nanos secs \<equiv> secs * 1000000000"

definition MIN_TTL :: nat where "MIN_TTL = nanos 5"

definition MAX_TTL :: nat where "MAX_TTL = nanos 600"

definition MAX_ENTRIES :: nat where "MAX_ENTRIES = 10000"

definition dns_cache_new :: "'ip dns_cache" where
  "dns_cache_new = \<lparr>dn_entries = [], dn_max_entries = MAX_ENTRIES\<rparr>"

definition with_max_entries :: "nat \<Rightarrow> 'ip dns_cache" where
  "with_max_entries n = \<lparr>dn_entries = [], dn_max_entries = n\<rparr>"

text \<open>The first entry with the least \<^verbatim>\<open>last_used\<close>.\<close>

fun least_used :: "('ip \<times> dns_entry) list \<Rightarrow> ('ip \<times> dns_entry) option" where
  "least_used [] = None"
| "least_used (p # ps) = (case least_used ps of
     None \<Rightarrow> Some p
   | Some q \<Rightarrow> (if de_last_used (snd p) \<le> de_last_used (snd q) then Some p else Some q))"

definition evict_lru :: "'ip dns_cache \<Rightarrow> 'ip dns_cache" where
  "evict_lru c = (case least_used (dn_entries c) of
     Some (oldest, _) \<Rightarrow> c\<lparr>dn_entries := AList.delete oldest (dn_entries c)\<rparr>
   | None \<Rightarrow> c)"

definition dns_insert :: "instant \<Rightarrow> 'ip \<Rightarrow> string \<Rightarrow> u32 \<Rightarrow> 'ip dns_cache \<Rightarrow> 'ip dns_cache" where
  "dns_insert now ip hostname ttl_secs c0 =
     (let ttl = max MIN_TTL (min MAX_TTL (nanos (unat ttl_secs)));
          c = (if length (dn_entries c0) \<ge> dn_max_entries c0 then evict_lru c0 else c0)
      in c\<lparr>dn_entries := AList.update ip
           \<lparr>de_hostname = hostname, de_expires_at = now + ttl, de_last_used = now\<rparr> (dn_entries c)\<rparr>)"

definition dns_lookup :: "instant \<Rightarrow> 'ip \<Rightarrow> 'ip dns_cache \<Rightarrow> string option \<times> 'ip dns_cache" where
  "dns_lookup now ip c = (case map_of (dn_entries c) ip of
     Some e \<Rightarrow>
       if de_expires_at e > now
       then (Some (de_hostname e), c\<lparr>dn_entries := AList.update ip (e\<lparr>de_last_used := now\<rparr>) (dn_entries c)\<rparr>)
       else (None, c\<lparr>dn_entries := AList.delete ip (dn_entries c)\<rparr>)
   | None \<Rightarrow> (None, c))"

definition cleanup_expired :: "instant \<Rightarrow> 'ip dns_cache \<Rightarrow> 'ip dns_cache" where
  "cleanup_expired now c = c\<lparr>dn_entries := filter (\<lambda>(ip, e). de_expires_at e > now) (dn_entries c)\<rparr>"

section \<open>The ring buffer as a window on the history\<close>

text \<open>The whole history of pushes, the \<open>k\<close>-th with identifier \<open>k + 1\<close>.\<close>

definition history :: "push_args list \<Rightarrow> log_entry list" where
  "history as = map (\<lambda>k. entry_of (of_nat (Suc k)) (as ! k)) [0..<length as]"

definition newest :: "nat \<Rightarrow> 'a list \<Rightarrow> 'a list" where
  "newest n xs = drop (length xs - n) xs"

lemma history_snoc: "history (as @ [a]) = history as @ [entry_of (of_nat (Suc (length as))) a]"
  by (simp add: history_def nth_append)

lemma length_history [simp]: "length (history as) = length as"
  by (simp add: history_def)

lemma newest_snoc:
  "newest n (xs @ [x]) = (if n = 0 then [] else (if length (newest n xs) \<ge> n then drop 1 (newest n xs) else newest n xs) @ [x])"
proof -
  have "drop (length xs + 1 - n) xs = drop 1 (drop (length xs - n) xs)" if "0 < n" "n \<le> length xs"
    using that by (simp add: Suc_diff_le)
  moreover have "length xs + 1 - n = 0 \<or> length xs + 1 - n = 1" if "\<not> n \<le> length xs" using that by linarith
  ultimately show ?thesis by (auto simp: newest_def)
qed

lemma length_newest: "length (newest n xs) = min n (length xs)"
  by (auto simp: newest_def)

lemma newest_push:
  "store_entry e b = b\<lparr>lb_entries := newest (max 1 (lb_capacity b)) (lb_entries b @ [e])\<rparr>"
  if "length (lb_entries b) \<le> max 1 (lb_capacity b)"
  using that
  by (cases "lb_capacity b") (auto simp: store_entry_def newest_def Let_def Suc_diff_le le_Suc_eq)

lemma newest_newest: "0 < n \<Longrightarrow> newest n (newest n xs @ [x]) = newest n (xs @ [x])"
  by (cases "n \<le> length xs") (auto simp: newest_def Suc_diff_le)

lemma push_eq: "push b a = store_entry (entry_of (lb_next_id b) a) (b\<lparr>lb_next_id := lb_next_id b + 1\<rparr>)"
  by (simp add: push_def take_id_def)

lemma pushes:
  "foldl push (log_buffer_new c) as = \<lparr>lb_entries = newest (max 1 c) (history as), lb_capacity = c,
     lb_next_id = of_nat (Suc (length as))\<rparr>"
proof (induction "as" rule: rev_induct)
  case (snoc a "as")
  then show ?case
    by (simp add: push_eq newest_push length_newest newest_newest history_snoc add.commute)
qed (simp add: log_buffer_new_def history_def newest_def)

lemma of_nat_u64_less: "k < 2 ^ 64 \<Longrightarrow> n < 2 ^ 64 \<Longrightarrow> (of_nat k :: u64) < of_nat n \<longleftrightarrow> k < n"
  by (simp add: word_less_nat_alt unsigned_of_nat take_bit_nat_eq_self)

lemma filter_history:
  assumes "length as + 1 < 2 ^ 64" and "k \<le> length as"
  shows "filter (entry_matches None None (Some (of_nat k))) (drop j (history as)) = drop (max j k) (history as)"
proof -
  let ?f = "\<lambda>i. entry_of (of_nat (Suc i)) (as ! i)"
  have "filter (entry_matches None None (Some (of_nat k)) \<circ> ?f) [j..<length as] = filter (\<lambda>i. k \<le> i) [j..<length as]"
  proof (rule filter_cong [OF refl])
    fix i assume "i \<in> set [j..<length as]"
    then have "(of_nat k :: u64) < of_nat (Suc i) \<longleftrightarrow> k < Suc i"
      using assms by (intro of_nat_u64_less) simp_all
    then show "(entry_matches None None (Some (of_nat k)) \<circ> ?f) i = (k \<le> i)"
      by (simp add: entry_matches_def entry_of_def log_entry_new_def less_Suc_eq_le del: of_nat_Suc flip: not_less)
  qed
  also have "filter (\<lambda>i. k \<le> i) [j..<n] = [max j k..<n]" for n
    by (induction n) (auto simp: max_def)
  finally show ?thesis by (simp add: history_def drop_map filter_map)
qed

lemma get_entries_all:
  "length (lb_entries b) \<le> limit \<Longrightarrow> get_entries limit l p after b = filter (entry_matches l p after) (lb_entries b)"
proof -
  assume "length (lb_entries b) \<le> limit"
  then have "length (filter (entry_matches l p after) (lb_entries b)) \<le> limit"
    using length_filter_le le_trans by blast
  then show ?thesis by (simp add: get_entries_def rev_filter [symmetric])
qed

section \<open>The event buffer stays within its size\<close>

definition event_buffer_inv :: "event_buffer \<Rightarrow> bool" where
  "event_buffer_inv b = (case eb_lines b of
     None \<Rightarrow> eb_current_bytes b = 0
   | Some ls \<Rightarrow> eb_current_bytes b = file_bytes ls \<and> (eb_current_bytes b \<le> eb_max_bytes b \<or> length ls \<le> 1))"

lemma drop_oldest_props:
  assumes "drop_oldest freed needed ls = (ls', freed')"
  shows "file_bytes ls + freed = file_bytes ls' + freed'" and "ls' = [] \<or> needed \<le> freed'"
    and "freed < needed \<Longrightarrow> ls' = [] \<or> length ls' < length ls"
  using assms
proof (induction freed needed ls rule: drop_oldest.induct)
  case (2 freed needed l ls)
  { case 1 then show ?case using 2(1) by (auto simp: file_bytes_def split: if_splits) }
  { case 2 then show ?case using "2.IH"(2) by (auto split: if_splits) }
  { case 3 then show ?case using "2.IH"(3) by (cases "freed + (length l + 1) < needed") (auto elim: drop_oldest.elims split: if_splits) }
qed (simp_all add: file_bytes_def)

lemma append_inv:
  assumes "event_buffer_inv b"
  shows "event_buffer_inv (event_append line b)"
proof (cases "eb_current_bytes b + (length line + 1) \<le> eb_max_bytes b \<or> eb_lines b = None")
  case True
  then show ?thesis using assms
    by (auto simp: event_buffer_inv_def event_append_def truncate_oldest_def file_bytes_def Let_def split: option.splits)
next
  case False
  then obtain ls where ls: "eb_lines b = Some ls" by auto
  obtain ls' freed where d: "drop_oldest 0 (length line + 1) ls = (ls', freed)" by force
  note props = drop_oldest_props [OF d]
  have cur: "eb_current_bytes b = file_bytes ls" "eb_current_bytes b \<le> eb_max_bytes b \<or> length ls \<le> 1"
    using assms ls by (auto simp: event_buffer_inv_def)
  have "eb_current_bytes b - freed = file_bytes ls'" using props(1) cur by simp
  moreover have "file_bytes ls' + (length line + 1) \<le> eb_max_bytes b \<or> ls' = []"
  proof (cases "ls' = []")
    case ne: False
    then have "length line + 1 \<le> freed" "length ls' < length ls" using props(2,3) by auto
    moreover have "0 < length ls'" using ne by simp
    ultimately show ?thesis using cur props(1) by linarith
  qed simp
  ultimately show ?thesis using False ls d
    by (auto simp: event_buffer_inv_def event_append_def truncate_oldest_def file_bytes_def Let_def)
qed

lemma clear_inv: "event_buffer_inv (event_clear b)"
  by (simp add: event_buffer_inv_def event_clear_def)

datatype event_buffer_call = EbAppend string | EbClear

definition event_buffer_step :: "event_buffer \<Rightarrow> event_buffer_call \<Rightarrow> event_buffer" where
  "event_buffer_step b call = (case call of EbAppend line \<Rightarrow> event_append line b | EbClear \<Rightarrow> event_clear b)"

interpretation event_calls: event_driven event_buffer_step event_buffer_inv
  by unfold_locales (simp add: event_buffer_step_def append_inv clear_inv split: event_buffer_call.split)

lemma step_max_bytes: "eb_max_bytes (foldl event_buffer_step b calls) = eb_max_bytes b"
proof (induction calls arbitrary: b)
  case (Cons call calls)
  have "eb_max_bytes (event_buffer_step b call) = eb_max_bytes b"
    by (auto simp: event_buffer_step_def event_append_def event_clear_def truncate_oldest_def Let_def split_beta
        split: event_buffer_call.split option.split)
  with Cons show ?case by simp
qed simp

section \<open>The DNS cache stays within its size\<close>

datatype 'ip dns_call = DnsInsert instant 'ip string u32 | DnsLookup instant 'ip | DnsCleanup instant

definition dns_step :: "'ip dns_cache \<Rightarrow> 'ip dns_call \<Rightarrow> 'ip dns_cache" where
  "dns_step c call = (case call of
     DnsInsert now ip h ttl \<Rightarrow> dns_insert now ip h ttl c
   | DnsLookup now ip \<Rightarrow> snd (dns_lookup now ip c)
   | DnsCleanup now \<Rightarrow> cleanup_expired now c)"

definition dns_inv :: "'ip dns_cache \<Rightarrow> bool" where
  "dns_inv c \<longleftrightarrow> length (dn_entries c) \<le> max 1 (dn_max_entries c)"

lemma least_used_None: "least_used ps = None \<longleftrightarrow> ps = []"
  by (cases ps) (auto split: option.split)

lemma least_used_set: "least_used ps = Some p \<Longrightarrow> p \<in> set ps"
  by (induction ps arbitrary: p) (auto split: option.splits if_splits)

lemma least_used_least: "least_used ps = Some p \<Longrightarrow> q \<in> set ps \<Longrightarrow> de_last_used (snd p) \<le> de_last_used (snd q)"
proof (induction ps arbitrary: p)
  case (Cons r ps)
  then show ?case by (cases ps) (auto split: option.splits if_splits)
qed simp

lemma length_delete_less: "k \<in> fst ` set al \<Longrightarrow> length (AList.delete k al) < length al"
  by (auto simp: AList.delete_eq intro: length_filter_less)

lemma length_update_le: "length (AList.update k v al) \<le> Suc (length al)"
  by (induction al) auto

lemma length_update_present: "k \<in> fst ` set al \<Longrightarrow> length (AList.update k v al) = length al"
  by (induction al) auto

lemma evict_shrinks: "dn_entries c \<noteq> [] \<Longrightarrow> length (dn_entries (evict_lru c)) < length (dn_entries c)"
proof -
  assume "dn_entries c \<noteq> []"
  then obtain ip e where "least_used (dn_entries c) = Some (ip, e)"
    by (cases "least_used (dn_entries c)") (auto simp: least_used_None)
  then show ?thesis using least_used_set [of "dn_entries c"]
    by (auto simp: evict_lru_def intro!: length_delete_less intro: rev_image_eqI)
qed

lemma insert_inv:
  assumes "dns_inv c"
  shows "dns_inv (dns_insert now ip h ttl c)"
proof -
  define c' where "c' = (if length (dn_entries c) \<ge> dn_max_entries c then evict_lru c else c)"
  obtain v where v: "dns_insert now ip h ttl c = c'\<lparr>dn_entries := AList.update ip v (dn_entries c')\<rparr>"
    by (simp add: dns_insert_def Let_def c'_def)
  have "length (dn_entries c') < max 1 (dn_max_entries c)"
    using evict_shrinks [of c] assms
    by (cases "dn_entries c = []") (auto simp: dns_inv_def evict_lru_def c'_def)
  moreover have "dn_max_entries c' = dn_max_entries c" by (auto simp: c'_def evict_lru_def split: option.split)
  ultimately show ?thesis using length_update_le [of ip v "dn_entries c'"] by (simp add: dns_inv_def v)
qed

lemma lookup_inv: "dns_inv c \<Longrightarrow> dns_inv (snd (dns_lookup now ip c))"
proof -
  have "length (AList.delete ip (dn_entries c)) \<le> length (dn_entries c)" by (simp add: AList.delete_eq)
  moreover have "map_of (dn_entries c) ip = Some e \<Longrightarrow> ip \<in> fst ` set (dn_entries c)" for e
    by (force dest: map_of_SomeD)
  ultimately show "dns_inv c \<Longrightarrow> ?thesis"
    by (auto simp: dns_lookup_def dns_inv_def length_update_present split: option.split)
qed

lemma cleanup_inv: "dns_inv c \<Longrightarrow> dns_inv (cleanup_expired now c)"
  by (auto simp: dns_inv_def cleanup_expired_def intro: le_trans [OF length_filter_le])

interpretation dns_calls: event_driven dns_step dns_inv
  by unfold_locales (simp add: dns_step_def insert_inv lookup_inv cleanup_inv split: dns_call.split)

lemma word_succ_le: "(x :: u64) + 1 \<noteq> 0 \<Longrightarrow> x \<le> x + 1"
  by unat_arith

section \<open>Properties\<close>

text \<open>
  C32: the ring buffer is a window on the log. After any number of pushes one after the other, it holds
  exactly the newest entries of the whole history, as many as its capacity (one when the capacity is
  zero), in order and numbered consecutively; the counter is one past the last number.
\<close>

theorem log_buffer_window:
  "lb_entries (foldl push (log_buffer_new c) as) = newest (max 1 c) (history as)
    \<and> lb_next_id (foldl push (log_buffer_new c) as) = of_nat (Suc (length as))"
  by (simp add: pushes)

text \<open>
  Polling misses nothing. A reader who has seen the first \<open>k\<close> entries and asks for the entries after
  number \<open>k\<close> gets exactly the entries pushed since, except those evicted in the meantime, as long as
  fewer than \<open>2^64 - 1\<close> entries were pushed.
\<close>

theorem log_poll_complete:
  assumes "length as + 1 < 2 ^ 64" and "k \<le> length as"
  shows "get_entries (max 1 c) None None (Some (of_nat k)) (foldl push (log_buffer_new c) as)
    = newest (min (max 1 c) (length as - k)) (history as)"
proof -
  have "get_entries (max 1 c) None None (Some (of_nat k)) (foldl push (log_buffer_new c) as)
      = filter (entry_matches None None (Some (of_nat k))) (newest (max 1 c) (history as))"
    by (subst get_entries_all) (simp_all add: pushes length_newest)
  also have "\<dots> = drop (max (length as - max 1 c) k) (history as)"
    using filter_history [OF assms] by (simp add: newest_def)
  also have "max (length as - max 1 c) k = length as - min (max 1 c) (length as - k)" using assms(2) by linarith
  finally show ?thesis by (simp add: newest_def)
qed

definition sample_args :: push_args where
  "sample_args = \<lparr>pa_now = 0, pa_level = Info, pa_target = ''t'', pa_message = ''m'', pa_fields = []\<rparr>"

theorem log_poll_complete_witness:
  "get_entries (max 1 2) None None (Some (of_nat 1)) (foldl push (log_buffer_new 2) (replicate 3 sample_args))
    = newest (min (max 1 2) (length (replicate 3 sample_args) - 1)) (history (replicate 3 sample_args))"
  by (rule log_poll_complete) simp_all

text \<open>
  Polling can miss an entry when two pushes overlap. If one push takes number \<open>i\<close> and, before it stores
  its entry, another takes the next number and stores, a reader who then polls sees number \<open>i + 1\<close>, and
  a later poll after \<open>i + 1\<close> does not return the first entry although it has been stored by then.
\<close>

theorem log_push_race:
  assumes "lb_next_id b + 1 \<noteq> 0" and "0 < limit"
  shows "let (i, b1) = take_id b; (j, b2) = take_id b1; b3 = store_entry (entry_of j y) b2;
           b4 = store_entry (entry_of i x) b3
    in entry_of j y \<in> set (get_entries limit None None None b3)
     \<and> entry_of i x \<in> set (lb_entries b4)
     \<and> entry_of i x \<notin> set (get_entries n None None (Some j) b4)"
proof -
  have le: "lb_next_id b \<le> lb_next_id b + 1" using assms(1) by (rule word_succ_le)
  show ?thesis using assms(2) le
    by (cases limit) (auto simp: take_id_def store_entry_def get_entries_def entry_matches_def entry_of_def
        log_entry_new_def Let_def dest: in_set_takeD)
qed

theorem log_push_race_witness:
  "entry_of 1 sample_args \<notin> set (get_entries 10 None None (Some 2)
     (store_entry (entry_of 1 sample_args) (store_entry (entry_of 2 sample_args)
       (snd (take_id (snd (take_id (log_buffer_new 5))))))))"
  using log_push_race [of "log_buffer_new 5" 10 sample_args sample_args 10]
  by (simp add: take_id_def log_buffer_new_def Let_def)

text \<open>
  The event buffer keeps its size and the newest event. After any sequence of appends and clears of
  an initially empty buffer, the byte count it keeps is the size of the file, and the file is within the
  configured maximum unless it consists of a single line; the line appended last is the last one of
  the file.
\<close>

theorem event_buffer_bounded:
  "let b = foldl event_buffer_step (event_buffer_new None m) calls
    in (case eb_lines b of None \<Rightarrow> eb_current_bytes b = 0
      | Some ls \<Rightarrow> eb_current_bytes b = file_bytes ls \<and> (file_bytes ls \<le> m \<or> length ls \<le> 1))
    \<and> map_option last (eb_lines (event_append line b)) = Some line"
proof -
  define b where "b = foldl event_buffer_step (event_buffer_new None m) calls"
  have "event_buffer_inv (event_buffer_new None m)" by (simp add: event_buffer_inv_def event_buffer_new_def)
  then have "event_buffer_inv b" unfolding b_def by (rule event_calls.run_inv)
  moreover have "eb_max_bytes b = m" by (simp add: b_def step_max_bytes event_buffer_new_def)
  ultimately show ?thesis unfolding b_def [symmetric] Let_def
    by (auto simp: event_buffer_inv_def event_append_def Let_def split: option.splits)
qed

end
