(* ===== verification/Git.thy ===== *)
theory Git
  imports Abac
begin

text \<open>
  Pushing to a hosted repository: the roles and rules of \<^verbatim>\<open>loom-server-scm\<close> (\<^verbatim>\<open>types.rs\<close>,
  \<^verbatim>\<open>repo.rs\<close>, \<^verbatim>\<open>protection.rs\<close>), the access checks of \<^verbatim>\<open>loom-server/src/routes/git/access.rs\<close>, the
  packet lines of \<^verbatim>\<open>common.rs\<close>, and \<^verbatim>\<open>receive_pack\<close> of \<^verbatim>\<open>handlers.rs\<close>, which lets a push through to
  \<^verbatim>\<open>git\<close> only after the access check and the branch protection rules.

  A request body is a byte sequence, that is a \<^typ>\<open>string\<close>. A slice with its start behind its end
  panics: the value \<open>Inl SliceOrder\<close>. What the handler asks of the database, the object store, the
  file system and the \<^verbatim>\<open>git\<close> process are fields of the environment record, one per question asked;
  \<open>tr\<close> is the translation table of the error messages.
\<close>

section \<open>Roles, repositories, rules\<close>

datatype owner_type = OwnerUser | OwnerOrg

fun owner_type_as_str :: "owner_type \<Rightarrow> string" where
  "owner_type_as_str OwnerUser = ''user''"
| "owner_type_as_str OwnerOrg = ''org''"

definition owner_type_from_str :: "string \<Rightarrow> owner_type option" where
  "owner_type_from_str s =
     (if s = ''user'' then Some OwnerUser else if s = ''org'' then Some OwnerOrg else None)"

datatype repo_visibility = RepoPrivate | RepoPublic

fun repo_visibility_as_str :: "repo_visibility \<Rightarrow> string" where
  "repo_visibility_as_str RepoPrivate = ''private''"
| "repo_visibility_as_str RepoPublic = ''public''"

definition repo_visibility_from_str :: "string \<Rightarrow> repo_visibility option" where
  "repo_visibility_from_str s =
     (if s = ''private'' then Some RepoPrivate else if s = ''public'' then Some RepoPublic else None)"

datatype repo_role = RoleRead | RoleWrite | RoleAdmin

fun repo_role_as_str :: "repo_role \<Rightarrow> string" where
  "repo_role_as_str RoleRead = ''read''"
| "repo_role_as_str RoleWrite = ''write''"
| "repo_role_as_str RoleAdmin = ''admin''"

definition repo_role_from_str :: "string \<Rightarrow> repo_role option" where
  "repo_role_from_str s =
     (if s = ''read'' then Some RoleRead
      else if s = ''write'' then Some RoleWrite
      else if s = ''admin'' then Some RoleAdmin
      else None)"

fun repo_has_permission_of :: "repo_role \<Rightarrow> repo_role \<Rightarrow> bool" where
  "repo_has_permission_of RoleAdmin _ = True"
| "repo_has_permission_of RoleWrite r = (r = RoleRead \<or> r = RoleWrite)"
| "repo_has_permission_of RoleRead r = (r = RoleRead)"

instantiation repo_role :: linorder
begin

definition less_eq_repo_role :: "repo_role \<Rightarrow> repo_role \<Rightarrow> bool" where
  "less_eq_repo_role a b = repo_has_permission_of b a"

definition less_repo_role :: "repo_role \<Rightarrow> repo_role \<Rightarrow> bool" where
  "less_repo_role a b = (repo_has_permission_of b a \<and> \<not> repo_has_permission_of a b)"

instance
proof
  fix x y z :: repo_role
  show "x < y \<longleftrightarrow> x \<le> y \<and> \<not> y \<le> x" by (simp add: less_eq_repo_role_def less_repo_role_def)
  show "x \<le> x" by (cases x) (simp_all add: less_eq_repo_role_def)
  show "x \<le> y \<Longrightarrow> y \<le> z \<Longrightarrow> x \<le> z" by (cases x; cases y; cases z) (simp_all add: less_eq_repo_role_def)
  show "x \<le> y \<Longrightarrow> y \<le> x \<Longrightarrow> x = y" by (cases x; cases y) (simp_all add: less_eq_repo_role_def)
  show "x \<le> y \<or> y \<le> x" by (cases x; cases y) (simp_all add: less_eq_repo_role_def)
qed

end

record repository =
  rp_id :: uuid
  rp_owner_type :: owner_type
  rp_owner_id :: uuid
  rp_name :: string
  rp_visibility :: repo_visibility
  rp_default_branch :: string
  rp_deleted_at :: "datetime option"
  rp_created_at :: datetime
  rp_updated_at :: datetime


record protection_rule =
  br_id :: uuid
  br_repo_id :: uuid
  br_pattern :: string
  br_block_direct_push :: bool
  br_block_force_push :: bool
  br_block_deletion :: bool
  br_created_at :: datetime


definition repo_name_char :: "char \<Rightarrow> bool" where
  "repo_name_char c \<longleftrightarrow> is_ascii_alphanumeric c \<or> c = CHR ''-'' \<or> c = CHR ''_'' \<or> c = CHR ''.''"

text \<open>\<^verbatim>\<open>validate_repo_name\<close>; \<open>Inl\<close> is the text of its \<^verbatim>\<open>ScmError::InvalidName\<close>.\<close>

definition validate_repo_name :: "string \<Rightarrow> string + unit" where
  "validate_repo_name name =
     (if name = [] \<or> length name > 100 then Inl ''Name must be 1-100 characters''
      else if name = ''.'' \<or> name = ''..'' then Inl ''Invalid name''
      else if starts_with name ''.'' \<or> starts_with name ''-''
        then Inl (''Name cannot start with '' @ quoted ''.'' @ '' or '' @ quoted ''-'')
      else if str_contains name ''..'' then Inl (''Name cannot contain '' @ quoted ''..'')
      else if \<not> list_all repo_name_char name
        then Inl ''Name can only contain letters, numbers, dash, underscore, dot''
      else Inr ())"

section \<open>Branch protection\<close>







section \<open>Packet lines and push commands\<close>

definition ZERO_SHA :: string where
  "ZERO_SHA = ''0000000000000000000000000000000000000000''"

datatype git_service = UploadPack | ReceivePack

definition git_service_from_str :: "string \<Rightarrow> git_service option" where
  "git_service_from_str s =
     (if s = ''git-upload-pack'' then Some UploadPack
      else if s = ''git-receive-pack'' then Some ReceivePack
      else None)"

fun git_service_as_str :: "git_service \<Rightarrow> string" where
  "git_service_as_str UploadPack = ''git-upload-pack''"
| "git_service_as_str ReceivePack = ''git-receive-pack''"


record push_command =
  cm_old_sha :: string
  cm_new_sha :: string
  cm_ref_name :: string

text \<open>\<^verbatim>\<open>{:x}\<close> and \<^verbatim>\<open>{:04x}\<close>: lower-case hexadecimal, padded with zeros to four places.\<close>

definition hex_char :: "nat \<Rightarrow> char" where
  "hex_char d = (if d < 10 then char_of (48 + d) else char_of (87 + d))"

fun show_hex :: "nat \<Rightarrow> string" where
  "show_hex n = (if n < 16 then [hex_char n] else show_hex (n div 16) @ [hex_char (n mod 16)])"

declare show_hex.simps [simp del]

definition show_04x :: "nat \<Rightarrow> string" where
  "show_04x n = (let s = show_hex n in replicate (4 - length s) CHR ''0'' @ s)"

definition pkt_line :: "string \<Rightarrow> string" where
  "pkt_line data = show_04x (length data + 4) @ data"

definition pkt_flush :: string where
  "pkt_flush = ''0000''"

text \<open>\<^verbatim>\<open>usize::from_str_radix(_, 16)\<close>: an optional plus sign and at least one digit of either case.\<close>

definition hex_digit :: "char \<Rightarrow> nat option" where
  "hex_digit c =
     (if is_ascii_digit c then Some (of_char c - 48)
      else if 97 \<le> (of_char c :: nat) \<and> (of_char c :: nat) \<le> 102 then Some (of_char c - 87)
      else if 65 \<le> (of_char c :: nat) \<and> (of_char c :: nat) \<le> 70 then Some (of_char c - 55)
      else None)"

fun hex_value :: "nat \<Rightarrow> string \<Rightarrow> nat option" where
  "hex_value acc [] = Some acc"
| "hex_value acc (c # s) = (case hex_digit c of None \<Rightarrow> None | Some d \<Rightarrow> hex_value (acc * 16 + d) s)"

definition from_str_radix_16 :: "string \<Rightarrow> nat option" where
  "from_str_radix_16 s = (case s of
     [] \<Rightarrow> None
   | c # cs \<Rightarrow> (if c = CHR ''+'' then (if cs = [] then None else hex_value 0 cs) else hex_value 0 s))"

datatype git_fault = SliceOrder

text \<open>A line of the command list: nothing when it is not UTF-8 or has fewer than three words.\<close>

definition trim_end_newlines :: "string \<Rightarrow> string" where
  "trim_end_newlines s = rev (dropWhile (\<lambda>c. c = CHR 0x0A) (rev s))"

definition parse_push_line :: "string \<Rightarrow> push_command option" where
  "parse_push_line line =
     (if utf8_valid line then
        let parts = str_split CHR '' '' (trim_end_newlines line)
        in if length parts \<ge> 3 then
             let ref_with_caps = str_join '' '' (drop 2 parts)
             in Some \<lparr>cm_old_sha = parts ! 0, cm_new_sha = parts ! 1,
                      cm_ref_name = hd (str_split CHR 0x00 ref_with_caps)\<rparr>
           else None
      else None)"

function parse_push_loop :: "string \<Rightarrow> nat \<Rightarrow> push_command list \<Rightarrow> git_fault + push_command list" where
  "parse_push_loop body pos commands =
     (if pos + 4 \<le> length body then
        let bytes = take 4 (drop pos body);
            len_str = (if utf8_valid bytes then bytes else ''0000'');
            len = unwrap_or (from_str_radix_16 len_str) 0
        in if len = 0 then Inr commands
           else if pos + len > length body then Inr commands
           else if pos + 4 > pos + len then Inl SliceOrder
           else let line = take (len - 4) (drop (pos + 4) body)
                in parse_push_loop body (pos + len)
                     (case parse_push_line line of Some c \<Rightarrow> commands @ [c] | None \<Rightarrow> commands)
      else Inr commands)"
  by pat_completeness auto
termination
  by (relation "measure (\<lambda>(body, pos, commands). length body - pos)") auto

declare parse_push_loop.simps [simp del]

definition parse_push_commands :: "string \<Rightarrow> git_fault + push_command list" where
  "parse_push_commands body = parse_push_loop body 0 []"


section \<open>Access\<close>

datatype server_error =
  SrvDb string
| SrvDbError string
| SrvNotFound string
| SrvConflict u64 u64
| SrvBadRequest string
| SrvInternal string
| SrvSerialization string
| SrvUpstreamError string
| SrvUpstreamTimeout string
| SrvServiceUnavailable string
| SrvUnauthorized string
| SrvForbidden string
| SrvNotImplemented string
| SrvProvisioner string

text \<open>
  The object store, for \<^verbatim>\<open>is_force_push\<close>: whether \<^verbatim>\<open>gix::open\<close> succeeds, which identifiers
  \<^verbatim>\<open>ObjectId::from_hex\<close> accepts (and their canonical form), and \<^verbatim>\<open>merge_base\<close>, \<open>None\<close> for its error.
\<close>

record git_objects =
  gx_opens :: bool
  gx_from_hex :: "string \<Rightarrow> string option"
  gx_merge_base :: "string \<Rightarrow> string \<Rightarrow> string option"


text \<open>What a git request asks of the rest of the server.\<close>

record git_env =
  ge_tr :: "string \<Rightarrow> string"
  ge_content_type :: "string option"
  ge_user :: "user_id option"
  ge_resolved :: "server_error + repository"
  ge_path_exists :: bool
  ge_membership :: "org_id \<Rightarrow> user_id \<Rightarrow> org_role option"
  ge_team_store :: "(user_id \<Rightarrow> uuid \<Rightarrow> string + string list) option"
  ge_protection_store :: "(uuid \<Rightarrow> string + protection_rule list) option"
  ge_objects :: git_objects
  ge_run_git :: "string \<Rightarrow> server_error + string"

fun highest_role :: "repo_role option \<Rightarrow> string list \<Rightarrow> string + repo_role option" where
  "highest_role highest [] = Inr highest"
| "highest_role highest (role_str # roles) = (case repo_role_from_str role_str of
     None \<Rightarrow> Inl (''invalid role: '' @ role_str)
   | Some role \<Rightarrow> highest_role (Some (case highest of
       None \<Rightarrow> role
     | Some current \<Rightarrow> if repo_has_permission_of role current then role else current)) roles)"

definition get_user_role_via_teams ::
  "(user_id \<Rightarrow> uuid \<Rightarrow> string + string list) \<Rightarrow> user_id \<Rightarrow> uuid \<Rightarrow> string + repo_role option" where
  "get_user_role_via_teams roles_of user repo = (case roles_of user repo of
     Inl e \<Rightarrow> Inl e
   | Inr roles \<Rightarrow> highest_role None roles)"

fun higher_role :: "repo_role option \<Rightarrow> repo_role option \<Rightarrow> repo_role option" where
  "higher_role (Some x) (Some y) = (if repo_has_permission_of x y then Some x else Some y)"
| "higher_role (Some x) None = Some x"
| "higher_role None (Some y) = Some y"
| "higher_role None None = None"

definition get_direct_role :: "git_env \<Rightarrow> user_id \<Rightarrow> repository \<Rightarrow> repo_role option" where
  "get_direct_role env user repo = (case rp_owner_type repo of
     OwnerUser \<Rightarrow> (if rp_owner_id repo = user then Some RoleAdmin else None)
   | OwnerOrg \<Rightarrow> (case ge_membership env (rp_owner_id repo) user of
       Some role \<Rightarrow> (if role = OrgOwner \<or> role = OrgAdmin then Some RoleAdmin else Some RoleRead)
     | None \<Rightarrow> None))"

definition get_user_repo_role :: "git_env \<Rightarrow> user_id \<Rightarrow> repository \<Rightarrow> repo_role option" where
  "get_user_repo_role env user repo =
     higher_role (get_direct_role env user repo)
       (case ge_team_store env of
          Some store \<Rightarrow> (case get_user_role_via_teams store user (rp_id repo) of Inr r \<Rightarrow> r | Inl e \<Rightarrow> None)
        | None \<Rightarrow> None)"

definition check_read_access :: "git_env \<Rightarrow> repository \<Rightarrow> user_id option \<Rightarrow> server_error + unit" where
  "check_read_access env repo user =
     (if rp_visibility repo = RepoPublic then Inr ()
      else case user of
        None \<Rightarrow> Inl (SrvUnauthorized (ge_tr env ''server.api.scm.git.auth_required_private''))
      | Some u \<Rightarrow>
          if unwrap_or (map_option (\<lambda>r. repo_has_permission_of r RoleRead) (get_user_repo_role env u repo)) False
          then Inr () else Inl (SrvForbidden (ge_tr env ''server.api.scm.git.access_denied'')))"

definition check_write_access :: "git_env \<Rightarrow> repository \<Rightarrow> user_id option \<Rightarrow> server_error + unit" where
  "check_write_access env repo user = (case user of
     None \<Rightarrow> Inl (SrvUnauthorized (ge_tr env ''server.api.scm.git.auth_required_push''))
   | Some u \<Rightarrow>
       if unwrap_or (map_option (\<lambda>r. repo_has_permission_of r RoleWrite) (get_user_repo_role env u repo)) False
       then Inr () else Inl (SrvForbidden (ge_tr env ''server.api.scm.git.write_access_denied'')))"

definition check_user_is_repo_admin :: "git_env \<Rightarrow> repository \<Rightarrow> user_id \<Rightarrow> bool" where
  "check_user_is_repo_admin env repo user =
     unwrap_or (map_option (\<lambda>r. r = RoleAdmin) (get_user_repo_role env user repo)) False"

section \<open>Serving a push\<close>





section \<open>Specification: the lines of a push\<close>

text \<open>
  A command as a client sends it: the three words, then on the first line a NUL and the
  capabilities, and possibly a newline.
\<close>

record wire_command =
  wc_command :: push_command
  wc_caps :: "string option"
  wc_newline :: bool

definition wire_line :: "wire_command \<Rightarrow> string" where
  "wire_line w = cm_old_sha (wc_command w) @ '' '' @ cm_new_sha (wc_command w) @ '' ''
     @ cm_ref_name (wc_command w)
     @ (case wc_caps w of None \<Rightarrow> [] | Some caps \<Rightarrow> CHR 0x00 # caps)
     @ (if wc_newline w then [CHR 0x0A] else [])"

text \<open>The words have no separators in them and the line fits into a packet; and the line may be UTF-8.\<close>

definition wire_shape :: "wire_command \<Rightarrow> bool" where
  "wire_shape w \<longleftrightarrow> CHR '' '' \<notin> set (cm_old_sha (wc_command w)) \<and> CHR '' '' \<notin> set (cm_new_sha (wc_command w))
     \<and> CHR 0x00 \<notin> set (cm_ref_name (wc_command w)) \<and> CHR 0x0A \<notin> set (cm_ref_name (wc_command w))
     \<and> length (wire_line w) + 4 < 65536"

definition wire_text :: "wire_command \<Rightarrow> bool" where
  "wire_text w \<longleftrightarrow> utf8_valid (wire_line w)"

definition wire_ok :: "wire_command \<Rightarrow> bool" where
  "wire_ok w \<longleftrightarrow> wire_shape w \<and> wire_text w"

text \<open>The request body: the commands, a flush packet, the pack.\<close>

definition push_body :: "wire_command list \<Rightarrow> string \<Rightarrow> string" where
  "push_body ws pack = concat (map (\<lambda>w. pkt_line (wire_line w)) ws) @ pkt_flush @ pack"


section \<open>Packet lengths\<close>

lemma of_char_hex: "d < 16 \<Longrightarrow> (of_char (hex_char d) :: nat) = (if d < 10 then 48 + d else 87 + d)"
  by (simp add: hex_char_def)

lemma hex_digit_char [codec]: "d < 16 \<Longrightarrow> hex_digit (hex_char d) = Some d"
  by (simp add: hex_digit_def is_ascii_digit_def of_char_hex)

lemma hex_char_ascii: "d < 16 \<Longrightarrow> (of_char (hex_char d) :: nat) < 128 \<and> hex_char d \<noteq> CHR ''+''"
  using of_char_hex [of d] by (auto split: if_splits)

lemma hex_value_append: "hex_value acc (s @ t) = Option.bind (hex_value acc s) (\<lambda>a. hex_value a t)"
  by (induction s arbitrary: acc) (auto split: option.split)

lemma hex_value_show: "hex_value 0 (show_hex n) = Some n"
proof (induction n rule: show_hex.induct)
  case (1 n)
  then show ?case
    by (cases "n < 16") (simp_all add: show_hex.simps [of n] hex_value_append hex_digit_char)
qed

lemma hex_value_zeros: "hex_value 0 (replicate k CHR ''0'' @ s) = hex_value 0 s"
  by (induction k) (simp_all add: hex_digit_def is_ascii_digit_def)

lemma show_hex_chars: "list_all (\<lambda>c. (of_char c :: nat) < 128 \<and> c \<noteq> CHR ''+'') (show_hex n)"
proof (induction n rule: show_hex.induct)
  case (1 n)
  then show ?case by (simp add: show_hex.simps [of n] hex_char_ascii)
qed

lemma length_show_hex: "n < 16 ^ Suc k \<Longrightarrow> 1 \<le> length (show_hex n) \<and> length (show_hex n) \<le> Suc k"
proof (induction k arbitrary: n)
  case 0
  then show ?case by (simp add: show_hex.simps [of n])
next
  case (Suc k)
  have "n div 16 < 16 ^ Suc k" using Suc.prems by (simp add: div_less_iff_less_mult mult.commute)
  then show ?case using Suc.IH [of "n div 16"] by (simp add: show_hex.simps [of n])
qed

lemma show_04x_chars: "list_all (\<lambda>c. (of_char c :: nat) < 128 \<and> c \<noteq> CHR ''+'') (show_04x n)"
proof -
  have "list_all (\<lambda>c. (of_char c :: nat) < 128 \<and> c \<noteq> CHR ''+'') (replicate k CHR ''0'')" for k
    by (induction k) simp_all
  then show ?thesis unfolding show_04x_def Let_def list_all_append using show_hex_chars by (intro conjI)
qed

lemma length_show_04x: "n < 65536 \<Longrightarrow> length (show_04x n) = 4"
  using length_show_hex [of n 3] by (simp add: show_04x_def Let_def)

lemma utf8_valid_04x: "utf8_valid (show_04x n)"
  by (rule utf8_valid_ascii, rule list.pred_mono_strong [OF show_04x_chars], simp)

lemma from_str_radix_show [codec]: "n < 65536 \<Longrightarrow> from_str_radix_16 (show_04x n) = Some n"
proof -
  assume "n < 65536"
  then obtain c cs where c: "show_04x n = c # cs" using length_show_04x [of n] by (cases "show_04x n") auto
  then have "c \<noteq> CHR ''+''" using show_04x_chars [of n] by simp
  moreover have "hex_value 0 (show_04x n) = Some n" by (simp add: show_04x_def Let_def hex_value_zeros hex_value_show)
  ultimately show ?thesis by (simp add: from_str_radix_16_def c)
qed

section \<open>Command lines\<close>

lemma trim_end_newlines_append:
  assumes "x \<noteq> []" "last x \<noteq> CHR 0x0A"
  shows "trim_end_newlines (x @ s) = x @ trim_end_newlines s"
proof (cases "list_all (\<lambda>c. c = CHR 0x0A) s")
  case True
  then have "dropWhile (\<lambda>c. c = CHR 0x0A) (rev s @ rev x) = rev x"
    using assms by (subst dropWhile_append2) (auto simp: list_all_iff hd_rev dropWhile_eq_self_iff)
  moreover have "dropWhile (\<lambda>c. c = CHR 0x0A) (rev s) = []" using True by (simp add: list_all_iff)
  ultimately show ?thesis by (simp add: trim_end_newlines_def)
next
  case False
  then obtain c where "c \<in> set s" "c \<noteq> CHR 0x0A" by (auto simp: list_all_iff)
  then show ?thesis by (simp add: trim_end_newlines_def dropWhile_append1 [of c "rev s"])
qed

lemma parse_push_line_words:
  assumes "CHR '' '' \<notin> set old" "CHR '' '' \<notin> set new" "CHR 0x00 \<notin> set r"
    and "utf8_valid line" "trim_end_newlines line = old @ '' '' @ new @ '' '' @ r @ t" "t = [] \<or> (\<exists>c. t = CHR 0x00 # c)"
  shows "parse_push_line line = Some \<lparr>cm_old_sha = old, cm_new_sha = new, cm_ref_name = r\<rparr>"
proof -
  have parts: "str_split CHR '' '' (trim_end_newlines line) = old # new # str_split CHR '' '' (r @ t)"
    using assms by (simp add: str_split_append)
  have "hd (str_split CHR 0x00 (r @ t)) = r"
    using assms(3,6) by (auto simp: str_split_word str_split_append)
  moreover have "1 \<le> length (str_split CHR '' '' (r @ t))"
    by (cases "str_split CHR '' '' (r @ t)") simp_all
  ultimately show ?thesis using assms(4) by (simp add: parse_push_line_def parts Let_def join_str_split)
qed

lemma parse_wire_line [codec]: "wire_shape w \<Longrightarrow> parse_push_line (wire_line w) = (if wire_text w then Some (wc_command w) else None)"
proof (cases "wire_text w")
  case False
  then show ?thesis by (simp add: parse_push_line_def wire_text_def)
next
  case True
  assume ok: "wire_shape w"
  obtain old new r where c: "wc_command w = \<lparr>cm_old_sha = old, cm_new_sha = new, cm_ref_name = r\<rparr>"
    by (cases "wc_command w")
  define x where "x = old @ '' '' @ new @ '' '' @ r"
  have x: "x \<noteq> []" "last x \<noteq> CHR 0x0A"
    using ok by (auto simp: x_def wire_shape_def c last_append dest: last_in_set split: if_splits)
  have nl: "trim_end_newlines [] = []" "trim_end_newlines [CHR 0x0A] = []" by (simp_all add: trim_end_newlines_def)
  have "\<exists>t. trim_end_newlines (wire_line w) = x @ t \<and> (t = [] \<or> (\<exists>c. t = CHR 0x00 # c))"
  proof (cases "wc_caps w")
    case None
    then have "wire_line w = x @ (if wc_newline w then [CHR 0x0A] else [])" by (simp add: wire_line_def c x_def)
    then show ?thesis using x nl by (simp add: trim_end_newlines_append)
  next
    case (Some caps)
    then have "wire_line w = (x @ [CHR 0x00]) @ caps @ (if wc_newline w then [CHR 0x0A] else [])"
      by (simp add: wire_line_def c x_def)
    then have "trim_end_newlines (wire_line w) = x @ CHR 0x00 # trim_end_newlines (caps @ (if wc_newline w then [CHR 0x0A] else []))"
      using trim_end_newlines_append [of "x @ [CHR 0x00]"] by simp
    then show ?thesis by blast
  qed
  then obtain t where "trim_end_newlines (wire_line w) = old @ '' '' @ new @ '' '' @ r @ t" "t = [] \<or> (\<exists>c. t = CHR 0x00 # c)"
    by (auto simp: x_def)
  then show ?thesis using ok True c parse_push_line_words [of old new r "wire_line w" t] by (simp add: wire_shape_def wire_text_def)
qed

section \<open>Command lists\<close>

lemma parse_push_loop_line:
  assumes "length line + 4 < 65536"
  shows "parse_push_loop (pre @ pkt_line line @ rest) (length pre) cmds =
    parse_push_loop (pre @ pkt_line line @ rest) (length pre + length (pkt_line line))
      (case parse_push_line line of Some c \<Rightarrow> cmds @ [c] | None \<Rightarrow> cmds)"
proof -
  have "take 4 (pkt_line line @ rest) = show_04x (length line + 4)"
    and "drop 4 (pkt_line line @ rest) = line @ rest"
    using assms(1) by (simp_all add: pkt_line_def length_show_04x)
  then show ?thesis
    using assms utf8_valid_04x
    by (simp add: parse_push_loop.simps [of _ "length pre"] from_str_radix_show unwrap_or_def pkt_line_def
        length_show_04x Let_def drop_drop [symmetric] add.commute del: drop_drop)
qed

lemma parse_push_loop_flush: "parse_push_loop (pre @ pkt_flush @ rest) (length pre) cmds = Inr cmds"
proof -
  have "from_str_radix_16 ''0000'' = Some 0" by (simp add: from_str_radix_16_def hex_digit_def is_ascii_digit_def)
  then show ?thesis by (simp add: parse_push_loop.simps [of _ "length pre"] pkt_flush_def unwrap_or_def Let_def)
qed

lemma parse_push_loop_lines:
  "list_all wire_shape ws \<Longrightarrow>
   parse_push_loop (pre @ concat (map (\<lambda>w. pkt_line (wire_line w)) ws) @ rest) (length pre) cmds =
   parse_push_loop (pre @ concat (map (\<lambda>w. pkt_line (wire_line w)) ws) @ rest)
     (length (pre @ concat (map (\<lambda>w. pkt_line (wire_line w)) ws))) (cmds @ map wc_command (filter wire_text ws))"
proof (induction ws arbitrary: pre cmds)
  case (Cons w ws)
  let ?l = "pkt_line (wire_line w)" and ?ls = "concat (map (\<lambda>w. pkt_line (wire_line w)) ws)"
  have "parse_push_loop (pre @ ?l @ ?ls @ rest) (length pre) cmds =
      parse_push_loop (pre @ ?l @ ?ls @ rest) (length pre + length ?l) (cmds @ map wc_command (filter wire_text [w]))"
    using Cons.prems parse_push_loop_line [of "wire_line w" pre "?ls @ rest" cmds] by (simp add: parse_wire_line) (simp add: wire_shape_def)
  then show ?case using Cons.IH [of "pre @ ?l" "cmds @ map wc_command (filter wire_text [w])"] Cons.prems by simp
qed simp

lemma parse_push_seen:
  assumes "list_all wire_shape ws"
  shows "parse_push_commands (push_body ws pack) = Inr (map wc_command (filter wire_text ws))"
  using parse_push_loop_lines [OF assms, of "[]" "pkt_flush @ pack" "[]"]
    parse_push_loop_flush [of "concat (map (\<lambda>w. pkt_line (wire_line w)) ws)"]
  by (simp add: parse_push_commands_def push_body_def)

lemma parse_push_body [codec]:
  assumes "list_all wire_ok ws"
  shows "parse_push_commands (push_body ws pack) = Inr (map wc_command ws)"
proof -
  have "list_all wire_shape ws" "filter wire_text ws = ws" using assms by (simp_all add: wire_ok_def list_all_iff)
  with parse_push_seen [of ws pack] show ?thesis by simp
qed

lemma parse_push_loop_short:
  assumes "c = CHR ''1'' \<or> c = CHR ''2'' \<or> c = CHR ''3''"
  shows "parse_push_loop (pre @ ''000'' @ c # rest) (length pre) cmds = Inl SliceOrder"
proof -
  have "from_str_radix_16 (''000'' @ [c]) \<in> {Some 1, Some 2, Some 3}" "utf8_valid (''000'' @ [c])"
    using assms by (auto simp: from_str_radix_16_def hex_digit_def is_ascii_digit_def utf8_valid_ascii)
  then show ?thesis
    by (auto simp: parse_push_loop.simps [of _ "length pre"] unwrap_or_def Let_def)
qed

section \<open>Rules\<close>



section \<open>Roles granted\<close>

interpretation repo_role_codec: text_codec repo_role_as_str repo_role_from_str
proof
  show "repo_role_from_str (repo_role_as_str x) = Some x" for x by (cases x) (simp_all add: repo_role_from_str_def)
  show "repo_role_from_str s = Some x \<Longrightarrow> s = repo_role_as_str x" for s x
    by (auto simp: repo_role_from_str_def split: if_splits)
qed

interpretation owner_type_codec: text_codec owner_type_as_str owner_type_from_str
proof
  show "owner_type_from_str (owner_type_as_str x) = Some x" for x by (cases x) (simp_all add: owner_type_from_str_def)
  show "owner_type_from_str s = Some x \<Longrightarrow> s = owner_type_as_str x" for s x
    by (auto simp: owner_type_from_str_def split: if_splits)
qed

interpretation repo_visibility_codec: text_codec repo_visibility_as_str repo_visibility_from_str
proof
  show "repo_visibility_from_str (repo_visibility_as_str x) = Some x" for x by (cases x) (simp_all add: repo_visibility_from_str_def)
  show "repo_visibility_from_str s = Some x \<Longrightarrow> s = repo_visibility_as_str x" for s x
    by (auto simp: repo_visibility_from_str_def split: if_splits)
qed

interpretation git_service_codec: text_codec git_service_as_str git_service_from_str
proof
  show "git_service_from_str (git_service_as_str x) = Some x" for x by (cases x) (simp_all add: git_service_from_str_def)
  show "git_service_from_str s = Some x \<Longrightarrow> s = git_service_as_str x" for s x
    by (auto simp: git_service_from_str_def split: if_splits)
qed

definition reaches :: "repo_role \<Rightarrow> repo_role option \<Rightarrow> bool" where
  "reaches role r \<longleftrightarrow> (case r of None \<Rightarrow> False | Some x \<Rightarrow> role \<le> x)"

lemma reaches_unwrap: "unwrap_or (map_option (\<lambda>r. repo_has_permission_of r role) r) False = reaches role r"
  by (cases r) (simp_all add: unwrap_or_def reaches_def less_eq_repo_role_def)

lemma reaches_higher: "reaches role (higher_role a b) \<longleftrightarrow> reaches role a \<or> reaches role b"
proof (cases a; cases b)
  fix x y
  assume "a = Some x" "b = Some y"
  then show ?thesis by (cases role; cases x; cases y) (simp_all add: reaches_def less_eq_repo_role_def)
qed (simp_all add: reaches_def)

lemma highest_role_reaches:
  "(\<exists>r. highest_role h roles = Inr r \<and> reaches role r) \<longleftrightarrow>
     list_all (\<lambda>s. repo_role_from_str s \<noteq> None) roles
     \<and> (reaches role h \<or> list_ex (\<lambda>s. reaches role (repo_role_from_str s)) roles)"
proof (induction roles arbitrary: h)
  case (Cons s roles)
  show ?case
  proof (cases "repo_role_from_str s")
    case (Some x)
    have "reaches role (Some (case h of None \<Rightarrow> x | Some c \<Rightarrow> if repo_has_permission_of x c then x else c)) \<longleftrightarrow>
        reaches role (higher_role (Some x) h)"
      by (cases h) simp_all
    then show ?thesis using Cons.IH Some by (auto simp: reaches_higher)
  qed simp
qed simp

text \<open>Specification: who holds a role on a repository.\<close>

definition granted :: "git_env \<Rightarrow> user_id \<Rightarrow> repository \<Rightarrow> repo_role \<Rightarrow> bool" where
  "granted env user repo role \<longleftrightarrow>
     rp_owner_type repo = OwnerUser \<and> rp_owner_id repo = user
   \<or> rp_owner_type repo = OwnerOrg
       \<and> (case ge_membership env (rp_owner_id repo) user of
            None \<Rightarrow> False
          | Some m \<Rightarrow> OrgAdmin \<le> m \<or> role = RoleRead)
   \<or> (case ge_team_store env of
        None \<Rightarrow> False
      | Some store \<Rightarrow> (case store user (rp_id repo) of
          Inl e \<Rightarrow> False
        | Inr roles \<Rightarrow> list_all (\<lambda>s. repo_role_from_str s \<noteq> None) roles
            \<and> list_ex (\<lambda>s. reaches role (repo_role_from_str s)) roles))"

lemma direct_role_reaches:
  "reaches role (get_direct_role env user repo) \<longleftrightarrow>
     rp_owner_type repo = OwnerUser \<and> rp_owner_id repo = user
   \<or> rp_owner_type repo = OwnerOrg
       \<and> (case ge_membership env (rp_owner_id repo) user of None \<Rightarrow> False | Some m \<Rightarrow> OrgAdmin \<le> m \<or> role = RoleRead)"
proof -
  have "reaches role (Some RoleAdmin)" by (simp add: reaches_def less_eq_repo_role_def)
  moreover have "reaches role (Some RoleRead) \<longleftrightarrow> role = RoleRead"
    by (cases role) (simp_all add: reaches_def less_eq_repo_role_def)
  moreover have "\<not> reaches role None" by (simp add: reaches_def)
  moreover have "OrgAdmin \<le> m \<longleftrightarrow> m = OrgOwner \<or> m = OrgAdmin" for m
    by (cases m) (simp_all add: less_eq_org_role_def)
  ultimately show ?thesis by (auto simp: get_direct_role_def split: owner_type.split option.split)
qed

lemma user_repo_role_granted: "reaches role (get_user_repo_role env user repo) \<longleftrightarrow> granted env user repo role"
proof -
  have none: "\<not> reaches role None" by (simp add: reaches_def)
  have "reaches role (case get_user_role_via_teams store user i of Inr r \<Rightarrow> r | Inl e \<Rightarrow> None) \<longleftrightarrow>
      (case store user i of Inl e \<Rightarrow> False
       | Inr roles \<Rightarrow> list_all (\<lambda>s. repo_role_from_str s \<noteq> None) roles
           \<and> list_ex (\<lambda>s. reaches role (repo_role_from_str s)) roles)" for store i
  proof (cases "store user i")
    case (Inr roles)
    show ?thesis
      using highest_role_reaches [of None roles role] none
      by (cases "highest_role None roles") (auto simp: get_user_role_via_teams_def Inr)
  qed (simp add: get_user_role_via_teams_def none)
  then show ?thesis
    unfolding get_user_repo_role_def granted_def reaches_higher direct_role_reaches
    by (cases "ge_team_store env") (auto simp: none)
qed

lemma write_access_reaches:
  "check_write_access env repo user = Inr () \<longleftrightarrow> (\<exists>u. user = Some u \<and> reaches RoleWrite (get_user_repo_role env u repo))"
  by (cases user) (auto simp: check_write_access_def reaches_unwrap)

lemma repo_admin_reaches:
  "check_user_is_repo_admin env repo u \<longleftrightarrow> reaches RoleAdmin (get_user_repo_role env u repo)"
proof (cases "get_user_repo_role env u repo")
  case (Some r)
  then show ?thesis
    by (cases r) (simp_all add: check_user_is_repo_admin_def unwrap_or_def reaches_def less_eq_repo_role_def)
qed (simp add: check_user_is_repo_admin_def unwrap_or_def reaches_def)


section \<open>Properties\<close>

text \<open>
  C27: \<^verbatim>\<open>parse_push_commands\<close> reads back every command a client sends: the packet lines of any list of
  ref updates, with capabilities and newlines where the client puts them, then a flush packet and
  any pack data, give exactly those updates, in order.
\<close>

theorem push_commands_roundtrip:
  assumes "list_all wire_ok ws"
  shows "parse_push_commands (push_body ws pack) = Inr (map wc_command ws)"
  using assms by (rule parse_push_body)

theorem push_commands_roundtrip_witness:
  "let a = \<lparr>cm_old_sha = ''1f'', cm_new_sha = ''2e'', cm_ref_name = ''refs/heads/main''\<rparr>;
       b = \<lparr>cm_old_sha = ''77'', cm_new_sha = ZERO_SHA, cm_ref_name = ''refs/tags/v1''\<rparr>
   in parse_push_commands (push_body
        [\<lparr>wc_command = a, wc_caps = Some '' report-status side-band-64k'', wc_newline = True\<rparr>,
         \<lparr>wc_command = b, wc_caps = None, wc_newline = False\<rparr>] ''PACK'') = Inr [a, b]"
  unfolding Let_def
  by (subst push_commands_roundtrip) (simp_all add: wire_ok_def wire_shape_def wire_text_def wire_line_def ZERO_SHA_def utf8_valid_ascii)



definition example_push :: "string \<Rightarrow> wire_command" where
  "example_push branch = \<lparr>wc_command = \<lparr>cm_old_sha = ''1f'', cm_new_sha = ''2e'', cm_ref_name = ''refs/heads/'' @ branch\<rparr>,
     wc_caps = None, wc_newline = True\<rparr>"

lemma example_push_ok: "list_all wire_ok [example_push ''main'']"
  by (simp add: example_push_def wire_ok_def wire_shape_def wire_text_def wire_line_def utf8_valid_ascii)



text \<open>
  C26: The access checks of the git routes grant exactly the roles the owner, the organization and the
  teams give: pushing needs a user who owns the repository, is an owner or admin of its organization,
  or is in a team granted write or admin access; reading a private repository also takes plain
  members of the organization and teams with read access. One team role that cannot be read voids
  what the teams grant.
\<close>

theorem git_access_refines_grants:
  "(check_write_access env repo user = Inr () \<longleftrightarrow> (\<exists>u. user = Some u \<and> granted env u repo RoleWrite))
   \<and> (check_read_access env repo user = Inr () \<longleftrightarrow>
        rp_visibility repo = RepoPublic \<or> (\<exists>u. user = Some u \<and> granted env u repo RoleRead))
   \<and> (check_user_is_repo_admin env repo v \<longleftrightarrow> granted env v repo RoleAdmin)"
proof (intro conjI)
  show "check_write_access env repo user = Inr () \<longleftrightarrow> (\<exists>u. user = Some u \<and> granted env u repo RoleWrite)"
    by (simp add: write_access_reaches user_repo_role_granted)
  show "check_read_access env repo user = Inr () \<longleftrightarrow>
      rp_visibility repo = RepoPublic \<or> (\<exists>u. user = Some u \<and> granted env u repo RoleRead)"
    by (cases user) (simp_all add: check_read_access_def reaches_unwrap user_repo_role_granted)
  show "check_user_is_repo_admin env repo v \<longleftrightarrow> granted env v repo RoleAdmin"
    by (simp add: repo_admin_reaches user_repo_role_granted)
qed

text \<open>
  A packet length of one, two or three makes \<^verbatim>\<open>parse_push_commands\<close> panic, wherever such a packet
  stands after well-formed commands and whatever follows it: the line would end before the four digits
  of its length do.
\<close>

theorem short_packet_panics:
  assumes "list_all wire_shape ws" "c = CHR ''1'' \<or> c = CHR ''2'' \<or> c = CHR ''3''"
  shows "parse_push_commands (concat (map (\<lambda>w. pkt_line (wire_line w)) ws) @ ''000'' @ c # rest) = Inl SliceOrder"
  using parse_push_loop_lines [of ws "[]" "''000'' @ c # rest" "[]"] assms(1)
    parse_push_loop_short [OF assms(2), of "concat (map (\<lambda>w. pkt_line (wire_line w)) ws)"]
  by (simp add: parse_push_commands_def)

theorem short_packet_panics_witness:
  "parse_push_commands (concat (map (\<lambda>w. pkt_line (wire_line w)) [example_push ''main'']) @ ''000'' @ CHR ''2'' # ''PACK'')
     = Inl SliceOrder"
  using example_push_ok by (intro short_packet_panics) (simp_all add: wire_ok_def)

end
