(* ===== verification/Spec2Isabelle.thy ===== *)
theory Spec2Isabelle
  imports ThreadSync AnalyticsApi CrashRequests Pool Credentials Flags Tunnel Tracker Buffers SourceMaps Git
begin

text \<open>
  A verification library for Loom, an AI coding agent with its server, remote workspaces (weavers)
  and telemetry, written in Rust under \<^verbatim>\<open>src/crates\<close>.

  \<^bold>\<open>Parts of the program and how they interact.\<close> The command line client runs an agent
  (\<^verbatim>\<open>loom-common-core\<close>) that alternates between the language model and tools. Its requests go through the
  server, which picks an account from a pool, converts the request to the provider's format, decodes the
  streamed answer (\<^verbatim>\<open>loom-server-llm-anthropic\<close>) and forwards its events to the client (\<^verbatim>\<open>loom-server-llm-proxy\<close>). Users authenticate with
  sessions, tokens and device codes, and every resource access is decided by an attribute-based policy engine
  (\<^verbatim>\<open>loom-server-auth\<close>). The server hosts git repositories with protected branches
  (\<^verbatim>\<open>loom-server-scm\<close>, \<^verbatim>\<open>loom-server/src/routes/git\<close>), collects product analytics
  (\<^verbatim>\<open>loom-server-analytics\<close>), evaluates feature flags
  (\<^verbatim>\<open>loom-flags-core\<close>, \<^verbatim>\<open>loom-server-flags\<close>), symbolicates crash reports
  (\<^verbatim>\<open>loom-crash-symbolicate\<close>) and groups them into issues (\<^verbatim>\<open>loom-server-crash\<close>), and keeps recent log lines (\<^verbatim>\<open>loom-server-logs\<close>). Weavers are reached over
  a WireGuard tunnel relayed by DERP (\<^verbatim>\<open>loom-wgtunnel-*\<close>) and watched by an audit sidecar
  (\<^verbatim>\<open>loom-weaver-audit-sidecar\<close>).

  \<^bold>\<open>Theories.\<close>
  \<^item> \<^verbatim>\<open>Prelude\<close>: machine types, the operations of Rust's strings, slices and options, shared lemmas, and the
    interfaces \<^verbatim>\<open>event_driven\<close> (a step function with an invariant, lifted to runs) and \<^verbatim>\<open>text_codec\<close>
    (an enumeration with its textual form).
  \<^item> \<^verbatim>\<open>Agent\<close>: \<^verbatim>\<open>state.rs\<close> and \<^verbatim>\<open>agent.rs\<close>; \<^verbatim>\<open>handle_event\<close> is the whole match. Retries are
    bounded and end, requests carry the current conversation, the conversation only grows, tool results
    are in call order, shutdown is final.
  \<^item> \<^verbatim>\<open>Sse\<close>: \<^verbatim>\<open>stream.rs\<close> and the conversions of \<^verbatim>\<open>types.rs\<close>. The decoder is shown equal to decoding the whole
    body at once, so the cuts of the network do not matter; a streamed message gives the response the
    unstreamed call gives; the tool ids of a converted request are those of the conversation.
  \<^item> \<^verbatim>\<open>Proxy\<close>: the events the server forwards (\<^verbatim>\<open>llm_proxy.rs\<close>) and the client that decodes them (\<^verbatim>\<open>ProxyLlmStream\<close>). What is forwarded
    arrives, whatever way the connection cuts it between characters; errors arrive as their text.
  \<^item> \<^verbatim>\<open>Files\<close>, \<^verbatim>\<open>Tools\<close>: a file tree with symbolic links and \<^verbatim>\<open>..\<close>, and the workspace tools over it. The locale
    \<^verbatim>\<open>confined_path\<close> is the contract of a path check; reading and settled edits stay in the workspace, an edit
    changes at most its target (which a write that stops midway leaves cut short), and one kind of path does escape.
  \<^item> \<^verbatim>\<open>Repl\<close>: the interactive loop of \<^verbatim>\<open>loom-cli\<close>, which puts \<^verbatim>\<open>Sse\<close>, \<^verbatim>\<open>Proxy\<close> and \<^verbatim>\<open>Tools\<close> together. Every request pairs tool calls
    and results, one turn does what the streamed message says, and the thread saved is the conversation.
  \<^item> \<^verbatim>\<open>Retry\<close>: the retry loop of HTTP requests returns within its limit.
  \<^item> \<^verbatim>\<open>Threads\<close>, \<^verbatim>\<open>ThreadSync\<close>: saved conversations (\<^verbatim>\<open>loom-common-thread\<close>) on a disk that may fail at every step, the queue of
    operations still to be sent, and the store whose calls and background tasks interleave step by step, a step being one operation of the local
    store, of the client, or of the queue under its lock. A single save is atomic, a thread that was always private is never sent, and a retry
    drains the queue up to the first file it cannot read.
  \<^item> \<^verbatim>\<open>Effects\<close>: code that talks to the database, as actions in a world that decides which statements fail, with the judgement
    \<^verbatim>\<open>safe\<close> for what holds after success and after failure.
  \<^item> \<^verbatim>\<open>Analytics\<close>, \<^verbatim>\<open>AnalyticsApi\<close>: product analytics (\<^verbatim>\<open>loom-analytics-core\<close>, \<^verbatim>\<open>loom-server-analytics\<close>): tables with
    their constraints, identity resolution, the handlers. The tables refine a partition of identifiers that only ever grows along the links made
    (\<^verbatim>\<open>assigns\<close>), events follow their person, queries stay within an organization, a key grants what was stored for it
    and a write key no reading.
  \<^item> \<^verbatim>\<open>Crash\<close>, \<^verbatim>\<open>CrashApi\<close>: crash tracking (\<^verbatim>\<open>loom-crash-core\<close>, \<^verbatim>\<open>loom-server-crash\<close>,
    \<^verbatim>\<open>loom-server/src/routes/crash\<close>): fingerprints, tables with their constraints and cascades, server-side symbolication, streams, every
    handler and the two retention jobs; \<^verbatim>\<open>handle_crash\<close> dispatches them.
  \<^item> \<^verbatim>\<open>CrashCorrect\<close>, \<^verbatim>\<open>CrashRequests\<close>: the invariant \<^verbatim>\<open>guarded\<close>, statement by statement and request by request. Tables conform, events
    are grouped by fingerprint, an organization is out of reach of strangers, a capture does what it reports.
  \<^item> \<^verbatim>\<open>Pool\<close>: account selection and failover over the two locked halves of the state. No starvation in round
    robin, no index out of bounds for non-overlapping calls, cooldowns, and one race that does panic.
  \<^item> \<^verbatim>\<open>Abac\<close>, \<^verbatim>\<open>Users\<close>, \<^verbatim>\<open>Credentials\<close>: the policy engine against a list of grants, its monotonicity (the locale
    \<^verbatim>\<open>growing_policy\<close>) and the isolation of outsiders; user names; the life of every credential through
    the locales \<^verbatim>\<open>expiring\<close>, \<^verbatim>\<open>closable\<close>, \<^verbatim>\<open>revocable\<close> and \<^verbatim>\<open>renewable\<close>.
  \<^item> \<^verbatim>\<open>Git\<close>: roles, branch protection, packet lines, the push handler. Every update whose command line is UTF-8 was permitted
    by every rule before the push reaches \<^verbatim>\<open>git\<close> (lines that are not UTF-8 pass unchecked); the command list of a well-formed push is read back exactly.
  \<^item> \<^verbatim>\<open>Flags\<close>: strategies, kill switches, the evaluator, key formats.
  \<^item> \<^verbatim>\<open>SourceMaps\<close>: the VLQ decoder against an encoder of the format (segments of one, four and five values), the binary search against a linear one on tables whose columns ascend, the
    cache against no cache (the locale \<^verbatim>\<open>keyed_artifacts\<close>).
  \<^item> \<^verbatim>\<open>Tunnel\<close>: DERP frames (round trip), address allocation (uniqueness), routes (refinement of the
    assignment history).
  \<^item> \<^verbatim>\<open>Tracker\<close>: file descriptors and sockets; no dangling reference, no leak.
  \<^item> \<^verbatim>\<open>Buffers\<close>: the log ring buffer as a window on the history, the size-bounded event file, the DNS cache.

  \<^bold>\<open>Conventions.\<close> A Rust integer is a word of its width and its arithmetic wraps, as in a release build;
  \<^verbatim>\<open>usize\<close> indices are natural numbers. A panic is a value of a fault type, an error a value of the
  code's error type. Clock readings, random numbers and the answers of databases, of the network and of
  third-party libraries (JSON, hashes, HTTP, git objects) are arguments, so every theorem holds for all
  of them. Where a call takes several locks one after the other, each critical section is a definition, and
  an interleaving is a sequence of them. No definition uses fuel: every loop is a terminating recursion,
  on the data or with a measure on the remaining input.

  \<^bold>\<open>Not modelled.\<close> Request handlers and SQL other than those of pushes, analytics and crashes, which forward to external
  services; the terminal interface, rendering on a library; the eBPF programs; configuration loading; the
  WireGuard engine and the DERP client, which are I/O around libraries; the wire clients of the model
  providers. The audit log, which the handlers write beside their work. SCIM filters and webhooks are candidates for extension.
\<close>

section \<open>A streamed turn of the agent\<close>

text \<open>
  C39: Once the tools of a streamed answer have all been answered, the next request to the provider carries a
  result for each call but no call: the tool-use ids of the request are those from before the turn. This is so for every answer the
  server decodes from any bytes of the Anthropic API and forwards to the client: the decoder puts the calls beside the assistant message and not
  into it, and the agent stores that bare message and leaves the calls out.
\<close>

theorem streamed_tool_results_unmatched:
  assumes "ag_state a = CallingLlm c r"
    and "events = sse_events jt (sse_stream_new inner)" and "list_all (carries wc) events"
    and "list_all utf8_valid chunks" and "concat chunks = create_sse_response wc events"
    and "LlmCompleted resp \<in> set (proxy_events wc \<lparr>pl_inner = map Inr chunks, pl_buffer = []\<rparr>)"
    and "resp_tool_calls resp \<noteq> []" and "distinct (map tc_id (resp_tool_calls resp))"
    and "distinct (map (fst \<circ> snd) cs)"
    and "set (map (fst \<circ> snd) cs) = set (map tc_id (resp_tool_calls resp))"
    and "b = agent_run js a ((clk, LlmEvent (LlmCompleted resp)) # completions cs)"
    and "build_llm_request a = Some before"
  shows "\<exists>req. build_llm_request b = Some req
    \<and> use_ids (anthropic_request_of req) = use_ids (anthropic_request_of before)
    \<and> result_ids (anthropic_request_of req) = result_ids (anthropic_request_of before) @ map tc_id (resp_tool_calls resp)"
proof -
  obtain c' where c': "conversation (ag_state b) = Some c'"
    "conv_messages c' = conv_messages c @ resp_message resp #
       map (\<lambda>tc. tool_result_message js (tc_id tc) (the (map_of (map snd cs) (tc_id tc)))) (resp_tool_calls resp)"
    using run_answered [OF assms(1,7-11)] by blast
  have before: "req_messages before = conv_messages c" using assms(1,12) by (auto simp: build_llm_request_def request_for_def)
  have "LlmCompleted resp \<in> set (map forwarded events)" using assms(6) unfolding proxy_forwards [OF assms(4,5,3)] .
  then have "LlmCompleted resp \<in> set events" by (auto elim!: forwarded.elims [OF sym])
  then obtain st where "resp = completed_response st" using sse_events_decoded [of "LlmCompleted resp"] by (auto simp: assms(2) decoded_response_def)
  then have bare: "assistant_call_ids (resp_message resp) = []" "tool_result_id (resp_message resp) = []"
    by (simp_all add: completed_response_def message_assistant_def assistant_call_ids_def tool_result_id_def)
  have "assistant_call_ids (tool_result_message js i out) = []" "tool_result_id (tool_result_message js i out) = [i]" for i out
    by (simp_all add: tool_result_message_def assistant_call_ids_def tool_result_id_def)
  then show ?thesis using c' before bare
    by (simp add: build_llm_request_def request_ids request_for_def comp_def concat_map_singleton)
qed

theorem streamed_tool_results_unmatched_witness:
  "\<exists>(b :: bool agent) req. build_llm_request b = Some req
     \<and> use_ids (anthropic_request_of req) = [] \<and> result_ids (anthropic_request_of req) = [''t1'']"
proof -
  let ?a = "\<lparr>ag_state = CallingLlm (conversation_with_id 7) 0, ag_config = agent_config_default, ag_tools = []\<rparr> :: bool agent"
  let ?resp = "message_response demo_json demo_start demo_blocks (Some ''tool_use'') (Some 4)"
  let ?cs = "[(\<lambda>_. 5, ''t1'', OutcomeSuccess ''t1'' True)]"
  have calls: "resp_tool_calls ?resp = [\<lparr>tc_id = ''t1'', tc_tool_name = ''ls'', tc_arguments_json = True\<rparr>]"
    by (simp add: message_response_def demo_blocks_def builder_tool_call_def builder_arguments_def demo_json_def)
  have relayed: "concat [take 30 demo_relayed, drop 30 demo_relayed] = create_sse_response demo_wire demo_forwarded"
    by (simp add: demo_relayed_def)
  have resp: "LlmCompleted ?resp \<in> set (proxy_events demo_wire \<lparr>pl_inner = map Inr [take 30 demo_relayed, drop 30 demo_relayed], pl_buffer = []\<rparr>)"
    unfolding proxy_forwards [OF demo_relayed_valid relayed demo_carries] by (force simp: demo_forwarded_def)
  have before: "build_llm_request ?a = Some (request_for agent_config_default [] (conversation_with_id 7))"
    by (simp add: build_llm_request_def)
  have "\<exists>req. build_llm_request (agent_run (\<lambda>_. None) ?a ((\<lambda>_. 0, LlmEvent (LlmCompleted ?resp)) # completions ?cs)) = Some req
     \<and> use_ids (anthropic_request_of req) = [] \<and> result_ids (anthropic_request_of req) = [''t1'']"
    using streamed_tool_results_unmatched [OF _ demo_decoded [symmetric] demo_carries demo_relayed_valid relayed resp _ _ _ _ refl before,
        of "conversation_with_id 7" 0 ?cs "\<lambda>_. None" "\<lambda>_. 0"]
    by (simp add: calls request_ids request_for_def conversation_with_id_def)
  then show ?thesis by blast
qed

end
